(* ===== verification/Prelude.thy ===== *)
theory Prelude
  imports Main
begin

text \<open>
  Shared vocabulary of the development.

  Rust's \<open>str\<close> is a sequence of Unicode scalar values stored as UTF-8. Components that
  look inside text (trimming, splitting, matching typographic punctuation, cutting at
  character boundaries) use \<open>ustr\<close>, a list of code points, with \<open>utf8_len\<close> giving the
  length in bytes that \<open>str::len\<close> reports; \<open>lit\<close> turns an ASCII literal into such a
  list. Components that only compare whole words (command tokens, option names) use
  Isabelle's \<open>string\<close>. The operations of the standard library the sources call
  (\<open>trim\<close>, \<open>split\<close>, \<open>lines\<close>, \<open>join\<close>, \<open>strip_prefix\<close>, \<open>strip_suffix\<close>) are
  defined once here, with the facts every component needs.
\<close>

named_theorems rust_str \<open>facts on the string operations of the Rust standard library\<close>

section \<open>Text\<close>

type_synonym uchar = int
type_synonym ustr = "uchar list"

text \<open>A \<open>Result\<close>: \<open>Inl\<close> is \<open>Err\<close>, \<open>Inr\<close> is \<open>Ok\<close>.\<close>

type_synonym ('e, 'a) result = "'e + 'a"

abbreviation Err :: "'e \<Rightarrow> ('e, 'a) result" where "Err \<equiv> Inl"
abbreviation Ok :: "'a \<Rightarrow> ('e, 'a) result" where "Ok \<equiv> Inr"

text \<open>The \<open>?\<close> operator: go on with the value, or return the error.\<close>

fun and_then :: "('e, 'a) result \<Rightarrow> ('a \<Rightarrow> ('e, 'b) result) \<Rightarrow> ('e, 'b) result" where
  "and_then (Inl e) f = Inl e"
| "and_then (Inr a) f = f a"

lemma and_then_Ok_iff [simp]: "and_then r f = Ok y \<longleftrightarrow> (\<exists>a. r = Ok a \<and> f a = Ok y)"
  by (cases r) auto

lemma and_then_Err_iff [simp]:
  "and_then r f = Err e \<longleftrightarrow> r = Err e \<or> (\<exists>a. r = Ok a \<and> f a = Err e)"
  by (cases r) auto

definition lit :: "string \<Rightarrow> ustr" where
  "lit s = map of_char s"

lemma lit_simps [simp]:
  "lit [] = []"
  "lit (c # cs) = of_char c # lit cs"
  by (simp_all add: lit_def)

lemma length_lit [simp]: "length (lit s) = length s"
  by (simp add: lit_def)

abbreviation LF :: uchar where "LF \<equiv> 10"
abbreviation CR :: uchar where "CR \<equiv> 13"
abbreviation SPACE :: uchar where "SPACE \<equiv> 32"

text \<open>\<open>char::is_whitespace\<close>: the code points with the Unicode property \<open>White_Space\<close>.\<close>

definition is_whitespace :: "uchar \<Rightarrow> bool" where
  "is_whitespace c \<longleftrightarrow>
     (9 \<le> c \<and> c \<le> 13) \<or> c = 32 \<or> c = 0x85 \<or> c = 0xA0 \<or> c = 0x1680 \<or>
     (0x2000 \<le> c \<and> c \<le> 0x200A) \<or> c = 0x2028 \<or> c = 0x2029 \<or> c = 0x202F \<or>
     c = 0x205F \<or> c = 0x3000"

definition trim_start :: "ustr \<Rightarrow> ustr" where
  "trim_start s = dropWhile is_whitespace s"

definition trim_end :: "ustr \<Rightarrow> ustr" where
  "trim_end s = rev (dropWhile is_whitespace (rev s))"

definition trim :: "ustr \<Rightarrow> ustr" where
  "trim s = trim_start (trim_end s)"

section \<open>Prefixes and suffixes\<close>

fun strip_prefix :: "'a list \<Rightarrow> 'a list \<Rightarrow> 'a list option" where
  "strip_prefix [] s = Some s"
| "strip_prefix (p # ps) [] = None"
| "strip_prefix (p # ps) (c # cs) = (if p = c then strip_prefix ps cs else None)"

definition strip_suffix :: "'a list \<Rightarrow> 'a list \<Rightarrow> 'a list option" where
  "strip_suffix p s = map_option rev (strip_prefix (rev p) (rev s))"

definition starts_with :: "'a list \<Rightarrow> 'a list \<Rightarrow> bool" where
  "starts_with p s \<longleftrightarrow> strip_prefix p s \<noteq> None"

definition ends_with :: "'a list \<Rightarrow> 'a list \<Rightarrow> bool" where
  "ends_with p s \<longleftrightarrow> strip_suffix p s \<noteq> None"

lemma strip_prefix_Some_iff [rust_str]: "strip_prefix p s = Some r \<longleftrightarrow> s = p @ r"
  by (induction p s rule: strip_prefix.induct) auto

lemma strip_prefix_append [simp]: "strip_prefix p (p @ r) = Some r"
  by (simp add: strip_prefix_Some_iff)

lemma strip_prefix_None_iff [rust_str]: "strip_prefix p s = None \<longleftrightarrow> (\<forall>r. s \<noteq> p @ r)"
  using strip_prefix_Some_iff [of p s] by (cases "strip_prefix p s") auto

lemma strip_suffix_Some_iff [rust_str]: "strip_suffix p s = Some r \<longleftrightarrow> s = r @ p"
proof -
  have "strip_suffix p s = Some r \<longleftrightarrow> strip_prefix (rev p) (rev s) = Some (rev r)"
    by (auto simp: strip_suffix_def)
  also have "\<dots> \<longleftrightarrow> rev s = rev (r @ p)" by (simp add: strip_prefix_Some_iff)
  also have "\<dots> \<longleftrightarrow> s = r @ p" by (rule rev_is_rev_conv)
  finally show ?thesis .
qed

lemma starts_with_iff [rust_str]: "starts_with p s \<longleftrightarrow> (\<exists>r. s = p @ r)"
  by (auto simp: starts_with_def strip_prefix_Some_iff)

lemma ends_with_iff [rust_str]: "ends_with p s \<longleftrightarrow> (\<exists>r. s = r @ p)"
  by (auto simp: ends_with_def strip_suffix_Some_iff)

section \<open>Trimming\<close>

lemma dropWhile_idem2 [simp]: "dropWhile P (dropWhile P xs) = dropWhile P xs"
  by (induction xs) auto

lemma trim_start_idem [simp]: "trim_start (trim_start s) = trim_start s"
  by (simp add: trim_start_def)

lemma trim_end_idem [simp]: "trim_end (trim_end s) = trim_end s"
  by (simp add: trim_end_def)

lemma trim_Nil [simp]: "trim_start [] = []" "trim_end [] = []" "trim [] = []"
  by (simp_all add: trim_start_def trim_end_def trim_def)

lemma trim_end_snoc:
  "trim_end (s @ [c]) = (if is_whitespace c then trim_end s else s @ [c])"
  by (simp add: trim_end_def)

lemma trim_start_Cons:
  "trim_start (c # s) = (if is_whitespace c then trim_start s else c # s)"
  by (simp add: trim_start_def)

lemma trim_end_trim_start: "trim_end (trim_start s) = trim_start (trim_end s)"
proof (induction s rule: rev_induct)
  case Nil
  then show ?case by simp
next
  case (snoc c s)
  show ?case
  proof (cases "\<forall>x\<in>set s. is_whitespace x")
    case True
    then have "trim_start s = []" "trim_end s = []"
      by (auto simp: trim_start_def trim_end_def dropWhile_eq_Nil_conv)
    moreover from True have "trim_start (s @ [c]) = trim_start [c]"
      by (induction s) (auto simp: trim_start_def)
    ultimately show ?thesis
      by (simp add: trim_end_snoc) (simp add: trim_start_def trim_end_def)
  next
    case False
    then have app: "\<And>t. trim_start (s @ t) = trim_start s @ t"
      by (auto simp: trim_start_def dropWhile_append1)
    show ?thesis
      by (simp add: app trim_end_snoc snoc.IH)
  qed
qed

lemma trim_idem [simp]: "trim (trim s) = trim s"
  by (simp add: trim_def trim_end_trim_start)

lemma trim_trim_end [simp]: "trim (trim_end s) = trim s"
  by (simp add: trim_def)

lemma trim_eq_if_trim_end_eq: "trim_end s = trim_end t \<Longrightarrow> trim s = trim t"
  by (simp add: trim_def)

lemma trim_Cons_non_ws:
  assumes "\<not> is_whitespace c"
  shows "trim_end (c # s) = c # trim_end s" "trim (c # s) = c # trim_end s"
proof -
  show e: "trim_end (c # s) = c # trim_end s"
  proof (induction s rule: rev_induct)
    case Nil
    show ?case using assms by (simp add: trim_end_def)
  next
    case (snoc x s)
    then show ?case
      using trim_end_snoc [of "c # s" x] trim_end_snoc [of s x] by simp
  qed
  show "trim (c # s) = c # trim_end s"
    using assms by (simp add: trim_def e trim_start_Cons)
qed

lemma trim_id:
  assumes "s \<noteq> []" "\<not> is_whitespace (hd s)" "\<not> is_whitespace (last s)"
  shows "trim s = s" "trim_end s = s"
proof -
  from assms(1,3) show e: "trim_end s = s"
    by (cases s rule: rev_cases) (auto simp: trim_end_snoc)
  show "trim s = s"
    unfolding trim_def e using assms(1,2) by (cases s) (auto simp: trim_start_Cons)
qed

lemma trim_end_last: "trim_end s \<noteq> [] \<Longrightarrow> \<not> is_whitespace (last (trim_end s))"
  by (simp add: trim_end_def last_rev hd_dropWhile)

lemma trim_last:
  assumes "trim s = s" "s \<noteq> []"
  shows "\<not> is_whitespace (last s)"
proof -
  have "trim_end s = s" using assms(1) by (metis trim_def trim_end_idem trim_end_trim_start)
  with trim_end_last [of s] assms(2) show ?thesis by simp
qed

section \<open>Splitting and joining\<close>

fun split_on :: "'a \<Rightarrow> 'a list \<Rightarrow> 'a list list" where
  "split_on d [] = [[]]"
| "split_on d (x # xs) =
     (if x = d then [] # split_on d xs
      else (case split_on d xs of
              [] \<Rightarrow> [[x]]
            | y # ys \<Rightarrow> (x # y) # ys))"

fun join_with :: "'a list \<Rightarrow> 'a list list \<Rightarrow> 'a list" where
  "join_with sep [] = []"
| "join_with sep [x] = x"
| "join_with sep (x # y # ys) = x @ sep @ join_with sep (y # ys)"

lemma split_on_neq_Nil [simp]: "split_on d xs \<noteq> []"
  by (induction xs) (auto split: list.splits)

lemma join_with_Cons: "ys \<noteq> [] \<Longrightarrow> join_with sep (x # ys) = x @ sep @ join_with sep ys"
  by (cases ys) auto

lemma join_with_snoc:
  "xs \<noteq> [] \<Longrightarrow> join_with sep (xs @ [y]) = join_with sep xs @ sep @ y"
  by (induction xs rule: induct_list012) auto

lemma join_split [rust_str, simp]: "join_with [d] (split_on d xs) = xs"
proof (induction xs)
  case (Cons x xs)
  obtain y ys where yy: "split_on d xs = y # ys" by (cases "split_on d xs") auto
  with Cons show ?case by (cases ys) auto
qed simp

lemma split_on_no_sep: "d \<notin> set xs \<Longrightarrow> split_on d xs = [xs]"
  by (induction xs) auto

lemma split_on_append:
  "d \<notin> set xs \<Longrightarrow> split_on d (xs @ d # ys) = xs # split_on d ys"
  by (induction xs) auto

lemma split_join [rust_str]:
  "xs \<noteq> [] \<Longrightarrow> \<forall>x\<in>set xs. d \<notin> set x \<Longrightarrow> split_on d (join_with [d] xs) = xs"
  by (induction xs rule: induct_list012) (auto simp: split_on_no_sep split_on_append)

lemma split_on_append_sep: "split_on d (xs @ d # ys) = split_on d xs @ split_on d ys"
  by (induction xs) (auto split: list.splits)

lemma split_on_snoc:
  "x \<noteq> d \<Longrightarrow> split_on d (xs @ [x]) = butlast (split_on d xs) @ [last (split_on d xs) @ [x]]"
  by (induction xs) (auto split: list.splits)

lemma split_on_no_sep_elem: "x \<in> set (split_on d xs) \<Longrightarrow> d \<notin> set x"
  by (induction xs arbitrary: x) (fastforce split: list.splits if_splits)+

text \<open>
  \<open>str::lines\<close>: every line is cut at its \<open>\n\<close>, a \<open>\r\<close> right before that \<open>\n\<close> is
  dropped, and a last piece that is empty is no line. A last line with no \<open>\n\<close> keeps
  its \<open>\r\<close>.
\<close>

definition strip_cr :: "ustr \<Rightarrow> ustr" where
  "strip_cr l = (case strip_suffix [CR] l of None \<Rightarrow> l | Some r \<Rightarrow> r)"

definition str_lines :: "ustr \<Rightarrow> ustr list" where
  "str_lines s =
     (let ps = split_on LF s
      in map strip_cr (butlast ps) @ (if last ps = [] then [] else [last ps]))"

lemma strip_cr_snoc [simp]: "strip_cr (l @ [CR]) = l"
  by (simp add: strip_cr_def strip_suffix_Some_iff [THEN iffD2])

lemma strip_cr_id: "l = [] \<or> last l \<noteq> CR \<Longrightarrow> strip_cr l = l"
  by (cases l rule: rev_cases) (auto simp: strip_cr_def strip_suffix_def)

lemma str_lines_join:
  assumes "xs \<noteq> []" "\<forall>x\<in>set xs. LF \<notin> set x \<and> (x = [] \<or> last x \<noteq> CR)" "last xs \<noteq> []"
  shows "str_lines (join_with [LF] xs) = xs"
proof -
  have s: "split_on LF (join_with [LF] xs) = xs"
    using assms by (intro split_join) auto
  have "map strip_cr (butlast xs) = butlast xs"
    using assms by (intro map_idI strip_cr_id) (auto dest: in_set_butlastD)
  with s assms show ?thesis by (simp add: str_lines_def)
qed

lemma str_lines_LF: "str_lines (c @ [LF]) = map strip_cr (split_on LF c)"
  using split_on_append_sep [of LF c "[]"] by (simp add: str_lines_def)

section \<open>UTF-8 lengths\<close>

definition len_utf8 :: "uchar \<Rightarrow> nat" where
  "len_utf8 c = (if c < 0x80 then 1 else if c < 0x800 then 2 else if c < 0x10000 then 3 else 4)"

definition utf8_len :: "ustr \<Rightarrow> nat" where
  "utf8_len s = sum_list (map len_utf8 s)"

lemma len_utf8_bounds [simp]: "0 < len_utf8 c" "len_utf8 c \<le> 4"
  by (auto simp: len_utf8_def)

lemma utf8_len_simps [simp]:
  "utf8_len [] = 0"
  "utf8_len (c # s) = len_utf8 c + utf8_len s"
  "utf8_len (s @ t) = utf8_len s + utf8_len t"
  by (simp_all add: utf8_len_def)

lemma length_le_utf8_len: "length s \<le> utf8_len s"
proof (induction s)
  case (Cons c s)
  have "1 \<le> len_utf8 c" by (simp add: Suc_leI)
  with Cons show ?case by simp
qed simp

lemma utf8_len_0_iff [simp]: "utf8_len s = 0 \<longleftrightarrow> s = []"
  using length_le_utf8_len [of s] by auto

section \<open>Fallible state machines\<close>

text \<open>
  Several components are machines that consume their input item by item and stop at the
  first error. \<open>run\<close> is that loop; the locale states the contract of a step that keeps an
  invariant, and lifts it to runs.
\<close>

fun run :: "('s \<Rightarrow> 'i \<Rightarrow> ('e, 's) result) \<Rightarrow> 's \<Rightarrow> 'i list \<Rightarrow> ('e, 's) result" where
  "run step s [] = Ok s"
| "run step s (i # is) = (case step s i of Err e \<Rightarrow> Err e | Ok s' \<Rightarrow> run step s' is)"

lemma run_append:
  "run step s (xs @ ys) = (case run step s xs of Err e \<Rightarrow> Err e | Ok s' \<Rightarrow> run step s' ys)"
  by (induction xs arbitrary: s) (auto split: sum.splits)

lemma run_append_Ok: "run step s xs = Ok s' \<Longrightarrow> run step s (xs @ ys) = run step s' ys"
  by (simp add: run_append)

locale fallible_machine =
  fixes step :: "'s \<Rightarrow> 'i \<Rightarrow> ('e, 's) result"
    and inv :: "'s \<Rightarrow> bool"
  assumes step_inv: "inv s \<Longrightarrow> step s i = Ok s' \<Longrightarrow> inv s'"
begin

lemma run_inv: "inv s \<Longrightarrow> run step s is = Ok s' \<Longrightarrow> inv s'"
  by (induction "is" arbitrary: s) (auto split: sum.splits dest: step_inv)

lemma run_prefix_inv:
  "inv s \<Longrightarrow> run step s (xs @ ys) = Ok s' \<Longrightarrow> \<exists>t. run step s xs = Ok t \<and> inv t \<and> run step t ys = Ok s'"
  by (auto simp: run_append split: sum.splits dest: run_inv)

end

section \<open>Lists\<close>

text \<open>A \<open>for\<close> loop that returns at the first hit: the least index that satisfies the test.\<close>

lemma find_upt_Some_iff:
  "find P [a..<b] = Some i \<longleftrightarrow> a \<le> i \<and> i < b \<and> P i \<and> (\<forall>j. a \<le> j \<and> j < i \<longrightarrow> \<not> P j)"
proof
  assume "find P [a..<b] = Some i"
  then obtain k where k: "k < length [a..<b]" "P ([a..<b] ! k)" "i = [a..<b] ! k"
      "\<forall>j<k. \<not> P ([a..<b] ! j)"
    by (auto simp: find_Some_iff)
  then have i: "i = a + k" "i < b" by auto
  have "\<not> P j" if "a \<le> j" "j < i" for j
  proof -
    from that i have "j - a < k" "[a..<b] ! (j - a) = j" by auto
    with k(4) show ?thesis by metis
  qed
  with k i show "a \<le> i \<and> i < b \<and> P i \<and> (\<forall>j. a \<le> j \<and> j < i \<longrightarrow> \<not> P j)" by auto
next
  assume r: "a \<le> i \<and> i < b \<and> P i \<and> (\<forall>j. a \<le> j \<and> j < i \<longrightarrow> \<not> P j)"
  then have "i - a < length [a..<b]" "[a..<b] ! (i - a) = i"
    by auto
  moreover have "\<forall>j<i - a. \<not> P ([a..<b] ! j)"
    using r by auto
  ultimately show "find P [a..<b] = Some i"
    using r by (auto simp: find_Some_iff intro!: exI [of _ "i - a"])
qed

lemma find_upt_None_iff: "find P [a..<b] = None \<longleftrightarrow> (\<forall>j. a \<le> j \<and> j < b \<longrightarrow> \<not> P j)"
  by (auto simp: find_None_iff)

text \<open>\<open>slice::last\<close>.\<close>

definition last_opt :: "'a list \<Rightarrow> 'a option" where
  "last_opt xs = (if xs = [] then None else Some (last xs))"

lemma last_opt_simps [simp]:
  "last_opt [] = None"
  "last_opt (xs @ [x]) = Some x"
  by (simp_all add: last_opt_def)

lemma last_opt_Some_iff: "last_opt xs = Some x \<longleftrightarrow> (\<exists>ys. xs = ys @ [x])"
  by (cases xs rule: rev_cases) (auto simp: last_opt_def)

lemma last_opt_None_iff [simp]: "last_opt xs = None \<longleftrightarrow> xs = []"
  by (simp add: last_opt_def)

lemma list_all_snoc [simp]: "list_all P (xs @ [x]) \<longleftrightarrow> list_all P xs \<and> P x"
  by auto

lemma butlast_append_last: "xs \<noteq> [] \<Longrightarrow> last xs = x \<Longrightarrow> xs = butlast xs @ [x]"
  by auto

text \<open>The last piece of a split is empty.\<close>

definition last_is_empty :: "'a list list \<Rightarrow> bool" where
  "last_is_empty xs \<longleftrightarrow> last_opt xs = Some []"

lemma last_is_empty_Nil [simp]: "\<not> last_is_empty []"
  by (simp add: last_is_empty_def)

end
