(* ===== verification/Patch_Parser.thy ===== *)
theory Patch_Parser
  imports Prelude
begin

text \<open>
  The \<open>apply_patch\<close> front end: \<open>apply-patch/src/streaming_parser.rs\<close> (a line-driven
  state machine fed with arbitrary pieces of text) and \<open>apply-patch/src/parser.rs\<close>
  (the boundary checks and the one-shot \<open>parse_patch\<close>, which runs the same machine).

  \<open>stream_parser\<close> holds the fields of \<open>StreamingPatchParser\<close> with those of its
  \<open>state\<close> field beside them; \<open>push_delta\<close> and \<open>finish\<close> return the parser they leave
  behind together with their \<open>Result\<close>. A \<open>usize\<close> line counter is a \<open>nat\<close>: it never
  exceeds the number of lines read.
\<close>

section \<open>Data\<close>

datatype parse_error =
    InvalidPatchError ustr
  | InvalidHunkError ustr nat

record update_file_chunk =
  change_context :: "ustr option"
  old_lines :: "ustr list"
  new_lines :: "ustr list"
  is_end_of_file :: bool

datatype hunk =
    AddFile ustr ustr
  | DeleteFile ustr
  | UpdateFile ustr "ustr option" "update_file_chunk list"

datatype parser_mode =
    NotStarted
  | StartedPatch
  | ModeAddFile
  | ModeDeleteFile
  | ModeUpdateFile nat
  | EndedPatch

record stream_parser =
  line_buffer :: ustr
  mode :: parser_mode
  hunks :: "hunk list"
  environment_id :: "ustr option"
  line_number :: nat

definition default_parser :: stream_parser where
  "default_parser = \<lparr>line_buffer = [], mode = NotStarted, hunks = [], environment_id = None,
     line_number = 0\<rparr>"

record apply_patch_args =
  patch :: ustr
  args_hunks :: "hunk list"
  workdir :: "ustr option"
  args_environment_id :: "ustr option"

datatype parse_mode = Strict | Lenient

section \<open>Markers and messages\<close>

definition BEGIN_PATCH_MARKER :: ustr where "BEGIN_PATCH_MARKER = lit ''*** Begin Patch''"
definition END_PATCH_MARKER :: ustr where "END_PATCH_MARKER = lit ''*** End Patch''"
definition ADD_FILE_MARKER :: ustr where "ADD_FILE_MARKER = lit ''*** Add File: ''"
definition DELETE_FILE_MARKER :: ustr where "DELETE_FILE_MARKER = lit ''*** Delete File: ''"
definition UPDATE_FILE_MARKER :: ustr where "UPDATE_FILE_MARKER = lit ''*** Update File: ''"
definition MOVE_TO_MARKER :: ustr where "MOVE_TO_MARKER = lit ''*** Move to: ''"
definition EOF_MARKER :: ustr where "EOF_MARKER = lit ''*** End of File''"
definition CHANGE_CONTEXT_MARKER :: ustr where "CHANGE_CONTEXT_MARKER = lit ''@@ ''"
definition EMPTY_CHANGE_CONTEXT_MARKER :: ustr where "EMPTY_CHANGE_CONTEXT_MARKER = lit ''@@''"
definition ENVIRONMENT_ID_MARKER :: ustr where
  "ENVIRONMENT_ID_MARKER = lit ''*** Environment ID:''"

lemmas marker_defs =
  BEGIN_PATCH_MARKER_def END_PATCH_MARKER_def ADD_FILE_MARKER_def DELETE_FILE_MARKER_def
  UPDATE_FILE_MARKER_def MOVE_TO_MARKER_def EOF_MARKER_def CHANGE_CONTEXT_MARKER_def
  EMPTY_CHANGE_CONTEXT_MARKER_def ENVIRONMENT_ID_MARKER_def

text \<open>A text in single quotes, as the messages print it.\<close>

definition quoted :: "ustr \<Rightarrow> ustr" where
  "quoted s = [39] @ s @ [39]"

definition first_line_error :: parse_error where
  "first_line_error = InvalidPatchError
     (lit ''The first line of the patch must be '' @ quoted BEGIN_PATCH_MARKER)"

definition last_line_error :: parse_error where
  "last_line_error = InvalidPatchError
     (lit ''The last line of the patch must be '' @ quoted END_PATCH_MARKER)"

definition empty_update_error :: "ustr \<Rightarrow> nat \<Rightarrow> parse_error" where
  "empty_update_error path n = InvalidHunkError
     (lit ''Update file hunk for path '' @ quoted path @ lit '' is empty'') n"

definition no_lines_error :: "nat \<Rightarrow> parse_error" where
  "no_lines_error n = InvalidHunkError (lit ''Update hunk does not contain any lines'') n"

definition unexpected_line_error :: "ustr \<Rightarrow> nat \<Rightarrow> parse_error" where
  "unexpected_line_error line n = InvalidHunkError
     (lit ''Unexpected line found in update hunk: '' @ quoted line @
      lit ''. Every line should start with '' @ quoted (lit '' '') @ lit '' (context line), '' @
      quoted (lit ''+'') @ lit '' (added line), or '' @ quoted (lit ''-'') @
      lit '' (removed line)'') n"

definition expected_context_error :: "ustr \<Rightarrow> nat \<Rightarrow> parse_error" where
  "expected_context_error line n = InvalidHunkError
     (lit ''Expected update hunk to start with a @@ context marker, got: '' @ quoted line) n"

definition invalid_header_error :: "ustr \<Rightarrow> nat \<Rightarrow> parse_error" where
  "invalid_header_error line n = InvalidHunkError
     (quoted line @ lit '' is not a valid hunk header. Valid hunk headers: '' @
      quoted (lit ''*** Add File: {path}'') @ lit '', '' @
      quoted (lit ''*** Delete File: {path}'') @ lit '', '' @
      quoted (lit ''*** Update File: {path}'')) n"

section \<open>The streaming parser\<close>

definition chunk_is_empty :: "update_file_chunk \<Rightarrow> bool" where
  "chunk_is_empty c \<longleftrightarrow> old_lines c = [] \<and> new_lines c = []"

definition empty_chunk :: "ustr option \<Rightarrow> update_file_chunk" where
  "empty_chunk ctx = \<lparr>change_context = ctx, old_lines = [], new_lines = [], is_end_of_file = False\<rparr>"

definition last_chunk_is :: "(update_file_chunk \<Rightarrow> bool) \<Rightarrow> update_file_chunk list \<Rightarrow> bool" where
  "last_chunk_is P chunks \<longleftrightarrow> chunks \<noteq> [] \<and> P (last chunks)"

definition ensure_update_hunk_is_not_empty ::
  "stream_parser \<Rightarrow> ustr \<Rightarrow> (parse_error, unit) result" where
  "ensure_update_hunk_is_not_empty p line =
     (case last_opt (hunks p) of
        Some (UpdateFile path _ chunks) \<Rightarrow>
          (case (chunks, mode p) of
             ([], ModeUpdateFile n) \<Rightarrow> Err (empty_update_error path n)
           | _ \<Rightarrow>
             if last_chunk_is chunk_is_empty chunks then
               if line = END_PATCH_MARKER then Err (no_lines_error (line_number p))
               else Err (unexpected_line_error line (line_number p))
             else Ok ())
      | _ \<Rightarrow> Ok ())"

text \<open>The \<open>bool\<close> says whether the line was a header or the end marker.\<close>

definition handle_hunk_headers_and_end_patch ::
  "stream_parser \<Rightarrow> ustr \<Rightarrow> (parse_error, bool \<times> stream_parser) result" where
  "handle_hunk_headers_and_end_patch p trimmed =
     (case (if mode p = StartedPatch then strip_prefix ENVIRONMENT_ID_MARKER trimmed else None) of
        Some env \<Rightarrow>
          if environment_id p \<noteq> None then
            Err (InvalidPatchError
              (lit ''apply_patch environment_id cannot be specified more than once''))
          else if trim env = [] then
            Err (InvalidPatchError (lit ''apply_patch environment_id cannot be empty''))
          else Ok (True, p\<lparr>environment_id := Some (trim env)\<rparr>)
      | None \<Rightarrow>
     (if trimmed = END_PATCH_MARKER then
        and_then (ensure_update_hunk_is_not_empty p trimmed)
          (\<lambda>_. Ok (True, p\<lparr>mode := EndedPatch\<rparr>))
      else case strip_prefix ADD_FILE_MARKER trimmed of
        Some path \<Rightarrow>
          and_then (ensure_update_hunk_is_not_empty p trimmed)
            (\<lambda>_. Ok (True, p\<lparr>hunks := hunks p @ [AddFile path []], mode := ModeAddFile\<rparr>))
      | None \<Rightarrow>
     (case strip_prefix DELETE_FILE_MARKER trimmed of
        Some path \<Rightarrow>
          and_then (ensure_update_hunk_is_not_empty p trimmed)
            (\<lambda>_. Ok (True, p\<lparr>hunks := hunks p @ [DeleteFile path], mode := ModeDeleteFile\<rparr>))
      | None \<Rightarrow>
     (case strip_prefix UPDATE_FILE_MARKER trimmed of
        Some path \<Rightarrow>
          and_then (ensure_update_hunk_is_not_empty p trimmed)
            (\<lambda>_. Ok (True, p\<lparr>hunks := hunks p @ [UpdateFile path None []],
                             mode := ModeUpdateFile (line_number p)\<rparr>))
      | None \<Rightarrow> Ok (False, p)))))"

text \<open>
  The arms of \<open>process_line\<close> for a hunk in \<open>UpdateFile\<close> mode that is not a header, on
  the hunk's move target and chunks: first the markers (\<open>Ok None\<close>: not a marker), then
  the lines of the chunk's body.
\<close>

definition update_marker_line ::
  "nat \<Rightarrow> ustr option \<Rightarrow> update_file_chunk list \<Rightarrow> ustr \<Rightarrow>
     (parse_error, (ustr option \<times> update_file_chunk list) option) result" where
  "update_marker_line n move_path chunks line =
     (let update_line = trim_end line;
          is_context = (update_line = EMPTY_CHANGE_CONTEXT_MARKER \<or>
                        starts_with CHANGE_CONTEXT_MARKER update_line)
      in
      if last_chunk_is is_end_of_file chunks \<and> update_line = [] then Ok (Some (move_path, chunks))
      else if last_chunk_is is_end_of_file chunks \<and> \<not> is_context then
        Err (expected_context_error line n)
      else case (if chunks = [] \<and> move_path = None
                 then strip_prefix MOVE_TO_MARKER update_line else None) of
        Some target \<Rightarrow> Ok (Some (Some target, chunks))
      | None \<Rightarrow>
      if is_context \<and> last_chunk_is chunk_is_empty chunks then Err (unexpected_line_error line n)
      else if update_line = EMPTY_CHANGE_CONTEXT_MARKER then
        Ok (Some (move_path, chunks @ [empty_chunk None]))
      else case strip_prefix CHANGE_CONTEXT_MARKER update_line of
        Some ctx \<Rightarrow> Ok (Some (move_path, chunks @ [empty_chunk (Some ctx)]))
      | None \<Rightarrow>
      if update_line = EOF_MARKER then
        if last_chunk_is chunk_is_empty chunks then Err (no_lines_error n)
        else if chunks = [] then Ok (Some (move_path, chunks))
        else Ok (Some (move_path, butlast chunks @ [(last chunks)\<lparr>is_end_of_file := True\<rparr>]))
      else Ok None)"

text \<open>\<open>chunks.last_mut()\<close>, after pushing an empty chunk when there is none.\<close>

definition update_last_chunk ::
  "(update_file_chunk \<Rightarrow> update_file_chunk) \<Rightarrow> update_file_chunk list \<Rightarrow> update_file_chunk list" where
  "update_last_chunk f chunks =
     (let cs = (if chunks = [] then [empty_chunk None] else chunks)
      in butlast cs @ [f (last cs)])"

definition push_old :: "ustr \<Rightarrow> update_file_chunk \<Rightarrow> update_file_chunk" where
  "push_old l c = c\<lparr>old_lines := old_lines c @ [l]\<rparr>"

definition push_new :: "ustr \<Rightarrow> update_file_chunk \<Rightarrow> update_file_chunk" where
  "push_new l c = c\<lparr>new_lines := new_lines c @ [l]\<rparr>"

definition update_body_line ::
  "nat \<Rightarrow> update_file_chunk list \<Rightarrow> ustr \<Rightarrow> (parse_error, update_file_chunk list) result" where
  "update_body_line n chunks line =
     (if line = [] then Ok (update_last_chunk (push_new [] \<circ> push_old []) chunks)
      else case strip_prefix (lit '' '') line of
        Some l \<Rightarrow> Ok (update_last_chunk (push_new l \<circ> push_old l) chunks)
      | None \<Rightarrow>
      (case strip_prefix (lit ''+'') line of
        Some l \<Rightarrow> Ok (update_last_chunk (push_new l) chunks)
      | None \<Rightarrow>
      (case strip_prefix (lit ''-'') line of
        Some l \<Rightarrow> Ok (update_last_chunk (push_old l) chunks)
      | None \<Rightarrow>
      if last_chunk_is (\<lambda>c. \<not> chunk_is_empty c) chunks then Err (expected_context_error line n)
      else Err (unexpected_line_error line n))))"

text \<open>\<open>last_mut()\<close> on the hunks: the last hunk replaced.\<close>

definition set_last_hunk :: "hunk \<Rightarrow> stream_parser \<Rightarrow> stream_parser" where
  "set_last_hunk h p = p\<lparr>hunks := butlast (hunks p) @ [h]\<rparr>"

definition process_update_line ::
  "stream_parser \<Rightarrow> nat \<Rightarrow> ustr \<Rightarrow> (parse_error, stream_parser) result" where
  "process_update_line p hunk_line_number line =
     (case last_opt (hunks p) of
        Some (UpdateFile path move_path chunks) \<Rightarrow>
          and_then
            (and_then (update_marker_line (line_number p) move_path chunks line) (\<lambda>r.
               case r of
                 Some (mv, cs) \<Rightarrow> Ok (mv, cs)
               | None \<Rightarrow> and_then (update_body_line (line_number p) chunks line)
                             (\<lambda>cs. Ok (move_path, cs))))
            (\<lambda>(mv, cs). Ok ((set_last_hunk (UpdateFile path mv cs) p)
                             \<lparr>mode := ModeUpdateFile hunk_line_number\<rparr>))
      | _ \<Rightarrow> Err (unexpected_line_error line (line_number p)))"

definition process_line :: "stream_parser \<Rightarrow> ustr \<Rightarrow> (parse_error, stream_parser) result" where
  "process_line p line =
     (let trimmed = trim line in
      case mode p of
        NotStarted \<Rightarrow>
          if trimmed = BEGIN_PATCH_MARKER then Ok (p\<lparr>mode := StartedPatch\<rparr>)
          else Err first_line_error
      | StartedPatch \<Rightarrow>
          and_then (handle_hunk_headers_and_end_patch p trimmed) (\<lambda>(handled, p').
            if handled then Ok p' else Err (invalid_header_error trimmed (line_number p')))
      | ModeAddFile \<Rightarrow>
          and_then (handle_hunk_headers_and_end_patch p trimmed) (\<lambda>(handled, p').
            if handled then Ok p'
            else
               (case (strip_prefix (lit ''+'') line, last_opt (hunks p')) of
                  (Some l, Some (AddFile path contents)) \<Rightarrow>
                    Ok (set_last_hunk (AddFile path (contents @ l @ [LF])) p')
                | _ \<Rightarrow> Err (invalid_header_error trimmed (line_number p'))))
      | ModeDeleteFile \<Rightarrow>
          and_then (handle_hunk_headers_and_end_patch p trimmed) (\<lambda>(handled, p').
            if handled then Ok p' else Err (invalid_header_error trimmed (line_number p')))
      | ModeUpdateFile hunk_line_number \<Rightarrow>
          and_then (handle_hunk_headers_and_end_patch p (trim_end line)) (\<lambda>(handled, p').
            if handled then Ok p' else process_update_line p' hunk_line_number line)
      | EndedPatch \<Rightarrow> if trimmed = [] then Ok p else Err last_line_error)"

text \<open>The loop of \<open>push_delta\<close>: the parser it leaves and the error it stopped at, if any.\<close>

fun push_chars :: "stream_parser \<Rightarrow> ustr \<Rightarrow> stream_parser \<times> parse_error option" where
  "push_chars p [] = (p, None)"
| "push_chars p (ch # chs) =
     (if ch = LF then
        let line = strip_cr (line_buffer p);
            p' = p\<lparr>line_buffer := [], line_number := Suc (line_number p)\<rparr>
        in (case process_line p' line of
              Err e \<Rightarrow> (p', Some e)
            | Ok p'' \<Rightarrow> push_chars p'' chs)
      else push_chars (p\<lparr>line_buffer := line_buffer p @ [ch]\<rparr>) chs)"

definition push_delta :: "stream_parser \<Rightarrow> ustr \<Rightarrow> stream_parser \<times> (parse_error, hunk list) result" where
  "push_delta p delta =
     (case push_chars p delta of
        (p', Some e) \<Rightarrow> (p', Err e)
      | (p', None) \<Rightarrow> (p', Ok (hunks p')))"

definition finish :: "stream_parser \<Rightarrow> stream_parser \<times> (parse_error, hunk list) result" where
  "finish p =
     (let p1 = (if line_buffer p = [] then p
                else p\<lparr>line_buffer := [], line_number := Suc (line_number p)\<rparr>);
          line = line_buffer p;
          r = (if line = [] then Ok p1
               else if trim line = END_PATCH_MARKER then
                 and_then (ensure_update_hunk_is_not_empty p1 (trim line))
                   (\<lambda>_. Ok (p1\<lparr>mode := EndedPatch\<rparr>))
               else process_line p1 line)
      in case r of
           Err e \<Rightarrow> (p1, Err e)
         | Ok p2 \<Rightarrow>
             if mode p2 \<noteq> EndedPatch then (p2, Err last_line_error) else (p2, Ok (hunks p2)))"

section \<open>The one-shot parser\<close>

definition check_start_and_end_lines_strict ::
  "ustr option \<Rightarrow> ustr option \<Rightarrow> (parse_error, unit) result" where
  "check_start_and_end_lines_strict first_line last_line =
     (case (map_option trim first_line, map_option trim last_line) of
        (Some first, last') \<Rightarrow>
          if first = BEGIN_PATCH_MARKER \<and> last' = Some END_PATCH_MARKER then Ok ()
          else if first \<noteq> BEGIN_PATCH_MARKER then Err first_line_error
          else Err last_line_error
      | (None, _) \<Rightarrow> Err last_line_error)"

definition check_patch_boundaries_strict :: "ustr list \<Rightarrow> (parse_error, ustr list) result" where
  "check_patch_boundaries_strict ls =
     (let (first, last') = (case ls of [] \<Rightarrow> (None, None) | x # _ \<Rightarrow> (Some x, Some (last ls)))
      in and_then (check_start_and_end_lines_strict first last') (\<lambda>_. Ok ls))"

definition heredoc_openers :: "ustr list" where
  "heredoc_openers = [lit ''<<EOF'', lit ''<<'' @ quoted (lit ''EOF''),
                      lit ''<<'' @ [34] @ lit ''EOF'' @ [34]]"

definition check_patch_boundaries_lenient :: "ustr list \<Rightarrow> (parse_error, ustr list) result" where
  "check_patch_boundaries_lenient original_lines =
     (case check_patch_boundaries_strict original_lines of
        Ok ls \<Rightarrow> Ok ls
      | Err original_parse_error \<Rightarrow>
          (case original_lines of
             first # _ # _ \<Rightarrow>
               if first \<in> set heredoc_openers \<and> ends_with (lit ''EOF'') (last original_lines)
                  \<and> length original_lines \<ge> 4
               then check_patch_boundaries_strict (butlast (tl original_lines))
               else Err original_parse_error
           | _ \<Rightarrow> Err original_parse_error))"

definition parse_patch_text :: "ustr \<Rightarrow> parse_mode \<Rightarrow> (parse_error, apply_patch_args) result" where
  "parse_patch_text text m =
     and_then
       (case m of Strict \<Rightarrow> check_patch_boundaries_strict (str_lines (trim text))
                | Lenient \<Rightarrow> check_patch_boundaries_lenient (str_lines (trim text)))
       (\<lambda>patch_lines.
          let body = join_with [LF] patch_lines;
              (p, r) = push_delta default_parser body
          in and_then r (\<lambda>_.
             let (p', r') = finish p
             in and_then r' (\<lambda>hs.
                Ok \<lparr>patch = body, args_hunks = hs, workdir = None,
                    args_environment_id = environment_id p'\<rparr>)))"

definition PARSE_IN_STRICT_MODE :: bool where
  "PARSE_IN_STRICT_MODE = False"

definition parse_patch :: "ustr \<Rightarrow> (parse_error, apply_patch_args) result" where
  "parse_patch text = parse_patch_text text (if PARSE_IN_STRICT_MODE then Strict else Lenient)"

end
