(* ===== verification/Patch_Roundtrip.thy ===== *)
theory Patch_Roundtrip
  imports Patch_Parser_Correct
begin

text \<open>
  The other direction of the parser: the text of a list of hunks, written in the grammar
  at the head of \<open>apply-patch/src/parser.rs\<close>, parses back to exactly those hunks. The
  printer is part of the specification (the repository has none); its side conditions are
  the ones under which the line-based format can carry the data at all: no line feed
  inside a line, no trailing carriage return, no path or context that ends in white space.
\<close>

section \<open>Printing a patch\<close>

definition added_line :: "ustr \<Rightarrow> ustr" where
  "added_line l = lit ''+'' @ l"

definition removed_line :: "ustr \<Rightarrow> ustr" where
  "removed_line l = lit ''-'' @ l"

definition render_chunk :: "update_file_chunk \<Rightarrow> ustr list" where
  "render_chunk c =
     (case change_context c of
        None \<Rightarrow> [EMPTY_CHANGE_CONTEXT_MARKER]
      | Some ctx \<Rightarrow> [CHANGE_CONTEXT_MARKER @ ctx]) @
     map removed_line (old_lines c) @ map added_line (new_lines c) @
     (if is_end_of_file c then [EOF_MARKER] else [])"

text \<open>The lines of a hunk; the contents of an added file are given by their lines.\<close>

datatype doc_hunk =
    DocAdd ustr "ustr list"
  | DocDelete ustr
  | DocUpdate ustr "ustr option" "update_file_chunk list"

fun doc_to_hunk :: "doc_hunk \<Rightarrow> hunk" where
  "doc_to_hunk (DocAdd path ls) = AddFile path (concat (map (\<lambda>l. l @ [LF]) ls))"
| "doc_to_hunk (DocDelete path) = DeleteFile path"
| "doc_to_hunk (DocUpdate path mv cs) = UpdateFile path mv cs"

fun render_hunk :: "doc_hunk \<Rightarrow> ustr list" where
  "render_hunk (DocAdd path ls) = (ADD_FILE_MARKER @ path) # map added_line ls"
| "render_hunk (DocDelete path) = [DELETE_FILE_MARKER @ path]"
| "render_hunk (DocUpdate path mv cs) =
     (UPDATE_FILE_MARKER @ path) #
     (case mv of None \<Rightarrow> [] | Some target \<Rightarrow> [MOVE_TO_MARKER @ target]) @
     concat (map render_chunk cs)"

definition render_lines :: "doc_hunk list \<Rightarrow> ustr list" where
  "render_lines hs = BEGIN_PATCH_MARKER # concat (map render_hunk hs) @ [END_PATCH_MARKER]"

definition render_patch :: "doc_hunk list \<Rightarrow> ustr" where
  "render_patch hs = join_with [LF] (render_lines hs)"

text \<open>What the format can carry.\<close>

definition ok_line :: "ustr \<Rightarrow> bool" where
  "ok_line l \<longleftrightarrow> LF \<notin> set l \<and> (l = [] \<or> last l \<noteq> CR)"

definition ok_name :: "ustr \<Rightarrow> bool" where
  "ok_name s \<longleftrightarrow> s \<noteq> [] \<and> LF \<notin> set s \<and> \<not> is_whitespace (last s)"

definition ok_chunk :: "update_file_chunk \<Rightarrow> bool" where
  "ok_chunk c \<longleftrightarrow> \<not> chunk_is_empty c \<and> list_all ok_line (old_lines c) \<and>
     list_all ok_line (new_lines c) \<and> (case change_context c of None \<Rightarrow> True | Some ctx \<Rightarrow> ok_name ctx)"

fun ok_doc :: "doc_hunk \<Rightarrow> bool" where
  "ok_doc (DocAdd path ls) \<longleftrightarrow> ok_name path \<and> list_all ok_line ls"
| "ok_doc (DocDelete path) \<longleftrightarrow> ok_name path"
| "ok_doc (DocUpdate path mv cs) \<longleftrightarrow>
     ok_name path \<and> (case mv of None \<Rightarrow> True | Some t \<Rightarrow> ok_name t) \<and> cs \<noteq> [] \<and> list_all ok_chunk cs"

section \<open>Reading a printed line\<close>

lemma whitespace_facts [simp]:
  "\<not> is_whitespace 42" "\<not> is_whitespace 43" "\<not> is_whitespace 45" "\<not> is_whitespace 64"
  "is_whitespace 32" "is_whitespace 13" "is_whitespace 10"
  by (simp_all add: is_whitespace_def)

lemma trim_marker:
  assumes "m = 42 # ms" "ok_name s"
  shows "trim (m @ s) = m @ s" "trim_end (m @ s) = m @ s"
proof -
  have ne: "m @ s \<noteq> []" "hd (m @ s) = 42" "last (m @ s) = last s"
    using assms by (auto simp: ok_name_def)
  have h: "\<not> is_whitespace (hd (m @ s))" "\<not> is_whitespace (last (m @ s))"
    using assms(2) by (simp_all add: ne(2,3) ok_name_def)
  from trim_id [OF ne(1) h] show "trim (m @ s) = m @ s" "trim_end (m @ s) = m @ s" by simp_all
qed

lemma marker_heads:
  "ADD_FILE_MARKER = 42 # tl ADD_FILE_MARKER"
  "DELETE_FILE_MARKER = 42 # tl DELETE_FILE_MARKER"
  "UPDATE_FILE_MARKER = 42 # tl UPDATE_FILE_MARKER"
  "MOVE_TO_MARKER = 42 # tl MOVE_TO_MARKER"
  by (simp_all add: marker_defs)

lemmas trim_headers =
  trim_marker [OF marker_heads(1)] trim_marker [OF marker_heads(2)]
  trim_marker [OF marker_heads(3)] trim_marker [OF marker_heads(4)]

lemma trim_fixed_markers [simp]:
  "trim BEGIN_PATCH_MARKER = BEGIN_PATCH_MARKER" "trim END_PATCH_MARKER = END_PATCH_MARKER"
  "trim_end END_PATCH_MARKER = END_PATCH_MARKER" "trim_end EOF_MARKER = EOF_MARKER"
  "trim_end EMPTY_CHANGE_CONTEXT_MARKER = EMPTY_CHANGE_CONTEXT_MARKER"
  by code_simp+

text \<open>The markers are told apart by their text, whatever follows.\<close>

lemma strip_other_markers:
  "strip_prefix ENVIRONMENT_ID_MARKER (ADD_FILE_MARKER @ s) = None"
  "strip_prefix ENVIRONMENT_ID_MARKER (DELETE_FILE_MARKER @ s) = None"
  "strip_prefix ENVIRONMENT_ID_MARKER (UPDATE_FILE_MARKER @ s) = None"
  "strip_prefix ENVIRONMENT_ID_MARKER END_PATCH_MARKER = None"
  "ADD_FILE_MARKER @ s \<noteq> END_PATCH_MARKER" "DELETE_FILE_MARKER @ s \<noteq> END_PATCH_MARKER"
  "UPDATE_FILE_MARKER @ s \<noteq> END_PATCH_MARKER" "MOVE_TO_MARKER @ s \<noteq> END_PATCH_MARKER"
  "strip_prefix ADD_FILE_MARKER (DELETE_FILE_MARKER @ s) = None"
  "strip_prefix ADD_FILE_MARKER (UPDATE_FILE_MARKER @ s) = None"
  "strip_prefix DELETE_FILE_MARKER (UPDATE_FILE_MARKER @ s) = None"
  "strip_prefix ADD_FILE_MARKER (MOVE_TO_MARKER @ s) = None"
  "strip_prefix DELETE_FILE_MARKER (MOVE_TO_MARKER @ s) = None"
  "strip_prefix UPDATE_FILE_MARKER (MOVE_TO_MARKER @ s) = None"
  "EOF_MARKER \<noteq> END_PATCH_MARKER" "EOF_MARKER \<noteq> []"
  "EOF_MARKER \<noteq> EMPTY_CHANGE_CONTEXT_MARKER" "strip_prefix CHANGE_CONTEXT_MARKER EOF_MARKER = None"
  "strip_prefix ADD_FILE_MARKER EOF_MARKER = None"
  "strip_prefix DELETE_FILE_MARKER EOF_MARKER = None"
  "strip_prefix UPDATE_FILE_MARKER EOF_MARKER = None"
  by (simp_all add: marker_defs)

lemma strip_marker_non_star:
  assumes "c \<noteq> 42"
  shows "c # s \<noteq> END_PATCH_MARKER" "c # s \<noteq> EOF_MARKER"
    "strip_prefix ENVIRONMENT_ID_MARKER (c # s) = None"
    "strip_prefix ADD_FILE_MARKER (c # s) = None"
    "strip_prefix DELETE_FILE_MARKER (c # s) = None"
    "strip_prefix UPDATE_FILE_MARKER (c # s) = None"
    "strip_prefix MOVE_TO_MARKER (c # s) = None"
  using assms by (auto simp: marker_defs)

lemma handle_non_star:
  "c \<noteq> 42 \<Longrightarrow> handle_hunk_headers_and_end_patch p (c # s) = Ok (False, p)"
  by (simp add: handle_hunk_headers_and_end_patch_def strip_marker_non_star)

lemma ensure_frame:
  "ensure_update_hunk_is_not_empty (p\<lparr>line_buffer := b\<rparr>) t = ensure_update_hunk_is_not_empty p t"
  "ensure_update_hunk_is_not_empty (p\<lparr>line_buffer := b, line_number := n\<rparr>) t =
     ensure_update_hunk_is_not_empty (p\<lparr>line_number := n\<rparr>) t"
  by (simp_all add: ensure_update_hunk_is_not_empty_def
      split: option.split hunk.split list.split parser_mode.split)

text \<open>A parser that can take the next header: the hunk being read is complete.\<close>

definition ready :: "stream_parser \<Rightarrow> bool" where
  "ready p \<longleftrightarrow> mode p \<noteq> NotStarted \<and> mode p \<noteq> EndedPatch \<and>
     (\<forall>t n. ensure_update_hunk_is_not_empty (p\<lparr>line_number := n\<rparr>) t = Ok ())"

lemma process_header:
  assumes "mode p \<noteq> NotStarted" "mode p \<noteq> EndedPatch" "trim line = line" "trim_end line = line"
    and "handle_hunk_headers_and_end_patch p line = Ok (True, p')"
  shows "process_line p line = Ok p'"
  using assms by (cases "mode p") (simp_all add: process_line_def)

abbreviation next_line :: "stream_parser \<Rightarrow> stream_parser" where
  "next_line p \<equiv> p\<lparr>line_number := Suc (line_number p)\<rparr>"

lemma step_headers:
  assumes "ready p" "ok_name path"
  shows "line_step p (ADD_FILE_MARKER @ path) =
      Ok ((next_line p)\<lparr>hunks := hunks p @ [AddFile path []], mode := ModeAddFile\<rparr>)"
    and "line_step p (DELETE_FILE_MARKER @ path) =
      Ok ((next_line p)\<lparr>hunks := hunks p @ [DeleteFile path], mode := ModeDeleteFile\<rparr>)"
    and "line_step p (UPDATE_FILE_MARKER @ path) =
      Ok ((next_line p)\<lparr>hunks := hunks p @ [UpdateFile path None []],
            mode := ModeUpdateFile (Suc (line_number p))\<rparr>)"
  using assms
  by (auto simp: ready_def line_step_def trim_headers handle_hunk_headers_and_end_patch_def
      strip_other_markers intro!: process_header)

section \<open>Reading a printed hunk\<close>

lemma run_add_lines:
  assumes "mode p = ModeAddFile" "hunks p = hs @ [AddFile path c]"
  shows "\<exists>n. run line_step p (map added_line ls) =
    Ok (p\<lparr>hunks := hs @ [AddFile path (c @ concat (map (\<lambda>l. l @ [LF]) ls))], line_number := n\<rparr>)"
  using assms
proof (induction ls arbitrary: p c)
  case Nil
  then show ?case by (auto intro!: exI [of _ "line_number p"])
next
  case (Cons l ls)
  let ?q = "(next_line p)\<lparr>hunks := hs @ [AddFile path (c @ l @ [LF])]\<rparr>"
  have step: "line_step p (added_line l) = Ok ?q"
    using Cons.prems
    by (simp add: added_line_def line_step_def process_line_def Let_def trim_Cons_non_ws
        handle_non_star set_last_hunk_def)
  have "mode ?q = ModeAddFile" "hunks ?q = hs @ [AddFile path (c @ l @ [LF])]"
    using Cons.prems by simp_all
  from Cons.IH [OF this] step show ?case by simp
qed

text \<open>A body line of an update hunk whose last chunk is open and not at end of file.\<close>

lemma step_body:
  assumes m: "mode p = ModeUpdateFile n" and h: "hunks p = hs @ [UpdateFile path mv cs]"
    and c: "cs \<noteq> []" "\<not> is_end_of_file (last cs)"
  shows "line_step p (removed_line l) =
      Ok ((next_line p)\<lparr>hunks := hs @ [UpdateFile path mv (butlast cs @ [push_old l (last cs)])]\<rparr>)"
    and "line_step p (added_line l) =
      Ok ((next_line p)\<lparr>hunks := hs @ [UpdateFile path mv (butlast cs @ [push_new l (last cs)])]\<rparr>)"
  using assms
  by (simp_all add: added_line_def removed_line_def line_step_def process_line_def Let_def
      trim_Cons_non_ws handle_non_star process_update_line_def update_marker_line_def update_body_line_def last_chunk_is_def
      update_last_chunk_def set_last_hunk_def strip_marker_non_star starts_with_def
      marker_defs(8,9))

lemma run_body:
  assumes "mode p = ModeUpdateFile n" "hunks p = hs @ [UpdateFile path mv (cs @ [c])]"
    and "\<not> is_end_of_file c"
  shows "\<exists>k. run line_step p (map removed_line olds @ map added_line news) =
    Ok (p\<lparr>hunks := hs @ [UpdateFile path mv
             (cs @ [c\<lparr>old_lines := old_lines c @ olds, new_lines := new_lines c @ news\<rparr>])],
          line_number := k\<rparr>)"
  using assms
proof (induction olds arbitrary: p c)
  case (Cons l olds)
  let ?q = "(next_line p)\<lparr>hunks := hs @ [UpdateFile path mv (cs @ [push_old l c])]\<rparr>"
  have step: "line_step p (removed_line l) = Ok ?q"
    using step_body(1) [OF Cons.prems(1,2)] Cons.prems(3) by simp
  have "mode ?q = ModeUpdateFile n" "hunks ?q = hs @ [UpdateFile path mv (cs @ [push_old l c])]"
      "\<not> is_end_of_file (push_old l c)"
    using Cons.prems by (simp_all add: push_old_def)
  from Cons.IH [OF this] step show ?case by (simp add: push_old_def)
next
  case Nil
  then show ?case
  proof (induction news arbitrary: p c)
    case Nil
    then show ?case by (auto intro!: exI [of _ "line_number p"])
  next
    case (Cons l news)
    let ?q = "(next_line p)\<lparr>hunks := hs @ [UpdateFile path mv (cs @ [push_new l c])]\<rparr>"
    have step: "line_step p (added_line l) = Ok ?q"
      using step_body(2) [OF Cons.prems(1,2)] Cons.prems(3) by simp
    have "mode ?q = ModeUpdateFile n" "hunks ?q = hs @ [UpdateFile path mv (cs @ [push_new l c])]"
        "\<not> is_end_of_file (push_new l c)"
      using Cons.prems by (simp_all add: push_new_def)
    from Cons.IH [OF this] step show ?case by (simp add: push_new_def)
  qed
qed

text \<open>The header of a chunk, after a complete chunk or none.\<close>

definition chunk_header :: "ustr option \<Rightarrow> ustr" where
  "chunk_header ctx =
     (case ctx of None \<Rightarrow> EMPTY_CHANGE_CONTEXT_MARKER | Some s \<Rightarrow> CHANGE_CONTEXT_MARKER @ s)"

lemma trim_end_chunk_header:
  assumes "case ctx of None \<Rightarrow> True | Some s \<Rightarrow> ok_name s"
  shows "trim_end (chunk_header ctx) = chunk_header ctx"
proof (cases ctx)
  case (Some s)
  with assms have "chunk_header ctx \<noteq> []" "\<not> is_whitespace (hd (chunk_header ctx))"
      "\<not> is_whitespace (last (chunk_header ctx))"
    by (auto simp: chunk_header_def ok_name_def marker_defs)
  then show ?thesis by (rule trim_id(2))
qed (simp add: chunk_header_def)

lemma chunk_header_Cons: "\<exists>t. chunk_header ctx = 64 # t"
  by (auto simp: chunk_header_def marker_defs split: option.splits)

lemma step_chunk_header:
  assumes m: "mode p = ModeUpdateFile n" and h: "hunks p = hs @ [UpdateFile path mv cs]"
    and ctx: "case ctx of None \<Rightarrow> True | Some s \<Rightarrow> ok_name s"
    and cs: "list_all (\<lambda>c. \<not> chunk_is_empty c) cs"
  shows "line_step p (chunk_header ctx) =
    Ok ((next_line p)\<lparr>hunks := hs @ [UpdateFile path mv (cs @ [empty_chunk ctx])]\<rparr>)"
proof -
  have ne: "\<not> last_chunk_is chunk_is_empty cs"
    using cs by (cases cs rule: rev_cases) (auto simp: last_chunk_is_def)
  have isc: "chunk_header ctx = EMPTY_CHANGE_CONTEXT_MARKER \<or>
      starts_with CHANGE_CONTEXT_MARKER (chunk_header ctx)"
    by (auto simp: chunk_header_def starts_with_def split: option.splits)
  obtain t where t: "chunk_header ctx = 64 # t" using chunk_header_Cons by blast
  have mark: "update_marker_line k mv cs (chunk_header ctx) = Ok (Some (mv, cs @ [empty_chunk ctx]))"
    for k
  proof -
    have "chunk_header ctx \<noteq> []" "strip_prefix MOVE_TO_MARKER (chunk_header ctx) = None"
      by (simp_all add: t strip_marker_non_star)
    moreover have "ctx = Some s \<Longrightarrow> chunk_header ctx \<noteq> EMPTY_CHANGE_CONTEXT_MARKER" for s
      using ctx by (auto simp: chunk_header_def ok_name_def marker_defs)
    moreover have "ctx = Some s \<Longrightarrow> strip_prefix CHANGE_CONTEXT_MARKER (chunk_header ctx) = Some s" for s
      by (simp add: chunk_header_def)
    moreover have "ctx = None \<Longrightarrow> chunk_header ctx = EMPTY_CHANGE_CONTEXT_MARKER"
      by (simp add: chunk_header_def)
    ultimately show ?thesis
      using ne isc trim_end_chunk_header [OF ctx]
      by (cases ctx) (simp_all add: update_marker_line_def Let_def)
  qed
  show ?thesis
    using m h mark trim_end_chunk_header [OF ctx]
    by (simp add: line_step_def process_line_def Let_def t handle_non_star process_update_line_def
        set_last_hunk_def)
qed

lemma step_eof:
  assumes "mode p = ModeUpdateFile n" "hunks p = hs @ [UpdateFile path mv (cs @ [c])]"
    and "\<not> chunk_is_empty c" "\<not> is_end_of_file c"
  shows "line_step p EOF_MARKER =
    Ok ((next_line p)\<lparr>hunks := hs @ [UpdateFile path mv (cs @ [c\<lparr>is_end_of_file := True\<rparr>])]\<rparr>)"
proof -
  have "handle_hunk_headers_and_end_patch q EOF_MARKER = Ok (False, q)" if "mode q = mode p" for q
    using that assms(1)
    by (simp add: handle_hunk_headers_and_end_patch_def strip_other_markers)
  moreover have "update_marker_line k mv (cs @ [c]) EOF_MARKER =
      Ok (Some (mv, cs @ [c\<lparr>is_end_of_file := True\<rparr>]))" for k
    using assms(3,4)
    by (simp add: update_marker_line_def Let_def last_chunk_is_def starts_with_def
        strip_other_markers)
  ultimately show ?thesis
    using assms by (simp add: line_step_def process_line_def Let_def process_update_line_def
        set_last_hunk_def)
qed

lemma parser_upd_comm:
  "p\<lparr>line_number := k, hunks := hs\<rparr> = p\<lparr>hunks := hs, line_number := k\<rparr>"
  by (cases p) simp

lemma render_chunk_eq:
  "render_chunk c = chunk_header (change_context c) #
     (map removed_line (old_lines c) @ map added_line (new_lines c)) @
     (if is_end_of_file c then [EOF_MARKER] else [])"
  by (simp add: render_chunk_def chunk_header_def split: option.splits)

lemma run_chunk:
  assumes m: "mode p = ModeUpdateFile n" and h: "hunks p = hs @ [UpdateFile path mv cs]"
    and c: "ok_chunk c" and cs: "list_all (\<lambda>c. \<not> chunk_is_empty c) cs"
  shows "\<exists>k. run line_step p (render_chunk c) =
    Ok (p\<lparr>hunks := hs @ [UpdateFile path mv (cs @ [c])], line_number := k\<rparr>)"
proof -
  let ?c1 = "c\<lparr>is_end_of_file := False\<rparr>"
  let ?q = "(next_line p)\<lparr>hunks := hs @ [UpdateFile path mv (cs @ [empty_chunk (change_context c)])]\<rparr>"
  have s1: "line_step p (chunk_header (change_context c)) = Ok ?q"
    using c by (intro step_chunk_header [OF m h _ cs]) (simp add: ok_chunk_def)
  have "\<exists>k. run line_step ?q (map removed_line (old_lines c) @ map added_line (new_lines c)) =
    Ok (?q\<lparr>hunks := hs @ [UpdateFile path mv (cs @ [(empty_chunk (change_context c))
           \<lparr>old_lines := old_lines (empty_chunk (change_context c)) @ old_lines c,
            new_lines := new_lines (empty_chunk (change_context c)) @ new_lines c\<rparr>])],
          line_number := k\<rparr>)"
    by (rule run_body [where n = n]) (simp_all add: m empty_chunk_def)
  moreover have "?c1 = \<lparr>change_context = change_context c, old_lines = old_lines c,
      new_lines = new_lines c, is_end_of_file = False\<rparr>"
    by (cases c) simp
  ultimately obtain k where s2:
    "run line_step ?q (map removed_line (old_lines c) @ map added_line (new_lines c)) =
      Ok (p\<lparr>hunks := hs @ [UpdateFile path mv (cs @ [?c1])], line_number := k\<rparr>)"
    by (auto simp: empty_chunk_def)
  show ?thesis
  proof (cases "is_end_of_file c")
    case False
    then have "?c1 = c" by simp
    with s1 s2 False show ?thesis by (auto simp: render_chunk_eq)
  next
    case True
    then have "?c1\<lparr>is_end_of_file := True\<rparr> = c" by simp
    moreover have "\<not> chunk_is_empty ?c1" using c by (simp add: ok_chunk_def chunk_is_empty_def)
    moreover have "run line_step p (render_chunk c) =
        line_step (p\<lparr>hunks := hs @ [UpdateFile path mv (cs @ [?c1])], line_number := k\<rparr>) EOF_MARKER"
      using s1 run_append_Ok [OF s2, of "[EOF_MARKER]"] True
      by (simp add: render_chunk_eq split: sum.splits)
    ultimately show ?thesis
      using m by (auto simp: step_eof [where n = n] parser_upd_comm)
  qed
qed

lemma ok_chunks_nonempty: "list_all ok_chunk cs \<Longrightarrow> list_all (\<lambda>c. \<not> chunk_is_empty c) cs"
  by (auto simp: list_all_iff ok_chunk_def)

lemma run_chunks:
  assumes "mode p = ModeUpdateFile n" "hunks p = hs @ [UpdateFile path mv cs]"
    and "list_all ok_chunk cs'" "list_all ok_chunk cs"
  shows "\<exists>k. run line_step p (concat (map render_chunk cs')) =
    Ok (p\<lparr>hunks := hs @ [UpdateFile path mv (cs @ cs')], line_number := k\<rparr>)"
  using assms
proof (induction cs' arbitrary: p cs)
  case Nil
  then show ?case by (auto intro!: exI [of _ "line_number p"])
next
  case (Cons c cs')
  from run_chunk [OF Cons.prems(1,2), of c] Cons.prems(3,4) obtain k where
    s: "run line_step p (render_chunk c) =
      Ok (p\<lparr>hunks := hs @ [UpdateFile path mv (cs @ [c])], line_number := k\<rparr>)"
    using ok_chunks_nonempty by auto
  let ?q = "p\<lparr>hunks := hs @ [UpdateFile path mv (cs @ [c])], line_number := k\<rparr>"
  have "\<exists>k'. run line_step ?q (concat (map render_chunk cs')) =
    Ok (?q\<lparr>hunks := hs @ [UpdateFile path mv ((cs @ [c]) @ cs')], line_number := k'\<rparr>)"
    using Cons.prems by (intro Cons.IH) auto
  with s show ?case by (auto simp: run_append)
qed

lemma step_move:
  assumes "mode p = ModeUpdateFile n" "hunks p = hs @ [UpdateFile path None []]" "ok_name t"
  shows "line_step p (MOVE_TO_MARKER @ t) =
    Ok ((next_line p)\<lparr>hunks := hs @ [UpdateFile path (Some t) []]\<rparr>)"
proof -
  have "handle_hunk_headers_and_end_patch q (MOVE_TO_MARKER @ t) = Ok (False, q)"
    if "mode q = mode p" for q
    using that assms(1)
    by (simp add: handle_hunk_headers_and_end_patch_def strip_other_markers)
  moreover have "update_marker_line k None [] (MOVE_TO_MARKER @ t) = Ok (Some (Some t, []))" for k
    using assms(3) by (simp add: update_marker_line_def Let_def last_chunk_is_def trim_headers)
  ultimately show ?thesis
    using assms by (simp add: line_step_def process_line_def Let_def process_update_line_def
        set_last_hunk_def trim_headers)
qed

lemma run_hunk:
  assumes r: "ready p" and ok: "ok_doc h"
  shows "\<exists>q. run line_step p (render_hunk h) = Ok q \<and> hunks q = hunks p @ [doc_to_hunk h] \<and>
    mode q \<noteq> NotStarted \<and> mode q \<noteq> EndedPatch \<and>
    environment_id q = environment_id p \<and> line_buffer q = line_buffer p"
proof (cases h)
  case (DocAdd path ls)
  let ?q = "(next_line p)\<lparr>hunks := hunks p @ [AddFile path []], mode := ModeAddFile\<rparr>"
  have "line_step p (ADD_FILE_MARKER @ path) = Ok ?q"
    using r ok DocAdd by (simp add: step_headers)
  moreover have "\<exists>n. run line_step ?q (map added_line ls) =
    Ok (?q\<lparr>hunks := hunks p @ [AddFile path ([] @ concat (map (\<lambda>l. l @ [LF]) ls))], line_number := n\<rparr>)"
    by (rule run_add_lines) simp_all
  ultimately show ?thesis using DocAdd by auto
next
  case (DocDelete path)
  then show ?thesis using r ok by (simp add: step_headers)
next
  case (DocUpdate path mv cs)
  let ?n = "ModeUpdateFile (Suc (line_number p))"
  let ?q = "(next_line p)\<lparr>hunks := hunks p @ [UpdateFile path None []], mode := ?n\<rparr>"
  have s1: "line_step p (UPDATE_FILE_MARKER @ path) = Ok ?q"
    using r ok DocUpdate by (simp add: step_headers)
  have "\<exists>q. run line_step ?q (case mv of None \<Rightarrow> [] | Some t \<Rightarrow> [MOVE_TO_MARKER @ t]) = Ok q \<and>
      hunks q = hunks p @ [UpdateFile path mv []] \<and> mode q = ?n \<and>
      environment_id q = environment_id p \<and> line_buffer q = line_buffer p"
    using ok DocUpdate by (cases mv) (auto simp: step_move)
  then obtain q where s2: "run line_step ?q (case mv of None \<Rightarrow> [] | Some t \<Rightarrow> [MOVE_TO_MARKER @ t]) = Ok q"
      and q: "hunks q = hunks p @ [UpdateFile path mv []]" "mode q = ?n"
        "environment_id q = environment_id p" "line_buffer q = line_buffer p" by blast
  have "\<exists>k'. run line_step q (concat (map render_chunk cs)) =
      Ok (q\<lparr>hunks := hunks p @ [UpdateFile path mv ([] @ cs)], line_number := k'\<rparr>)"
    by (rule run_chunks [OF q(2,1)]) (use ok DocUpdate in auto)
  with s1 s2 q DocUpdate show ?thesis by (auto simp: run_append)
qed

text \<open>A complete hunk leaves the parser ready for the next header.\<close>

lemma ready_after_hunk:
  assumes "ok_doc h" "mode q \<noteq> NotStarted" "mode q \<noteq> EndedPatch" "hunks q = hs @ [doc_to_hunk h]"
  shows "ready q"
proof (cases h)
  case (DocUpdate path mv cs)
  with assms obtain cs' c where "cs = cs' @ [c]" "\<not> chunk_is_empty c"
    by (cases cs rule: rev_cases) (auto simp: ok_chunk_def)
  with DocUpdate assms show ?thesis
    by (simp add: ready_def ensure_update_hunk_is_not_empty_def last_chunk_is_def
        split: list.splits)
qed (use assms in \<open>simp_all add: ready_def ensure_update_hunk_is_not_empty_def\<close>)

lemma run_hunks:
  assumes "ready p" "list_all ok_doc hs"
  shows "\<exists>q. run line_step p (concat (map render_hunk hs)) = Ok q \<and> ready q \<and>
    hunks q = hunks p @ map doc_to_hunk hs \<and> environment_id q = environment_id p \<and>
    line_buffer q = line_buffer p"
  using assms
proof (induction hs arbitrary: p)
  case (Cons h hs)
  from run_hunk [OF Cons.prems(1), of h] Cons.prems(2) obtain q where
    s: "run line_step p (render_hunk h) = Ok q" and q: "hunks q = hunks p @ [doc_to_hunk h]"
      "mode q \<noteq> NotStarted" "mode q \<noteq> EndedPatch"
      "environment_id q = environment_id p" "line_buffer q = line_buffer p" by auto
  have "ready q" using ready_after_hunk [of h q] Cons.prems(2) q by simp
  from Cons.IH [OF this] Cons.prems(2) s q show ?case by (auto simp: run_append)
qed auto

section \<open>Reading a printed patch\<close>

lemma ok_line_prefixed: "ok_line l \<Longrightarrow> c \<noteq> LF \<Longrightarrow> c \<noteq> CR \<Longrightarrow> ok_line (c # l)"
  by (auto simp: ok_line_def)

lemma ok_line_marked: "ok_name s \<Longrightarrow> LF \<notin> set m \<Longrightarrow> ok_line (m @ s)"
  by (auto simp: ok_line_def ok_name_def is_whitespace_def)

lemma ok_line_markers:
  "ok_line BEGIN_PATCH_MARKER" "ok_line END_PATCH_MARKER" "ok_line EOF_MARKER"
  "ok_line EMPTY_CHANGE_CONTEXT_MARKER" "LF \<notin> set ADD_FILE_MARKER" "LF \<notin> set DELETE_FILE_MARKER"
  "LF \<notin> set UPDATE_FILE_MARKER" "LF \<notin> set MOVE_TO_MARKER" "LF \<notin> set CHANGE_CONTEXT_MARKER"
  by (simp_all add: ok_line_def marker_defs)

lemma render_chunk_ok: "ok_chunk c \<Longrightarrow> l \<in> set (render_chunk c) \<Longrightarrow> ok_line l"
  by (auto simp: render_chunk_def ok_chunk_def list_all_iff ok_line_markers
      added_line_def removed_line_def
      split: option.splits if_splits intro: ok_line_prefixed ok_line_marked)

lemma render_hunk_ok: "ok_doc h \<Longrightarrow> l \<in> set (render_hunk h) \<Longrightarrow> ok_line l"
  by (cases h) (auto simp: list_all_iff ok_line_markers added_line_def split: option.splits
      intro: ok_line_prefixed ok_line_marked render_chunk_ok)

lemma render_lines_ok: "list_all ok_doc hs \<Longrightarrow> l \<in> set (render_lines hs) \<Longrightarrow> ok_line l"
  by (auto simp: render_lines_def list_all_iff ok_line_markers intro: render_hunk_ok)

lemma ok_line_strip_cr: "ok_line l \<Longrightarrow> strip_cr l = l"
  by (auto simp: ok_line_def intro: strip_cr_id)

lemma render_patch_ends:
  "\<exists>t. render_patch hs = BEGIN_PATCH_MARKER @ t" "\<exists>t. render_patch hs = t @ END_PATCH_MARKER"
proof -
  show "\<exists>t. render_patch hs = BEGIN_PATCH_MARKER @ t"
    by (simp add: render_patch_def render_lines_def join_with_Cons)
  have "render_patch hs = join_with [LF] ((BEGIN_PATCH_MARKER # concat (map render_hunk hs)) @ [END_PATCH_MARKER])"
    by (simp add: render_patch_def render_lines_def)
  also have "\<dots> = join_with [LF] (BEGIN_PATCH_MARKER # concat (map render_hunk hs)) @ [LF] @ END_PATCH_MARKER"
    by (rule join_with_snoc) simp
  finally show "\<exists>t. render_patch hs = t @ END_PATCH_MARKER" by auto
qed

lemma trim_render_patch: "trim (render_patch hs) = render_patch hs"
proof -
  obtain t u where t: "render_patch hs = BEGIN_PATCH_MARKER @ t" and u: "render_patch hs = u @ END_PATCH_MARKER"
    using render_patch_ends by blast
  have "hd (render_patch hs) = 42" "render_patch hs \<noteq> []" by (simp_all add: t marker_defs)
  moreover have "last (render_patch hs) = 104" by (simp add: u marker_defs)
  moreover have "\<not> is_whitespace 104" by (simp add: is_whitespace_def)
  ultimately show ?thesis by (intro trim_id) simp_all
qed

lemma str_lines_render:
  assumes "list_all ok_doc hs"
  shows "str_lines (trim (render_patch hs)) = render_lines hs"
proof -
  have "\<forall>x\<in>set (render_lines hs). LF \<notin> set x \<and> (x = [] \<or> last x \<noteq> CR)"
    using render_lines_ok [OF assms] by (auto simp: ok_line_def)
  moreover have "render_lines hs \<noteq> []" "last (render_lines hs) \<noteq> []"
    by (simp_all add: render_lines_def marker_defs(2))
  ultimately show ?thesis
    unfolding trim_render_patch by (auto simp: render_patch_def intro!: str_lines_join)
qed

lemma boundaries_render: "check_patch_boundaries_strict (render_lines hs) = Ok (render_lines hs)"
  by (simp add: check_patch_boundaries_strict_def render_lines_def
      check_start_and_end_lines_strict_def)

lemma push_render:
  assumes "list_all ok_doc hs"
  shows "\<exists>q. push_chars default_parser (render_patch hs) = (q, None) \<and>
    line_buffer q = END_PATCH_MARKER \<and> hunks q = map doc_to_hunk hs \<and> environment_id q = None \<and>
    ready q"
proof -
  let ?p = "default_parser\<lparr>line_number := Suc 0, mode := StartedPatch\<rparr>"
  have start: "line_step default_parser BEGIN_PATCH_MARKER = Ok ?p"
    by (simp add: line_step_def process_line_def default_parser_def)
  have "ready ?p" by (simp add: ready_def ensure_update_hunk_is_not_empty_def default_parser_def)
  from run_hunks [OF this assms] obtain q where
    q: "run line_step ?p (concat (map render_hunk hs)) = Ok q" "ready q"
      "hunks q = map doc_to_hunk hs" "environment_id q = None"
    by (auto simp: default_parser_def)
  have all: "\<forall>l\<in>set (BEGIN_PATCH_MARKER # concat (map render_hunk hs)). LF \<notin> set l \<and> strip_cr l = l"
    using render_lines_ok [OF assms] by (auto simp: render_lines_def ok_line_def intro: strip_cr_id)
  have "render_patch hs =
      join_with [LF] ((BEGIN_PATCH_MARKER # concat (map render_hunk hs)) @ [END_PATCH_MARKER])"
    by (simp add: render_patch_def render_lines_def)
  moreover have "push_chars default_parser
      (join_with [LF] ((BEGIN_PATCH_MARKER # concat (map render_hunk hs)) @ [END_PATCH_MARKER])) =
      (q\<lparr>line_buffer := END_PATCH_MARKER\<rparr>, None)"
  proof (rule push_chars_lines [OF all])
    show "line_buffer default_parser = []" by (simp add: default_parser_def)
    show "run line_step default_parser (BEGIN_PATCH_MARKER # concat (map render_hunk hs)) = Ok q"
      by (simp add: start q(1))
  qed (simp add: marker_defs(2))
  ultimately show ?thesis
    using q by (auto simp: ready_def ensure_frame)
qed

text \<open>
  C4: Round trip. A patch printed from well-formed hunks in the grammar of the format parses,
  in either mode, to exactly those hunks, with no environment and no working directory.
\<close>

theorem parse_render_roundtrip:
  assumes "list_all ok_doc hs"
  shows "parse_patch_text (render_patch hs) m =
    Ok \<lparr>patch = render_patch hs, args_hunks = map doc_to_hunk hs, workdir = None,
        args_environment_id = None\<rparr>"
proof -
  obtain q where q: "push_chars default_parser (render_patch hs) = (q, None)"
      "line_buffer q = END_PATCH_MARKER" "hunks q = map doc_to_hunk hs"
      "environment_id q = None" "ready q"
    using push_render [OF assms] by blast
  let ?q = "q\<lparr>line_buffer := [], line_number := Suc (line_number q)\<rparr>"
  have e: "ensure_update_hunk_is_not_empty ?q END_PATCH_MARKER = Ok ()"
    using q(5) unfolding ready_def by (simp add: ensure_frame)
  have fin: "finish q = (?q\<lparr>mode := EndedPatch\<rparr>, Ok (map doc_to_hunk hs))"
    using q e by (simp add: finish_def Let_def marker_defs(2) [symmetric])
      (simp add: marker_defs(2))
  have "check_patch_boundaries_lenient (render_lines hs) = Ok (render_lines hs)"
    by (simp add: check_patch_boundaries_lenient_def boundaries_render)
  then show ?thesis
    using q fin
    by (cases m) (simp_all add: parse_patch_text_def str_lines_render [OF assms]
        boundaries_render render_patch_def [symmetric] push_delta_def)
qed

text \<open>A small patch that adds one file and updates another, moving it.\<close>

definition sample_docs :: "doc_hunk list" where
  "sample_docs =
     [DocAdd (lit ''a.txt'') [lit ''one'', []],
      DocUpdate (lit ''b.rs'') (Some (lit ''c.rs''))
        [\<lparr>change_context = Some (lit ''fn main''), old_lines = [lit ''x''], new_lines = [lit ''y''],
          is_end_of_file = True\<rparr>]]"

theorem parse_render_roundtrip_witness:
  "parse_patch_text (render_patch sample_docs) Strict =
    Ok \<lparr>patch = render_patch sample_docs, args_hunks = map doc_to_hunk sample_docs, workdir = None,
        args_environment_id = None\<rparr>"
proof -
  have "list_all ok_doc sample_docs" by code_simp
  from parse_render_roundtrip [OF this] show ?thesis .
qed

section \<open>Heredoc wrappers\<close>

lemma str_lines_wrapped:
  assumes "LF \<notin> set a" "a = [] \<or> last a \<noteq> CR" "LF \<notin> set b" "b \<noteq> []" "body \<noteq> []" "last body \<noteq> CR"
    "last body \<noteq> LF"
  shows "str_lines (a @ [LF] @ body @ [LF] @ b) = a # str_lines body @ [b]"
proof -
  have sb: "split_on LF (body @ LF # b) = split_on LF body @ [b]"
  proof (induction body)
    case (Cons x xs)
    obtain y ys where yy: "split_on LF xs = y # ys" by (cases "split_on LF xs") auto
    with Cons show ?case by auto
  qed (simp add: split_on_no_sep [OF assms(3)])
  have l: "last (split_on LF body) \<noteq> [] \<and> last (last (split_on LF body)) = last body"
    using assms(5,7)
  proof (induction body)
    case (Cons x xs)
    obtain y ys where yy: "split_on LF xs = y # ys" by (cases "split_on LF xs") auto
    with Cons show ?case by (cases "xs = []") (auto split: if_splits)
  qed simp
  then have "strip_cr (last (split_on LF body)) = last (split_on LF body)"
    using assms(6) by (intro strip_cr_id) simp
  then have "map strip_cr (split_on LF body) = str_lines body"
    using l by (cases "split_on LF body" rule: rev_cases) (auto simp: str_lines_def)
  moreover have "split_on LF (a @ [LF] @ body @ [LF] @ b) = a # split_on LF body @ [b]"
    using split_on_append [OF assms(1), of "body @ LF # b"] sb by simp
  ultimately show ?thesis
    using strip_cr_id [OF assms(2)] assms(4) by (simp add: str_lines_def Let_def butlast_append)
qed

definition wrap_heredoc :: "ustr \<Rightarrow> ustr \<Rightarrow> ustr" where
  "wrap_heredoc opener body = opener @ [LF] @ body @ [LF] @ lit ''EOF''"

lemma heredoc_opener_facts:
  assumes "a \<in> set heredoc_openers"
  shows "LF \<notin> set a" "a \<noteq> []" "last a \<noteq> CR" "\<not> is_whitespace (hd a)" "trim a \<noteq> BEGIN_PATCH_MARKER"
proof -
  show "LF \<notin> set a" "a \<noteq> []" "last a \<noteq> CR" "\<not> is_whitespace (hd a)"
    using assms by (auto simp: heredoc_openers_def quoted_def is_whitespace_def)
  have "\<not> is_whitespace 60" by (simp add: is_whitespace_def)
  moreover from assms obtain t where "a = 60 # t"
    by (auto simp: heredoc_openers_def quoted_def)
  ultimately show "trim a \<noteq> BEGIN_PATCH_MARKER"
    by (simp add: trim_Cons_non_ws marker_defs(1))
qed

text \<open>
  The lenient mode only removes the wrapper. A patch body that strict mode accepts parses
  to the same result when it comes wrapped in any of the three heredoc forms.
\<close>

theorem parse_patch_heredoc:
  assumes "a \<in> set heredoc_openers" and "trim body = body"
    and "check_patch_boundaries_strict (str_lines body) = Ok (str_lines body)"
    and "2 \<le> length (str_lines body)"
  shows "parse_patch (wrap_heredoc a body) = parse_patch body"
proof -
  note o = heredoc_opener_facts [OF assms(1)]
  have ne: "body \<noteq> []" using assms(4) by (auto simp: str_lines_def)
  from trim_last [OF assms(2) ne] have lb: "last body \<noteq> CR" "last body \<noteq> LF" by (auto simp: is_whitespace_def)
  have tw: "trim (wrap_heredoc a body) = wrap_heredoc a body"
    using o by (intro trim_id) (auto simp: wrap_heredoc_def is_whitespace_def)
  have lines: "str_lines (wrap_heredoc a body) = a # str_lines body @ [lit ''EOF'']"
    unfolding wrap_heredoc_def using o ne lb by (intro str_lines_wrapped) auto
  obtain x xs where xs: "str_lines body = x # xs" using assms(4) by (cases "str_lines body") auto
  have "check_patch_boundaries_strict (a # str_lines body @ [lit ''EOF'']) = Err first_line_error"
    using o(5) by (simp add: check_patch_boundaries_strict_def check_start_and_end_lines_strict_def)
  moreover have "ends_with (lit ''EOF'') (lit ''EOF'')"
    by (auto simp: ends_with_iff)
  ultimately have "check_patch_boundaries_lenient (a # str_lines body @ [lit ''EOF'']) = Ok (str_lines body)"
    using assms(1,3,4) xs
    by (simp add: check_patch_boundaries_lenient_def butlast_append del: lit_simps)
  moreover have "check_patch_boundaries_lenient (str_lines body) = Ok (str_lines body)"
    using assms(3) by (simp add: check_patch_boundaries_lenient_def)
  ultimately show ?thesis
    by (simp add: parse_patch_def PARSE_IN_STRICT_MODE_def parse_patch_text_def tw lines assms(2)
        del: lit_simps)
qed

theorem parse_patch_heredoc_witness:
  "parse_patch (wrap_heredoc (lit ''<<EOF'') (render_patch sample_docs)) = parse_patch (render_patch sample_docs)"
proof -
  have ok: "list_all ok_doc sample_docs" by code_simp
  note l = str_lines_render [OF ok, unfolded trim_render_patch]
  have "lit ''<<EOF'' \<in> set heredoc_openers" by (simp add: heredoc_openers_def)
  moreover have "2 \<le> length (render_lines sample_docs)" by code_simp
  ultimately show ?thesis
    using parse_patch_heredoc [of "lit ''<<EOF''" "render_patch sample_docs"]
    by (simp add: l trim_render_patch boundaries_render del: lit_simps)
qed

end
