(* ===== verification/Path_Uri.thy ===== *)
theory Path_Uri
  imports Prelude
begin

text \<open>
  Path text resolved lexically: \<open>PathUri::join\<close> and \<open>PathUri::parent\<close> of
  \<open>utils/path-uri/src/lib.rs\<close> (with \<open>path_uri_from_segments\<close> of
  \<open>absolute_path_normalization.rs\<close>) for URIs of the POSIX convention, and
  \<open>AbsolutePathBuf\<close> of \<open>utils/absolute-path\<close> on a POSIX host. A URI of the Windows
  convention and the percent encoding of segments are left out.
\<close>

section \<open>Paths\<close>

text \<open>
  The segments of a \<open>PathUri\<close>, decoded. A trailing separator leaves an empty last segment,
  as it does in the \<open>Url\<close>.
\<close>

type_synonym path_uri = "ustr list"

definition pop_if_empty :: "path_uri \<Rightarrow> path_uri" where
  "pop_if_empty segs = (if last_is_empty segs then butlast segs else segs)"

definition path_depth :: "path_uri \<Rightarrow> nat" where
  "path_depth segs = length (filter (\<lambda>s. s \<noteq> []) segs)"

fun push_components :: "ustr list \<Rightarrow> path_uri \<Rightarrow> path_uri" where
  "push_components [] segs = segs"
| "push_components (c # cs) segs = push_components cs
     (if c = [] \<or> c = lit ''.'' then segs
      else if c = lit ''..'' then (if 0 < path_depth segs then butlast segs else segs)
      else segs @ [c])"

fun trailing_separator :: "ustr list \<Rightarrow> bool \<Rightarrow> bool" where
  "trailing_separator [] t = t"
| "trailing_separator (c # cs) t = trailing_separator cs (c = [])"

text \<open>An absolute path replaces the base; it keeps a trailing separator, a relative one does not.\<close>

definition path_uri_from_segments :: "ustr list \<Rightarrow> path_uri" where
  "path_uri_from_segments cs =
     push_components cs [] @ (if trailing_separator cs False then [[]] else [])"

definition SLASH :: uchar where "SLASH = 47"

definition path_join :: "path_uri \<Rightarrow> ustr \<Rightarrow> (ustr, path_uri) result" where
  "path_join base p =
     (if 0 \<in> set p then Err (lit ''invalid file URI path '' @ p)
      else if p = [] then Ok base
      else case strip_prefix [SLASH] p of
          Some rest \<Rightarrow> Ok (path_uri_from_segments (split_on SLASH rest))
        | None \<Rightarrow> Ok (push_components (split_on SLASH p) (pop_if_empty base)))"

definition path_parent :: "path_uri \<Rightarrow> path_uri option" where
  "path_parent segs = (if path_depth segs = 0 then None else Some (butlast (pop_if_empty segs)))"

definition native_string :: "path_uri \<Rightarrow> ustr" where
  "native_string segs = SLASH # join_with [SLASH] segs"

lemma pop_if_empty_id: "\<not> last_is_empty p \<Longrightarrow> pop_if_empty p = p"
  by (simp add: pop_if_empty_def)

section \<open>AbsolutePathBuf\<close>

text \<open>What the process environment gives: the working directory (which may be gone) and home.\<close>

record host_env =
  current_dir :: "path_uri option"
  home_dir :: "path_uri option"

definition strip_slashes :: "ustr \<Rightarrow> ustr" where
  "strip_slashes s = dropWhile (\<lambda>c. c = SLASH) s"

text \<open>A path that \<open>maybe_expand_home_directory\<close> replaced is absolute: \<open>Inl\<close>.\<close>

definition maybe_expand_home_directory :: "host_env \<Rightarrow> ustr \<Rightarrow> path_uri + ustr" where
  "maybe_expand_home_directory env p =
     (case home_dir env of
        None \<Rightarrow> Inr p
      | Some home \<Rightarrow>
          (case strip_prefix (lit ''~'') p of
             None \<Rightarrow> Inr p
           | Some rest \<Rightarrow>
               if rest = [] then Inl home
               else (case strip_prefix [SLASH] rest of
                       Some r \<Rightarrow> Inl (home @ split_on SLASH (strip_slashes r))
                     | None \<Rightarrow> Inr p)))"

definition normalize_path :: "ustr list \<Rightarrow> path_uri" where
  "normalize_path cs = push_components cs []"

text \<open>\<open>from_absolute_path\<close>, which the \<open>TryFrom\<close> instances call: a relative path is resolved
  against the working directory.\<close>

definition from_absolute_path :: "host_env \<Rightarrow> ustr \<Rightarrow> path_uri option" where
  "from_absolute_path env p =
     (case maybe_expand_home_directory env p of
        Inl expanded \<Rightarrow> Some (normalize_path expanded)
      | Inr raw \<Rightarrow>
          (case strip_prefix [SLASH] raw of
             Some rest \<Rightarrow> Some (normalize_path (split_on SLASH rest))
           | None \<Rightarrow> map_option (\<lambda>cwd. normalize_path (cwd @ split_on SLASH raw)) (current_dir env)))"

definition file_name :: "path_uri \<Rightarrow> ustr option" where
  "file_name p = last_opt p"

section \<open>Properties\<close>

definition clean_segment :: "ustr \<Rightarrow> bool" where
  "clean_segment c \<longleftrightarrow> c \<noteq> [] \<and> c \<noteq> lit ''.'' \<and> c \<noteq> lit ''..''"

definition clean_path :: "path_uri \<Rightarrow> bool" where
  "clean_path p \<longleftrightarrow> list_all clean_segment (pop_if_empty p)"

lemma list_all_butlast: "list_all P xs \<Longrightarrow> list_all P (butlast xs)"
  by (auto simp: list_all_iff dest: in_set_butlastD)

lemma clean_push_components:
  "list_all clean_segment segs \<Longrightarrow> list_all clean_segment (push_components cs segs)"
proof (induction cs arbitrary: segs)
  case (Cons c cs)
  then show ?case
    using list_all_butlast [OF Cons.prems] by (simp add: clean_segment_def del: lit_simps)
qed simp

lemma pop_if_empty_clean:
  assumes "list_all clean_segment segs"
  shows "pop_if_empty segs = segs" "pop_if_empty (segs @ [[]]) = segs"
proof -
  show "pop_if_empty segs = segs"
    using assms by (cases segs rule: rev_cases) (auto simp: pop_if_empty_def last_is_empty_def clean_segment_def)
  show "pop_if_empty (segs @ [[]]) = segs"
    by (simp add: pop_if_empty_def last_is_empty_def last_opt_def)
qed

text \<open>
  \<open>PathUri::join\<close> normalises lexically: joined onto a clean base (no empty, \<open>.\<close> or
  \<open>..\<close> segment but a trailing separator), any accepted path text gives a clean path, so
  what a hunk names is never above the root and never spelled with \<open>..\<close>.
\<close>

theorem path_join_normalises:
  assumes "clean_path base" "path_join base p = Ok q"
  shows "clean_path q"
proof -
  have push: "clean_path (push_components cs segs)" "clean_path (push_components cs segs @ [[]])"
    if "list_all clean_segment segs" for cs segs
    using clean_push_components [OF that, of cs] by (simp_all add: clean_path_def pop_if_empty_clean)
  from assms(2) consider "q = base" | cs where "q = path_uri_from_segments cs"
    | cs where "q = push_components cs (pop_if_empty base)"
    by (auto simp: path_join_def split: if_splits option.splits)
  then show ?thesis
    using assms(1) push by cases (auto simp: path_uri_from_segments_def clean_path_def)
qed

theorem path_join_normalises_witness:
  "clean_path [lit ''w''] \<and> clean_path [lit ''etc''] \<and>
   path_join [lit ''w''] (lit ''../.././/etc'') = Ok [lit ''etc'']"
proof -
  have 1: "clean_path [lit ''w'']" by code_simp
  have 2: "path_join [lit ''w''] (lit ''../.././/etc'') = Ok [lit ''etc'']" by code_simp
  from path_join_normalises [OF 1 2] 1 2 show ?thesis by blast
qed

end
