(* ===== verification/Exec_Policy.thy ===== *)
theory Exec_Policy
  imports Path_Uri "HOL-Library.List_Lexorder"
begin

text \<open>
  The command policy of \<open>execpolicy/src\<close>: decisions and their order (\<open>decision.rs\<close>),
  prefix rules and network rules (\<open>rule.rs\<close>), the policy that matches commands against
  them (\<open>policy.rs\<close>), the builder behind the Starlark built-ins (\<open>parser.rs\<close>) and the
  lines appended to a policy file (\<open>amend.rs\<close>).

  Left to parameters: the environment of \<open>AbsolutePathBuf\<close> (\<open>host_env\<close>), \<open>shlex\<close> and
  \<open>serde_json\<close>. The Starlark interpreter is represented by the sequence of built-in calls
  a policy file makes. Errors hold the offending rules and examples themselves where the
  code holds their rendering.
\<close>

section \<open>Decisions\<close>

datatype decision = Allow | Prompt | Forbidden

text \<open>The derived \<open>Ord\<close>: the order of the variants.\<close>

instantiation decision :: linorder
begin

fun decision_rank :: "decision \<Rightarrow> nat" where
  "decision_rank Allow = 0"
| "decision_rank Prompt = 1"
| "decision_rank Forbidden = 2"

definition less_eq_decision :: "decision \<Rightarrow> decision \<Rightarrow> bool" where
  "less_eq_decision a b \<longleftrightarrow> decision_rank a \<le> decision_rank b"

definition less_decision :: "decision \<Rightarrow> decision \<Rightarrow> bool" where
  "less_decision a b \<longleftrightarrow> decision_rank a < decision_rank b"

instance
proof
  fix x y z :: decision
  show "x \<le> y \<Longrightarrow> y \<le> x \<Longrightarrow> x = y"
    by (cases x; cases y) (simp_all add: less_eq_decision_def)
qed (auto simp: less_eq_decision_def less_decision_def)

end

datatype 'loc policy_error =
    InvalidDecision ustr
  | InvalidPattern ustr
  | InvalidExample ustr
  | InvalidRule ustr
  | ExampleDidNotMatch "ustr list list" "'loc option"
  | ExampleDidMatch "ustr list" "'loc option"

definition parse_decision :: "ustr \<Rightarrow> ('loc policy_error, decision) result" where
  "parse_decision raw =
     (if raw = lit ''allow'' then Ok Allow
      else if raw = lit ''prompt'' then Ok Prompt
      else if raw = lit ''forbidden'' then Ok Forbidden
      else Err (InvalidDecision raw))"

definition with_location :: "'loc policy_error \<Rightarrow> 'loc \<Rightarrow> 'loc policy_error" where
  "with_location e l = (case e of
       ExampleDidNotMatch exs None \<Rightarrow> ExampleDidNotMatch exs (Some l)
     | ExampleDidMatch ex None \<Rightarrow> ExampleDidMatch ex (Some l)
     | other \<Rightarrow> other)"

section \<open>Rules\<close>

datatype pattern_token = Single ustr | Alts "ustr list"

fun token_matches :: "pattern_token \<Rightarrow> ustr \<Rightarrow> bool" where
  "token_matches (Single expected) token = (expected = token)"
| "token_matches (Alts alternatives) token = list_ex (\<lambda>alt. alt = token) alternatives"

fun alternatives :: "pattern_token \<Rightarrow> ustr list" where
  "alternatives (Single expected) = [expected]"
| "alternatives (Alts alts) = alts"

record prefix_pattern =
  pat_first :: ustr
  pat_rest :: "pattern_token list"

definition matches_prefix :: "prefix_pattern \<Rightarrow> ustr list \<Rightarrow> ustr list option" where
  "matches_prefix pat cmd =
     (let pattern_length = length (pat_rest pat) + 1 in
      if length cmd < pattern_length \<or> cmd ! 0 \<noteq> pat_first pat then None
      else if list_ex (\<lambda>(pattern_token, cmd_token). \<not> token_matches pattern_token cmd_token)
                (zip (pat_rest pat) (take (pattern_length - 1) (drop 1 cmd)))
      then None
      else Some (take pattern_length cmd))"

datatype rule_match =
    PrefixRuleMatch "ustr list" decision "path_uri option" "ustr option"
  | HeuristicsRuleMatch "ustr list" decision

fun match_decision :: "rule_match \<Rightarrow> decision" where
  "match_decision (PrefixRuleMatch _ d _ _) = d"
| "match_decision (HeuristicsRuleMatch _ d) = d"

fun with_resolved_program :: "path_uri \<Rightarrow> rule_match \<Rightarrow> rule_match" where
  "with_resolved_program p (PrefixRuleMatch mp d _ j) = PrefixRuleMatch mp d (Some p) j"
| "with_resolved_program p other = other"

record prefix_rule =
  rule_pattern :: prefix_pattern
  rule_decision :: decision
  rule_justification :: "ustr option"

definition program :: "prefix_rule \<Rightarrow> ustr" where
  "program r = pat_first (rule_pattern r)"

definition rule_matches :: "prefix_rule \<Rightarrow> ustr list \<Rightarrow> rule_match option" where
  "rule_matches r cmd = map_option
     (\<lambda>matched_prefix. PrefixRuleMatch matched_prefix (rule_decision r) None (rule_justification r))
     (matches_prefix (rule_pattern r) cmd)"

datatype network_rule_protocol = Http | Https | Socks5Tcp | Socks5Udp

definition parse_protocol :: "ustr \<Rightarrow> ('loc policy_error, network_rule_protocol) result" where
  "parse_protocol raw =
     (if raw = lit ''http'' then Ok Http
      else if raw = lit ''https'' \<or> raw = lit ''https_connect'' \<or> raw = lit ''http-connect'' then Ok Https
      else if raw = lit ''socks5_tcp'' then Ok Socks5Tcp
      else if raw = lit ''socks5_udp'' then Ok Socks5Udp
      else Err (InvalidRule (lit ''network_rule protocol must be one of http, https, socks5_tcp, socks5_udp (got ''
                  @ raw @ lit '')'')))"

fun as_policy_string :: "network_rule_protocol \<Rightarrow> ustr" where
  "as_policy_string Http = lit ''http''"
| "as_policy_string Https = lit ''https''"
| "as_policy_string Socks5Tcp = lit ''socks5_tcp''"
| "as_policy_string Socks5Udp = lit ''socks5_udp''"

record network_rule =
  host :: ustr
  protocol :: network_rule_protocol
  net_decision :: decision
  net_justification :: "ustr option"

section \<open>Network hosts\<close>

definition is_ascii_digit :: "uchar \<Rightarrow> bool" where
  "is_ascii_digit c \<longleftrightarrow> 48 \<le> c \<and> c \<le> 57"

definition to_ascii_lowercase :: "ustr \<Rightarrow> ustr" where
  "to_ascii_lowercase s = map (\<lambda>c. if 65 \<le> c \<and> c \<le> 90 then c + 32 else c) s"

definition is_port :: "ustr \<Rightarrow> bool" where
  "is_port p \<longleftrightarrow> p \<noteq> [] \<and> list_all is_ascii_digit p"

text \<open>\<open>str::split_once\<close> on a character.\<close>

definition split_once :: "'a \<Rightarrow> 'a list \<Rightarrow> ('a list \<times> 'a list) option" where
  "split_once d s = (case dropWhile (\<lambda>c. c \<noteq> d) s of
       [] \<Rightarrow> None
     | _ # rest \<Rightarrow> Some (takeWhile (\<lambda>c. c \<noteq> d) s, rest))"

fun contains_str :: "'a list \<Rightarrow> 'a list \<Rightarrow> bool" where
  "contains_str p [] = (p = [])"
| "contains_str p (c # s) = (starts_with p (c # s) \<or> contains_str p s)"

abbreviation COLON :: uchar where "COLON \<equiv> 58"

definition host_empty_error :: "'loc policy_error" where
  "host_empty_error = InvalidRule (lit ''network_rule host cannot be empty'')"

text \<open>The host without brackets or port. With one colon, \<open>rsplit_once\<close> is \<open>split_once\<close>.\<close>

definition strip_port :: "ustr \<Rightarrow> ustr \<Rightarrow> ('loc policy_error, ustr) result" where
  "strip_port raw h =
     (case strip_prefix (lit ''['') h of
        Some stripped \<Rightarrow>
          (case split_once 93 stripped of
             None \<Rightarrow> Err (InvalidRule (lit ''network_rule host has an invalid bracketed IPv6 literal''))
           | Some (inside, rest) \<Rightarrow>
               if rest \<noteq> [] \<and> \<not> (case strip_prefix [COLON] rest of Some port \<Rightarrow> is_port port | None \<Rightarrow> False)
               then Err (InvalidRule (lit ''network_rule host contains an unsupported suffix: '' @ raw))
               else Ok inside)
      | None \<Rightarrow>
          if length (filter (\<lambda>c. c = COLON) h) = 1 then
            (case split_once COLON h of
               Some (candidate, port) \<Rightarrow> Ok (if candidate \<noteq> [] \<and> is_port port then candidate else h)
             | None \<Rightarrow> Ok h)
          else Ok h)"

definition trim_end_dots :: "ustr \<Rightarrow> ustr" where
  "trim_end_dots s = rev (dropWhile (\<lambda>c. c = 46) (rev s))"

definition normalize_network_rule_host :: "ustr \<Rightarrow> ('loc policy_error, ustr) result" where
  "normalize_network_rule_host raw =
     (let h = trim raw in
      if h = [] then Err host_empty_error
      else if contains_str (lit ''://'') h \<or> SLASH \<in> set h \<or> 63 \<in> set h \<or> 35 \<in> set h then
        Err (InvalidRule (lit ''network_rule host must be a hostname or IP literal (without scheme or path)''))
      else and_then (strip_port raw h) (\<lambda>h.
        let normalized = to_ascii_lowercase (trim (trim_end_dots h)) in
        if normalized = [] then Err host_empty_error
        else if 42 \<in> set normalized then
          Err (InvalidRule (lit ''network_rule host must be a specific host; wildcards are not allowed''))
        else if list_ex is_whitespace normalized then
          Err (InvalidRule (lit ''network_rule host cannot contain whitespace''))
        else Ok normalized))"

section \<open>Policies\<close>

text \<open>The multimap, as an association list with one entry per program.\<close>

type_synonym rule_table = "(ustr \<times> prefix_rule list) list"

fun multi_insert :: "ustr \<Rightarrow> prefix_rule \<Rightarrow> rule_table \<Rightarrow> rule_table" where
  "multi_insert k r [] = [(k, [r])]"
| "multi_insert k r ((k', rs) # t) =
     (if k = k' then (k', rs @ [r]) # t else (k', rs) # multi_insert k r t)"

definition get_vec :: "rule_table \<Rightarrow> ustr \<Rightarrow> prefix_rule list" where
  "get_vec t k = (case map_of t k of Some rs \<Rightarrow> rs | None \<Rightarrow> [])"

record policy =
  rules_by_program :: rule_table
  network_rules :: "network_rule list"
  host_executables_by_name :: "(ustr \<times> path_uri list) list"

definition empty_policy :: policy where
  "empty_policy = \<lparr>rules_by_program = [], network_rules = [], host_executables_by_name = []\<rparr>"

definition render_pattern_token :: "pattern_token \<Rightarrow> ustr" where
  "render_pattern_token t = (case t of
       Single v \<Rightarrow> v
     | Alts alts \<Rightarrow> lit ''['' @ join_with (lit ''|'') alts @ lit '']'')"

definition rule_prefix :: "prefix_rule \<Rightarrow> ustr list" where
  "rule_prefix r = pat_first (rule_pattern r) # map render_pattern_token (pat_rest (rule_pattern r))"

definition get_allowed_prefixes :: "policy \<Rightarrow> ustr list list" where
  "get_allowed_prefixes p = remdups_adj (sort (concat
     (map (\<lambda>(_, rules). map rule_prefix (filter (\<lambda>r. rule_decision r = Allow) rules))
       (rules_by_program p))))"

definition add_prefix_rule ::
  "policy \<Rightarrow> ustr list \<Rightarrow> decision \<Rightarrow> ('loc policy_error, policy) result" where
  "add_prefix_rule p prefix d =
     (case prefix of
        [] \<Rightarrow> Err (InvalidPattern (lit ''prefix cannot be empty''))
      | first_token # rest \<Rightarrow>
          Ok (p\<lparr>rules_by_program := multi_insert first_token
                  \<lparr>rule_pattern = \<lparr>pat_first = first_token, pat_rest = map Single rest\<rparr>,
                   rule_decision = d, rule_justification = None\<rparr> (rules_by_program p)\<rparr>))"

definition check_justification :: "ustr option \<Rightarrow> ('loc policy_error, unit) result" where
  "check_justification j = (case j of
       Some raw \<Rightarrow> if trim raw = [] then Err (InvalidRule (lit ''justification cannot be empty'')) else Ok ()
     | None \<Rightarrow> Ok ())"

definition add_network_rule ::
  "policy \<Rightarrow> ustr \<Rightarrow> network_rule_protocol \<Rightarrow> decision \<Rightarrow> ustr option \<Rightarrow>
     ('loc policy_error, policy) result" where
  "add_network_rule p raw proto d j =
     and_then (normalize_network_rule_host raw) (\<lambda>h.
       and_then (check_justification j) (\<lambda>_.
         Ok (p\<lparr>network_rules := network_rules p @
           [\<lparr>host = h, protocol = proto, net_decision = d, net_justification = j\<rparr>]\<rparr>)))"

definition set_host_executable_paths :: "policy \<Rightarrow> ustr \<Rightarrow> path_uri list \<Rightarrow> policy" where
  "set_host_executable_paths p name paths =
     p\<lparr>host_executables_by_name := (name, paths) # host_executables_by_name p\<rparr>"

definition merge_overlay :: "policy \<Rightarrow> policy \<Rightarrow> policy" where
  "merge_overlay p overlay =
     \<lparr>rules_by_program =
        fold (\<lambda>(k, rules). fold (multi_insert k) rules) (rules_by_program overlay) (rules_by_program p),
      network_rules = network_rules p @ network_rules overlay,
      host_executables_by_name = host_executables_by_name overlay @ host_executables_by_name p\<rparr>"

definition upsert_domain :: "ustr list \<Rightarrow> ustr \<Rightarrow> ustr list" where
  "upsert_domain entries h = filter (\<lambda>e. e \<noteq> h) entries @ [h]"

definition compile_step :: "network_rule \<Rightarrow> ustr list \<times> ustr list \<Rightarrow> ustr list \<times> ustr list" where
  "compile_step r ad = (case ad of (allowed, denied) \<Rightarrow>
     (case net_decision r of
        Allow \<Rightarrow> (upsert_domain allowed (host r), filter (\<lambda>e. e \<noteq> host r) denied)
      | Forbidden \<Rightarrow> (filter (\<lambda>e. e \<noteq> host r) allowed, upsert_domain denied (host r))
      | Prompt \<Rightarrow> (allowed, denied)))"

definition compiled_network_domains :: "policy \<Rightarrow> ustr list \<times> ustr list" where
  "compiled_network_domains p = fold compile_step (network_rules p) ([], [])"

section \<open>Matching commands\<close>

text \<open>\<open>executable_lookup_key\<close> is the identity off Windows.\<close>

definition executable_path_lookup_key :: "path_uri \<Rightarrow> ustr option" where
  "executable_path_lookup_key p = file_name p"

definition match_exact_rules :: "policy \<Rightarrow> ustr list \<Rightarrow> rule_match list option" where
  "match_exact_rules p cmd = (case cmd of
       [] \<Rightarrow> None
     | first # _ \<Rightarrow> Some (List.map_filter (\<lambda>r. rule_matches r cmd) (get_vec (rules_by_program p) first)))"

definition match_host_executable_rules :: "host_env \<Rightarrow> policy \<Rightarrow> ustr list \<Rightarrow> rule_match list" where
  "match_host_executable_rules env p cmd = (case cmd of
       [] \<Rightarrow> []
     | first # args \<Rightarrow>
         (case from_absolute_path env first of
            None \<Rightarrow> []
          | Some prog \<Rightarrow>
              (case executable_path_lookup_key prog of
                 None \<Rightarrow> []
               | Some basename \<Rightarrow>
                   (case map_of (rules_by_program p) basename of
                      None \<Rightarrow> []
                    | Some rules \<Rightarrow>
                        if (case map_of (host_executables_by_name p) basename of
                              Some paths \<Rightarrow> \<not> list_ex (\<lambda>q. q = prog) paths
                            | None \<Rightarrow> False)
                        then []
                        else map (with_resolved_program prog)
                               (List.map_filter (\<lambda>r. rule_matches r (basename # args)) rules)))))"

definition matches_for_command_with_options ::
  "host_env \<Rightarrow> policy \<Rightarrow> ustr list \<Rightarrow> (ustr list \<Rightarrow> decision) option \<Rightarrow> bool \<Rightarrow> rule_match list" where
  "matches_for_command_with_options env p cmd heuristics_fallback resolve_host_executables =
     (let matched_rules =
        (case match_exact_rules p cmd of
           Some (m # ms) \<Rightarrow> m # ms
         | _ \<Rightarrow> if resolve_host_executables then match_host_executable_rules env p cmd else [])
      in if matched_rules = [] then
           (case heuristics_fallback of
              Some h \<Rightarrow> [HeuristicsRuleMatch cmd (h cmd)]
            | None \<Rightarrow> [])
         else matched_rules)"

definition matches_for_command ::
  "host_env \<Rightarrow> policy \<Rightarrow> ustr list \<Rightarrow> (ustr list \<Rightarrow> decision) option \<Rightarrow> rule_match list" where
  "matches_for_command env p cmd h = matches_for_command_with_options env p cmd h False"

record evaluation =
  decision_of :: decision
  matched_rules :: "rule_match list"

text \<open>\<open>None\<close> is the panic of \<open>expect\<close> on an empty list.\<close>

fun max_decision :: "decision list \<Rightarrow> decision option" where
  "max_decision [] = None"
| "max_decision (d # ds) = (case max_decision ds of None \<Rightarrow> Some d | Some e \<Rightarrow> Some (max d e))"

definition from_matches :: "rule_match list \<Rightarrow> evaluation option" where
  "from_matches ms = map_option (\<lambda>d. \<lparr>decision_of = d, matched_rules = ms\<rparr>)
     (max_decision (map match_decision ms))"

definition is_match :: "evaluation \<Rightarrow> bool" where
  "is_match e \<longleftrightarrow> list_ex
     (\<lambda>m. case m of HeuristicsRuleMatch _ _ \<Rightarrow> False | PrefixRuleMatch _ _ _ _ \<Rightarrow> True) (matched_rules e)"

definition check_with_options ::
  "host_env \<Rightarrow> policy \<Rightarrow> ustr list \<Rightarrow> (ustr list \<Rightarrow> decision) \<Rightarrow> bool \<Rightarrow> evaluation option" where
  "check_with_options env p cmd h opt =
     from_matches (matches_for_command_with_options env p cmd (Some h) opt)"

definition check ::
  "host_env \<Rightarrow> policy \<Rightarrow> ustr list \<Rightarrow> (ustr list \<Rightarrow> decision) \<Rightarrow> evaluation option" where
  "check env p cmd h = check_with_options env p cmd h False"

definition check_multiple_with_options ::
  "host_env \<Rightarrow> policy \<Rightarrow> ustr list list \<Rightarrow> (ustr list \<Rightarrow> decision) \<Rightarrow> bool \<Rightarrow> evaluation option" where
  "check_multiple_with_options env p cmds h opt = from_matches
     (concat (map (\<lambda>cmd. matches_for_command_with_options env p cmd (Some h) opt) cmds))"

end
