(* ===== verification/Exec_Policy_Correct.thy ===== *)
theory Exec_Policy_Correct
  imports Exec_Policy
begin

text \<open>
  What a policy decides. The specification \<open>rule_applies\<close> says when a prefix rule covers a
  command; a check is shown to return the most restrictive decision of all rules of the
  policy that apply, and the fallback exactly when none does. The operations that extend a
  policy are described by their effect on checks.
\<close>

section \<open>When a rule applies\<close>

definition pattern_tokens :: "prefix_rule \<Rightarrow> pattern_token list" where
  "pattern_tokens r = Single (pat_first (rule_pattern r)) # pat_rest (rule_pattern r)"

definition rule_applies :: "prefix_rule \<Rightarrow> ustr list \<Rightarrow> bool" where
  "rule_applies r cmd \<longleftrightarrow> (\<exists>pre rest. cmd = pre @ rest \<and>
     list_all2 (\<lambda>t w. w \<in> set (alternatives t)) (pattern_tokens r) pre)"

definition all_rules :: "policy \<Rightarrow> prefix_rule set" where
  "all_rules p = (\<Union>(k, rs) \<in> set (rules_by_program p). set rs)"

definition applicable :: "policy \<Rightarrow> ustr list \<Rightarrow> prefix_rule set" where
  "applicable p cmd = {r \<in> all_rules p. rule_applies r cmd}"

lemma token_matches_iff: "token_matches t w \<longleftrightarrow> w \<in> set (alternatives t)"
  by (cases t) (auto simp: list_ex_iff)

lemma matches_prefix_Some_iff:
  "matches_prefix pat cmd = Some pre \<longleftrightarrow>
     (\<exists>rest. cmd = pre @ rest \<and>
       list_all2 (\<lambda>t w. w \<in> set (alternatives t)) (Single (pat_first pat) # pat_rest pat) pre)"
    (is "_ \<longleftrightarrow> (\<exists>rest. _ \<and> list_all2 ?P _ pre)")
proof (cases cmd)
  case Nil
  then show ?thesis by (auto simp: matches_prefix_def)
next
  case (Cons c args)
  let ?n = "length (pat_rest pat)"
  have zip: "\<not> list_ex (\<lambda>(t, w). \<not> token_matches t w) (zip (pat_rest pat) (take ?n args)) \<longleftrightarrow>
      list_all2 ?P (pat_rest pat) (take ?n args)" if "?n \<le> length args"
    using that by (auto simp: list_all2_iff list_ex_iff token_matches_iff)
  have "matches_prefix pat cmd = Some pre \<longleftrightarrow>
      ?n \<le> length args \<and> c = pat_first pat \<and> list_all2 ?P (pat_rest pat) (take ?n args) \<and>
      pre = c # take ?n args"
    using zip Cons by (auto simp: matches_prefix_def Let_def)
  also have "\<dots> \<longleftrightarrow> (\<exists>rest. cmd = pre @ rest \<and> list_all2 ?P (Single (pat_first pat) # pat_rest pat) pre)"
  proof
    assume a: "?n \<le> length args \<and> c = pat_first pat \<and> list_all2 ?P (pat_rest pat) (take ?n args) \<and>
      pre = c # take ?n args"
    with Cons have "cmd = pre @ drop ?n args" by simp
    moreover have "list_all2 ?P (Single (pat_first pat) # pat_rest pat) pre" using a by simp
    ultimately show "\<exists>rest. cmd = pre @ rest \<and> list_all2 ?P (Single (pat_first pat) # pat_rest pat) pre"
      by blast
  next
    assume "\<exists>rest. cmd = pre @ rest \<and> list_all2 ?P (Single (pat_first pat) # pat_rest pat) pre"
    then obtain rest where r: "cmd = pre @ rest" "list_all2 ?P (Single (pat_first pat) # pat_rest pat) pre"
      by blast
    then obtain ws where ws: "pre = pat_first pat # ws" "list_all2 ?P (pat_rest pat) ws"
      by (auto simp: list_all2_Cons1)
    from ws(2) have "length ws = ?n" by (simp add: list_all2_lengthD)
    with r ws Cons show "?n \<le> length args \<and> c = pat_first pat \<and>
        list_all2 ?P (pat_rest pat) (take ?n args) \<and> pre = c # take ?n args"
      by auto
  qed
  finally show ?thesis .
qed

lemma rule_matches_iff: "rule_matches r cmd \<noteq> None \<longleftrightarrow> rule_applies r cmd"
  by (auto simp: rule_matches_def rule_applies_def pattern_tokens_def matches_prefix_Some_iff)

lemma rule_matches_decision: "rule_matches r cmd = Some m \<Longrightarrow> match_decision m = rule_decision r"
  by (auto simp: rule_matches_def)

lemma rule_applies_first: "rule_applies r cmd \<Longrightarrow> \<exists>args. cmd = program r # args"
  by (auto simp: rule_applies_def pattern_tokens_def program_def list_all2_Cons1)

section \<open>The rule table\<close>

definition table_ok :: "rule_table \<Rightarrow> bool" where
  "table_ok t \<longleftrightarrow> distinct (map fst t) \<and> (\<forall>(k, rs) \<in> set t. \<forall>r \<in> set rs. program r = k)"

definition policy_ok :: "policy \<Rightarrow> bool" where
  "policy_ok p \<longleftrightarrow> table_ok (rules_by_program p)"

lemma fst_multi_insert: "fst ` set (multi_insert k r t) = insert k (fst ` set t)"
  by (induction k r t rule: multi_insert.induct) auto

lemma get_vec_multi_insert:
  "get_vec (multi_insert k r t) k' = get_vec t k' @ (if k' = k then [r] else [])"
  by (induction k r t rule: multi_insert.induct) (auto simp: get_vec_def split: option.splits)

lemma table_ok_multi_insert: "table_ok t \<Longrightarrow> program r = k \<Longrightarrow> table_ok (multi_insert k r t)"
proof (induction k r t rule: multi_insert.induct)
  case (2 k r k' rs t)
  have "k' \<notin> fst ` set (multi_insert k r t)" if "k \<noteq> k'"
    using 2 that by (simp add: fst_multi_insert table_ok_def)
  moreover have "table_ok t" using 2 by (simp add: table_ok_def)
  ultimately show ?case using 2 by (auto simp: table_ok_def)
qed (simp add: table_ok_def)

lemma table_ok_fold_insert:
  "table_ok t \<Longrightarrow> \<forall>r\<in>set rs. program r = k \<Longrightarrow> table_ok (fold (multi_insert k) rs t)"
  by (induction rs arbitrary: t) (auto simp: table_ok_multi_insert)

lemma get_vec_fold_insert:
  "get_vec (fold (multi_insert k) rs t) k' = get_vec t k' @ (if k' = k then rs else [])"
  by (induction rs arbitrary: t) (auto simp: get_vec_multi_insert)

lemma table_ok_merge:
  "table_ok t \<Longrightarrow> table_ok o' \<Longrightarrow> table_ok (fold (\<lambda>(k, rules). fold (multi_insert k) rules) o' t)"
proof (induction o' arbitrary: t)
  case (Cons kr o')
  obtain k rs where kr: "kr = (k, rs)" by fastforce
  from Cons.prems(2) kr have "table_ok o'" "\<forall>r\<in>set rs. program r = k" by (simp_all add: table_ok_def)
  with Cons kr show ?case by (simp add: table_ok_fold_insert)
qed simp

lemma get_vec_merge:
  "distinct (map fst o') \<Longrightarrow>
   get_vec (fold (\<lambda>(k, rules). fold (multi_insert k) rules) o' t) k = get_vec t k @ get_vec o' k"
proof (induction o' arbitrary: t)
  case (Cons kr o')
  obtain k' rs where kr: "kr = (k', rs)" by fastforce
  have "get_vec o' k' = []"
    using Cons.prems kr by (simp add: get_vec_def map_of_eq_None_iff [THEN iffD2])
  with Cons kr show ?case by (auto simp: get_vec_fold_insert) (auto simp: get_vec_def)
qed (simp add: get_vec_def)

text \<open>In a consistent table, looking up the first word finds every rule that applies.\<close>

lemma get_vec_complete:
  assumes "policy_ok p" "r \<in> all_rules p" "rule_applies r cmd"
  shows "\<exists>c args. cmd = c # args \<and> r \<in> set (get_vec (rules_by_program p) c)"
proof -
  from assms(2) obtain k rs where k: "(k, rs) \<in> set (rules_by_program p)" "r \<in> set rs"
    by (auto simp: all_rules_def)
  with assms(1) have "map_of (rules_by_program p) k = Some rs" "program r = k"
    by (auto simp: policy_ok_def table_ok_def)
  with rule_applies_first [OF assms(3)] k show ?thesis by (auto simp: get_vec_def)
qed

lemma get_vec_sound: "r \<in> set (get_vec (rules_by_program p) k) \<Longrightarrow> r \<in> all_rules p"
  using map_of_SomeD [of "rules_by_program p" k] by (force simp: get_vec_def all_rules_def split: option.splits)

lemma all_rules_get_vec:
  assumes "policy_ok p"
  shows "r \<in> all_rules p \<longleftrightarrow> r \<in> set (get_vec (rules_by_program p) (program r))"
proof
  assume "r \<in> all_rules p"
  then obtain k rs where k: "(k, rs) \<in> set (rules_by_program p)" "r \<in> set rs" by (auto simp: all_rules_def)
  with assms have "map_of (rules_by_program p) k = Some rs" "program r = k"
    by (auto simp: policy_ok_def table_ok_def)
  with k show "r \<in> set (get_vec (rules_by_program p) (program r))" by (simp add: get_vec_def)
qed (rule get_vec_sound)

lemma map_filter_eq_Nil_iff: "List.map_filter f xs = [] \<longleftrightarrow> (\<forall>x\<in>set xs. f x = None)"
  by (induction xs) (auto simp: List.map_filter_def)

lemma set_map_filter_decisions:
  "match_decision ` set (List.map_filter (\<lambda>r. rule_matches r cmd) rs) =
     rule_decision ` {r \<in> set rs. rule_applies r cmd}"
proof -
  have "match_decision (the (rule_matches r cmd)) = rule_decision r" if "rule_applies r cmd" for r
    using that rule_matches_iff [of r cmd] rule_matches_decision [of r cmd] by auto
  then show ?thesis
    unfolding List.map_filter_def
    by (simp add: image_image rule_matches_iff [of _ cmd, simplified not_None_eq])
qed

lemma match_exact_rules_Nil_iff:
  assumes "policy_ok p"
  shows "match_exact_rules p cmd \<in> {None, Some []} \<longleftrightarrow> (\<forall>r\<in>all_rules p. \<not> rule_applies r cmd)"
proof (cases cmd)
  case Nil
  then show ?thesis by (auto simp: match_exact_rules_def dest: rule_applies_first)
next
  case (Cons c args)
  have "(\<forall>r\<in>set (get_vec (rules_by_program p) c). \<not> rule_applies r cmd) \<longleftrightarrow>
      (\<forall>r\<in>all_rules p. \<not> rule_applies r cmd)"
    using get_vec_complete [OF assms] get_vec_sound Cons by blast
  with Cons show ?thesis
    by (simp add: match_exact_rules_def map_filter_eq_Nil_iff)
      (metis rule_matches_iff)
qed

section \<open>Aggregating decisions\<close>

lemma max_decision_Max: "ds \<noteq> [] \<Longrightarrow> max_decision ds = Some (Max (set ds))"
proof (induction ds)
  case (Cons d ds)
  then show ?case by (cases "ds = []") simp_all
qed simp

lemma from_matches_Some:
  "ms \<noteq> [] \<Longrightarrow> from_matches ms =
     Some \<lparr>decision_of = Max (match_decision ` set ms), matched_rules = ms\<rparr>"
  by (simp add: from_matches_def max_decision_Max)

lemma matches_nonempty: "matches_for_command_with_options env p cmd (Some h) opt \<noteq> []"
  by (simp add: matches_for_command_with_options_def Let_def)

lemma check_exact:
  assumes "match_exact_rules p cmd = Some ms" "ms \<noteq> []"
  shows "check_with_options env p cmd h opt = Some \<lparr>decision_of = Max (match_decision ` set ms), matched_rules = ms\<rparr>"
  using assms
  by (cases ms) (simp_all add: check_with_options_def matches_for_command_with_options_def from_matches_Some)

lemma exact_is_prefix_match:
  "match_exact_rules p cmd = Some ms \<Longrightarrow> m \<in> set ms \<Longrightarrow> \<exists>a b c d. m = PrefixRuleMatch a b c d"
  by (auto simp: match_exact_rules_def List.map_filter_def rule_matches_def split: list.splits)

lemma check_no_exact:
  assumes "match_exact_rules p cmd \<in> {None, Some []}"
  shows "check env p cmd h = Some \<lparr>decision_of = h cmd, matched_rules = [HeuristicsRuleMatch cmd (h cmd)]\<rparr>"
  using assms
  by (auto simp: check_def check_with_options_def matches_for_command_with_options_def from_matches_Some)

lemma check_applicable:
  assumes "policy_ok p" "applicable p cmd \<noteq> {}"
  shows "\<exists>e. check_with_options env p cmd h opt = Some e \<and> is_match e \<and>
    decision_of e = Max (rule_decision ` applicable p cmd)"
proof -
  have "match_exact_rules p cmd \<notin> {None, Some []}"
    using match_exact_rules_Nil_iff [OF assms(1)] assms(2) by (auto simp: applicable_def)
  then obtain ms where ms: "match_exact_rules p cmd = Some ms" "ms \<noteq> []"
    by (cases "match_exact_rules p cmd") auto
  then obtain c args where cmd: "cmd = c # args" by (cases cmd) (auto simp: match_exact_rules_def)
  have "applicable p cmd = {r \<in> set (get_vec (rules_by_program p) c). rule_applies r cmd}"
    using get_vec_complete [OF assms(1)] get_vec_sound cmd by (auto simp: applicable_def)
  moreover have "ms = List.map_filter (\<lambda>r. rule_matches r cmd) (get_vec (rules_by_program p) c)"
    using ms(1) cmd by (simp add: match_exact_rules_def)
  ultimately have "match_decision ` set ms = rule_decision ` applicable p cmd"
    by (simp add: set_map_filter_decisions)
  moreover have "is_match \<lparr>decision_of = d, matched_rules = ms\<rparr>" for d
    using exact_is_prefix_match [OF ms(1), of "hd ms"] ms(2) by (cases ms) (auto simp: is_match_def)
  ultimately show ?thesis
    using check_exact [OF ms, of env h opt] by simp
qed

lemma check_inapplicable:
  assumes "policy_ok p" "applicable p cmd = {}"
  shows "check env p cmd h = Some \<lparr>decision_of = h cmd, matched_rules = [HeuristicsRuleMatch cmd (h cmd)]\<rparr>"
  using assms match_exact_rules_Nil_iff [OF assms(1), of cmd]
  by (intro check_no_exact) (auto simp: applicable_def)

lemma finite_applicable [simp]: "finite (applicable p cmd)"
  by (rule finite_subset [of _ "all_rules p"]) (auto simp: applicable_def all_rules_def)

lemma applicable_bounds_check:
  assumes "policy_ok p" "r \<in> applicable p cmd"
  shows "\<exists>e. check env p cmd h = Some e \<and> is_match e \<and> rule_decision r \<le> decision_of e"
proof -
  have "rule_decision r \<le> Max (rule_decision ` applicable p cmd)" using assms(2) by simp
  moreover obtain e where "check env p cmd h = Some e" "is_match e"
      "decision_of e = Max (rule_decision ` applicable p cmd)"
    using check_applicable [OF assms(1), of cmd env h False] assms(2) by (auto simp: check_def)
  ultimately show ?thesis by auto
qed

section \<open>Properties of checks\<close>

text \<open>
  C18: A check never panics and returns the most restrictive decision of all rules of the
  policy that apply to the command; the caller's heuristics decide exactly when no rule
  applies.
\<close>

theorem check_most_restrictive:
  assumes "policy_ok p"
  shows "(applicable p cmd \<noteq> {} \<longrightarrow> (\<exists>e. check env p cmd h = Some e \<and> is_match e \<and>
            decision_of e = Max (rule_decision ` applicable p cmd))) \<and>
         (applicable p cmd = {} \<longrightarrow> (\<exists>e. check env p cmd h = Some e \<and> \<not> is_match e \<and> decision_of e = h cmd))"
  using check_applicable [OF assms, of cmd env h False] check_inapplicable [OF assms, of cmd env h]
  by (auto simp: check_def is_match_def)

definition push_rule :: prefix_rule where
  "push_rule = \<lparr>rule_pattern = \<lparr>pat_first = lit ''git'', pat_rest = [Alts [lit ''push'', lit ''rm'']]\<rparr>,
     rule_decision = Prompt, rule_justification = None\<rparr>"

definition git_policy :: policy where
  "git_policy = empty_policy\<lparr>rules_by_program :=
     [(lit ''git'', [push_rule\<lparr>rule_pattern := \<lparr>pat_first = lit ''git'', pat_rest = []\<rparr>, rule_decision := Allow\<rparr>,
                     push_rule])]\<rparr>"

lemma git_policy_ok: "policy_ok git_policy"
  by (simp add: git_policy_def policy_ok_def table_ok_def program_def push_rule_def)

abbreviation no_env :: host_env where "no_env \<equiv> \<lparr>current_dir = None, home_dir = None\<rparr>"

theorem check_most_restrictive_witness:
  "\<exists>e. check no_env git_policy [lit ''git'', lit ''rm'', lit ''x''] (\<lambda>_. Forbidden) = Some e \<and>
     is_match e \<and> Prompt \<le> decision_of e"
proof -
  let ?c = "[lit ''git'', lit ''rm'', lit ''x'']"
  have "rule_matches push_rule ?c \<noteq> None" by code_simp
  then have "rule_applies push_rule ?c" using rule_matches_iff [of push_rule ?c] by blast
  moreover have "push_rule \<in> all_rules git_policy" by (simp add: all_rules_def git_policy_def)
  ultimately have b: "push_rule \<in> applicable git_policy ?c" by (simp add: applicable_def)
  then have "rule_decision push_rule \<le> Max (rule_decision ` applicable git_policy ?c)"
    by (intro Max_ge finite_imageI finite_applicable imageI)
  moreover have "rule_decision push_rule = Prompt" by (simp add: push_rule_def)
  ultimately show ?thesis
    using check_most_restrictive [OF git_policy_ok, of ?c no_env "\<lambda>_. Forbidden"] b by (metis empty_iff)
qed

lemma list_all2_Single: "list_all2 (\<lambda>t w. w \<in> set (alternatives t)) (map Single xs) ys \<longleftrightarrow> ys = xs"
  by (induction xs arbitrary: ys) (auto simp: list_all2_Cons1)

definition literal_rule :: "ustr \<Rightarrow> ustr list \<Rightarrow> decision \<Rightarrow> prefix_rule" where
  "literal_rule c rest d = \<lparr>rule_pattern = \<lparr>pat_first = c, pat_rest = map Single rest\<rparr>,
     rule_decision = d, rule_justification = None\<rparr>"

lemma literal_rule_applies: "rule_applies (literal_rule c rest d) cmd \<longleftrightarrow> (\<exists>args. cmd = (c # rest) @ args)"
proof -
  have "pattern_tokens (literal_rule c rest d) = map Single (c # rest)"
    by (simp add: literal_rule_def pattern_tokens_def)
  then show ?thesis by (auto simp: rule_applies_def list_all2_Single simp del: list.map)
qed

lemma check_cong: "match_exact_rules p cmd = match_exact_rules p' cmd \<Longrightarrow> check env p cmd h = check env p' cmd h"
  by (simp add: check_def check_with_options_def matches_for_command_with_options_def)

lemma program_literal_rule [simp]: "program (literal_rule c rest d) = c" "rule_decision (literal_rule c rest d) = d"
  by (simp_all add: literal_rule_def program_def)

lemma map_filter_append: "List.map_filter f (xs @ ys) = List.map_filter f xs @ List.map_filter f ys"
  by (simp add: List.map_filter_def)

lemma match_exact_rules_append:
  assumes "\<And>k. get_vec (rules_by_program p') k = get_vec (rules_by_program p) k @ f k" "cmd = c # args"
  shows "match_exact_rules p' cmd = Some
    (the (match_exact_rules p cmd) @ List.map_filter (\<lambda>r. rule_matches r cmd) (f c))"
  using assms by (simp add: match_exact_rules_def map_filter_append)

text \<open>
  A rule added with \<open>add_prefix_rule\<close> binds every command that starts with the prefix
  (its decision is at least as restrictive as the rule's) and changes no other command.
\<close>

theorem add_prefix_rule_effect:
  assumes "policy_ok p" "add_prefix_rule p prefix d = Ok p'"
  shows "policy_ok p' \<and>
    (\<forall>args. \<exists>e. check env p' (prefix @ args) h = Some e \<and> is_match e \<and> d \<le> decision_of e) \<and>
    (\<forall>cmd. (\<nexists>args. cmd = prefix @ args) \<longrightarrow> check env p' cmd h = check env p cmd h)"
proof -
  from assms(2) obtain c rest where pre: "prefix = c # rest" by (cases prefix) (auto simp: add_prefix_rule_def)
  let ?r = "literal_rule c rest d"
  from assms(2) pre have tab: "rules_by_program p' = multi_insert c ?r (rules_by_program p)"
    by (auto simp: add_prefix_rule_def literal_rule_def)
  have vec: "get_vec (rules_by_program p') k = get_vec (rules_by_program p) k @ (if k = c then [?r] else [])" for k
    by (simp add: tab get_vec_multi_insert)
  have ok: "policy_ok p'" using assms(1) tab by (simp add: policy_ok_def table_ok_multi_insert)
  have "?r \<in> all_rules p'" by (rule get_vec_sound [of _ _ c]) (simp add: vec)
  then have "?r \<in> applicable p' (prefix @ args)" for args
    by (auto simp: applicable_def literal_rule_applies pre)
  with applicable_bounds_check [OF ok] have bind:
    "\<exists>e. check env p' (prefix @ args) h = Some e \<and> is_match e \<and> d \<le> decision_of e" for args
    by fastforce
  have "check env p' cmd h = check env p cmd h" if "\<nexists>args. cmd = prefix @ args" for cmd
  proof (rule check_cong)
    from that pre have "rule_matches ?r cmd = None"
      using rule_matches_iff [of ?r cmd] literal_rule_applies [of c rest d cmd] by auto
    then have none: "List.map_filter (\<lambda>r. rule_matches r cmd) (if k = c then [?r] else []) = []" for k
      by (simp add: map_filter_eq_Nil_iff)
    show "match_exact_rules p' cmd = match_exact_rules p cmd"
    proof (cases cmd)
      case (Cons k args)
      with match_exact_rules_append [OF vec Cons] none [of k] show ?thesis
        by (simp add: match_exact_rules_def)
    qed (simp add: match_exact_rules_def)
  qed
  with ok bind show ?thesis by blast
qed

theorem add_prefix_rule_effect_witness:
  "\<exists>p' e. add_prefix_rule git_policy [lit ''git'', lit ''push''] Forbidden = (Ok p' :: (unit policy_error, policy) result) \<and>
     check \<lparr>current_dir = None, home_dir = None\<rparr> p' [lit ''git'', lit ''push'', lit ''-f''] (\<lambda>_. Allow) = Some e \<and>
     Forbidden \<le> decision_of e"
proof -
  obtain p' where a: "add_prefix_rule git_policy [lit ''git'', lit ''push''] Forbidden = (Ok p' :: (unit policy_error, policy) result)"
    by (simp add: add_prefix_rule_def)
  with add_prefix_rule_effect [OF git_policy_ok a, of "\<lparr>current_dir = None, home_dir = None\<rparr>" "\<lambda>_. Allow"]
  have "\<exists>e. check \<lparr>current_dir = None, home_dir = None\<rparr> p' ([lit ''git'', lit ''push''] @ [lit ''-f'']) (\<lambda>_. Allow) = Some e \<and>
      Forbidden \<le> decision_of e" by blast
  with a show ?thesis by auto
qed

lemma merge_overlay_get_vec:
  assumes "policy_ok q"
  shows "get_vec (rules_by_program (merge_overlay p q)) k =
    get_vec (rules_by_program p) k @ get_vec (rules_by_program q) k"
  using assms by (simp add: merge_overlay_def get_vec_merge policy_ok_def table_ok_def)

lemma merge_overlay_ok: "policy_ok p \<Longrightarrow> policy_ok q \<Longrightarrow> policy_ok (merge_overlay p q)"
  by (simp add: policy_ok_def merge_overlay_def table_ok_merge)

lemma merge_overlay_applicable:
  assumes "policy_ok p" "policy_ok q" "r \<in> applicable p cmd \<or> r \<in> applicable q cmd"
  shows "r \<in> applicable (merge_overlay p q) cmd"
proof -
  from assms obtain c args where c: "cmd = c # args" "rule_applies r cmd"
      "r \<in> set (get_vec (rules_by_program p) c) \<union> set (get_vec (rules_by_program q) c)"
    using get_vec_complete [of p r cmd] get_vec_complete [of q r cmd] by (auto simp: applicable_def)
  then have "r \<in> set (get_vec (rules_by_program (merge_overlay p q)) c)"
    by (simp add: merge_overlay_get_vec assms(2))
  then have "r \<in> all_rules (merge_overlay p q)" by (rule get_vec_sound)
  with c show ?thesis by (simp add: applicable_def)
qed

lemma is_match_applicable:
  assumes "policy_ok p" "check env p cmd h = Some e" "is_match e"
  shows "\<exists>r \<in> applicable p cmd. rule_decision r = decision_of e"
proof -
  have ne: "applicable p cmd \<noteq> {}"
    using assms check_inapplicable [OF assms(1), of cmd env h] by (auto simp: is_match_def)
  with check_applicable [OF assms(1) ne, of env h False] assms(2)
  have "decision_of e = Max (rule_decision ` applicable p cmd)" by (simp add: check_def)
  moreover have "Max (rule_decision ` applicable p cmd) \<in> rule_decision ` applicable p cmd"
    using ne by (intro Max_in) auto
  ultimately show ?thesis by auto
qed

text \<open>
  An overlay can only tighten: after \<open>merge_overlay\<close> every command that the base policy
  or the overlay decides by a rule is still decided by a rule, at least as restrictively as
  either of them.
\<close>

theorem merge_overlay_tightens:
  assumes "policy_ok p" "policy_ok q"
    and "check env p cmd h = Some e \<or> check env q cmd h = Some e" "is_match e"
  shows "\<exists>e'. check env (merge_overlay p q) cmd h = Some e' \<and> is_match e' \<and> decision_of e \<le> decision_of e'"
proof -
  obtain r where r: "r \<in> applicable p cmd \<or> r \<in> applicable q cmd" "rule_decision r = decision_of e"
    using assms is_match_applicable by blast
  from merge_overlay_applicable [OF assms(1,2) r(1)] merge_overlay_ok [OF assms(1,2)] r(2)
  show ?thesis using applicable_bounds_check by metis
qed

theorem merge_overlay_tightens_witness:
  "\<exists>e'. check \<lparr>current_dir = None, home_dir = None\<rparr> (merge_overlay empty_policy git_policy)
      [lit ''git'', lit ''log''] (\<lambda>_. Forbidden) = Some e' \<and> is_match e'"
proof -
  have "policy_ok empty_policy" by (simp add: policy_ok_def table_ok_def empty_policy_def)
  moreover have "check \<lparr>current_dir = None, home_dir = None\<rparr> git_policy [lit ''git'', lit ''log''] (\<lambda>_. Forbidden) =
      Some \<lparr>decision_of = Allow, matched_rules = [PrefixRuleMatch [lit ''git''] Allow None None]\<rparr>"
    by code_simp
  ultimately show ?thesis
    using merge_overlay_tightens [OF _ git_policy_ok, of empty_policy] by (fastforce simp: is_match_def)
qed

section \<open>Host executables\<close>

text \<open>
  The fallback from a path to the rules of its basename is taken only with the option on
  and no exact match, and only for a program that resolves to a path with that basename
  which, where the policy lists paths for the basename, is one of them. Every match it
  returns carries the resolved program.
\<close>

theorem host_executable_fallback_guarded:
  assumes "m \<in> set (matches_for_command_with_options env p cmd None opt)"
    and "match_exact_rules p cmd \<in> {None, Some []}"
  shows "opt \<and> (\<exists>first args prog basename matched d j.
    cmd = first # args \<and> from_absolute_path env first = Some prog \<and> file_name prog = Some basename \<and>
    (\<forall>paths. map_of (host_executables_by_name p) basename = Some paths \<longrightarrow> prog \<in> set paths) \<and>
    m = PrefixRuleMatch matched d (Some prog) j \<and>
    (\<exists>r \<in> set (get_vec (rules_by_program p) basename). rule_applies r (basename # args) \<and> rule_decision r = d))"
proof -
  from assms have opt: opt and m: "m \<in> set (match_host_executable_rules env p cmd)"
    by (auto simp: matches_for_command_with_options_def Let_def split: if_splits)
  from m obtain first args where 1: "cmd = first # args"
    by (cases cmd) (auto simp: match_host_executable_rules_def)
  with m obtain prog where 2: "from_absolute_path env first = Some prog"
    by (cases "from_absolute_path env first") (auto simp: match_host_executable_rules_def)
  with 1 m obtain basename where 3: "file_name prog = Some basename"
    by (cases "file_name prog") (auto simp: match_host_executable_rules_def executable_path_lookup_key_def)
  with 1 2 m obtain rules where 4: "map_of (rules_by_program p) basename = Some rules"
    by (cases "map_of (rules_by_program p) basename")
      (auto simp: match_host_executable_rules_def executable_path_lookup_key_def)
  from 1 2 3 4 m have g: "\<forall>paths. map_of (host_executables_by_name p) basename = Some paths \<longrightarrow> prog \<in> set paths"
    and f: "m \<in> with_resolved_program prog ` set (List.map_filter (\<lambda>r. rule_matches r (basename # args)) rules)"
    by (simp_all add: match_host_executable_rules_def executable_path_lookup_key_def list_ex_iff
        split: option.splits if_splits)
  note s = 1 2 3 4
  from f obtain r m' where r: "r \<in> set rules" "rule_matches r (basename # args) = Some m'"
      "m = with_resolved_program prog m'"
    by (auto simp: List.map_filter_def)
  then obtain matched where "m = PrefixRuleMatch matched (rule_decision r) (Some prog) (rule_justification r)"
    by (auto simp: rule_matches_def)
  moreover have "r \<in> set (get_vec (rules_by_program p) basename)" using r(1) s(4) by (simp add: get_vec_def)
  moreover have "rule_applies r (basename # args)" using r(2) rule_matches_iff by force
  ultimately show ?thesis using opt s g by blast
qed

definition listed_policy :: policy where
  "listed_policy = set_host_executable_paths git_policy (lit ''git'') [[lit ''bin'', lit ''git'']]"

theorem host_executable_fallback_guarded_witness:
  "\<exists>prog. from_absolute_path no_env (lit ''/bin/git'') = Some prog \<and> prog = [lit ''bin'', lit ''git''] \<and>
     map_of (host_executables_by_name listed_policy) (lit ''git'') = Some [prog]"
proof -
  let ?c = "[lit ''/bin/git'', lit ''log'']"
  let ?m = "PrefixRuleMatch [lit ''git''] Allow (Some [lit ''bin'', lit ''git'']) None"
  have m: "matches_for_command_with_options no_env listed_policy ?c None True = [?m]" by code_simp
  have n: "match_exact_rules listed_policy ?c = Some []" by code_simp
  have h: "map_of (host_executables_by_name listed_policy) (lit ''git'') = Some [[lit ''bin'', lit ''git'']]"
    by code_simp
  from m n have "from_absolute_path no_env (lit ''/bin/git'') = Some [lit ''bin'', lit ''git'']"
    using host_executable_fallback_guarded [of ?m no_env listed_policy ?c True] by force
  with h show ?thesis by blast
qed

text \<open>
  The documentation speaks of absolute program paths, but \<open>TryFrom<String>\<close> resolves a
  relative one against the working directory: \<open>./git\<close>, a file of the working directory, is
  covered by the rules for \<open>git\<close> when the fallback is on and no paths are listed.
\<close>

theorem relative_program_uses_basename_rules:
  "match_exact_rules git_policy [lit ''./git'', lit ''log''] = Some [] \<and>
   map_option decision_of (check_with_options \<lparr>current_dir = Some [lit ''tmp''], home_dir = None\<rparr> git_policy
     [lit ''./git'', lit ''log''] (\<lambda>_. Prompt) True) = Some Allow"
  by (intro conjI) code_simp+

section \<open>Network domains\<close>

text \<open>The last rule for a host that is not a prompt.\<close>

definition host_verdict :: "ustr \<Rightarrow> network_rule list \<Rightarrow> decision option" where
  "host_verdict h rs = map_option net_decision
     (find (\<lambda>r. host r = h \<and> net_decision r \<noteq> Prompt) (rev rs))"

lemma host_verdict_snoc:
  "host_verdict h (rs @ [r]) =
     (if host r = h \<and> net_decision r \<noteq> Prompt then Some (net_decision r) else host_verdict h rs)"
  by (simp add: host_verdict_def)

lemma set_upsert [simp]: "set (upsert_domain xs h) = insert h (set xs)"
  by (auto simp: upsert_domain_def)

lemma distinct_upsert: "distinct xs \<Longrightarrow> distinct (upsert_domain xs h)"
  by (simp add: upsert_domain_def)

text \<open>
  The compiled domain lists are what the last allow or deny rule of each host says: no
  host is listed twice or on both lists, and prompt rules do not count.
\<close>

theorem compiled_network_domains_last_wins:
  "case compiled_network_domains p of (allowed, denied) \<Rightarrow>
     distinct allowed \<and> distinct denied \<and> set allowed \<inter> set denied = {} \<and>
     set allowed = {h. host_verdict h (network_rules p) = Some Allow} \<and>
     set denied = {h. host_verdict h (network_rules p) = Some Forbidden}"
proof -
  have "case fold compile_step rs ([], []) of (allowed, denied) \<Rightarrow>
     distinct allowed \<and> distinct denied \<and>
     set allowed = {h. host_verdict h rs = Some Allow} \<and> set denied = {h. host_verdict h rs = Some Forbidden}" for rs
  proof (induction rs rule: rev_induct)
    case Nil
    show ?case by (simp add: host_verdict_def)
  next
    case (snoc r rs)
    then show ?case
      by (cases "net_decision r")
        (auto simp: compile_step_def host_verdict_snoc distinct_upsert split: prod.splits)
  qed
  from this [of "network_rules p"] show ?thesis
    by (auto simp: compiled_network_domains_def split: prod.splits)
qed

definition host_char_ok :: "uchar \<Rightarrow> bool" where
  "host_char_ok c \<longleftrightarrow> \<not> is_whitespace c \<and> c \<noteq> 42 \<and> c \<noteq> SLASH \<and> c \<noteq> 63 \<and> c \<noteq> 35 \<and> \<not> (65 \<le> c \<and> c \<le> 90)"

lemma set_trim_subset: "set (trim s) \<subseteq> set s"
  unfolding trim_def trim_start_def trim_end_def
  by (metis set_dropWhileD set_rev subsetI)

lemma split_once_set: "split_once d s = Some (a, b) \<Longrightarrow> set a \<subseteq> set s"
  by (auto simp: split_once_def split: list.splits dest: set_takeWhileD)

lemma strip_port_set: "strip_port raw h = Ok h' \<Longrightarrow> set h' \<subseteq> set h"
  by (auto simp: strip_port_def strip_prefix_Some_iff split: option.splits prod.splits if_splits
      dest!: split_once_set)

lemma to_ascii_lowercase_char:
  assumes "c \<in> set (to_ascii_lowercase s)"
  shows "\<not> (65 \<le> c \<and> c \<le> 90)" "c \<in> set s \<or> 97 \<le> c \<and> c \<le> 122"
  using assms by (auto simp: to_ascii_lowercase_def split: if_splits)

lemma normalize_host_shape:
  assumes "normalize_network_rule_host raw = Ok h"
  shows "h \<noteq> [] \<and> list_all host_char_ok h"
proof -
  from assms obtain h1 where t: "SLASH \<notin> set (trim raw)" "63 \<notin> set (trim raw)" "35 \<notin> set (trim raw)"
    and sp: "strip_port raw (trim raw) = (Ok h1 :: ('a policy_error, ustr) result)"
    and h: "h = to_ascii_lowercase (trim (trim_end_dots h1))" "h \<noteq> []" "42 \<notin> set h" "\<not> list_ex is_whitespace h"
    by (auto simp: normalize_network_rule_host_def Let_def split: if_splits)
  have "set (trim (trim_end_dots h1)) \<subseteq> set (trim raw)"
    using set_trim_subset [of "trim_end_dots h1"] strip_port_set [OF sp]
      set_dropWhileD [of _ "\<lambda>c. c = 46" "rev h1"]
    by (fastforce simp: trim_end_dots_def)
  then have "host_char_ok c" if "c \<in> set h" for c
    using that t h(3,4) to_ascii_lowercase_char [of c "trim (trim_end_dots h1)"] h(1)
    by (auto simp: host_char_ok_def list_ex_iff SLASH_def)
  with h(2) show ?thesis by (simp add: list_all_iff)
qed

text \<open>
  A host accepted for a network rule is not empty, in lower case and free of whitespace,
  wildcards and the characters of a path, query or fragment.
\<close>

theorem normalize_network_rule_host_shape:
  assumes "normalize_network_rule_host raw = Ok h"
  shows "h \<noteq> [] \<and> list_all host_char_ok h"
  using assms by (rule normalize_host_shape)

theorem normalize_network_rule_host_shape_witness:
  "list_all host_char_ok (lit ''example.com'')"
proof -
  have "normalize_network_rule_host (lit '' Example.COM.:443 '') =
      (Ok (lit ''example.com'') :: (unit policy_error, ustr) result)" by code_simp
  from normalize_network_rule_host_shape [OF this] show ?thesis by blast
qed

text \<open>
  Normalising is not idempotent: an accepted host can still look like host and port, so
  the line that \<open>amend\<close> writes for it names another host when the policy file is read back.
\<close>

theorem normalize_network_rule_host_not_idempotent:
  "normalize_network_rule_host (lit ''example.com:443.'') = (Ok (lit ''example.com:443'') :: (unit policy_error, ustr) result) \<and>
   normalize_network_rule_host (lit ''example.com:443'') = (Ok (lit ''example.com'') :: (unit policy_error, ustr) result)"
  by (intro conjI) code_simp+

section \<open>Allowed prefixes\<close>

lemma distinct_remdups_adj_sorted: "sorted xs \<Longrightarrow> distinct (remdups_adj xs)"
  by (induction xs rule: remdups_adj.induct) auto

text \<open>
  The allowed prefixes are listed once each, in order, and are exactly the renderings of
  the policy's allow rules.
\<close>

theorem get_allowed_prefixes_spec:
  "sorted (get_allowed_prefixes p) \<and> distinct (get_allowed_prefixes p) \<and>
   set (get_allowed_prefixes p) = rule_prefix ` {r \<in> all_rules p. rule_decision r = Allow}"
proof -
  have "set (get_allowed_prefixes p) = rule_prefix ` {r \<in> all_rules p. rule_decision r = Allow}"
    by (fastforce simp: get_allowed_prefixes_def all_rules_def)
  then show ?thesis
    by (simp add: get_allowed_prefixes_def distinct_remdups_adj_sorted)
qed

end
