(* ===== verification/Exec_Policy_Builder.thy ===== *)
theory Exec_Policy_Builder
  imports Exec_Policy_Correct
begin

text \<open>
  Building a policy: the Starlark built-ins and the \<open>PolicyBuilder\<close> of
  \<open>execpolicy/src/parser.rs\<close>, example validation of \<open>rule.rs\<close>, and the lines \<open>amend.rs\<close>
  appends to a policy file. The interpreter is the list of calls it makes; \<open>shlex::split\<close>
  (\<open>split_words\<close>) and \<open>serde_json::to_string\<close> (\<open>json\<close>) are parameters.
\<close>

section \<open>Values of the policy language\<close>

datatype starlark_value = SStr ustr | SList "starlark_value list" | SOther ustr

fun get_type :: "starlark_value \<Rightarrow> ustr" where
  "get_type (SStr _) = lit ''string''"
| "get_type (SList _) = lit ''list''"
| "get_type (SOther t) = t"

text \<open>\<open>collect::<Result<_>>\<close>: the first error, or all values.\<close>

fun collect_results :: "('a \<Rightarrow> ('e, 'b) result) \<Rightarrow> 'a list \<Rightarrow> ('e, 'b list) result" where
  "collect_results f [] = Ok []"
| "collect_results f (x # xs) =
     and_then (f x) (\<lambda>y. and_then (collect_results f xs) (\<lambda>ys. Ok (y # ys)))"

lemma collect_results_Ok_iff: "collect_results f xs = Ok ys \<longleftrightarrow> list_all2 (\<lambda>x y. f x = Ok y) xs ys"
  by (induction xs arbitrary: ys) (auto simp: list_all2_Cons1)

definition unpack_str ::
  "(ustr \<Rightarrow> 'loc policy_error) \<Rightarrow> ustr \<Rightarrow> starlark_value \<Rightarrow> ('loc policy_error, ustr) result" where
  "unpack_str mk msg v = (case v of
       SStr s \<Rightarrow> Ok s
     | _ \<Rightarrow> Err (mk (msg @ lit '' (got '' @ get_type v @ lit '')'')))"

definition parse_pattern_token :: "starlark_value \<Rightarrow> ('loc policy_error, pattern_token) result" where
  "parse_pattern_token v = (case v of
       SStr s \<Rightarrow> Ok (Single s)
     | SList items \<Rightarrow>
         and_then (collect_results (unpack_str InvalidPattern (lit ''pattern alternative must be a string'')) items)
           (\<lambda>tokens. case tokens of
               [] \<Rightarrow> Err (InvalidPattern (lit ''pattern alternatives cannot be empty''))
             | [single] \<Rightarrow> Ok (Single single)
             | _ \<Rightarrow> Ok (Alts tokens))
     | SOther t \<Rightarrow> Err (InvalidPattern (lit ''pattern element must be a string or list of strings (got '' @ t @ lit '')'')))"

definition parse_pattern :: "starlark_value list \<Rightarrow> ('loc policy_error, pattern_token list) result" where
  "parse_pattern items =
     and_then (collect_results parse_pattern_token items) (\<lambda>tokens.
       if tokens = [] then Err (InvalidPattern (lit ''pattern cannot be empty'')) else Ok tokens)"

definition parse_string_example ::
  "(ustr \<Rightarrow> ustr list option) \<Rightarrow> ustr \<Rightarrow> ('loc policy_error, ustr list) result" where
  "parse_string_example split_words raw = (case split_words raw of
       None \<Rightarrow> Err (InvalidExample (lit ''example string has invalid shell syntax''))
     | Some [] \<Rightarrow> Err (InvalidExample (lit ''example cannot be an empty string''))
     | Some tokens \<Rightarrow> Ok tokens)"

definition parse_list_example :: "starlark_value list \<Rightarrow> ('loc policy_error, ustr list) result" where
  "parse_list_example items =
     and_then (collect_results (unpack_str InvalidExample (lit ''example tokens must be strings'')) items)
       (\<lambda>tokens. if tokens = [] then Err (InvalidExample (lit ''example cannot be an empty list'')) else Ok tokens)"

definition parse_example ::
  "(ustr \<Rightarrow> ustr list option) \<Rightarrow> starlark_value \<Rightarrow> ('loc policy_error, ustr list) result" where
  "parse_example split_words v = (case v of
       SStr raw \<Rightarrow> parse_string_example split_words raw
     | SList items \<Rightarrow> parse_list_example items
     | SOther t \<Rightarrow> Err (InvalidExample (lit ''example must be a string or list of strings (got '' @ t @ lit '')'')))"

definition parse_examples ::
  "(ustr \<Rightarrow> ustr list option) \<Rightarrow> starlark_value list option \<Rightarrow> ('loc policy_error, ustr list list) result" where
  "parse_examples split_words vs = (case vs of
       None \<Rightarrow> Ok []
     | Some items \<Rightarrow> collect_results (parse_example split_words) items)"

section \<open>Example validation\<close>

text \<open>\<open>validate_match_examples\<close> collects every unmatched example; its twin stops at the first match.\<close>

definition validate_match_examples ::
  "host_env \<Rightarrow> policy \<Rightarrow> ustr list list \<Rightarrow> ('loc policy_error, unit) result" where
  "validate_match_examples env p examples =
     (let unmatched = filter (\<lambda>ex. matches_for_command_with_options env p ex None True = []) examples
      in if unmatched = [] then Ok () else Err (ExampleDidNotMatch unmatched None))"

fun validate_not_match_examples ::
  "host_env \<Rightarrow> policy \<Rightarrow> ustr list list \<Rightarrow> ('loc policy_error, unit) result" where
  "validate_not_match_examples env p [] = Ok ()"
| "validate_not_match_examples env p (ex # exs) =
     (if matches_for_command_with_options env p ex None True \<noteq> [] then Err (ExampleDidMatch ex None)
      else validate_not_match_examples env p exs)"

record 'loc pending_example_validation =
  pv_rules :: "prefix_rule list"
  pv_matches :: "ustr list list"
  pv_not_matches :: "ustr list list"
  pv_location :: "'loc option"

record 'loc policy_builder =
  built :: policy
  pending_example_validations :: "'loc pending_example_validation list"

definition new_builder :: "'loc policy_builder" where
  "new_builder = \<lparr>built = empty_policy, pending_example_validations = []\<rparr>"

definition attach_validation_location :: "'loc option \<Rightarrow> ('loc policy_error, 'a) result \<Rightarrow> ('loc policy_error, 'a) result" where
  "attach_validation_location loc r = (case r of
       Ok a \<Rightarrow> Ok a
     | Err e \<Rightarrow> Err (case loc of Some l \<Rightarrow> with_location e l | None \<Rightarrow> e))"

definition validation_policy :: "policy \<Rightarrow> 'loc pending_example_validation \<Rightarrow> policy" where
  "validation_policy p v =
     \<lparr>rules_by_program = fold (\<lambda>r. multi_insert (program r) r) (pv_rules v) [],
      network_rules = [], host_executables_by_name = host_executables_by_name p\<rparr>"

fun validate_examples ::
  "host_env \<Rightarrow> policy \<Rightarrow> 'loc pending_example_validation list \<Rightarrow> ('loc policy_error, unit) result" where
  "validate_examples env p [] = Ok ()"
| "validate_examples env p (v # vs) =
     and_then (attach_validation_location (pv_location v)
       (validate_not_match_examples env (validation_policy p v) (pv_not_matches v))) (\<lambda>_.
     and_then (attach_validation_location (pv_location v)
       (validate_match_examples env (validation_policy p v) (pv_matches v))) (\<lambda>_.
     validate_examples env p vs))"

definition validate_pending_examples_from ::
  "host_env \<Rightarrow> 'loc policy_builder \<Rightarrow> nat \<Rightarrow> ('loc policy_error, unit) result" where
  "validate_pending_examples_from env b start =
     validate_examples env (built b) (drop start (pending_example_validations b))"

section \<open>The built-ins\<close>

definition add_rule :: "prefix_rule \<Rightarrow> policy \<Rightarrow> policy" where
  "add_rule r p = p\<lparr>rules_by_program := multi_insert (program r) r (rules_by_program p)\<rparr>"

text \<open>One rule per alternative of the first token.\<close>

definition expand_rules :: "pattern_token list \<Rightarrow> decision \<Rightarrow> ustr option \<Rightarrow> prefix_rule list" where
  "expand_rules tokens d j = map
     (\<lambda>head. \<lparr>rule_pattern = \<lparr>pat_first = head, pat_rest = tl tokens\<rparr>, rule_decision = d, rule_justification = j\<rparr>)
     (alternatives (hd tokens))"

datatype 'loc builtin_call =
    PrefixRuleCall "starlark_value list" "ustr option" "starlark_value list option"
      "starlark_value list option" "ustr option" "'loc option"
  | NetworkRuleCall ustr ustr ustr "ustr option"
  | HostExecutableCall ustr "starlark_value list"

definition prefix_rule_builtin ::
  "(ustr \<Rightarrow> ustr list option) \<Rightarrow> 'loc policy_builder \<Rightarrow> starlark_value list \<Rightarrow> ustr option \<Rightarrow>
     starlark_value list option \<Rightarrow> starlark_value list option \<Rightarrow> ustr option \<Rightarrow> 'loc option \<Rightarrow>
     ('loc policy_error, 'loc policy_builder) result" where
  "prefix_rule_builtin split_words b pattern d matches not_matches j loc =
     and_then (case d of Some raw \<Rightarrow> parse_decision raw | None \<Rightarrow> Ok Allow) (\<lambda>dec.
     and_then (check_justification j) (\<lambda>_.
     and_then (parse_pattern pattern) (\<lambda>tokens.
     and_then (parse_examples split_words matches) (\<lambda>ms.
     and_then (parse_examples split_words not_matches) (\<lambda>ns.
       let rules = expand_rules tokens dec j in
       Ok \<lparr>built = fold add_rule rules (built b),
           pending_example_validations = pending_example_validations b @
             [\<lparr>pv_rules = rules, pv_matches = ms, pv_not_matches = ns, pv_location = loc\<rparr>]\<rparr>)))))"

definition parse_network_rule_decision :: "ustr \<Rightarrow> ('loc policy_error, decision) result" where
  "parse_network_rule_decision raw = (if raw = lit ''deny'' then Ok Forbidden else parse_decision raw)"

definition network_rule_builtin ::
  "'loc policy_builder \<Rightarrow> ustr \<Rightarrow> ustr \<Rightarrow> ustr \<Rightarrow> ustr option \<Rightarrow>
     ('loc policy_error, 'loc policy_builder) result" where
  "network_rule_builtin b h proto d j =
     and_then (parse_protocol proto) (\<lambda>pr.
     and_then (parse_network_rule_decision d) (\<lambda>dec.
     and_then (check_justification j) (\<lambda>_.
     and_then (normalize_network_rule_host h) (\<lambda>nh.
       Ok (b\<lparr>built := (built b)\<lparr>network_rules := network_rules (built b) @
         [\<lparr>host = nh, protocol = pr, net_decision = dec, net_justification = j\<rparr>]\<rparr>\<rparr>)))))"

text \<open>A name with one path component that is the name itself: no separator, not \<open>.\<close> or \<open>..\<close>.\<close>

definition validate_host_executable_name :: "ustr \<Rightarrow> ('loc policy_error, unit) result" where
  "validate_host_executable_name name =
     (if name = [] then Err (InvalidRule (lit ''host_executable name cannot be empty''))
      else if SLASH \<in> set name \<or> name = lit ''.'' \<or> name = lit ''..'' then
        Err (InvalidRule (lit ''host_executable name must be a bare executable name (got '' @ name @ lit '')''))
      else Ok ())"

definition parse_literal_absolute_path :: "host_env \<Rightarrow> ustr \<Rightarrow> ('loc policy_error, path_uri) result" where
  "parse_literal_absolute_path env raw =
     (if \<not> starts_with [SLASH] raw then
        Err (InvalidRule (lit ''host_executable paths must be absolute (got '' @ raw @ lit '')''))
      else case from_absolute_path env raw of
          Some p \<Rightarrow> Ok p
        | None \<Rightarrow> Err (InvalidRule (lit ''invalid absolute path `'' @ raw @ lit ''`'')))"

definition host_path :: "host_env \<Rightarrow> ustr \<Rightarrow> starlark_value \<Rightarrow> ('loc policy_error, path_uri) result" where
  "host_path env name v =
     and_then (unpack_str InvalidRule (lit ''host_executable paths must be strings'') v) (\<lambda>raw.
     and_then (parse_literal_absolute_path env raw) (\<lambda>p.
       if executable_path_lookup_key p = Some name then Ok p
       else Err (InvalidRule (lit ''host_executable path `'' @ raw @ lit ''` must have basename `'' @ name @ lit ''`''))))"

fun host_paths ::
  "host_env \<Rightarrow> ustr \<Rightarrow> starlark_value list \<Rightarrow> path_uri list \<Rightarrow> ('loc policy_error, path_uri list) result" where
  "host_paths env name [] parsed = Ok parsed"
| "host_paths env name (v # vs) parsed =
     and_then (host_path env name v) (\<lambda>p.
       host_paths env name vs (if list_ex (\<lambda>q. q = p) parsed then parsed else parsed @ [p]))"

definition host_executable_builtin ::
  "host_env \<Rightarrow> 'loc policy_builder \<Rightarrow> ustr \<Rightarrow> starlark_value list \<Rightarrow>
     ('loc policy_error, 'loc policy_builder) result" where
  "host_executable_builtin env b name paths =
     and_then (validate_host_executable_name name) (\<lambda>_.
     and_then (host_paths env name paths []) (\<lambda>ps.
       Ok (b\<lparr>built := set_host_executable_paths (built b) name ps\<rparr>)))"

definition builder_step ::
  "host_env \<Rightarrow> (ustr \<Rightarrow> ustr list option) \<Rightarrow> 'loc policy_builder \<Rightarrow> 'loc builtin_call \<Rightarrow>
     ('loc policy_error, 'loc policy_builder) result" where
  "builder_step env split_words b c = (case c of
       PrefixRuleCall pattern d ms ns j loc \<Rightarrow> prefix_rule_builtin split_words b pattern d ms ns j loc
     | NetworkRuleCall h proto d j \<Rightarrow> network_rule_builtin b h proto d j
     | HostExecutableCall name paths \<Rightarrow> host_executable_builtin env b name paths)"

text \<open>\<open>PolicyParser::parse\<close> of a file that makes these calls, for a run without error.\<close>

definition parse_policy ::
  "host_env \<Rightarrow> (ustr \<Rightarrow> ustr list option) \<Rightarrow> 'loc policy_builder \<Rightarrow> 'loc builtin_call list \<Rightarrow>
     ('loc policy_error, 'loc policy_builder) result" where
  "parse_policy env split_words b calls =
     and_then (run (builder_step env split_words) b calls) (\<lambda>b'.
     and_then (validate_pending_examples_from env b' (length (pending_example_validations b))) (\<lambda>_.
       Ok b'))"

section \<open>Amending a policy file\<close>

text \<open>\<open>InvalidNetworkRule\<close> holds the error whose rendering the code holds, or the text itself.\<close>

datatype amend_error = EmptyPrefix | InvalidNetworkRule "unit policy_error + ustr"

definition append_locked_line :: "ustr \<Rightarrow> ustr \<Rightarrow> ustr" where
  "append_locked_line contents line =
     (if list_ex (\<lambda>existing. existing = line) (str_lines contents) then contents
      else contents @ (if contents \<noteq> [] \<and> \<not> ends_with [LF] contents then [LF] else []) @ line @ [LF])"

definition allow_prefix_rule_line :: "(ustr \<Rightarrow> ustr) \<Rightarrow> ustr list \<Rightarrow> ustr" where
  "allow_prefix_rule_line json prefix =
     lit ''prefix_rule(pattern=['' @ join_with (lit '', '') (map json prefix) @
     lit ''], decision='' @ [34] @ lit ''allow'' @ [34] @ lit '')''"

definition append_allow_prefix_rule ::
  "(ustr \<Rightarrow> ustr) \<Rightarrow> ustr list \<Rightarrow> ustr \<Rightarrow> (amend_error, ustr) result" where
  "append_allow_prefix_rule json prefix contents =
     (if prefix = [] then Err EmptyPrefix
      else Ok (append_locked_line contents (allow_prefix_rule_line json prefix)))"

fun decision_word :: "decision \<Rightarrow> ustr" where
  "decision_word Allow = lit ''allow''"
| "decision_word Prompt = lit ''prompt''"
| "decision_word Forbidden = lit ''deny''"

definition network_rule_line ::
  "(ustr \<Rightarrow> ustr) \<Rightarrow> ustr \<Rightarrow> network_rule_protocol \<Rightarrow> decision \<Rightarrow> ustr option \<Rightarrow> ustr" where
  "network_rule_line json h proto d j =
     lit ''network_rule('' @ join_with (lit '', '')
       ([lit ''host='' @ json h, lit ''protocol='' @ json (as_policy_string proto),
         lit ''decision='' @ json (decision_word d)] @
        (case j of Some t \<Rightarrow> [lit ''justification='' @ json t] | None \<Rightarrow> [])) @ lit '')''"

definition append_network_rule ::
  "(ustr \<Rightarrow> ustr) \<Rightarrow> ustr \<Rightarrow> network_rule_protocol \<Rightarrow> decision \<Rightarrow> ustr option \<Rightarrow> ustr \<Rightarrow>
     (amend_error, ustr) result" where
  "append_network_rule json h proto d j contents =
     (case normalize_network_rule_host h of
        Err e \<Rightarrow> Err (InvalidNetworkRule (Inl e))
      | Ok nh \<Rightarrow>
          if (case j of Some raw \<Rightarrow> trim raw = [] | None \<Rightarrow> False) then
            Err (InvalidNetworkRule (Inr (lit ''justification cannot be empty'')))
          else Ok (append_locked_line contents (network_rule_line json nh proto d j)))"

section \<open>Examples are enforced\<close>

lemma attach_validation_location_Ok [simp]: "attach_validation_location l r = Ok a \<longleftrightarrow> r = Ok a"
  by (auto simp: attach_validation_location_def split: sum.splits)

lemma validate_match_examples_Ok:
  "validate_match_examples env p exs = Ok u \<longleftrightarrow>
     (\<forall>ex\<in>set exs. matches_for_command_with_options env p ex None True \<noteq> [])"
  by (auto simp: validate_match_examples_def Let_def filter_empty_conv split: if_splits)

lemma validate_not_match_examples_Ok:
  "validate_not_match_examples env p exs = Ok u \<longleftrightarrow>
     (\<forall>ex\<in>set exs. matches_for_command_with_options env p ex None True = [])"
  by (induction env p exs rule: validate_not_match_examples.induct) auto

lemma validate_examples_Ok:
  "validate_examples env p vs = Ok u \<longleftrightarrow> (\<forall>v\<in>set vs.
     (\<forall>ex\<in>set (pv_matches v). matches_for_command_with_options env (validation_policy p v) ex None True \<noteq> []) \<and>
     (\<forall>ex\<in>set (pv_not_matches v). matches_for_command_with_options env (validation_policy p v) ex None True = []))"
  by (induction vs) (auto simp: validate_match_examples_Ok validate_not_match_examples_Ok)

text \<open>
  A policy file that loads has honest examples: for each \<open>prefix_rule\<close> it declares, its own
  rules match every \<open>match\<close> example and none of the \<open>not_match\<close> examples, with host
  executables resolved the way the finished policy lists them.
\<close>

theorem parse_policy_examples_hold:
  assumes "parse_policy env split_words b calls = Ok b'"
    and "v \<in> set (drop (length (pending_example_validations b)) (pending_example_validations b'))"
  shows "(\<forall>ex\<in>set (pv_matches v). matches_for_command_with_options env (validation_policy (built b') v) ex None True \<noteq> []) \<and>
    (\<forall>ex\<in>set (pv_not_matches v). matches_for_command_with_options env (validation_policy (built b') v) ex None True = [])"
  using assms by (auto simp: parse_policy_def validate_pending_examples_from_def validate_examples_Ok)

definition sample_calls :: "nat builtin_call list" where
  "sample_calls =
     [PrefixRuleCall [SList [SStr (lit ''npm''), SStr (lit ''yarn'')], SStr (lit ''ci'')] (Some (lit ''prompt''))
        (Some [SList [SStr (lit ''yarn''), SStr (lit ''ci'')]]) (Some [SList [SStr (lit ''npm'')]]) None (Some 3),
      NetworkRuleCall (lit ''Registry.example:443'') (lit ''https'') (lit ''deny'') None,
      HostExecutableCall (lit ''npm'') [SStr (lit ''/usr/bin/npm'')]]"

definition sample_validation :: "nat pending_example_validation" where
  "sample_validation = \<lparr>pv_rules = expand_rules [Alts [lit ''npm'', lit ''yarn''], Single (lit ''ci'')] Prompt None,
     pv_matches = [[lit ''yarn'', lit ''ci'']], pv_not_matches = [[lit ''npm'']], pv_location = Some 3\<rparr>"

definition sample_builder :: "nat policy_builder" where
  "sample_builder = \<lparr>built = \<lparr>
       rules_by_program = map (\<lambda>r. (program r, [r])) (pv_rules sample_validation),
       network_rules = [\<lparr>host = lit ''registry.example'', protocol = Https, net_decision = Forbidden, net_justification = None\<rparr>],
       host_executables_by_name = [(lit ''npm'', [[lit ''usr'', lit ''bin'', lit ''npm'']])]\<rparr>,
     pending_example_validations = [sample_validation]\<rparr>"

lemma sample_parse_policy: "parse_policy no_env (\<lambda>_. None) new_builder sample_calls = Ok sample_builder"
  by code_simp

theorem parse_policy_examples_hold_witness:
  "matches_for_command_with_options no_env (validation_policy (built sample_builder) sample_validation)
     [lit ''yarn'', lit ''ci''] None True \<noteq> []"
  using parse_policy_examples_hold [OF sample_parse_policy, of sample_validation]
  by (simp add: new_builder_def sample_builder_def) (simp add: sample_validation_def)

section \<open>What the builder maintains\<close>

definition hosts_ok :: "(ustr \<times> path_uri list) list \<Rightarrow> bool" where
  "hosts_ok hs \<longleftrightarrow> (\<forall>(n, ps) \<in> set hs. distinct ps \<and> (\<forall>p\<in>set ps. file_name p = Some n))"

definition builder_ok :: "'loc policy_builder \<Rightarrow> bool" where
  "builder_ok b \<longleftrightarrow> policy_ok (built b) \<and>
     (\<forall>r\<in>set (network_rules (built b)). host r \<noteq> [] \<and> list_all host_char_ok (host r)) \<and>
     hosts_ok (host_executables_by_name (built b))"

lemma fold_add_rule:
  "network_rules (fold add_rule rs p) = network_rules p"
  "host_executables_by_name (fold add_rule rs p) = host_executables_by_name p"
  "policy_ok p \<Longrightarrow> policy_ok (fold add_rule rs p)"
  by (induction rs arbitrary: p) (simp_all add: add_rule_def policy_ok_def table_ok_multi_insert)

lemma all_rules_add_rule: "policy_ok p \<Longrightarrow> all_rules (add_rule r p) = insert r (all_rules p)"
proof -
  assume "policy_ok p"
  moreover have "policy_ok (add_rule r p)"
    using \<open>policy_ok p\<close> by (simp add: policy_ok_def add_rule_def table_ok_multi_insert)
  ultimately show ?thesis
    by (intro set_eqI) (auto simp: all_rules_get_vec get_vec_multi_insert add_rule_def split: if_splits)
qed

lemma all_rules_fold_add_rule:
  "policy_ok p \<Longrightarrow> all_rules (fold add_rule rs p) = all_rules p \<union> set rs"
proof (induction rs arbitrary: p)
  case (Cons r rs)
  have "policy_ok (add_rule r p)" using fold_add_rule(3) [OF Cons.prems, of "[r]"] by simp
  with Cons show ?case by (simp add: all_rules_add_rule)
qed simp

lemma host_path_Ok: "host_path env name v = Ok p \<Longrightarrow> file_name p = Some name"
  by (auto simp: host_path_def executable_path_lookup_key_def split: if_splits)

lemma host_paths_ok:
  assumes "host_paths env name vs parsed = (Ok ps :: ('loc policy_error, path_uri list) result)" "distinct parsed" "\<forall>p\<in>set parsed. file_name p = Some name"
  shows "distinct ps \<and> (\<forall>p\<in>set ps. file_name p = Some name)"
  using assms
proof (induction env name vs parsed rule: host_paths.induct)
  case (2 env name v vs parsed)
  then obtain p where p: "host_path env name v = (Ok p :: ('loc policy_error, path_uri) result)"
    "host_paths env name vs (if list_ex (\<lambda>q. q = p) parsed then parsed else parsed @ [p]) =
       (Ok ps :: ('loc policy_error, path_uri list) result)"
    by auto
  show ?case
    by (rule "2.IH" [OF p(2)]) (use 2 host_path_Ok [OF p(1)] in \<open>auto simp: list_ex_iff\<close>)
qed simp

lemma prefix_rule_builtin_Ok:
  fixes b' :: "'loc policy_builder"
  assumes "prefix_rule_builtin sw b pattern d ms ns j loc = (Ok b' :: ('loc policy_error, 'loc policy_builder) result)"
  shows "\<exists>dec tokens. parse_pattern pattern = (Ok tokens :: ('loc policy_error, pattern_token list) result) \<and>
    (case d of Some raw \<Rightarrow> parse_decision raw | None \<Rightarrow> Ok Allow) = (Ok dec :: ('loc policy_error, decision) result) \<and>
    built b' = fold add_rule (expand_rules tokens dec j) (built b)"
  using assms by (auto simp: prefix_rule_builtin_def Let_def)

interpretation builder: fallible_machine "builder_step env split_words" builder_ok for env split_words
proof
  fix b b' :: "'a policy_builder" and c
  assume ok: "builder_ok b" and st: "builder_step env split_words b c = Ok b'"
  show "builder_ok b'"
  proof (cases c)
    case (PrefixRuleCall pattern d ms ns j loc)
    with st obtain rs where "built b' = fold add_rule rs (built b)"
      by (auto simp: builder_step_def dest: prefix_rule_builtin_Ok)
    with ok show ?thesis by (simp add: builder_ok_def fold_add_rule)
  next
    case (NetworkRuleCall h proto d j)
    with st obtain nh pr dec where "built b' = (built b)\<lparr>network_rules := network_rules (built b) @
          [\<lparr>host = nh, protocol = pr, net_decision = dec, net_justification = j\<rparr>]\<rparr>"
        and "normalize_network_rule_host h = (Ok nh :: ('a policy_error, ustr) result)"
      by (auto simp: builder_step_def network_rule_builtin_def)
    with ok normalize_host_shape [of h nh] show ?thesis
      by (auto simp: builder_ok_def policy_ok_def)
  next
    case (HostExecutableCall name paths)
    with st obtain ps where "built b' = set_host_executable_paths (built b) name ps"
        "host_paths env name paths [] = (Ok ps :: ('a policy_error, path_uri list) result)"
      by (auto simp: builder_step_def host_executable_builtin_def)
    with ok host_paths_ok [of env name paths "[]" ps] show ?thesis
      by (auto simp: builder_ok_def set_host_executable_paths_def policy_ok_def hosts_ok_def)
  qed
qed

text \<open>
  A policy built from any files is consistent: rules are filed under their program, every
  network host is a normalised specific host, and every path listed for a host executable
  has that basename and is listed once.
\<close>

theorem parse_policy_builder_ok:
  assumes "builder_ok b" "parse_policy env split_words b calls = Ok b'"
  shows "builder_ok b'"
  using builder.run_inv [OF assms(1)] assms(2) by (auto simp: parse_policy_def)

lemma new_builder_ok: "builder_ok new_builder"
  by (simp add: builder_ok_def new_builder_def empty_policy_def policy_ok_def table_ok_def hosts_ok_def)

theorem parse_policy_builder_ok_witness: "builder_ok sample_builder"
  using parse_policy_builder_ok [OF new_builder_ok sample_parse_policy] .

lemma expand_rules_apply:
  assumes "tokens \<noteq> []"
  shows "(\<exists>r\<in>set (expand_rules tokens d j). rule_applies r cmd) \<longleftrightarrow>
    (\<exists>pre rest. cmd = pre @ rest \<and> list_all2 (\<lambda>t w. w \<in> set (alternatives t)) tokens pre)"
proof -
  obtain t ts where t: "tokens = t # ts" using assms by (cases tokens) auto
  have "(\<exists>r\<in>set (expand_rules tokens d j). rule_applies r cmd) \<longleftrightarrow>
      (\<exists>h\<in>set (alternatives t). \<exists>pre rest. cmd = pre @ rest \<and>
         list_all2 (\<lambda>t w. w \<in> set (alternatives t)) (Single h # ts) pre)"
    by (auto simp: expand_rules_def rule_applies_def pattern_tokens_def t)
  also have "\<dots> \<longleftrightarrow> (\<exists>pre rest. cmd = pre @ rest \<and> list_all2 (\<lambda>t w. w \<in> set (alternatives t)) tokens pre)"
    by (auto simp: t list_all2_Cons1)
  finally show ?thesis .
qed

text \<open>
  A \<open>prefix_rule\<close> call adds rules that cover exactly the commands whose first words are
  taken, position by position, from the alternatives of its pattern, the first position
  included, all with the call's decision; earlier rules stay.
\<close>

theorem prefix_rule_builtin_effect:
  fixes b b' :: "'loc policy_builder"
  assumes "builder_ok b" "builder_step env split_words b (PrefixRuleCall pattern d ms ns j loc) = Ok b'"
  shows "\<exists>tokens dec new. parse_pattern pattern = (Ok tokens :: ('loc policy_error, pattern_token list) result) \<and>
    all_rules (built b') = all_rules (built b) \<union> new \<and> (\<forall>r\<in>new. rule_decision r = dec) \<and>
    dec = (case d of None \<Rightarrow> Allow | Some raw \<Rightarrow>
             if raw = lit ''allow'' then Allow else if raw = lit ''prompt'' then Prompt else Forbidden) \<and>
    (\<forall>cmd. (\<exists>r\<in>new. rule_applies r cmd) \<longleftrightarrow>
       (\<exists>pre rest. cmd = pre @ rest \<and> list_all2 (\<lambda>t w. w \<in> set (alternatives t)) tokens pre))"
proof -
  from assms(2) have pb: "prefix_rule_builtin split_words b pattern d ms ns j loc = Ok b'"
    by (simp add: builder_step_def)
  from prefix_rule_builtin_Ok [OF pb] obtain dec tokens where
      t: "parse_pattern pattern = (Ok tokens :: ('loc policy_error, pattern_token list) result)"
    and dec: "(case d of Some raw \<Rightarrow> parse_decision raw | None \<Rightarrow> Ok Allow) = (Ok dec :: ('loc policy_error, decision) result)"
    and b': "built b' = fold add_rule (expand_rules tokens dec j) (built b)"
    by blast
  let ?new = "set (expand_rules tokens dec j)"
  have ne: "tokens \<noteq> []" using t by (auto simp: parse_pattern_def split: if_splits)
  have all: "all_rules (built b') = all_rules (built b) \<union> ?new"
    using assms(1) b' by (simp add: all_rules_fold_add_rule builder_ok_def)
  have d: "\<forall>r\<in>?new. rule_decision r = dec" by (auto simp: expand_rules_def)
  have "dec = (case d of None \<Rightarrow> Allow | Some raw \<Rightarrow>
      if raw = lit ''allow'' then Allow else if raw = lit ''prompt'' then Prompt else Forbidden)"
    using dec by (auto simp: parse_decision_def simp del: lit_simps split: option.splits if_splits)
  with t all d expand_rules_apply [OF ne, of dec j] show ?thesis by blast
qed

theorem prefix_rule_builtin_effect_witness:
  "\<exists>b' r. builder_step no_env (\<lambda>_. None) (new_builder :: unit policy_builder)
      (PrefixRuleCall [SList [SStr (lit ''npm''), SStr (lit ''yarn'')]] None None None None None) = Ok b' \<and>
    r \<in> all_rules (built b') \<and> rule_applies r [lit ''yarn'', lit ''x''] \<and> rule_decision r = Allow"
proof -
  let ?call = "PrefixRuleCall [SList [SStr (lit ''npm''), SStr (lit ''yarn'')]] None None None None None"
  have tok: "parse_pattern [SList [SStr (lit ''npm''), SStr (lit ''yarn'')]] =
      (Ok [Alts [lit ''npm'', lit ''yarn'']] :: (unit policy_error, pattern_token list) result)"
    by code_simp
  obtain b' where b': "builder_step no_env (\<lambda>_. None) (new_builder :: unit policy_builder) ?call = Ok b'"
    using tok by (simp add: builder_step_def prefix_rule_builtin_def check_justification_def parse_examples_def Let_def)
  have "\<exists>pre rest. [lit ''yarn'', lit ''x''] = pre @ rest \<and>
      list_all2 (\<lambda>t w. w \<in> set (alternatives t)) [Alts [lit ''npm'', lit ''yarn'']] pre"
    by (rule exI [of _ "[lit ''yarn'']"]) simp
  with prefix_rule_builtin_effect [OF new_builder_ok b'] tok
  obtain r where "r \<in> all_rules (built b')" "rule_applies r [lit ''yarn'', lit ''x'']" "rule_decision r = Allow"
    by (metis (no_types, lifting) Inr_inject UnCI option.simps(4))
  with b' show ?thesis by blast
qed

section \<open>Amending keeps the file\<close>

definition proper_line :: "ustr \<Rightarrow> bool" where
  "proper_line l \<longleftrightarrow> l \<noteq> [] \<and> LF \<notin> set l \<and> last l \<noteq> CR"

lemma str_lines_snoc_LF:
  assumes "c = [] \<or> ends_with [LF] c" "proper_line l"
  shows "str_lines (c @ l @ [LF]) = str_lines c @ [l]"
proof -
  have l: "strip_cr l = l" "split_on LF l = [l]"
    using assms(2) by (simp_all add: proper_line_def strip_cr_id split_on_no_sep)
  show ?thesis
  proof (cases "c = []")
    case True
    with l str_lines_LF [of l] show ?thesis by (simp add: str_lines_def [of "[]"])
  next
    case False
    with assms obtain c' where c: "c = c' @ [LF]" by (auto simp: ends_with_iff)
    with l str_lines_LF [of "c @ l"] str_lines_LF [of c'] split_on_append_sep [of LF c' l]
    show ?thesis by simp
  qed
qed

lemma str_lines_terminate:
  assumes "c \<noteq> []" "\<not> ends_with [LF] c" "last c \<noteq> CR"
  shows "str_lines (c @ [LF]) = str_lines c"
proof -
  obtain c' x where c: "c = c' @ [x]" using assms(1) by (cases c rule: rev_cases) auto
  with assms have "x \<noteq> LF" "x \<noteq> CR" by (auto simp: ends_with_iff)
  then show ?thesis
    using c str_lines_LF [of c] split_on_snoc [of x LF c'] by (simp add: str_lines_def strip_cr_id)
qed

lemma append_locked_line_lines_aux:
  assumes "proper_line line" "contents = [] \<or> last contents \<noteq> CR"
  shows "str_lines (append_locked_line contents line) =
      (if line \<in> set (str_lines contents) then str_lines contents else str_lines contents @ [line])"
proof -
  let ?sep = "if contents \<noteq> [] \<and> \<not> ends_with [LF] contents then [LF] else []"
  have "str_lines (contents @ ?sep @ line @ [LF]) = str_lines contents @ [line]"
  proof (cases "contents = [] \<or> ends_with [LF] contents")
    case True
    with str_lines_snoc_LF [OF True assms(1)] show ?thesis by auto
  next
    case False
    then have "ends_with [LF] (contents @ [LF])" by (simp add: ends_with_iff)
    with False str_lines_snoc_LF [of "contents @ [LF]" line] str_lines_terminate [of contents] assms
    show ?thesis by auto
  qed
  then show ?thesis by (auto simp: append_locked_line_def list_ex_iff)
qed

text \<open>
  Appending a rule line to a policy file keeps every line that was there and their order,
  adds the line at the end unless it is already present, and is idempotent.
\<close>

theorem append_locked_line_lines:
  assumes "proper_line line" "contents = [] \<or> last contents \<noteq> CR"
  shows "str_lines (append_locked_line contents line) =
      (if line \<in> set (str_lines contents) then str_lines contents else str_lines contents @ [line]) \<and>
    append_locked_line (append_locked_line contents line) line = append_locked_line contents line"
proof
  show "str_lines (append_locked_line contents line) =
      (if line \<in> set (str_lines contents) then str_lines contents else str_lines contents @ [line])"
    using assms by (rule append_locked_line_lines_aux)
  then have "line \<in> set (str_lines (append_locked_line contents line))" by auto
  then show "append_locked_line (append_locked_line contents line) line = append_locked_line contents line"
    by (simp add: append_locked_line_def [of "append_locked_line contents line"] list_ex_iff)
qed

theorem append_locked_line_lines_witness:
  "str_lines (append_locked_line (lit ''a'' @ [LF] @ lit ''b'') (lit ''rule'')) = [lit ''a'', lit ''b'', lit ''rule'']"
proof -
  have "str_lines (lit ''a'' @ [LF] @ lit ''b'') = [lit ''a'', lit ''b'']" by code_simp
  with append_locked_line_lines [of "lit ''rule''" "lit ''a'' @ [LF] @ lit ''b''"] show ?thesis
    by (simp add: proper_line_def)
qed

end
