(* ===== verification/Truncation.thy ===== *)
theory Truncation
  imports Prelude
begin

text \<open>
  Truncating tool output in the middle: \<open>utils/string/src/truncate.rs\<close>, the policies of
  \<open>protocol/src/protocol.rs\<close> and \<open>utils/output-truncation/src/lib.rs\<close>.

  Lengths are byte lengths of the UTF-8 encoding, as natural numbers; the sums and products
  the code saturates are saturated at \<open>usize::MAX\<close> of a 64-bit host.
\<close>

section \<open>Numbers\<close>

definition USIZE_MAX :: nat where "USIZE_MAX = 2 ^ 64 - 1"

definition saturating_usize_add :: "nat \<Rightarrow> nat \<Rightarrow> nat" where
  "saturating_usize_add a b = (if int a + int b > 2 ^ 64 - 1 then USIZE_MAX else a + b)"

lemma saturating_usize_add_min: "saturating_usize_add a b = min USIZE_MAX (a + b)"
  by (auto simp: saturating_usize_add_def USIZE_MAX_def min_def)

text \<open>\<open>saturating_add (4 - 1)\<close> and \<open>saturating_mul 4\<close>.\<close>

definition APPROX_BYTES_PER_TOKEN :: nat where "APPROX_BYTES_PER_TOKEN = 4"

definition saturating_add3 :: "nat \<Rightarrow> nat" where
  "saturating_add3 n = (if int n + 3 > 2 ^ 64 - 1 then USIZE_MAX else n + 3)"

definition approx_token_count :: "ustr \<Rightarrow> nat" where
  "approx_token_count text = saturating_add3 (utf8_len text) div APPROX_BYTES_PER_TOKEN"

definition saturating_mul4 :: "nat \<Rightarrow> nat" where
  "saturating_mul4 n = (if int n * 4 > 2 ^ 64 - 1 then USIZE_MAX else n * 4)"

definition approx_bytes_for_tokens :: "nat \<Rightarrow> nat" where
  "approx_bytes_for_tokens tokens = saturating_mul4 tokens"

definition approx_tokens_from_byte_count :: "nat \<Rightarrow> nat" where
  "approx_tokens_from_byte_count bytes = saturating_add3 bytes div APPROX_BYTES_PER_TOKEN"

text \<open>\<open>Display\<close> of an unsigned integer.\<close>

fun decimal :: "nat \<Rightarrow> ustr" where
  "decimal n = (if n < 10 then [48 + int n] else decimal (n div 10) @ [48 + int (n mod 10)])"

declare decimal.simps [simp del]

section \<open>Splitting on character boundaries\<close>

record split_state =
  prefix_end :: nat
  suffix_start :: nat
  removed_chars :: nat
  suffix_started :: bool

fun split_loop :: "nat \<Rightarrow> nat \<Rightarrow> nat \<Rightarrow> ustr \<Rightarrow> split_state \<Rightarrow> split_state" where
  "split_loop beginning_bytes tail_start_target idx [] st = st"
| "split_loop beginning_bytes tail_start_target idx (ch # s) st =
     (let char_end = idx + len_utf8 ch in
      split_loop beginning_bytes tail_start_target char_end s
        (if char_end \<le> beginning_bytes then st\<lparr>prefix_end := char_end\<rparr>
         else if tail_start_target \<le> idx then
           (if suffix_started st then st else st\<lparr>suffix_start := idx, suffix_started := True\<rparr>)
         else st\<lparr>removed_chars := removed_chars st + 1\<rparr>))"

text \<open>The byte slices \<open>s[..n]\<close> and \<open>s[n..]\<close>: \<open>None\<close> (a panic) off a character boundary.\<close>

fun split_at_byte :: "nat \<Rightarrow> ustr \<Rightarrow> (ustr \<times> ustr) option" where
  "split_at_byte n s =
     (if n = 0 then Some ([], s)
      else case s of
          [] \<Rightarrow> None
        | c # cs \<Rightarrow>
            if len_utf8 c \<le> n then map_option (apfst (Cons c)) (split_at_byte (n - len_utf8 c) cs) else None)"

declare split_at_byte.simps [simp del]

definition split_string :: "ustr \<Rightarrow> nat \<Rightarrow> nat \<Rightarrow> (nat \<times> ustr \<times> ustr) option" where
  "split_string s beginning_bytes end_bytes =
     (if s = [] then Some (0, [], [])
      else
        let len = utf8_len s;
            st = split_loop beginning_bytes (len - end_bytes) 0 s
                   \<lparr>prefix_end = 0, suffix_start = len, removed_chars = 0, suffix_started = False\<rparr>;
            suffix = (if suffix_start st < prefix_end st then prefix_end st else suffix_start st)
        in (case (split_at_byte (prefix_end st) s, split_at_byte suffix s) of
              (Some (before, _), Some (_, after)) \<Rightarrow> Some (removed_chars st, before, after)
            | _ \<Rightarrow> None))"

section \<open>Truncation\<close>

definition split_budget :: "nat \<Rightarrow> nat \<times> nat" where
  "split_budget budget = (let left = budget div 2 in (left, budget - left))"

abbreviation ELLIPSIS :: uchar where "ELLIPSIS \<equiv> 0x2026"

definition format_truncation_marker :: "bool \<Rightarrow> nat \<Rightarrow> ustr" where
  "format_truncation_marker use_tokens removed_count =
     [ELLIPSIS] @ decimal removed_count @
     (if use_tokens then lit '' tokens truncated'' else lit '' chars truncated'') @ [ELLIPSIS]"

definition removed_units :: "bool \<Rightarrow> nat \<Rightarrow> nat \<Rightarrow> nat" where
  "removed_units use_tokens removed_bytes removed =
     (if use_tokens then approx_tokens_from_byte_count removed_bytes else removed)"

definition assemble_truncated_output :: "ustr \<Rightarrow> ustr \<Rightarrow> ustr \<Rightarrow> ustr" where
  "assemble_truncated_output prefix suffix marker = prefix @ marker @ suffix"

definition truncate_with_byte_estimate :: "ustr \<Rightarrow> nat \<Rightarrow> bool \<Rightarrow> ustr option" where
  "truncate_with_byte_estimate s max_bytes use_tokens =
     (if s = [] then Some []
      else if max_bytes = 0 then
        Some (format_truncation_marker use_tokens (removed_units use_tokens (utf8_len s) (length s)))
      else if utf8_len s \<le> max_bytes then Some s
      else
        let (left_budget, right_budget) = split_budget max_bytes in
        map_option (\<lambda>(removed, left, right).
            assemble_truncated_output left right
              (format_truncation_marker use_tokens
                 (removed_units use_tokens (utf8_len s - max_bytes) removed)))
          (split_string s left_budget right_budget))"

definition truncate_middle_chars :: "ustr \<Rightarrow> nat \<Rightarrow> ustr option" where
  "truncate_middle_chars s max_bytes = truncate_with_byte_estimate s max_bytes False"

definition truncate_middle_with_token_budget :: "ustr \<Rightarrow> nat \<Rightarrow> (ustr \<times> nat option) option" where
  "truncate_middle_with_token_budget s max_tokens =
     (if s = [] then Some ([], None)
      else if 0 < max_tokens \<and> utf8_len s \<le> approx_bytes_for_tokens max_tokens then Some (s, None)
      else map_option
             (\<lambda>truncated. if truncated = s then (truncated, None) else (truncated, Some (approx_token_count s)))
             (truncate_with_byte_estimate s (approx_bytes_for_tokens max_tokens) True))"

section \<open>Policies\<close>

datatype truncation_policy = Bytes nat | Tokens nat

fun token_budget :: "truncation_policy \<Rightarrow> nat" where
  "token_budget (Bytes bytes) = approx_tokens_from_byte_count bytes"
| "token_budget (Tokens tokens) = tokens"

fun byte_budget :: "truncation_policy \<Rightarrow> nat" where
  "byte_budget (Bytes bytes) = bytes"
| "byte_budget (Tokens tokens) = approx_bytes_for_tokens tokens"

fun truncate_text :: "ustr \<Rightarrow> truncation_policy \<Rightarrow> ustr option" where
  "truncate_text content (Bytes bytes) = truncate_middle_chars content bytes"
| "truncate_text content (Tokens tokens) = map_option fst (truncate_middle_with_token_budget content tokens)"

definition formatted_truncate_text :: "ustr \<Rightarrow> truncation_policy \<Rightarrow> ustr option" where
  "formatted_truncate_text content policy =
     (if utf8_len content \<le> byte_budget policy then Some content
      else map_option (\<lambda>result.
          lit ''Warning: truncated output (original token count: '' @ decimal (approx_token_count content) @
          lit '')'' @ [LF] @ lit ''Total output lines: '' @ decimal (length (str_lines content)) @ [LF, LF] @ result)
        (truncate_text content policy))"

datatype image_detail = Auto | Low | High | Original

datatype output_content_item =
    OutText ustr
  | OutImage ustr "image_detail option"
  | OutEncrypted ustr

definition text_segments :: "output_content_item list \<Rightarrow> ustr list" where
  "text_segments items = concat (map (\<lambda>i. case i of OutText t \<Rightarrow> [t] | _ \<Rightarrow> []) items)"

fun combine_segments :: "ustr \<Rightarrow> ustr list \<Rightarrow> ustr" where
  "combine_segments combined [] = combined"
| "combine_segments combined (t # ts) =
     combine_segments ((if combined = [] then [] else combined @ [LF]) @ t) ts"

definition is_text :: "output_content_item \<Rightarrow> bool" where
  "is_text i = (case i of OutText _ \<Rightarrow> True | _ \<Rightarrow> False)"

definition formatted_truncate_text_content_items_with_policy ::
  "output_content_item list \<Rightarrow> truncation_policy \<Rightarrow> (output_content_item list \<times> nat option) option" where
  "formatted_truncate_text_content_items_with_policy items policy =
     (let combined = combine_segments [] (text_segments items) in
      if text_segments items = [] \<or> utf8_len combined \<le> byte_budget policy then Some (items, None)
      else map_option (\<lambda>t.
          (OutText t # filter (\<lambda>i. \<not> is_text i) items, Some (approx_token_count combined)))
        (formatted_truncate_text combined policy))"

fun with_budget :: "truncation_policy \<Rightarrow> nat \<Rightarrow> truncation_policy" where
  "with_budget (Bytes _) n = Bytes n"
| "with_budget (Tokens _) n = Tokens n"

fun text_cost :: "truncation_policy \<Rightarrow> ustr \<Rightarrow> nat" where
  "text_cost (Bytes _) t = utf8_len t"
| "text_cost (Tokens _) t = approx_token_count t"

text \<open>The loop: remaining budget, omitted items and the output so far.\<close>

fun truncate_items_loop ::
  "truncation_policy \<Rightarrow> nat \<Rightarrow> nat \<Rightarrow> output_content_item list \<Rightarrow> output_content_item list \<Rightarrow>
     (output_content_item list \<times> nat) option" where
  "truncate_items_loop policy budget omitted out [] = Some (out, omitted)"
| "truncate_items_loop policy budget omitted out (i # is) = (case i of
       OutText t \<Rightarrow>
         if budget = 0 then truncate_items_loop policy budget (omitted + 1) out is
         else if text_cost policy t \<le> budget then
           truncate_items_loop policy (budget - text_cost policy t) omitted (out @ [OutText t]) is
         else (case truncate_text t (with_budget policy budget) of
             None \<Rightarrow> None
           | Some snippet \<Rightarrow>
               if snippet = [] then truncate_items_loop policy 0 (omitted + 1) out is
               else truncate_items_loop policy 0 omitted (out @ [OutText snippet]) is)
     | _ \<Rightarrow> truncate_items_loop policy budget omitted (out @ [i]) is)"

definition truncate_function_output_items_with_policy ::
  "output_content_item list \<Rightarrow> truncation_policy \<Rightarrow> output_content_item list option" where
  "truncate_function_output_items_with_policy items policy =
     map_option (\<lambda>(out, omitted).
        if omitted > 0
        then out @ [OutText (lit ''[omitted '' @ decimal omitted @ lit '' text items ...]'')]
        else out)
       (truncate_items_loop policy
          (case policy of Bytes _ \<Rightarrow> byte_budget policy | Tokens _ \<Rightarrow> token_budget policy) 0 [] items)"

section \<open>What splitting does\<close>

lemma split_at_byte_append [simp]: "split_at_byte (utf8_len a) (a @ b) = Some (a, b)"
  by (induction a) (auto simp: split_at_byte.simps)

lemma split_loop_suffix:
  assumes "suffix_started st" "b \<le> idx" "t \<le> idx"
  shows "split_loop b t idx rs st = st"
  using assms
proof (induction rs arbitrary: idx)
  case (Cons c rs)
  have "\<not> idx + len_utf8 c \<le> b" using Cons.prems(2) len_utf8_bounds(1) [of c] by linarith
  with Cons show ?case by (simp add: Let_def)
qed simp

lemma split_loop_middle:
  assumes "\<not> suffix_started st" "b \<le> idx"
  shows "\<exists>M R. rs = M @ R \<and> (R \<noteq> [] \<longrightarrow> t \<le> idx + utf8_len M) \<and>
    (M \<noteq> [] \<longrightarrow> idx + utf8_len (butlast M) < t) \<and>
    split_loop b t idx rs st = st\<lparr>removed_chars := removed_chars st + length M,
      suffix_start := (if R = [] then suffix_start st else idx + utf8_len M), suffix_started := (R \<noteq> [])\<rparr>"
  using assms
proof (induction rs arbitrary: idx st)
  case Nil
  then show ?case by (intro exI [of _ "[]"]) simp
next
  case (Cons c rs)
  have nb: "\<not> idx + len_utf8 c \<le> b" using Cons.prems(2) len_utf8_bounds(1) [of c] by linarith
  show ?case
  proof (cases "t \<le> idx")
    case True
    with Cons.prems nb show ?thesis
      by (intro exI [of _ "[]"] exI [of _ "c # rs"]) (simp add: Let_def split_loop_suffix)
  next
    case False
    let ?st = "st\<lparr>removed_chars := removed_chars st + 1\<rparr>"
    from Cons.IH [of ?st "idx + len_utf8 c"] Cons.prems obtain M R where IH: "rs = M @ R"
      "R \<noteq> [] \<longrightarrow> t \<le> idx + len_utf8 c + utf8_len M"
      "M \<noteq> [] \<longrightarrow> idx + len_utf8 c + utf8_len (butlast M) < t"
      "split_loop b t (idx + len_utf8 c) rs ?st = ?st\<lparr>removed_chars := removed_chars ?st + length M,
        suffix_start := (if R = [] then suffix_start ?st else idx + len_utf8 c + utf8_len M), suffix_started := (R \<noteq> [])\<rparr>"
      by auto
    with nb False show ?thesis
      by (intro exI [of _ "c # M"] exI [of _ R]) (simp add: Let_def add.assoc)
  qed
qed

text \<open>One step of the first phase that does not extend the prefix enters the second.\<close>

lemma split_loop_first:
  assumes "\<not> suffix_started st" "\<not> idx + len_utf8 c \<le> b"
  shows "\<exists>M R. c # rs = M @ R \<and> (R \<noteq> [] \<longrightarrow> t \<le> idx + utf8_len M) \<and>
    (M \<noteq> [] \<longrightarrow> idx + utf8_len (butlast M) < t) \<and>
    split_loop b t idx (c # rs) st = st\<lparr>removed_chars := removed_chars st + length M,
      suffix_start := (if R = [] then suffix_start st else idx + utf8_len M), suffix_started := (R \<noteq> [])\<rparr>"
proof (cases "t \<le> idx")
  case True
  with assms show ?thesis
    by (intro exI [of _ "[]"] exI [of _ "c # rs"]) (simp add: Let_def split_loop_suffix)
next
  case False
  let ?st = "st\<lparr>removed_chars := removed_chars st + 1\<rparr>"
  from split_loop_middle [of ?st b "idx + len_utf8 c" rs t] assms obtain M R where IH: "rs = M @ R"
    "R \<noteq> [] \<longrightarrow> t \<le> idx + len_utf8 c + utf8_len M"
    "M \<noteq> [] \<longrightarrow> idx + len_utf8 c + utf8_len (butlast M) < t"
    "split_loop b t (idx + len_utf8 c) rs ?st = ?st\<lparr>removed_chars := removed_chars ?st + length M,
      suffix_start := (if R = [] then suffix_start ?st else idx + len_utf8 c + utf8_len M), suffix_started := (R \<noteq> [])\<rparr>"
    by auto
  with assms False show ?thesis
    by (intro exI [of _ "c # M"] exI [of _ R]) (simp add: Let_def add.assoc)
qed

lemma split_loop_prefix:
  assumes "\<not> suffix_started st" "prefix_end st = idx" "idx \<le> b"
  shows "\<exists>L M R. rs = L @ M @ R \<and> idx + utf8_len L \<le> b \<and>
    (M @ R \<noteq> [] \<longrightarrow> b < idx + utf8_len L + len_utf8 (hd (M @ R))) \<and>
    (R \<noteq> [] \<longrightarrow> t \<le> idx + utf8_len L + utf8_len M) \<and>
    (M \<noteq> [] \<longrightarrow> idx + utf8_len L + utf8_len (butlast M) < t) \<and>
    split_loop b t idx rs st = st\<lparr>prefix_end := idx + utf8_len L, removed_chars := removed_chars st + length M,
      suffix_start := (if R = [] then suffix_start st else idx + utf8_len L + utf8_len M), suffix_started := (R \<noteq> [])\<rparr>"
  using assms
proof (induction rs arbitrary: idx st)
  case Nil
  then show ?case by (intro exI [of _ "[]"]) simp
next
  case (Cons c rs)
  show ?case
  proof (cases "idx + len_utf8 c \<le> b")
    case True
    let ?st = "st\<lparr>prefix_end := idx + len_utf8 c\<rparr>"
    from Cons.IH [of ?st "idx + len_utf8 c"] Cons.prems True obtain L M R where IH: "rs = L @ M @ R"
      "idx + len_utf8 c + utf8_len L \<le> b"
      "M @ R \<noteq> [] \<longrightarrow> b < idx + len_utf8 c + utf8_len L + len_utf8 (hd (M @ R))"
      "R \<noteq> [] \<longrightarrow> t \<le> idx + len_utf8 c + utf8_len L + utf8_len M"
      "M \<noteq> [] \<longrightarrow> idx + len_utf8 c + utf8_len L + utf8_len (butlast M) < t"
      "split_loop b t (idx + len_utf8 c) rs ?st = ?st\<lparr>prefix_end := idx + len_utf8 c + utf8_len L,
        removed_chars := removed_chars ?st + length M,
        suffix_start := (if R = [] then suffix_start ?st else idx + len_utf8 c + utf8_len L + utf8_len M), suffix_started := (R \<noteq> [])\<rparr>"
      by auto
    with True show ?thesis
      by (intro exI [of _ "c # L"] exI [of _ M] exI [of _ R]) (simp add: Let_def add.assoc)
  next
    case False
    from split_loop_first [OF Cons.prems(1) False, of rs t] obtain M R where MR: "c # rs = M @ R"
      "R \<noteq> [] \<longrightarrow> t \<le> idx + utf8_len M" "M \<noteq> [] \<longrightarrow> idx + utf8_len (butlast M) < t"
      "split_loop b t idx (c # rs) st = st\<lparr>removed_chars := removed_chars st + length M,
        suffix_start := (if R = [] then suffix_start st else idx + utf8_len M), suffix_started := (R \<noteq> [])\<rparr>"
      by blast
    have "hd (M @ R) = c" using MR(1) by (metis list.sel(1))
    with MR Cons.prems False show ?thesis
      by (intro exI [of _ "[]"] exI [of _ M] exI [of _ R]) (simp del: split_loop.simps)
  qed
qed

lemma split_string_spec:
  assumes "s \<noteq> []" "b + e < utf8_len s"
  shows "\<exists>l m r. s = l @ m @ r \<and> split_string s b e = Some (length m, l, r) \<and> m \<noteq> [] \<and>
    utf8_len l \<le> b \<and> utf8_len r \<le> e \<and>
    b < utf8_len l + len_utf8 (hd m) \<and> e < utf8_len r + len_utf8 (last m)"
proof -
  let ?t = "utf8_len s - e"
  let ?st = "\<lparr>prefix_end = 0, suffix_start = utf8_len s, removed_chars = 0, suffix_started = False\<rparr>"
  have "\<exists>L M R. s = L @ M @ R \<and> utf8_len L \<le> b \<and> (M @ R \<noteq> [] \<longrightarrow> b < utf8_len L + len_utf8 (hd (M @ R))) \<and>
      (R \<noteq> [] \<longrightarrow> ?t \<le> utf8_len L + utf8_len M) \<and> (M \<noteq> [] \<longrightarrow> utf8_len L + utf8_len (butlast M) < ?t) \<and>
      split_loop b ?t 0 s ?st = ?st\<lparr>prefix_end := utf8_len L, removed_chars := length M,
        suffix_start := (if R = [] then utf8_len s else utf8_len L + utf8_len M), suffix_started := (R \<noteq> [])\<rparr>"
    using split_loop_prefix [of ?st 0 b s ?t] by (simp split del: if_split cong: if_cong)
  then obtain L M R where
    p: "s = L @ M @ R" "utf8_len L \<le> b" "M @ R \<noteq> [] \<longrightarrow> b < utf8_len L + len_utf8 (hd (M @ R))"
       "R \<noteq> [] \<longrightarrow> ?t \<le> utf8_len L + utf8_len M" "M \<noteq> [] \<longrightarrow> utf8_len L + utf8_len (butlast M) < ?t"
    and st: "split_loop b ?t 0 s ?st = ?st\<lparr>prefix_end := utf8_len L, removed_chars := length M,
      suffix_start := (if R = [] then utf8_len s else utf8_len L + utf8_len M), suffix_started := (R \<noteq> [])\<rparr>"
    by blast
  have len: "utf8_len s = utf8_len L + utf8_len M + utf8_len R" by (simp add: p(1))
  have r: "utf8_len R \<le> e" using p(4) len by (cases "R = []") auto
  have m: "M \<noteq> []" using len r p(2) assms(2) by auto
  have "utf8_len M = utf8_len (butlast M) + len_utf8 (last M)"
    using m by (metis append_butlast_last_id utf8_len_simps(1,2,3) add.right_neutral)
  with p(5) m len have e: "e < utf8_len R + len_utf8 (last M)" by linarith
  let ?suf = "if R = [] then utf8_len s else utf8_len L + utf8_len M"
  have suf: "?suf = utf8_len (L @ M)" by (simp add: len)
  have "split_at_byte (utf8_len L) s = Some (L, M @ R)" by (simp add: p(1))
  moreover have "split_at_byte ?suf s = Some (L @ M, R)"
    unfolding suf using split_at_byte_append [of "L @ M" R] by (simp add: p(1))
  ultimately have "split_string s b e = Some (length M, L, R)"
    using assms(1) by (simp add: split_string_def st suf)
  with p(1,2,3) r e m show ?thesis by (intro exI [of _ L] exI [of _ M] exI [of _ R]) simp
qed

text \<open>
  Truncating in the middle never panics on a character boundary. A text over a positive
  byte budget keeps a prefix within the left half and a suffix within the rest of the budget,
  both as long as they can be, with one marker between them; the character variant of the
  marker gives the exact number of characters left out. A text within the budget is
  returned unchanged.
\<close>

theorem truncate_with_byte_estimate_spec:
  "(s \<noteq> [] \<and> 0 < k \<and> k < utf8_len s \<longrightarrow>
     (\<exists>l m r. s = l @ m @ r \<and> m \<noteq> [] \<and>
        truncate_with_byte_estimate s k tok = Some (l @ format_truncation_marker tok
          (if tok then approx_tokens_from_byte_count (utf8_len s - k) else length m) @ r) \<and>
        utf8_len l \<le> k div 2 \<and> k div 2 < utf8_len l + len_utf8 (hd m) \<and>
        utf8_len r \<le> k - k div 2 \<and> k - k div 2 < utf8_len r + len_utf8 (last m))) \<and>
   (s \<noteq> [] \<and> 0 < k \<and> utf8_len s \<le> k \<longrightarrow> truncate_with_byte_estimate s k tok = Some s)"
proof (intro conjI impI)
  assume a: "s \<noteq> [] \<and> 0 < k \<and> k < utf8_len s"
  then have "k div 2 + (k - k div 2) < utf8_len s" by simp
  with split_string_spec [of s "k div 2" "k - k div 2"] a obtain l m r where
    "s = l @ m @ r" "split_string s (k div 2) (k - k div 2) = Some (length m, l, r)" "m \<noteq> []"
    "utf8_len l \<le> k div 2" "utf8_len r \<le> k - k div 2"
    "k div 2 < utf8_len l + len_utf8 (hd m)" "k - k div 2 < utf8_len r + len_utf8 (last m)"
    by blast
  moreover from this a have "truncate_with_byte_estimate s k tok = Some (l @ format_truncation_marker tok
      (if tok then approx_tokens_from_byte_count (utf8_len s - k) else length m) @ r)"
    by (simp add: truncate_with_byte_estimate_def split_budget_def removed_units_def assemble_truncated_output_def Let_def)
  ultimately show "\<exists>l m r. s = l @ m @ r \<and> m \<noteq> [] \<and>
        truncate_with_byte_estimate s k tok = Some (l @ format_truncation_marker tok
          (if tok then approx_tokens_from_byte_count (utf8_len s - k) else length m) @ r) \<and>
        utf8_len l \<le> k div 2 \<and> k div 2 < utf8_len l + len_utf8 (hd m) \<and>
        utf8_len r \<le> k - k div 2 \<and> k - k div 2 < utf8_len r + len_utf8 (last m)"
    by blast
qed (simp add: truncate_with_byte_estimate_def)

theorem truncate_with_byte_estimate_spec_witness:
  "\<exists>l m r. lit ''abcdefghij'' = l @ m @ r \<and> m \<noteq> [] \<and> utf8_len l \<le> 2 \<and> utf8_len r \<le> 2"
proof -
  have "utf8_len (lit ''abcdefghij'') = 10" by code_simp
  with truncate_with_byte_estimate_spec [of "lit ''abcdefghij''" 4 False] show ?thesis by force
qed

lemma truncate_total: "truncate_with_byte_estimate s k tok \<noteq> None"
proof (cases "s \<noteq> [] \<and> 0 < k \<and> k < utf8_len s")
  case True
  then have "split_string s (k div 2) (k - k div 2) \<noteq> None"
    using split_string_spec [of s "k div 2" "k - k div 2"] by fastforce
  with True show ?thesis by (simp add: truncate_with_byte_estimate_def split_budget_def Let_def)
qed (auto simp: truncate_with_byte_estimate_def)

lemma truncate_text_total: "truncate_text t p \<noteq> None"
proof (cases p)
  case (Bytes n)
  then show ?thesis using truncate_total [of t n False] by (simp add: truncate_middle_chars_def)
next
  case (Tokens n)
  obtain y where "truncate_with_byte_estimate t (approx_bytes_for_tokens n) True = Some y"
    using truncate_total by blast
  with Tokens show ?thesis by (simp add: truncate_middle_with_token_budget_def)
qed

lemma truncate_text_Some: "\<exists>t'. truncate_text t p = Some t'"
  using truncate_text_total [of t p] by auto

definition text_costs :: "truncation_policy \<Rightarrow> output_content_item list \<Rightarrow> nat" where
  "text_costs p items = sum_list (map (text_cost p) (text_segments items))"

lemma text_segments_simps [simp]:
  "text_segments [] = []"
  "text_segments (OutText t # is) = t # text_segments is"
  "text_segments (OutImage u d # is) = text_segments is"
  "text_segments (OutEncrypted e # is) = text_segments is"
  by (simp_all add: text_segments_def)

lemma is_text_simps [simp]: "is_text (OutText t)" "\<not> is_text (OutImage u d)" "\<not> is_text (OutEncrypted e)"
  by (simp_all add: is_text_def)

lemma truncate_items_loop_others:
  "\<exists>out' om'. truncate_items_loop p b om out is = Some (out', om') \<and>
     filter (\<lambda>i. \<not> is_text i) out' = filter (\<lambda>i. \<not> is_text i) (out @ is)"
proof (induction "is" arbitrary: b om out)
  case (Cons i "is")
  show ?case
  proof (cases i)
    case (OutText t)
    obtain t' where "truncate_text t (with_budget p b) = Some t'" using truncate_text_Some by blast
    with OutText Cons.IH [of b "om + 1" out] Cons.IH [of "b - text_cost p t" om "out @ [OutText t]"]
      Cons.IH [of 0 "om + 1" out] Cons.IH [of 0 om "out @ [OutText t']"]
    show ?thesis by auto
  next
    case (OutImage u d)
    with Cons.IH [of b om "out @ [i]"] show ?thesis by auto
  next
    case (OutEncrypted e)
    with Cons.IH [of b om "out @ [i]"] show ?thesis by auto
  qed
qed simp

lemma truncate_items_loop_fits:
  "text_costs p is < b \<Longrightarrow> truncate_items_loop p b om out is = Some (out @ is, om)"
proof (induction "is" arbitrary: b out)
  case (Cons i "is")
  then show ?case by (cases i) (auto simp: text_costs_def)
qed simp

text \<open>
  C36: Truncating the content items of a tool output never panics and never drops or reorders
  an image or an encrypted item. If the text items fit the budget with room to spare, the
  items are returned unchanged.
\<close>

theorem truncate_function_output_items_spec:
  "\<exists>out. truncate_function_output_items_with_policy items policy = Some out \<and>
     filter (\<lambda>i. \<not> is_text i) out = filter (\<lambda>i. \<not> is_text i) items \<and>
     (text_costs policy items < (case policy of Bytes n \<Rightarrow> n | Tokens n \<Rightarrow> n) \<longrightarrow> out = items)"
proof -
  let ?b = "case policy of Bytes n \<Rightarrow> n | Tokens n \<Rightarrow> n"
  have b: "(case policy of Bytes _ \<Rightarrow> byte_budget policy | Tokens _ \<Rightarrow> token_budget policy) = ?b"
    by (cases policy) simp_all
  obtain out om where l: "truncate_items_loop policy ?b 0 [] items = Some (out, om)"
      "filter (\<lambda>i. \<not> is_text i) out = filter (\<lambda>i. \<not> is_text i) items"
    using truncate_items_loop_others [of policy ?b 0 "[]" items] by auto
  moreover have "out = items \<and> om = 0" if "text_costs policy items < ?b"
    using truncate_items_loop_fits [of policy items ?b 0 "[]"] that l(1) by auto
  ultimately show ?thesis
    by (auto simp: truncate_function_output_items_with_policy_def b)
qed

theorem truncate_function_output_items_spec_witness:
  "truncate_function_output_items_with_policy [OutText (lit ''ab''), OutImage (lit ''u'') None] (Bytes 3) =
     Some [OutText (lit ''ab''), OutImage (lit ''u'') None]"
proof -
  have "text_costs (Bytes 3) [OutText (lit ''ab''), OutImage (lit ''u'') None] < 3" by code_simp
  with truncate_function_output_items_spec [of "[OutText (lit ''ab''), OutImage (lit ''u'') None]" "Bytes 3"]
  show ?thesis by auto
qed

end
