(* ===== verification/Context_History.thy ===== *)
theory Context_History
  imports Truncation
begin

text \<open>
  The transcript a session keeps: \<open>ContextManager\<close> of
  \<open>core/src/context_manager/history.rs\<close> and the normalisation of
  \<open>core/src/context_manager/normalize.rs\<close>, over the items of \<open>protocol/src/models.rs\<close>.

  What the code takes from elsewhere is a record of parameters, \<open>history_env\<close>: which
  message fragments are contextual (\<open>event_mapping.rs\<close>), whether a text is an inter-agent
  instruction and how long an item serialises (\<open>serde_json\<close>), the version-5 UUID of a name,
  the decoded size of an image, and the floating-point product of the truncation budget.
  \<open>error_or_panic\<close> logs, as it does in a release build. \<open>i64\<close> values are integers, with
  the wrap-around or saturation of the operation the code uses.
\<close>

section \<open>Signed 64-bit arithmetic\<close>

definition I64_MAX :: int where "I64_MAX = 2 ^ 63 - 1"
definition I64_MIN :: int where "I64_MIN = - (2 ^ 63)"

definition wrap_i64 :: "int \<Rightarrow> int" where
  "wrap_i64 x = (x + 2 ^ 63) mod 2 ^ 64 - 2 ^ 63"

definition clamp_i64 :: "int \<Rightarrow> int" where
  "clamp_i64 x = (if x > I64_MAX then I64_MAX else if x < I64_MIN then I64_MIN else x)"

definition sat_add :: "int \<Rightarrow> int \<Rightarrow> int" where "sat_add a b = clamp_i64 (a + b)"
definition sat_sub :: "int \<Rightarrow> int \<Rightarrow> int" where "sat_sub a b = clamp_i64 (a - b)"

text \<open>\<open>i64::try_from(n).unwrap_or(i64::MAX)\<close>.\<close>

definition i64_of_usize :: "nat \<Rightarrow> int" where
  "i64_of_usize n = (if int n > I64_MAX then I64_MAX else int n)"

section \<open>Items\<close>

datatype content_item =
    InputText ustr
  | InputImage ustr "image_detail option"
  | OutputText ustr

datatype output_body = Text ustr | ContentItems "output_content_item list"

record output_payload =
  body :: output_body
  success :: "bool option"

text \<open>
  Fields the code only copies (metadata, JSON values, status words) are strings. The order
  of the fields is that of the source.
\<close>

type_synonym item_id = "ustr option"
type_synonym passthrough = "ustr option"

datatype response_item =
    AdditionalTools item_id ustr "ustr list"
  | Message item_id ustr "content_item list" "ustr option" passthrough
  | AgentMessage item_id ustr ustr "ustr list" passthrough
  | Reasoning item_id "ustr list" "ustr list option" "ustr option" passthrough
  | LocalShellCall item_id "ustr option" ustr ustr passthrough
  | FunctionCall item_id ustr "ustr option" ustr ustr passthrough
  | ToolSearchCall item_id "ustr option" "ustr option" ustr ustr passthrough
  | FunctionCallOutput item_id ustr output_payload passthrough
  | CustomToolCall item_id "ustr option" ustr ustr "ustr option" ustr passthrough
  | CustomToolCallOutput item_id ustr "ustr option" output_payload passthrough
  | ToolSearchOutput item_id "ustr option" ustr ustr "ustr list" passthrough
  | WebSearchCall item_id "ustr option" "ustr option" passthrough
  | ImageGenerationCall item_id ustr "ustr option" ustr passthrough
  | Compaction item_id ustr passthrough
  | CompactionTrigger
  | ContextCompaction item_id "ustr option" passthrough
  | OtherItem

record history_env =
  contextual_user_fragment :: "content_item \<Rightarrow> bool"
  contextual_dev_fragment :: "content_item \<Rightarrow> bool"
  inter_agent_text :: "ustr \<Rightarrow> bool"
  serialized_len :: "response_item \<Rightarrow> nat"
  uuid_v5 :: "ustr \<Rightarrow> ustr"
  image_size :: "ustr \<Rightarrow> (nat \<times> nat) option"
  scale_budget :: "nat \<Rightarrow> nat"

section \<open>Every call has its output\<close>

definition function_output_ids :: "response_item list \<Rightarrow> ustr list" where
  "function_output_ids items = concat (map (\<lambda>i. case i of
     FunctionCallOutput _ call_id _ _ \<Rightarrow> [call_id] | _ \<Rightarrow> []) items)"

definition tool_search_output_ids :: "response_item list \<Rightarrow> ustr list" where
  "tool_search_output_ids items = concat (map (\<lambda>i. case i of
     ToolSearchOutput _ (Some call_id) _ _ _ _ \<Rightarrow> [call_id] | _ \<Rightarrow> []) items)"

definition custom_tool_output_ids :: "response_item list \<Rightarrow> ustr list" where
  "custom_tool_output_ids items = concat (map (\<lambda>i. case i of
     CustomToolCallOutput _ call_id _ _ _ \<Rightarrow> [call_id] | _ \<Rightarrow> []) items)"

definition synthetic_output_id :: "history_env \<Rightarrow> ustr \<Rightarrow> item_id \<Rightarrow> item_id" where
  "synthetic_output_id env prefix item = (case item of
       None \<Rightarrow> None
     | Some source \<Rightarrow> if source = [] then None
         else Some (prefix @ lit ''_'' @ uuid_v5 env (prefix @ lit '':'' @ source)))"

definition from_text :: "ustr \<Rightarrow> output_payload" where
  "from_text t = \<lparr>body = Text t, success = None\<rparr>"

text \<open>The output to insert after an item, if one is missing.\<close>

definition missing_output ::
  "history_env \<Rightarrow> ustr list \<Rightarrow> ustr list \<Rightarrow> ustr list \<Rightarrow> response_item \<Rightarrow> response_item option" where
  "missing_output env fn ts ct item = (case item of
       FunctionCall i _ _ _ call_id _ \<Rightarrow>
         if call_id \<in> set fn then None
         else Some (FunctionCallOutput (synthetic_output_id env (lit ''fco'') i) call_id (from_text (lit ''aborted'')) None)
     | ToolSearchCall i (Some call_id) _ _ _ _ \<Rightarrow>
         if call_id \<in> set ts then None
         else Some (ToolSearchOutput (synthetic_output_id env (lit ''tso'') i) (Some call_id)
                      (lit ''completed'') (lit ''client'') [] None)
     | CustomToolCall i _ call_id _ _ _ _ \<Rightarrow>
         if call_id \<in> set ct then None
         else Some (CustomToolCallOutput (synthetic_output_id env (lit ''ctco'') i) call_id None
                      (from_text (lit ''aborted'')) None)
     | LocalShellCall i (Some call_id) _ _ _ \<Rightarrow>
         if call_id \<in> set fn then None
         else Some (FunctionCallOutput (synthetic_output_id env (lit ''fco'') i) call_id (from_text (lit ''aborted'')) None)
     | _ \<Rightarrow> None)"

text \<open>The positions with their outputs, inserted back to front.\<close>

definition missing_outputs ::
  "history_env \<Rightarrow> response_item list \<Rightarrow> (nat \<times> response_item) list" where
  "missing_outputs env items =
     (let fn = function_output_ids items; ts = tool_search_output_ids items; ct = custom_tool_output_ids items
      in concat (map (\<lambda>(idx, item). case missing_output env fn ts ct item of
           Some out \<Rightarrow> [(idx, out)] | None \<Rightarrow> []) (zip [0..<length items] items)))"

definition insert_item :: "nat \<Rightarrow> 'a \<Rightarrow> 'a list \<Rightarrow> 'a list" where
  "insert_item i x xs = take i xs @ x # drop i xs"

definition ensure_call_outputs_present :: "history_env \<Rightarrow> response_item list \<Rightarrow> response_item list" where
  "ensure_call_outputs_present env items =
     fold (\<lambda>(idx, out) xs. insert_item (idx + 1) out xs) (rev (missing_outputs env items)) items"

section \<open>Every output has its call\<close>

definition function_call_ids :: "response_item list \<Rightarrow> ustr list" where
  "function_call_ids items = concat (map (\<lambda>i. case i of
     FunctionCall _ _ _ _ call_id _ \<Rightarrow> [call_id] | _ \<Rightarrow> []) items)"

definition tool_search_call_ids :: "response_item list \<Rightarrow> ustr list" where
  "tool_search_call_ids items = concat (map (\<lambda>i. case i of
     ToolSearchCall _ (Some call_id) _ _ _ _ \<Rightarrow> [call_id] | _ \<Rightarrow> []) items)"

definition local_shell_call_ids :: "response_item list \<Rightarrow> ustr list" where
  "local_shell_call_ids items = concat (map (\<lambda>i. case i of
     LocalShellCall _ (Some call_id) _ _ _ \<Rightarrow> [call_id] | _ \<Rightarrow> []) items)"

definition custom_tool_call_ids :: "response_item list \<Rightarrow> ustr list" where
  "custom_tool_call_ids items = concat (map (\<lambda>i. case i of
     CustomToolCall _ _ call_id _ _ _ _ \<Rightarrow> [call_id] | _ \<Rightarrow> []) items)"

definition remove_orphan_outputs :: "response_item list \<Rightarrow> response_item list" where
  "remove_orphan_outputs items =
     (let fc = function_call_ids items; tc = tool_search_call_ids items;
          lc = local_shell_call_ids items; cc = custom_tool_call_ids items
      in filter (\<lambda>item. case item of
           FunctionCallOutput _ call_id _ _ \<Rightarrow> call_id \<in> set fc \<or> call_id \<in> set lc
         | CustomToolCallOutput _ call_id _ _ _ \<Rightarrow> call_id \<in> set cc
         | ToolSearchOutput _ c _ execution _ _ \<Rightarrow>
             if execution = lit ''server'' then True
             else (case c of Some call_id \<Rightarrow> call_id \<in> set tc | None \<Rightarrow> True)
         | _ \<Rightarrow> True) items)"

section \<open>Removing an item with its counterpart\<close>

fun remove_first_matching :: "('a \<Rightarrow> bool) \<Rightarrow> 'a list \<Rightarrow> 'a list" where
  "remove_first_matching P [] = []"
| "remove_first_matching P (x # xs) = (if P x then xs else x # remove_first_matching P xs)"

fun is_function_call :: "ustr \<Rightarrow> response_item \<Rightarrow> bool" where
  "is_function_call c (FunctionCall _ _ _ _ existing _) = (existing = c)"
| "is_function_call c _ = False"

fun is_local_shell_call :: "ustr \<Rightarrow> response_item \<Rightarrow> bool" where
  "is_local_shell_call c (LocalShellCall _ (Some existing) _ _ _) = (existing = c)"
| "is_local_shell_call c _ = False"

fun is_function_output :: "ustr \<Rightarrow> response_item \<Rightarrow> bool" where
  "is_function_output c (FunctionCallOutput _ existing _ _) = (existing = c)"
| "is_function_output c _ = False"

fun is_tool_search_call :: "ustr \<Rightarrow> response_item \<Rightarrow> bool" where
  "is_tool_search_call c (ToolSearchCall _ (Some existing) _ _ _ _) = (existing = c)"
| "is_tool_search_call c _ = False"

fun is_tool_search_output :: "ustr \<Rightarrow> response_item \<Rightarrow> bool" where
  "is_tool_search_output c (ToolSearchOutput _ (Some existing) _ _ _ _) = (existing = c)"
| "is_tool_search_output c _ = False"

fun is_custom_call :: "ustr \<Rightarrow> response_item \<Rightarrow> bool" where
  "is_custom_call c (CustomToolCall _ _ existing _ _ _ _) = (existing = c)"
| "is_custom_call c _ = False"

fun is_custom_output :: "ustr \<Rightarrow> response_item \<Rightarrow> bool" where
  "is_custom_output c (CustomToolCallOutput _ existing _ _ _) = (existing = c)"
| "is_custom_output c _ = False"

definition remove_corresponding_for :: "response_item list \<Rightarrow> response_item \<Rightarrow> response_item list" where
  "remove_corresponding_for items item = (case item of
       FunctionCall _ _ _ _ c _ \<Rightarrow> remove_first_matching (is_function_output c) items
     | FunctionCallOutput _ c _ _ \<Rightarrow>
         if list_ex (is_function_call c) items then remove_first_matching (is_function_call c) items
         else remove_first_matching (is_local_shell_call c) items
     | ToolSearchCall _ (Some c) _ _ _ _ \<Rightarrow> remove_first_matching (is_tool_search_output c) items
     | ToolSearchOutput _ (Some c) _ _ _ _ \<Rightarrow> remove_first_matching (is_tool_search_call c) items
     | CustomToolCall _ _ c _ _ _ _ \<Rightarrow> remove_first_matching (is_custom_output c) items
     | CustomToolCallOutput _ c _ _ _ \<Rightarrow> remove_first_matching (is_custom_call c) items
     | LocalShellCall _ (Some c) _ _ _ \<Rightarrow> remove_first_matching (is_function_output c) items
     | _ \<Rightarrow> items)"

section \<open>Images\<close>

definition IMAGE_CONTENT_OMITTED_PLACEHOLDER :: ustr where
  "IMAGE_CONTENT_OMITTED_PLACEHOLDER = lit ''image content omitted because you do not support image input''"

fun omit_image :: "content_item \<Rightarrow> content_item" where
  "omit_image (InputImage _ _) = InputText IMAGE_CONTENT_OMITTED_PLACEHOLDER"
| "omit_image c = c"

fun replace_output_image :: "ustr \<Rightarrow> output_content_item \<Rightarrow> output_content_item" where
  "replace_output_image placeholder (OutImage _ _) = OutText placeholder"
| "replace_output_image placeholder c = c"

fun map_content_items ::
  "(output_content_item \<Rightarrow> output_content_item) \<Rightarrow> output_payload \<Rightarrow> output_payload" where
  "map_content_items f p = (case body p of
       Text _ \<Rightarrow> p
     | ContentItems items \<Rightarrow> p\<lparr>body := ContentItems (map f items)\<rparr>)"

fun strip_item_images :: "response_item \<Rightarrow> response_item" where
  "strip_item_images (Message i role content ph md) = Message i role (map omit_image content) ph md"
| "strip_item_images (FunctionCallOutput i c out md) =
     FunctionCallOutput i c (map_content_items (replace_output_image IMAGE_CONTENT_OMITTED_PLACEHOLDER) out) md"
| "strip_item_images (CustomToolCallOutput i c n out md) =
     CustomToolCallOutput i c n (map_content_items (replace_output_image IMAGE_CONTENT_OMITTED_PLACEHOLDER) out) md"
| "strip_item_images (ImageGenerationCall i st rp _ md) = ImageGenerationCall i st rp [] md"
| "strip_item_images item = item"

datatype input_modality = TextModality | ImageModality

definition strip_images_when_unsupported ::
  "input_modality list \<Rightarrow> response_item list \<Rightarrow> response_item list" where
  "strip_images_when_unsupported modalities items =
     (if ImageModality \<in> set modalities then items else map strip_item_images items)"

definition normalize_items ::
  "history_env \<Rightarrow> input_modality list \<Rightarrow> response_item list \<Rightarrow> response_item list" where
  "normalize_items env modalities items =
     strip_images_when_unsupported modalities
       (remove_orphan_outputs (ensure_call_outputs_present env items))"

end
