(* ===== verification/Context_Manager.thy ===== *)
theory Context_Manager
  imports Context_History
begin

text \<open>
  The state of \<open>ContextManager\<close> (\<open>core/src/context_manager/history.rs\<close>) and its operations:
  recording, rollback, replacement, token accounting (with \<open>TokenUsageInfo\<close> of
  \<open>protocol/src/protocol.rs\<close>) and the size estimates. The reference context item and the
  world-state snapshot are opaque types \<open>'r\<close> and \<open>'w\<close>.
\<close>

section \<open>Token usage\<close>

record token_usage =
  input_tokens :: int
  cached_input_tokens :: int
  output_tokens :: int
  reasoning_output_tokens :: int
  total_tokens :: int

record token_usage_info =
  total_token_usage :: token_usage
  last_token_usage :: token_usage
  model_context_window :: "int option"

definition default_usage :: token_usage where
  "default_usage = \<lparr>input_tokens = 0, cached_input_tokens = 0, output_tokens = 0,
     reasoning_output_tokens = 0, total_tokens = 0\<rparr>"

definition add_usage :: "token_usage \<Rightarrow> token_usage \<Rightarrow> token_usage" where
  "add_usage a b =
     \<lparr>input_tokens = wrap_i64 (input_tokens a + input_tokens b),
      cached_input_tokens = wrap_i64 (cached_input_tokens a + cached_input_tokens b),
      output_tokens = wrap_i64 (output_tokens a + output_tokens b),
      reasoning_output_tokens = wrap_i64 (reasoning_output_tokens a + reasoning_output_tokens b),
      total_tokens = wrap_i64 (total_tokens a + total_tokens b)\<rparr>"

definition append_last_usage :: "token_usage_info \<Rightarrow> token_usage \<Rightarrow> token_usage_info" where
  "append_last_usage info usage =
     info\<lparr>total_token_usage := add_usage (total_token_usage info) usage, last_token_usage := usage\<rparr>"

definition new_or_append ::
  "token_usage_info option \<Rightarrow> token_usage option \<Rightarrow> int option \<Rightarrow> token_usage_info option" where
  "new_or_append info usage window =
     (if info = None \<and> usage = None then None
      else
        let info0 = (case info of Some i \<Rightarrow> i | None \<Rightarrow>
              \<lparr>total_token_usage = default_usage, last_token_usage = default_usage, model_context_window = window\<rparr>);
            info1 = (case usage of Some l \<Rightarrow> append_last_usage info0 l | None \<Rightarrow> info0)
        in Some (case window of Some w \<Rightarrow> info1\<lparr>model_context_window := Some w\<rparr> | None \<Rightarrow> info1))"

definition fill_to_context_window :: "token_usage_info \<Rightarrow> int \<Rightarrow> token_usage_info" where
  "fill_to_context_window info window =
     (let delta = max (wrap_i64 (window - total_tokens (total_token_usage info))) 0
      in info\<lparr>model_context_window := Some window,
              total_token_usage := default_usage\<lparr>total_tokens := window\<rparr>,
              last_token_usage := default_usage\<lparr>total_tokens := delta\<rparr>\<rparr>)"

definition full_context_window :: "int \<Rightarrow> token_usage_info" where
  "full_context_window window = fill_to_context_window
     \<lparr>total_token_usage = default_usage, last_token_usage = default_usage, model_context_window = Some window\<rparr> window"

section \<open>Kinds of items\<close>

definition is_api_message :: "response_item \<Rightarrow> bool" where
  "is_api_message item = (case item of
       Message _ role _ _ _ \<Rightarrow> role \<noteq> lit ''system''
     | CompactionTrigger \<Rightarrow> False
     | OtherItem \<Rightarrow> False
     | _ \<Rightarrow> True)"

definition is_model_generated_item :: "response_item \<Rightarrow> bool" where
  "is_model_generated_item item = (case item of
       Message _ role _ _ _ \<Rightarrow> role = lit ''assistant''
     | Reasoning _ _ _ _ _ \<Rightarrow> True
     | FunctionCall _ _ _ _ _ _ \<Rightarrow> True
     | ToolSearchCall _ _ _ _ _ _ \<Rightarrow> True
     | WebSearchCall _ _ _ _ \<Rightarrow> True
     | ImageGenerationCall _ _ _ _ _ \<Rightarrow> True
     | CustomToolCall _ _ _ _ _ _ _ \<Rightarrow> True
     | LocalShellCall _ _ _ _ _ \<Rightarrow> True
     | Compaction _ _ _ \<Rightarrow> True
     | ContextCompaction _ _ _ \<Rightarrow> True
     | _ \<Rightarrow> False)"

definition is_contextual_user_message_content :: "history_env \<Rightarrow> content_item list \<Rightarrow> bool" where
  "is_contextual_user_message_content env content = list_ex (contextual_user_fragment env) content"

definition is_contextual_dev_message_content :: "history_env \<Rightarrow> content_item list \<Rightarrow> bool" where
  "is_contextual_dev_message_content env content = list_ex (contextual_dev_fragment env) content"

definition has_non_contextual_dev_message_content :: "history_env \<Rightarrow> content_item list \<Rightarrow> bool" where
  "has_non_contextual_dev_message_content env content = list_ex (\<lambda>c. \<not> contextual_dev_fragment env c) content"

definition is_inter_agent_instruction_content :: "history_env \<Rightarrow> content_item list \<Rightarrow> bool" where
  "is_inter_agent_instruction_content env content = (case content of
       [InputText t] \<Rightarrow> inter_agent_text env t
     | [OutputText t] \<Rightarrow> inter_agent_text env t
     | _ \<Rightarrow> False)"

definition is_user_turn_boundary :: "history_env \<Rightarrow> response_item \<Rightarrow> bool" where
  "is_user_turn_boundary env item = (case item of
       AgentMessage _ _ _ _ _ \<Rightarrow> True
     | Message _ role content _ _ \<Rightarrow>
         (role = lit ''user'' \<and> \<not> is_contextual_user_message_content env content) \<or>
         (role = lit ''assistant'' \<and> is_inter_agent_instruction_content env content)
     | _ \<Rightarrow> False)"

definition user_message_positions :: "history_env \<Rightarrow> response_item list \<Rightarrow> nat list" where
  "user_message_positions env items = filter (\<lambda>i. is_user_turn_boundary env (items ! i)) [0..<length items]"

section \<open>Size estimates\<close>

definition estimate_reasoning_length :: "nat \<Rightarrow> nat" where
  "estimate_reasoning_length encoded_len = min (encoded_len * 3) USIZE_MAX div 4 - 650"

definition estimate_encrypted_function_output_length :: "nat \<Rightarrow> nat" where
  "estimate_encrypted_function_output_length encoded_len =
     (let n = min (encoded_len * 9) USIZE_MAX in n div 16 + (if n mod 16 = 0 then 0 else 1))"

definition RESIZED_IMAGE_BYTES_ESTIMATE :: int where "RESIZED_IMAGE_BYTES_ESTIMATE = 7373"
definition ORIGINAL_IMAGE_PATCH_SIZE :: int where "ORIGINAL_IMAGE_PATCH_SIZE = 32"
definition ORIGINAL_IMAGE_MAX_PATCHES :: int where "ORIGINAL_IMAGE_MAX_PATCHES = 10000"

definition to_lower :: "ustr \<Rightarrow> ustr" where
  "to_lower s = map (\<lambda>c. if 65 \<le> c \<and> c \<le> 90 then c + 32 else c) s"

text \<open>
  \<open>url.get(..n)\<close> of a string whose first \<open>n\<close> bytes are ASCII once they compare equal: a
  prefix of \<open>n\<close> characters that is shorter or off a boundary differs as well.
\<close>

definition parse_base64_image_data_url :: "ustr \<Rightarrow> ustr option" where
  "parse_base64_image_data_url url =
     (if to_lower (take 5 url) \<noteq> lit ''data:'' then None
      else if 44 \<notin> set url then None
      else
        let metadata = takeWhile (\<lambda>c. c \<noteq> 44) url;
            payload = drop (Suc (length metadata)) url;
            parts = split_on 59 (drop 5 metadata);
            has_base64_marker = list_ex (\<lambda>p. to_lower p = lit ''base64'') (tl parts)
        in if to_lower (take 6 (hd parts)) \<noteq> lit ''image/'' then None
           else if \<not> has_base64_marker then None
           else Some payload)"

text \<open>\<open>image_size\<close> stands for decoding the payload; the cache returns what was computed.\<close>

definition estimate_original_image_bytes :: "history_env \<Rightarrow> ustr \<Rightarrow> int option" where
  "estimate_original_image_bytes env image_url =
     (case parse_base64_image_data_url image_url of
        None \<Rightarrow> None
      | Some payload \<Rightarrow>
          map_option (\<lambda>(width, height).
            let pw = sat_add (int width) (ORIGINAL_IMAGE_PATCH_SIZE - 1) div ORIGINAL_IMAGE_PATCH_SIZE;
                ph = sat_add (int height) (ORIGINAL_IMAGE_PATCH_SIZE - 1) div ORIGINAL_IMAGE_PATCH_SIZE;
                patches = min (clamp_i64 (pw * ph)) ORIGINAL_IMAGE_MAX_PATCHES
            in i64_of_usize (approx_bytes_for_tokens (nat patches)))
          (image_size env payload))"

definition accumulate_image ::
  "history_env \<Rightarrow> ustr \<times> image_detail option \<Rightarrow> int \<times> int \<Rightarrow> int \<times> int" where
  "accumulate_image env img acc = (case (img, acc) of ((url, detail), (payload_bytes, replacement_bytes)) \<Rightarrow>
     (case parse_base64_image_data_url url of
        None \<Rightarrow> acc
      | Some payload \<Rightarrow>
          (sat_add payload_bytes (i64_of_usize (utf8_len payload)),
           sat_add replacement_bytes
             (if detail = Some Original then
                (case estimate_original_image_bytes env url of Some b \<Rightarrow> b | None \<Rightarrow> RESIZED_IMAGE_BYTES_ESTIMATE)
              else RESIZED_IMAGE_BYTES_ESTIMATE))))"

definition item_images :: "response_item \<Rightarrow> (ustr \<times> image_detail option) list" where
  "item_images item = (case item of
       Message _ _ content _ _ \<Rightarrow> concat (map (\<lambda>c. case c of InputImage u d \<Rightarrow> [(u, d)] | _ \<Rightarrow> []) content)
     | FunctionCallOutput _ _ out _ \<Rightarrow> (case body out of
          ContentItems items \<Rightarrow> concat (map (\<lambda>c. case c of OutImage u d \<Rightarrow> [(u, d)] | _ \<Rightarrow> []) items) | _ \<Rightarrow> [])
     | CustomToolCallOutput _ _ _ out _ \<Rightarrow> (case body out of
          ContentItems items \<Rightarrow> concat (map (\<lambda>c. case c of OutImage u d \<Rightarrow> [(u, d)] | _ \<Rightarrow> []) items) | _ \<Rightarrow> [])
     | _ \<Rightarrow> [])"

definition image_data_url_estimate_adjustment :: "history_env \<Rightarrow> response_item \<Rightarrow> int \<times> int" where
  "image_data_url_estimate_adjustment env item = fold (accumulate_image env) (item_images item) (0, 0)"

definition accumulate_encrypted :: "output_content_item \<Rightarrow> int \<times> int \<Rightarrow> int \<times> int" where
  "accumulate_encrypted i acc = (case i of
       OutEncrypted e \<Rightarrow>
         (sat_add (fst acc) (i64_of_usize (utf8_len e)),
          sat_add (snd acc) (i64_of_usize (estimate_encrypted_function_output_length (utf8_len e))))
     | _ \<Rightarrow> acc)"

definition encrypted_function_output_estimate_adjustment :: "response_item \<Rightarrow> int \<times> int" where
  "encrypted_function_output_estimate_adjustment item = (case item of
       FunctionCallOutput _ _ out _ \<Rightarrow> (case body out of
          ContentItems items \<Rightarrow> fold accumulate_encrypted items (0, 0) | Text _ \<Rightarrow> (0, 0))
     | _ \<Rightarrow> (0, 0))"

definition estimate_response_item_model_visible_bytes :: "history_env \<Rightarrow> response_item \<Rightarrow> int" where
  "estimate_response_item_model_visible_bytes env item =
     (let general =
        (case (image_data_url_estimate_adjustment env item, encrypted_function_output_estimate_adjustment item) of
           ((image_payload, image_replacement), (encrypted_payload, encrypted_replacement)) \<Rightarrow>
             sat_add (sat_sub
               (sat_add (sat_sub (i64_of_usize (serialized_len env item)) image_payload) image_replacement)
               encrypted_payload) encrypted_replacement)
      in case item of
           Reasoning _ _ _ (Some content) _ \<Rightarrow> i64_of_usize (estimate_reasoning_length (utf8_len content))
         | Compaction _ content _ \<Rightarrow> i64_of_usize (estimate_reasoning_length (utf8_len content))
         | ContextCompaction _ (Some content) _ \<Rightarrow> i64_of_usize (estimate_reasoning_length (utf8_len content))
         | _ \<Rightarrow> general)"

definition approx_tokens_from_byte_count_i64 :: "int \<Rightarrow> int" where
  "approx_tokens_from_byte_count_i64 bytes =
     (if bytes \<le> 0 then 0 else i64_of_usize (approx_tokens_from_byte_count (nat bytes)))"

definition estimate_item_token_count :: "history_env \<Rightarrow> response_item \<Rightarrow> int" where
  "estimate_item_token_count env item =
     approx_tokens_from_byte_count_i64 (estimate_response_item_model_visible_bytes env item)"

definition sum_tokens :: "history_env \<Rightarrow> response_item list \<Rightarrow> int" where
  "sum_tokens env items = fold (\<lambda>i acc. sat_add acc (estimate_item_token_count env i)) items 0"

section \<open>The manager\<close>

record ('r, 'w) context_manager =
  items :: "response_item list"
  history_version :: nat
  token_info :: "token_usage_info option"
  reference_context_item :: "'r option"
  world_state_baseline :: "'w option"

definition new_manager :: "('r, 'w) context_manager" where
  "new_manager = \<lparr>items = [], history_version = 0, token_info = new_or_append None None None,
     reference_context_item = None, world_state_baseline = None\<rparr>"

definition U64_MAX :: nat where "U64_MAX = 2 ^ 64 - 1"

definition bump_version :: "nat \<Rightarrow> nat" where
  "bump_version v = (if int v \<ge> 2 ^ 64 - 1 then v else v + 1)"

definition replace_items :: "response_item list \<Rightarrow> ('r, 'w) context_manager \<Rightarrow> ('r, 'w) context_manager" where
  "replace_items new m = m\<lparr>items := new, history_version := bump_version (history_version m),
     world_state_baseline := None\<rparr>"

definition truncate_function_output_payload ::
  "output_payload \<Rightarrow> truncation_policy \<Rightarrow> output_payload option" where
  "truncate_function_output_payload out policy =
     map_option (\<lambda>b. out\<lparr>body := b\<rparr>)
       (case body out of
          Text content \<Rightarrow> map_option Text (truncate_text content policy)
        | ContentItems is \<Rightarrow> map_option ContentItems (truncate_function_output_items_with_policy is policy))"

definition scaled_policy :: "history_env \<Rightarrow> truncation_policy \<Rightarrow> truncation_policy" where
  "scaled_policy env policy = (case policy of
       Bytes n \<Rightarrow> Bytes (scale_budget env n) | Tokens n \<Rightarrow> Tokens (scale_budget env n))"

definition process_item :: "history_env \<Rightarrow> response_item \<Rightarrow> truncation_policy \<Rightarrow> response_item option" where
  "process_item env item policy = (case item of
       FunctionCallOutput i c out md \<Rightarrow>
         map_option (\<lambda>o'. FunctionCallOutput i c o' md) (truncate_function_output_payload out (scaled_policy env policy))
     | CustomToolCallOutput i c n out md \<Rightarrow>
         map_option (\<lambda>o'. CustomToolCallOutput i c n o' md) (truncate_function_output_payload out (scaled_policy env policy))
     | _ \<Rightarrow> Some item)"

fun record_items ::
  "history_env \<Rightarrow> truncation_policy \<Rightarrow> response_item list \<Rightarrow> ('r, 'w) context_manager \<Rightarrow>
     ('r, 'w) context_manager option" where
  "record_items env policy [] m = Some m"
| "record_items env policy (item # rest) m =
     (if \<not> is_api_message item then record_items env policy rest m
      else case process_item env item policy of
          None \<Rightarrow> None
        | Some processed \<Rightarrow> record_items env policy rest (m\<lparr>items := items m @ [processed]\<rparr>))"

definition normalize_history ::
  "history_env \<Rightarrow> input_modality list \<Rightarrow> ('r, 'w) context_manager \<Rightarrow> ('r, 'w) context_manager" where
  "normalize_history env modalities m = m\<lparr>items := normalize_items env modalities (items m)\<rparr>"

definition for_prompt ::
  "history_env \<Rightarrow> input_modality list \<Rightarrow> ('r, 'w) context_manager \<Rightarrow> response_item list" where
  "for_prompt env modalities m = items (normalize_history env modalities m)"

definition remove_first_item :: "('r, 'w) context_manager \<Rightarrow> ('r, 'w) context_manager" where
  "remove_first_item m = (case items m of
       [] \<Rightarrow> m
     | removed # rest \<Rightarrow>
         m\<lparr>items := remove_corresponding_for rest removed, world_state_baseline := None\<rparr>)"

definition rposition :: "('a \<Rightarrow> bool) \<Rightarrow> 'a list \<Rightarrow> nat option" where
  "rposition P xs = last_opt (filter (\<lambda>i. P (xs ! i)) [0..<length xs])"

definition replace_last_turn_images ::
  "history_env \<Rightarrow> ustr \<Rightarrow> ('r, 'w) context_manager \<Rightarrow> bool \<times> ('r, 'w) context_manager" where
  "replace_last_turn_images env placeholder m =
     (case rposition (\<lambda>i. (case i of FunctionCallOutput _ _ _ _ \<Rightarrow> True | _ \<Rightarrow> False) \<or> is_user_turn_boundary env i)
             (items m) of
        None \<Rightarrow> (False, m)
      | Some index \<Rightarrow>
          (case items m ! index of
             FunctionCallOutput i c out md \<Rightarrow>
               (case body out of
                  Text _ \<Rightarrow> (False, m)
                | ContentItems cs \<Rightarrow>
                    if list_ex (\<lambda>x. case x of OutImage _ _ \<Rightarrow> True | _ \<Rightarrow> False) cs then
                      (True, m\<lparr>items := (items m)[index := FunctionCallOutput i c
                                  (map_content_items (replace_output_image placeholder) out) md],
                               history_version := bump_version (history_version m)\<rparr>)
                    else (False, m))
           | _ \<Rightarrow> (False, m)))"

text \<open>The loop walks back; it returns the cut and whether the reference item is cleared.\<close>

function trim_pre_turn_context_updates ::
  "history_env \<Rightarrow> response_item list \<Rightarrow> nat \<Rightarrow> nat \<Rightarrow> bool \<Rightarrow> nat \<times> bool" where
  "trim_pre_turn_context_updates env snapshot first_idx cut_idx cleared =
     (if cut_idx > first_idx then
        (case snapshot ! (cut_idx - 1) of
           Message _ role content _ _ \<Rightarrow>
             if role = lit ''developer'' \<and> is_contextual_dev_message_content env content then
               trim_pre_turn_context_updates env snapshot first_idx (cut_idx - 1)
                 (cleared \<or> has_non_contextual_dev_message_content env content)
             else if role = lit ''user'' \<and> is_contextual_user_message_content env content then
               trim_pre_turn_context_updates env snapshot first_idx (cut_idx - 1) cleared
             else (cut_idx, cleared)
         | _ \<Rightarrow> (cut_idx, cleared))
      else (cut_idx, cleared))"
  by pat_completeness auto
termination by (relation "measure (\<lambda>(_, _, _, cut, _). cut)") auto

declare trim_pre_turn_context_updates.simps [simp del]

definition drop_last_n_user_turns ::
  "history_env \<Rightarrow> nat \<Rightarrow> ('r, 'w) context_manager \<Rightarrow> ('r, 'w) context_manager" where
  "drop_last_n_user_turns env num_turns m =
     (if num_turns = 0 then m
      else case user_message_positions env (items m) of
          [] \<Rightarrow> replace_items (items m) m
        | first_idx # rest \<Rightarrow>
            let positions = first_idx # rest;
                cut = (if num_turns \<ge> length positions then first_idx
                       else positions ! (length positions - num_turns));
                (cut', cleared) = trim_pre_turn_context_updates env (items m) first_idx cut False;
                m' = (if cleared then m\<lparr>reference_context_item := None\<rparr> else m)
            in replace_items (take cut' (items m)) m')"

definition set_token_usage_full :: "int \<Rightarrow> ('r, 'w) context_manager \<Rightarrow> ('r, 'w) context_manager" where
  "set_token_usage_full window m = m\<lparr>token_info := Some (case token_info m of
       Some info \<Rightarrow> fill_to_context_window info window
     | None \<Rightarrow> full_context_window window)\<rparr>"

definition update_token_info ::
  "token_usage \<Rightarrow> int option \<Rightarrow> ('r, 'w) context_manager \<Rightarrow> ('r, 'w) context_manager" where
  "update_token_info usage window m = m\<lparr>token_info := new_or_append (token_info m) (Some usage) window\<rparr>"

definition estimate_token_count_with_base_instructions ::
  "history_env \<Rightarrow> ustr \<Rightarrow> ('r, 'w) context_manager \<Rightarrow> int option" where
  "estimate_token_count_with_base_instructions env base m =
     Some (sat_add (i64_of_usize (approx_token_count base)) (sum_tokens env (items m)))"

definition get_non_last_reasoning_items_tokens :: "history_env \<Rightarrow> ('r, 'w) context_manager \<Rightarrow> int" where
  "get_non_last_reasoning_items_tokens env m =
     (case rposition (is_user_turn_boundary env) (items m) of
        None \<Rightarrow> 0
      | Some last_user_index \<Rightarrow> sum_tokens env
          (filter (\<lambda>i. case i of Reasoning _ _ _ (Some _) _ \<Rightarrow> True | _ \<Rightarrow> False) (take last_user_index (items m))))"

definition items_after_last_model_generated_item :: "('r, 'w) context_manager \<Rightarrow> response_item list" where
  "items_after_last_model_generated_item m =
     drop (case rposition is_model_generated_item (items m) of
             Some index \<Rightarrow> index + 1 | None \<Rightarrow> length (items m)) (items m)"

definition get_total_token_usage :: "history_env \<Rightarrow> bool \<Rightarrow> ('r, 'w) context_manager \<Rightarrow> int" where
  "get_total_token_usage env server_reasoning_included m =
     (let last_tokens = (case token_info m of Some info \<Rightarrow> total_tokens (last_token_usage info) | None \<Rightarrow> 0);
          after = sum_tokens env (items_after_last_model_generated_item m)
      in if server_reasoning_included then sat_add last_tokens after
         else sat_add (sat_add last_tokens (get_non_last_reasoning_items_tokens env m)) after)"

end
