(* ===== verification/Anthropic_Wire.thy ===== *)
theory Anthropic_Wire
  imports Context_Manager
begin

text \<open>
  The wire to DeepSeek's Anthropic-compatible Messages API: the request built from the
  transcript (\<open>codex-api/src/anthropic.rs\<close>) and the decoder of the streamed response
  (\<open>codex-api/src/sse/anthropic.rs\<close>). Text is turned into JSON values by \<open>serde_json\<close>,
  the parameter \<open>parse_json\<close>; the polls of the event stream (an event's data, an error, the
  end, the idle timeout) are the decoder's input. The receiver of the events stays open.
\<close>

section \<open>JSON values\<close>

datatype json =
    JNull
  | JBool bool
  | JInt int
  | JFloat ustr
  | JStr ustr
  | JArr "json list"
  | JObj "(ustr \<times> json) list"

definition jget :: "string \<Rightarrow> json \<Rightarrow> json option" where
  "jget k v = (case v of JObj kvs \<Rightarrow> map_of kvs (lit k) | _ \<Rightarrow> None)"

definition as_str :: "json \<Rightarrow> ustr option" where
  "as_str v = (case v of JStr s \<Rightarrow> Some s | _ \<Rightarrow> None)"

definition as_i64 :: "json \<Rightarrow> int option" where
  "as_i64 v = (case v of JInt n \<Rightarrow> if I64_MIN \<le> n \<and> n \<le> I64_MAX then Some n else None | _ \<Rightarrow> None)"

definition get_str :: "string \<Rightarrow> json \<Rightarrow> ustr option" where
  "get_str k v = Option.bind (jget k v) as_str"

definition get_i64 :: "string \<Rightarrow> json \<Rightarrow> int option" where
  "get_i64 k v = Option.bind (jget k v) as_i64"

definition or_default :: "'a \<Rightarrow> 'a option \<Rightarrow> 'a" where
  "or_default d x = (case x of Some y \<Rightarrow> y | None \<Rightarrow> d)"

definition jobj :: "(string \<times> json) list \<Rightarrow> json" where
  "jobj kvs = JObj (map (\<lambda>(k, v). (lit k, v)) kvs)"

section \<open>Building the request\<close>

record anthropic_message =
  msg_role :: ustr
  msg_content :: "json list"

definition image_block :: "ustr \<Rightarrow> json" where
  "image_block image_url =
     (let by_url = jobj [(''type'', JStr (lit ''image'')),
            (''source'', jobj [(''type'', JStr (lit ''url'')), (''url'', JStr image_url)])]
      in case strip_prefix (lit ''data:'') image_url of
           None \<Rightarrow> by_url
         | Some rest \<Rightarrow>
             if 44 \<notin> set rest then by_url
             else
               let meta = takeWhile (\<lambda>c. c \<noteq> 44) rest;
                   data = drop (Suc (length meta)) rest
               in jobj [(''type'', JStr (lit ''image'')),
                    (''source'', jobj [(''type'', JStr (lit ''base64'')),
                       (''media_type'', JStr (hd (split_on 59 meta))), (''data'', JStr data)])])"

definition text_block :: "ustr \<Rightarrow> json" where
  "text_block t = jobj [(''type'', JStr (lit ''text'')), (''text'', JStr t)]"

definition tool_use_block :: "ustr \<Rightarrow> ustr \<Rightarrow> json \<Rightarrow> json" where
  "tool_use_block call_id name input = jobj [(''type'', JStr (lit ''tool_use'')), (''id'', JStr call_id),
     (''name'', JStr name), (''input'', input)]"

definition tool_result_block :: "ustr \<Rightarrow> ustr \<Rightarrow> json" where
  "tool_result_block call_id t = jobj [(''type'', JStr (lit ''tool_result'')), (''tool_use_id'', JStr call_id),
     (''content'', JStr t)]"

definition content_item_to_block :: "content_item \<Rightarrow> json option" where
  "content_item_to_block c = (case c of
       InputText t \<Rightarrow> if t = [] then None else Some (text_block t)
     | OutputText t \<Rightarrow> if t = [] then None else Some (text_block t)
     | InputImage url _ \<Rightarrow> Some (image_block url))"

definition body_to_text :: "output_body \<Rightarrow> ustr option" where
  "body_to_text b = (case b of
       Text content \<Rightarrow> Some content
     | ContentItems cs \<Rightarrow>
         let segments = filter (\<lambda>t. trim t \<noteq> []) (text_segments cs)
         in if segments = [] then None else Some (join_with [LF] segments))"

definition response_item_to_blocks ::
  "(ustr \<Rightarrow> json option) \<Rightarrow> response_item \<Rightarrow> (ustr \<times> json list) option" where
  "response_item_to_blocks parse_json item = (case item of
       Message _ role content _ _ \<Rightarrow>
         Some (if role = lit ''assistant'' then lit ''assistant'' else lit ''user'',
               List.map_filter content_item_to_block content)
     | FunctionCall _ name _ arguments call_id _ \<Rightarrow>
         Some (lit ''assistant'', [tool_use_block call_id name (or_default (jobj []) (parse_json arguments))])
     | CustomToolCall _ _ call_id name _ input _ \<Rightarrow>
         Some (lit ''assistant'',
               [tool_use_block call_id name (or_default (jobj [(''input'', JStr input)]) (parse_json input))])
     | FunctionCallOutput _ call_id out _ \<Rightarrow>
         Some (lit ''user'', [tool_result_block call_id (or_default [] (body_to_text (body out)))])
     | CustomToolCallOutput _ call_id _ out _ \<Rightarrow>
         Some (lit ''user'', [tool_result_block call_id (or_default [] (body_to_text (body out)))])
     | _ \<Rightarrow> None)"

definition push_blocks :: "anthropic_message list \<Rightarrow> ustr \<Rightarrow> json list \<Rightarrow> anthropic_message list" where
  "push_blocks messages role blocks =
     (if messages \<noteq> [] \<and> msg_role (last messages) = role then
        butlast messages @ [(last messages)\<lparr>msg_content := msg_content (last messages) @ blocks\<rparr>]
      else messages @ [\<lparr>msg_role = role, msg_content = blocks\<rparr>])"

fun messages_loop ::
  "(ustr \<Rightarrow> json option) \<Rightarrow> response_item list \<Rightarrow> anthropic_message list \<Rightarrow> anthropic_message list" where
  "messages_loop parse_json [] messages = messages"
| "messages_loop parse_json (item # rest) messages =
     messages_loop parse_json rest
       (case response_item_to_blocks parse_json item of
          None \<Rightarrow> messages
        | Some (role, blocks) \<Rightarrow> if blocks = [] then messages else push_blocks messages role blocks)"

definition messages_from_response_items ::
  "(ustr \<Rightarrow> json option) \<Rightarrow> response_item list \<Rightarrow> anthropic_message list" where
  "messages_from_response_items parse_json its = messages_loop parse_json its []"

record messages_api_request =
  req_model :: ustr
  req_max_tokens :: int
  req_system :: "ustr option"
  req_messages :: "anthropic_message list"
  req_tools :: "json list option"
  req_tool_choice :: "json option"
  req_thinking :: "json option"
  req_stream :: bool

definition THINKING_BUDGET_TOKENS :: int where "THINKING_BUDGET_TOKENS = 8192"
definition DEFAULT_MAX_OUTPUT_TOKENS :: int where "DEFAULT_MAX_OUTPUT_TOKENS = 32000"

record messages_request_params =
  par_model :: ustr
  par_instructions :: ustr
  par_input :: "response_item list"
  par_tools :: "json list option"
  par_parallel_tool_calls :: bool
  par_reasoning_enabled :: bool
  par_max_tokens :: int

definition from_responses :: "(ustr \<Rightarrow> json option) \<Rightarrow> messages_request_params \<Rightarrow> messages_api_request" where
  "from_responses parse_json p =
     \<lparr>req_model = par_model p,
      req_max_tokens = par_max_tokens p,
      req_system = (if trim (par_instructions p) = [] then None else Some (par_instructions p)),
      req_messages = messages_from_response_items parse_json (par_input p),
      req_tools = par_tools p,
      req_tool_choice = map_option (\<lambda>_. jobj [(''type'', JStr (lit ''auto'')),
        (''disable_parallel_tool_use'', JBool (\<not> par_parallel_tool_calls p))]) (par_tools p),
      req_thinking = (if par_reasoning_enabled p then
          Some (jobj [(''type'', JStr (lit ''enabled'')), (''budget_tokens'', JInt THINKING_BUDGET_TOKENS)])
        else None),
      req_stream = True\<rparr>"

section \<open>Decoding the stream\<close>

datatype response_event =
    Created
  | OutputItemAdded response_item
  | OutputItemDone response_item
  | OutputTextDelta ustr
  | ReasoningContentDelta ustr int
  | ToolCallInputDelta ustr "ustr option" ustr
  | Completed ustr "token_usage option" "bool option"

datatype block_kind = TextBlock | ThinkingBlock | ToolUseBlock ustr ustr

record block_state =
  blk_kind :: block_kind
  buf :: ustr

record sse_state =
  response_id :: ustr
  in_tokens :: int
  cached_tokens :: int
  out_tokens :: int
  stop_reason :: "ustr option"
  blocks :: "(int \<times> block_state) list"

definition init_sse :: sse_state where
  "init_sse = \<lparr>response_id = [], in_tokens = 0, cached_tokens = 0, out_tokens = 0,
     stop_reason = None, blocks = []\<rparr>"

text \<open>The hash map of open blocks; an insertion replaces what is there.\<close>

definition insert_block :: "int \<Rightarrow> block_state \<Rightarrow> (int \<times> block_state) list \<Rightarrow> (int \<times> block_state) list" where
  "insert_block i b bs = (i, b) # filter (\<lambda>e. fst e \<noteq> i) bs"

definition remove_block :: "int \<Rightarrow> (int \<times> block_state) list \<Rightarrow> (int \<times> block_state) list" where
  "remove_block i bs = filter (\<lambda>e. fst e \<noteq> i) bs"

definition append_buf :: "int \<Rightarrow> ustr \<Rightarrow> (int \<times> block_state) list \<Rightarrow> (int \<times> block_state) list" where
  "append_buf i t bs = map (\<lambda>(j, b). if j = i then (j, b\<lparr>buf := buf b @ t\<rparr>) else (j, b)) bs"

definition assistant_message :: "content_item list \<Rightarrow> response_item" where
  "assistant_message content = Message None (lit ''assistant'') content None None"

definition initial_item :: "block_kind \<Rightarrow> response_item" where
  "initial_item k = (case k of
       TextBlock \<Rightarrow> assistant_message []
     | ThinkingBlock \<Rightarrow> Reasoning None [] (Some []) None None
     | ToolUseBlock i name \<Rightarrow> FunctionCall None name None [] i None)"

definition finished_item :: "block_kind \<Rightarrow> ustr \<Rightarrow> response_item" where
  "finished_item k t = (case k of
       TextBlock \<Rightarrow> assistant_message [OutputText t]
     | ThinkingBlock \<Rightarrow> Reasoning None [] (Some [t]) None None
     | ToolUseBlock i name \<Rightarrow>
         FunctionCall None name None (if trim t = [] then lit ''{}'' else t) i None)"

type_synonym sse_result = "sse_state \<times> (ustr, response_event) result list \<times> bool"

text \<open>Each handler returns the new state, what it sends, and whether it returns from the loop.\<close>

definition on_message_start :: "sse_state \<Rightarrow> json \<Rightarrow> sse_result" where
  "on_message_start st v =
     (let st' = (case jget ''message'' v of
          None \<Rightarrow> st
        | Some msg \<Rightarrow>
            let st1 = (case get_str ''id'' msg of Some i \<Rightarrow> st\<lparr>response_id := i\<rparr> | None \<Rightarrow> st)
            in (case jget ''usage'' msg of
                  None \<Rightarrow> st1
                | Some usage \<Rightarrow> st1\<lparr>in_tokens := or_default 0 (get_i64 ''input_tokens'' usage),
                    cached_tokens := or_default 0 (get_i64 ''cache_read_input_tokens'' usage),
                    out_tokens := or_default 0 (get_i64 ''output_tokens'' usage)\<rparr>))
      in (st', [Ok Created], False))"

definition block_kind_of :: "json option \<Rightarrow> block_kind" where
  "block_kind_of cb =
     (let ty = or_default (lit ''text'') (Option.bind cb (get_str ''type'')) in
      if ty = lit ''tool_use'' then
        ToolUseBlock (or_default [] (Option.bind cb (get_str ''id'')))
                     (or_default [] (Option.bind cb (get_str ''name'')))
      else if ty = lit ''thinking'' then ThinkingBlock
      else TextBlock)"

definition on_content_block_start :: "sse_state \<Rightarrow> json \<Rightarrow> sse_result" where
  "on_content_block_start st v =
     (let index = or_default 0 (get_i64 ''index'' v);
          k = block_kind_of (jget ''content_block'' v)
      in (st\<lparr>blocks := insert_block index \<lparr>blk_kind = k, buf = []\<rparr> (blocks st)\<rparr>,
          [Ok (OutputItemAdded (initial_item k))], False))"

definition on_content_block_delta :: "sse_state \<Rightarrow> json \<Rightarrow> sse_result" where
  "on_content_block_delta st v =
     (let index = or_default 0 (get_i64 ''index'' v) in
      case jget ''delta'' v of
        None \<Rightarrow> (st, [], False)
      | Some delta \<Rightarrow>
          let ty = or_default [] (get_str ''type'' delta) in
          if ty = lit ''text_delta'' then
            (case get_str ''text'' delta of
               None \<Rightarrow> (st, [], False)
             | Some t \<Rightarrow> (st\<lparr>blocks := append_buf index t (blocks st)\<rparr>, [Ok (OutputTextDelta t)], False))
          else if ty = lit ''thinking_delta'' then
            (case get_str ''thinking'' delta of
               None \<Rightarrow> (st, [], False)
             | Some t \<Rightarrow> (st\<lparr>blocks := append_buf index t (blocks st)\<rparr>,
                          [Ok (ReasoningContentDelta t index)], False))
          else if ty = lit ''input_json_delta'' then
            (case get_str ''partial_json'' delta of
               None \<Rightarrow> (st, [], False)
             | Some t \<Rightarrow>
                 let item_id = (case map_of (blocks st) index of
                       Some b \<Rightarrow> (case blk_kind b of ToolUseBlock i _ \<Rightarrow> i | _ \<Rightarrow> [])
                     | None \<Rightarrow> [])
                 in (st\<lparr>blocks := append_buf index t (blocks st)\<rparr>,
                     [Ok (ToolCallInputDelta item_id (Some item_id) t)], False))
          else (st, [], False))"

definition on_content_block_stop :: "sse_state \<Rightarrow> json \<Rightarrow> sse_result" where
  "on_content_block_stop st v =
     (let index = or_default 0 (get_i64 ''index'' v) in
      case map_of (blocks st) index of
        None \<Rightarrow> (st, [], False)
      | Some b \<Rightarrow> (st\<lparr>blocks := remove_block index (blocks st)\<rparr>,
                   [Ok (OutputItemDone (finished_item (blk_kind b) (buf b)))], False))"

definition on_message_delta :: "sse_state \<Rightarrow> json \<Rightarrow> sse_result" where
  "on_message_delta st v =
     (let st1 = (case Option.bind (jget ''delta'' v) (get_str ''stop_reason'') of
                   Some r \<Rightarrow> st\<lparr>stop_reason := Some r\<rparr> | None \<Rightarrow> st);
          st2 = (case Option.bind (jget ''usage'' v) (get_i64 ''output_tokens'') of
                   Some n \<Rightarrow> st1\<lparr>out_tokens := n\<rparr> | None \<Rightarrow> st1)
      in (st2, [], False))"

definition on_message_stop :: "sse_state \<Rightarrow> sse_result" where
  "on_message_stop st =
     (st, [Ok (Completed (response_id st)
        (Some \<lparr>input_tokens = in_tokens st, cached_input_tokens = cached_tokens st,
               output_tokens = out_tokens st, reasoning_output_tokens = 0,
               total_tokens = wrap_i64 (in_tokens st + out_tokens st)\<rparr>)
        (map_option (\<lambda>r. r = lit ''end_turn'') (stop_reason st)))], True)"

definition handle_event :: "sse_state \<Rightarrow> json \<Rightarrow> sse_result" where
  "handle_event st v =
     (let ty = or_default [] (get_str ''type'' v) in
      if ty = lit ''message_start'' then on_message_start st v
      else if ty = lit ''content_block_start'' then on_content_block_start st v
      else if ty = lit ''content_block_delta'' then on_content_block_delta st v
      else if ty = lit ''content_block_stop'' then on_content_block_stop st v
      else if ty = lit ''message_delta'' then on_message_delta st v
      else if ty = lit ''message_stop'' then on_message_stop st
      else if ty = lit ''error'' then
        (st, [Err (or_default (lit ''anthropic stream error'')
                (Option.bind (jget ''error'' v) (get_str ''message'')))], True)
      else (st, [], False))"

datatype sse_poll = Data ustr | StreamError ustr | StreamEnd | IdleTimeout

definition handle_poll :: "(ustr \<Rightarrow> json option) \<Rightarrow> sse_state \<Rightarrow> sse_poll \<Rightarrow> sse_result" where
  "handle_poll parse_json st p = (case p of
       StreamError e \<Rightarrow> (st, [Err e], True)
     | StreamEnd \<Rightarrow> (st, [Err (lit ''stream closed before message_stop'')], True)
     | IdleTimeout \<Rightarrow> (st, [Err (lit ''idle timeout waiting for SSE'')], True)
     | Data d \<Rightarrow>
         if trim d = [] then (st, [], False)
         else (case parse_json d of
                 None \<Rightarrow> (st, [], False)
               | Some v \<Rightarrow> handle_event st v))"

text \<open>The loop over the polls: what was sent, and whether the decoder has returned.\<close>

fun process_anthropic_sse ::
  "(ustr \<Rightarrow> json option) \<Rightarrow> sse_state \<Rightarrow> sse_poll list \<Rightarrow> (ustr, response_event) result list \<times> bool" where
  "process_anthropic_sse parse_json st [] = ([], False)"
| "process_anthropic_sse parse_json st (p # ps) =
     (case handle_poll parse_json st p of
        (st', evs, True) \<Rightarrow> (evs, True)
      | (st', evs, False) \<Rightarrow>
          (case process_anthropic_sse parse_json st' ps of (evs', returned) \<Rightarrow> (evs @ evs', returned)))"

end
