(* ===== verification/Context_Correct.thy ===== *)
theory Context_Correct
  imports Context_Manager "HOL-Library.Sublist"
begin

text \<open>
  What the transcript guarantees: after normalisation calls and outputs are paired, and a
  second normalisation changes nothing; dropping the oldest item keeps the pairing; a
  rollback removes exactly the requested turns; recording appends; estimates stay in the
  range of \<open>i64\<close>.
\<close>

section \<open>Keys of calls and outputs\<close>

text \<open>The identifier under which a call and its output find each other.\<close>

datatype pair_key = FnKey ustr | SearchKey ustr | CustomKey ustr

fun call_key :: "response_item \<Rightarrow> pair_key option" where
  "call_key (FunctionCall _ _ _ _ c _) = Some (FnKey c)"
| "call_key (LocalShellCall _ (Some c) _ _ _) = Some (FnKey c)"
| "call_key (ToolSearchCall _ (Some c) _ _ _ _) = Some (SearchKey c)"
| "call_key (CustomToolCall _ _ c _ _ _ _) = Some (CustomKey c)"
| "call_key _ = None"

fun output_key :: "response_item \<Rightarrow> pair_key option" where
  "output_key (FunctionCallOutput _ c _ _) = Some (FnKey c)"
| "output_key (ToolSearchOutput _ (Some c) _ _ _ _) = Some (SearchKey c)"
| "output_key (CustomToolCallOutput _ c _ _ _) = Some (CustomKey c)"
| "output_key _ = None"

text \<open>Tool searches run by the server answer no recorded call.\<close>

fun server_output :: "response_item \<Rightarrow> bool" where
  "server_output (ToolSearchOutput _ _ _ execution _ _) = (execution = lit ''server'')"
| "server_output _ = False"

definition call_keys :: "response_item list \<Rightarrow> pair_key set" where
  "call_keys xs = {k. \<exists>i\<in>set xs. call_key i = Some k}"

definition output_keys :: "response_item list \<Rightarrow> pair_key set" where
  "output_keys xs = {k. \<exists>i\<in>set xs. output_key i = Some k}"

definition paired :: "response_item list \<Rightarrow> bool" where
  "paired xs \<longleftrightarrow> call_keys xs \<subseteq> output_keys xs \<and>
     (\<forall>i\<in>set xs. \<forall>k. output_key i = Some k \<longrightarrow> k \<in> call_keys xs \<or> server_output i)"

text \<open>The identifier sets of the code, in terms of keys.\<close>

lemma concat_map_case: "c \<in> set (concat (map f xs)) \<longleftrightarrow> (\<exists>i\<in>set xs. c \<in> set (f i))"
  by simp

lemma id_sets:
  "c \<in> set (function_output_ids xs) \<longleftrightarrow> FnKey c \<in> output_keys xs"
  "c \<in> set (tool_search_output_ids xs) \<longleftrightarrow> SearchKey c \<in> output_keys xs"
  "c \<in> set (custom_tool_output_ids xs) \<longleftrightarrow> CustomKey c \<in> output_keys xs"
  "c \<in> set (tool_search_call_ids xs) \<longleftrightarrow> SearchKey c \<in> call_keys xs"
  "c \<in> set (custom_tool_call_ids xs) \<longleftrightarrow> CustomKey c \<in> call_keys xs"
  "c \<in> set (function_call_ids xs) \<or> c \<in> set (local_shell_call_ids xs) \<longleftrightarrow> FnKey c \<in> call_keys xs"
proof -
  have 1: "c \<in> set (case i of FunctionCallOutput _ d _ _ \<Rightarrow> [d] | _ \<Rightarrow> []) \<longleftrightarrow> output_key i = Some (FnKey c)" for i
    by (cases i rule: output_key.cases) auto
  have 2: "c \<in> set (case i of ToolSearchOutput _ (Some d) _ _ _ _ \<Rightarrow> [d] | _ \<Rightarrow> []) \<longleftrightarrow> output_key i = Some (SearchKey c)" for i
    by (cases i rule: output_key.cases) auto
  have 3: "c \<in> set (case i of CustomToolCallOutput _ d _ _ _ \<Rightarrow> [d] | _ \<Rightarrow> []) \<longleftrightarrow> output_key i = Some (CustomKey c)" for i
    by (cases i rule: output_key.cases) auto
  have 4: "c \<in> set (case i of ToolSearchCall _ (Some d) _ _ _ _ \<Rightarrow> [d] | _ \<Rightarrow> []) \<longleftrightarrow> call_key i = Some (SearchKey c)" for i
    by (cases i rule: call_key.cases) auto
  have 5: "c \<in> set (case i of CustomToolCall _ _ d _ _ _ _ \<Rightarrow> [d] | _ \<Rightarrow> []) \<longleftrightarrow> call_key i = Some (CustomKey c)" for i
    by (cases i rule: call_key.cases) auto
  have 6: "c \<in> set (case i of FunctionCall _ _ _ _ d _ \<Rightarrow> [d] | _ \<Rightarrow> []) \<or>
      c \<in> set (case i of LocalShellCall _ (Some d) _ _ _ \<Rightarrow> [d] | _ \<Rightarrow> []) \<longleftrightarrow> call_key i = Some (FnKey c)" for i
    by (cases i rule: call_key.cases) auto
  show "c \<in> set (function_output_ids xs) \<longleftrightarrow> FnKey c \<in> output_keys xs"
    unfolding function_output_ids_def output_keys_def concat_map_case 1 by simp
  show "c \<in> set (tool_search_output_ids xs) \<longleftrightarrow> SearchKey c \<in> output_keys xs"
    unfolding tool_search_output_ids_def output_keys_def concat_map_case 2 by simp
  show "c \<in> set (custom_tool_output_ids xs) \<longleftrightarrow> CustomKey c \<in> output_keys xs"
    unfolding custom_tool_output_ids_def output_keys_def concat_map_case 3 by simp
  show "c \<in> set (tool_search_call_ids xs) \<longleftrightarrow> SearchKey c \<in> call_keys xs"
    unfolding tool_search_call_ids_def call_keys_def concat_map_case 4 by simp
  show "c \<in> set (custom_tool_call_ids xs) \<longleftrightarrow> CustomKey c \<in> call_keys xs"
    unfolding custom_tool_call_ids_def call_keys_def concat_map_case 5 by simp
  show "c \<in> set (function_call_ids xs) \<or> c \<in> set (local_shell_call_ids xs) \<longleftrightarrow> FnKey c \<in> call_keys xs"
    unfolding function_call_ids_def local_shell_call_ids_def call_keys_def concat_map_case
    using 6 by blast
qed

definition missing_for :: "history_env \<Rightarrow> response_item list \<Rightarrow> response_item \<Rightarrow> response_item option" where
  "missing_for env its item = missing_output env (function_output_ids its)
     (tool_search_output_ids its) (custom_tool_output_ids its) item"

lemma missing_for_None_iff:
  "missing_for env its i = None \<longleftrightarrow> (\<forall>k. call_key i = Some k \<longrightarrow> k \<in> output_keys its)"
  by (cases i rule: call_key.cases) (auto simp: missing_for_def missing_output_def id_sets)

lemma missing_for_Some:
  assumes "missing_for env its i = Some out"
  shows "\<exists>k. call_key i = Some k \<and> k \<notin> output_keys its \<and> output_key out = Some k" "call_key out = None"
    "\<not> server_output out"
  using assms
  by (cases i rule: call_key.cases;
      auto simp: missing_for_def missing_output_def id_sets split: if_splits)+

section \<open>One pass instead of insertions\<close>

definition with_missing :: "('a \<Rightarrow> 'a option) \<Rightarrow> 'a \<Rightarrow> 'a list" where
  "with_missing f x = x # (case f x of Some out \<Rightarrow> [out] | None \<Rightarrow> [])"

definition indexed_missing :: "('a \<Rightarrow> 'a option) \<Rightarrow> nat \<Rightarrow> 'a list \<Rightarrow> (nat \<times> 'a) list" where
  "indexed_missing f k xs = concat (map (\<lambda>(idx, x). case f x of Some out \<Rightarrow> [(idx, out)] | None \<Rightarrow> [])
     (zip [k..<k + length xs] xs))"

lemma indexed_missing_Cons:
  "indexed_missing f k (x # xs) = (case f x of Some out \<Rightarrow> [(k, out)] | None \<Rightarrow> []) @ indexed_missing f (Suc k) xs"
proof -
  have "[k..<k + length (x # xs)] = k # [Suc k..<Suc k + length xs]"
    by (simp add: upt_conv_Cons del: upt_Suc)
  then show ?thesis by (simp add: indexed_missing_def)
qed

lemma insert_item_after: "insert_item (Suc (length pre)) y (pre @ x # r) = pre @ x # y # r"
  by (simp add: insert_item_def)

lemma insert_all_missing:
  "fold (\<lambda>(idx, out) xs. insert_item (Suc idx) out xs) (rev (indexed_missing f (length pre) xs)) (pre @ xs) =
     pre @ concat (map (with_missing f) xs)"
proof (induction xs arbitrary: pre)
  case Nil
  then show ?case by (simp add: indexed_missing_def)
next
  case (Cons x xs)
  have IH: "fold (\<lambda>(idx, out) xs. insert_item (Suc idx) out xs) (rev (indexed_missing f (Suc (length pre)) xs)) (pre @ x # xs) =
      pre @ x # concat (map (with_missing f) xs)"
    using Cons.IH [of "pre @ [x]"] by simp
  show ?case
    by (cases "f x") (simp_all add: indexed_missing_Cons IH with_missing_def [of f x] insert_item_after)
qed

lemma ensure_call_outputs_present_eq:
  "ensure_call_outputs_present env its = concat (map (with_missing (missing_for env its)) its)"
proof -
  have "missing_outputs env its = indexed_missing (missing_for env its) 0 its"
    by (simp add: missing_outputs_def indexed_missing_def missing_for_def Let_def)
  then show ?thesis
    using insert_all_missing [of "missing_for env its" "[]" its] by (simp add: ensure_call_outputs_present_def)
qed

lemma set_ensure:
  "set (ensure_call_outputs_present env its) =
     set its \<union> {out. \<exists>i\<in>set its. missing_for env its i = Some out}"
  by (auto simp: ensure_call_outputs_present_eq with_missing_def split: option.splits)

lemma ensure_keys:
  shows "call_keys (ensure_call_outputs_present env its) = call_keys its"
    and "output_keys (ensure_call_outputs_present env its) = output_keys its \<union> call_keys its"
proof -
  show "call_keys (ensure_call_outputs_present env its) = call_keys its"
    by (auto simp: call_keys_def set_ensure dest: missing_for_Some(2))
  have "k \<in> output_keys its \<union> call_keys its" if "missing_for env its i = Some out" "i \<in> set its"
      "output_key out = Some k" for k i out
    using missing_for_Some(1) [OF that(1)] that(2,3) by (auto simp: call_keys_def)
  moreover have "\<exists>out\<in>set (ensure_call_outputs_present env its). output_key out = Some k"
    if k: "i \<in> set its" "call_key i = Some k" for i k
  proof (cases "k \<in> output_keys its")
    case True
    then show ?thesis by (auto simp: output_keys_def set_ensure)
  next
    case False
    with k(2) obtain out where out: "missing_for env its i = Some out"
      using missing_for_None_iff [of env its i] by (cases "missing_for env its i") auto
    with missing_for_Some(1) [OF out] k have "output_key out = Some k" by auto
    with out k(1) show ?thesis by (auto simp: set_ensure)
  qed
  moreover have "output_keys its \<subseteq> output_keys (ensure_call_outputs_present env its)"
    by (auto simp: output_keys_def set_ensure)
  moreover have "k \<in> output_keys its \<or> (\<exists>i\<in>set its. \<exists>out. missing_for env its i = Some out \<and> output_key out = Some k)"
    if "k \<in> output_keys (ensure_call_outputs_present env its)" for k
    using that by (auto simp: output_keys_def set_ensure)
  ultimately show "output_keys (ensure_call_outputs_present env its) = output_keys its \<union> call_keys its"
    unfolding output_keys_def [of "ensure_call_outputs_present env its"] call_keys_def by blast
qed

section \<open>Removing orphans\<close>

definition keeps :: "response_item list \<Rightarrow> response_item \<Rightarrow> bool" where
  "keeps its i \<longleftrightarrow> server_output i \<or> (\<forall>k. output_key i = Some k \<longrightarrow> k \<in> call_keys its)"

lemma remove_orphan_outputs_eq: "remove_orphan_outputs its = filter (keeps its) its"
proof -
  have "(case i of
           FunctionCallOutput _ call_id _ _ \<Rightarrow>
             call_id \<in> set (function_call_ids its) \<or> call_id \<in> set (local_shell_call_ids its)
         | CustomToolCallOutput _ call_id _ _ _ \<Rightarrow> call_id \<in> set (custom_tool_call_ids its)
         | ToolSearchOutput _ c _ execution _ _ \<Rightarrow>
             if execution = lit ''server'' then True
             else (case c of Some call_id \<Rightarrow> call_id \<in> set (tool_search_call_ids its) | None \<Rightarrow> True)
         | _ \<Rightarrow> True) = keeps its i" for i
    by (cases i rule: output_key.cases) (auto simp: keeps_def id_sets simp del: lit_simps)
  note eq = this
  show ?thesis unfolding remove_orphan_outputs_def Let_def eq ..
qed

lemma call_key_keeps: "call_key i \<noteq> None \<Longrightarrow> keeps its i"
  by (cases i rule: call_key.cases) (auto simp: keeps_def)

lemma paired_remove_orphans:
  assumes "call_keys xs \<subseteq> output_keys xs"
  shows "paired (remove_orphan_outputs xs)"
proof -
  have c: "call_keys (remove_orphan_outputs xs) = call_keys xs"
    using call_key_keeps by (fastforce simp: call_keys_def remove_orphan_outputs_eq)
  moreover have "call_keys xs \<subseteq> output_keys (remove_orphan_outputs xs)"
  proof
    fix k assume k: "k \<in> call_keys xs"
    with assms obtain i where "i \<in> set xs" "output_key i = Some k" by (auto simp: output_keys_def)
    with k show "k \<in> output_keys (remove_orphan_outputs xs)"
      by (auto simp: output_keys_def remove_orphan_outputs_eq keeps_def)
  qed
  ultimately show ?thesis
    by (auto simp: paired_def remove_orphan_outputs_eq keeps_def)
qed

lemma strip_item_keys [simp]:
  "call_key (strip_item_images i) = call_key i"
  "output_key (strip_item_images i) = output_key i"
  "server_output (strip_item_images i) = server_output i"
  by (cases i rule: strip_item_images.cases; simp)+

lemma paired_map_strip: "paired (map strip_item_images xs) = paired xs"
  by (simp add: paired_def call_keys_def output_keys_def)

lemma paired_strip: "paired (strip_images_when_unsupported ms xs) = paired xs"
  by (simp add: strip_images_when_unsupported_def paired_map_strip)

lemma normalize_items_paired: "paired (normalize_items env ms its)"
  by (simp add: normalize_items_def paired_strip paired_remove_orphans ensure_keys)


text \<open>
  The synthetic outputs land where a single left-to-right pass would put them, right
  after their calls, and no item of the history moves.
\<close>

theorem ensure_call_outputs_present_one_pass:
  "ensure_call_outputs_present env its =
     concat (map (\<lambda>i. i # (case missing_output env (function_output_ids its) (tool_search_output_ids its)
                              (custom_tool_output_ids its) i of Some out \<Rightarrow> [out] | None \<Rightarrow> [])) its)"
  unfolding ensure_call_outputs_present_eq by (simp add: with_missing_def missing_for_def cong: map_cong)

lemma paired_ensure_id: "paired its \<Longrightarrow> ensure_call_outputs_present env its = its"
proof -
  assume "paired its"
  then have "missing_for env its i = None" if "i \<in> set its" for i
    using that by (auto simp: missing_for_None_iff paired_def call_keys_def)
  then have "concat (map (with_missing (missing_for env its)) its) = concat (map (\<lambda>i. [i]) its)"
    by (intro arg_cong [of _ _ concat] map_cong) (simp_all add: with_missing_def)
  then show ?thesis by (simp only: ensure_call_outputs_present_eq concat_map_singleton map_ident)
qed

lemma paired_remove_id: "paired its \<Longrightarrow> remove_orphan_outputs its = its"
  by (auto simp: remove_orphan_outputs_eq filter_id_conv keeps_def paired_def)

lemma replace_image_idem [simp]: "replace_output_image p (replace_output_image p c) = replace_output_image p c"
  by (cases c) auto

lemma map_content_items_idem [simp]:
  "map_content_items (replace_output_image p) (map_content_items (replace_output_image p) out) =
     map_content_items (replace_output_image p) out"
  by (cases "body out") auto

lemma omit_image_idem [simp]: "omit_image (omit_image c) = omit_image c"
  by (cases c) auto

lemma strip_item_images_idem [simp]: "strip_item_images (strip_item_images i) = strip_item_images i"
  by (cases i rule: strip_item_images.cases) (simp_all del: map_content_items.simps)

lemma strip_images_idem [simp]:
  "strip_images_when_unsupported ms (strip_images_when_unsupported ms xs) = strip_images_when_unsupported ms xs"
  by (simp add: strip_images_when_unsupported_def)

text \<open>
  Normalising twice is normalising once, so the prompt is stable across retries.
\<close>

theorem normalize_items_idempotent:
  "normalize_items env modalities (normalize_items env modalities its) = normalize_items env modalities its"
proof -
  let ?n = "normalize_items env modalities its"
  have "normalize_items env modalities ?n = strip_images_when_unsupported modalities ?n"
    unfolding normalize_items_def [of env modalities ?n]
    using normalize_items_paired [of env modalities its] by (simp add: paired_ensure_id paired_remove_id)
  also have "\<dots> = ?n" by (simp add: normalize_items_def)
  finally show ?thesis .
qed

section \<open>Dropping the oldest item\<close>

definition unique_keys :: "response_item list \<Rightarrow> bool" where
  "unique_keys xs \<longleftrightarrow> distinct (List.map_filter call_key xs) \<and> distinct (List.map_filter output_key xs)"

lemma in_map_filter: "k \<in> set (List.map_filter f xs) \<longleftrightarrow> (\<exists>x\<in>set xs. f x = Some k)"
  by (force simp: List.map_filter_def)

lemma map_filter_Cons:
  "List.map_filter f (x # xs) = (case f x of Some y \<Rightarrow> y # List.map_filter f xs | None \<Rightarrow> List.map_filter f xs)"
  by (simp add: List.map_filter_simps)

text \<open>With unique keys, removing the first match removes the only one.\<close>

lemma remove_first_unique:
  assumes "distinct (List.map_filter key xs)" "\<And>i. P i \<Longrightarrow> key i = Some k"
    and "(\<exists>i\<in>set xs. P i) \<or> (\<forall>i\<in>set xs. key i \<noteq> Some k)"
  shows "remove_first_matching P xs = filter (\<lambda>i. key i \<noteq> Some k) xs"
  using assms(1,3)
proof (induction xs)
  case (Cons x xs)
  show ?case
  proof (cases "P x")
    case True
    then have kx: "key x = Some k" by (rule assms(2))
    then have "\<forall>i\<in>set xs. key i \<noteq> Some k"
      using Cons.prems(1) by (auto simp: map_filter_Cons in_map_filter)
    then have "filter (\<lambda>i. key i \<noteq> Some k) xs = xs" by (simp add: filter_id_conv)
    with True kx show ?thesis by simp
  next
    case False
    have "key x \<noteq> Some k"
    proof
      assume kx: "key x = Some k"
      with False Cons.prems(2) obtain i where "i \<in> set xs" "P i" by auto
      with assms(2) kx Cons.prems(1) show False by (auto simp: map_filter_Cons in_map_filter)
    qed
    with False Cons show ?thesis by (auto simp: map_filter_Cons split: option.splits)
  qed
qed simp

lemma counterpart_iff:
  "is_function_output c i \<longleftrightarrow> output_key i = Some (FnKey c)"
  "is_tool_search_output c i \<longleftrightarrow> output_key i = Some (SearchKey c)"
  "is_custom_output c i \<longleftrightarrow> output_key i = Some (CustomKey c)"
  "is_tool_search_call c i \<longleftrightarrow> call_key i = Some (SearchKey c)"
  "is_custom_call c i \<longleftrightarrow> call_key i = Some (CustomKey c)"
proof -
  show "is_function_output c i \<longleftrightarrow> output_key i = Some (FnKey c)"
    by (cases i rule: output_key.cases) simp_all
  show "is_tool_search_output c i \<longleftrightarrow> output_key i = Some (SearchKey c)"
    by (cases i rule: output_key.cases) simp_all
  show "is_custom_output c i \<longleftrightarrow> output_key i = Some (CustomKey c)"
    by (cases i rule: output_key.cases) simp_all
  show "is_tool_search_call c i \<longleftrightarrow> call_key i = Some (SearchKey c)"
    by (cases i rule: call_key.cases) simp_all
  show "is_custom_call c i \<longleftrightarrow> call_key i = Some (CustomKey c)"
    by (cases i rule: call_key.cases) simp_all
qed

lemma fn_call_iff: "is_function_call c i \<or> is_local_shell_call c i \<longleftrightarrow> call_key i = Some (FnKey c)"
  by (cases i rule: call_key.cases) simp_all

lemma remove_first_key:
  assumes "distinct (List.map_filter key xs)" "\<And>i. P i \<longleftrightarrow> key i = Some k"
  shows "remove_first_matching P xs = filter (\<lambda>i. key i \<noteq> Some k) xs"
  using assms by (intro remove_first_unique) auto

definition counterpart :: "response_item \<Rightarrow> response_item \<Rightarrow> bool" where
  "counterpart x i \<longleftrightarrow> (\<exists>k. call_key x = Some k \<and> output_key i = Some k \<or> output_key x = Some k \<and> call_key i = Some k)"

lemma call_not_output: "call_key i = Some k \<Longrightarrow> output_key i = None"
  by (cases i rule: call_key.cases) simp_all

lemma remove_corresponding_for_call:
  assumes "unique_keys rest" "call_key x = Some k"
  shows "remove_corresponding_for rest x = filter (\<lambda>i. output_key i \<noteq> Some k) rest"
proof -
  have d: "distinct (List.map_filter output_key rest)" using assms(1) by (simp add: unique_keys_def)
  have "remove_first_matching (is_function_output c) rest = filter (\<lambda>i. output_key i \<noteq> Some (FnKey c)) rest"
    "remove_first_matching (is_tool_search_output c) rest = filter (\<lambda>i. output_key i \<noteq> Some (SearchKey c)) rest"
    "remove_first_matching (is_custom_output c) rest = filter (\<lambda>i. output_key i \<noteq> Some (CustomKey c)) rest" for c
    by (rule remove_first_key [OF d], rule counterpart_iff)+
  with assms(2) show ?thesis
    by (cases x rule: call_key.cases) (simp_all add: remove_corresponding_for_def)
qed

lemma remove_corresponding_for_output:
  assumes "unique_keys rest" "output_key x = Some k"
  shows "remove_corresponding_for rest x = filter (\<lambda>i. call_key i \<noteq> Some k) rest"
proof -
  have d: "distinct (List.map_filter call_key rest)" using assms(1) by (simp add: unique_keys_def)
  have s: "remove_first_matching (is_tool_search_call c) rest = filter (\<lambda>i. call_key i \<noteq> Some (SearchKey c)) rest"
    "remove_first_matching (is_custom_call c) rest = filter (\<lambda>i. call_key i \<noteq> Some (CustomKey c)) rest" for c
    by (rule remove_first_key [OF d], rule counterpart_iff)+
  have f: "remove_first_matching (is_function_call c) rest = filter (\<lambda>i. call_key i \<noteq> Some (FnKey c)) rest"
    if "list_ex (is_function_call c) rest" for c
    using that fn_call_iff [of c] by (intro remove_first_unique [OF d]) (auto simp: list_ex_iff)
  have l: "remove_first_matching (is_local_shell_call c) rest = filter (\<lambda>i. call_key i \<noteq> Some (FnKey c)) rest"
    if "\<not> list_ex (is_function_call c) rest" for c
    using that fn_call_iff [of c] by (intro remove_first_unique [OF d]) (auto simp: list_ex_iff)
  from assms(2) show ?thesis
    by (cases x rule: output_key.cases) (simp_all add: remove_corresponding_for_def s f l)
qed

lemma remove_corresponding_for_neither:
  "call_key x = None \<Longrightarrow> output_key x = None \<Longrightarrow> remove_corresponding_for rest x = rest"
  by (cases x) (auto simp: remove_corresponding_for_def split: option.splits)

lemma remove_corresponding_for_eq:
  assumes "unique_keys rest"
  shows "remove_corresponding_for rest x = filter (\<lambda>i. \<not> counterpart x i) rest"
proof (cases "call_key x")
  case (Some k)
  with call_not_output [OF Some] remove_corresponding_for_call [OF assms Some] show ?thesis
    by (simp add: counterpart_def)
next
  case None
  note c = None
  show ?thesis
  proof (cases "output_key x")
    case (Some k)
    with c remove_corresponding_for_output [OF assms Some] show ?thesis by (simp add: counterpart_def)
  next
    case None
    with c show ?thesis by (simp add: remove_corresponding_for_neither counterpart_def)
  qed
qed

lemma unique_keys_filter: "unique_keys xs \<Longrightarrow> unique_keys (filter P xs)"
proof -
  have "distinct (List.map_filter f (filter P xs))" if "distinct (List.map_filter f xs)" for f :: "response_item \<Rightarrow> pair_key option"
    using that
    by (induction xs) (auto simp: map_filter_Cons in_map_filter split: option.splits)
  then show "unique_keys xs \<Longrightarrow> unique_keys (filter P xs)" by (simp add: unique_keys_def)
qed

lemma drop_oldest_paired:
  assumes "paired (x # rest)" "unique_keys (x # rest)"
  shows "paired (filter (\<lambda>i. \<not> counterpart x i) rest)"
proof -
  let ?ys = "filter (\<lambda>i. \<not> counterpart x i) rest"
  have both: "\<not> (call_key i = Some k \<and> output_key i = Some k')" for i k k'
    by (cases i rule: output_key.cases) auto
  have uc: "call_key x = Some k \<Longrightarrow> i \<in> set rest \<Longrightarrow> call_key i \<noteq> Some k" for i k
    using assms(2) by (auto simp: unique_keys_def map_filter_Cons in_map_filter)
  have uo: "output_key x = Some k \<Longrightarrow> i \<in> set rest \<Longrightarrow> output_key i \<noteq> Some k" for i k
    using assms(2) by (auto simp: unique_keys_def map_filter_Cons in_map_filter)
  have cs: "k \<in> call_keys (x # rest) \<Longrightarrow> k \<in> output_keys (x # rest)" for k
    using assms(1) by (auto simp: paired_def)
  have os: "o' \<in> set (x # rest) \<Longrightarrow> output_key o' = Some k \<Longrightarrow> \<not> server_output o' \<Longrightarrow> k \<in> call_keys (x # rest)" for o' k
    using assms(1) by (simp only: paired_def) blast
  have "k \<in> output_keys ?ys" if i: "i \<in> set rest" "\<not> counterpart x i" "call_key i = Some k" for i k
  proof -
    from i(1,3) have "k \<in> call_keys (x # rest)" by (auto simp: call_keys_def)
    from cs [OF this] obtain o' where o': "o' \<in> set (x # rest)" "output_key o' = Some k"
      by (auto simp only: output_keys_def mem_Collect_eq)
    have "output_key x \<noteq> Some k" using i(2,3) by (auto simp: counterpart_def)
    with o' have "o' \<in> set rest" by auto
    moreover have "\<not> counterpart x o'"
      using i o'(2) uc [of k i] both [of o'] by (auto simp: counterpart_def)
    ultimately show ?thesis using o'(2) by (auto simp: output_keys_def)
  qed
  moreover have "k \<in> call_keys ?ys \<or> server_output o'"
    if o': "o' \<in> set rest" "\<not> counterpart x o'" "output_key o' = Some k" for o' k
  proof (cases "server_output o'")
    case False
    from os [OF _ o'(3) False] o'(1) obtain i where i: "i \<in> set (x # rest)" "call_key i = Some k"
      by (auto simp: call_keys_def)
    have "call_key x \<noteq> Some k" using o'(2,3) by (auto simp: counterpart_def)
    with i have "i \<in> set rest" by auto
    moreover have "\<not> counterpart x i"
      using o' i(2) uo [of k o'] both [of i] by (auto simp: counterpart_def)
    ultimately show ?thesis using i(2) by (auto simp: call_keys_def)
  qed simp
  ultimately show ?thesis by (auto simp: paired_def call_keys_def)
qed

text \<open>
  Dropping the oldest item together with its counterpart keeps calls and outputs paired,
  in any history in which no two calls and no two outputs share an id.
\<close>

theorem remove_first_item_keeps_pairs:
  assumes "paired (items m)" "unique_keys (items m)"
  shows "paired (items (remove_first_item m)) \<and> unique_keys (items (remove_first_item m))"
proof (cases "items m")
  case Nil
  with assms show ?thesis by (simp add: remove_first_item_def)
next
  case (Cons x rest)
  have u: "unique_keys rest"
    using assms(2) Cons by (auto simp: unique_keys_def map_filter_Cons split: option.splits)
  have "items (remove_first_item m) = filter (\<lambda>i. \<not> counterpart x i) rest"
    by (simp add: remove_first_item_def Cons remove_corresponding_for_eq [OF u])
  with drop_oldest_paired [of x rest] unique_keys_filter [OF u] assms Cons show ?thesis by simp
qed

definition sample_history :: "(unit, unit) context_manager" where
  "sample_history = new_manager\<lparr>items :=
     [FunctionCall None (lit ''shell'') None (lit ''{}'') (lit ''c1'') None,
      FunctionCallOutput None (lit ''c1'') (from_text (lit ''ok'')) None,
      Message None (lit ''user'') [InputText (lit ''hi'')] None None]\<rparr>"

theorem remove_first_item_keeps_pairs_witness:
  "paired (items (remove_first_item sample_history))"
proof -
  have "paired (items sample_history)"
    by (simp add: sample_history_def paired_def call_keys_def output_keys_def)
  moreover have "unique_keys (items sample_history)"
    by (simp add: sample_history_def unique_keys_def List.map_filter_def)
  ultimately show ?thesis using remove_first_item_keeps_pairs [of sample_history] by simp
qed

section \<open>Rollback\<close>

definition turns :: "history_env \<Rightarrow> response_item list \<Rightarrow> nat" where
  "turns env xs = length (filter (is_user_turn_boundary env) xs)"

definition positions :: "('a \<Rightarrow> bool) \<Rightarrow> 'a list \<Rightarrow> nat list" where
  "positions P xs = filter (\<lambda>i. P (xs ! i)) [0..<length xs]"

lemma positions_Nil [simp]: "positions P [] = []"
  by (simp add: positions_def)

lemma positions_Cons: "positions P (x # xs) = (if P x then [0] else []) @ map Suc (positions P xs)"
proof -
  have "[0..<length (x # xs)] = 0 # map Suc [0..<length xs]"
    by (simp add: upt_conv_Cons map_Suc_upt del: upt_Suc)
  then show ?thesis by (simp add: positions_def filter_map o_def)
qed

lemma length_positions: "length (positions P xs) = length (filter P xs)"
  by (induction xs) (auto simp: positions_Cons)

lemma filter_take_position:
  "j < length (positions P xs) \<Longrightarrow> length (filter P (take (positions P xs ! j) xs)) = j"
proof (induction xs arbitrary: j)
  case (Cons x xs)
  then show ?case by (cases j) (auto simp: positions_Cons nth_append)
qed simp

lemma position_le: "positions P xs = p # ps \<Longrightarrow> q \<in> set (p # ps) \<Longrightarrow> p \<le> q"
proof -
  assume a: "positions P xs = p # ps" "q \<in> set (p # ps)"
  have "sorted (positions P xs)" by (simp add: positions_def sorted_wrt_filter)
  with a show "p \<le> q" by auto
qed

lemma position_takeWhile: "positions P xs = p # ps \<Longrightarrow> take p xs = takeWhile (\<lambda>x. \<not> P x) xs"
proof (induction xs arbitrary: p ps)
  case (Cons x xs)
  show ?case
  proof (cases "P x")
    case False
    with Cons.prems obtain p' ps' where "positions P xs = p' # ps'" "p = Suc p'"
      by (cases "positions P xs") (auto simp: positions_Cons)
    with Cons.IH False show ?thesis by auto
  qed (use Cons.prems in \<open>auto simp: positions_Cons\<close>)
qed simp

lemma position_bound: "q \<in> set (positions P xs) \<Longrightarrow> q < length xs"
  by (auto simp: positions_def)

lemma trim_spec:
  assumes "trim_pre_turn_context_updates env xs f c cl = (c', cl')" "f \<le> c" "c \<le> length xs"
  shows "f \<le> c' \<and> c' \<le> c \<and> turns env (take c' xs) = turns env (take c xs)"
  using assms
proof (induction env xs f c cl arbitrary: c' cl' rule: trim_pre_turn_context_updates.induct)
  case (1 env xs f c cl)
  show ?case
  proof (cases "c' = c")
    case False
    then have gt: "f < c" using "1.prems"(1) by (auto simp: trim_pre_turn_context_updates.simps [of env xs f c] split: if_splits)
    from False "1.prems"(1) gt obtain i role content ph md where
      msg: "xs ! (c - 1) = Message i role content ph md" and
      ctx: "role = lit ''developer'' \<and> is_contextual_dev_message_content env content \<or>
            role = lit ''user'' \<and> is_contextual_user_message_content env content"
      by (cases "xs ! (c - 1)") (auto simp: trim_pre_turn_context_updates.simps [of env xs f c] simp del: lit_simps split: if_splits)
    have nb: "\<not> is_user_turn_boundary env (xs ! (c - 1))"
      unfolding msg is_user_turn_boundary_def using ctx by auto
    have "take c xs = take (c - 1) xs @ [xs ! (c - 1)]"
      using gt "1.prems"(3) by (metis Suc_diff_1 less_eq_Suc_le order.strict_trans1 not_less_zero neq0_conv take_Suc_conv_app_nth)
    with nb have step: "turns env (take (c - 1) xs) = turns env (take c xs)" by (simp add: turns_def)
    have "f \<le> c' \<and> c' \<le> c - 1 \<and> turns env (take c' xs) = turns env (take (c - 1) xs)"
    proof (cases "role = lit ''developer'' \<and> is_contextual_dev_message_content env content")
      case True
      with "1.prems" gt msg show ?thesis
        by (intro "1.IH"(1) [OF gt msg True]) (auto simp: trim_pre_turn_context_updates.simps [of env xs f c])
    next
      case False
      with "1.prems" gt msg ctx show ?thesis
        by (intro "1.IH"(2) [OF gt msg False]) (auto simp: trim_pre_turn_context_updates.simps [of env xs f c] simp del: lit_simps)
    qed
    with step show ?thesis by auto
  qed (use 1 in simp)
qed

lemma rollback_cut:
  assumes ps: "user_message_positions env xs = f # ps" and "0 < n"
    and cx: "cx = (if n \<ge> length (f # ps) then f else (f # ps) ! (length (f # ps) - n))"
  shows "f \<le> cx \<and> cx \<le> length xs \<and> turns env (take cx xs) = turns env xs - n"
proof -
  have pos: "positions (is_user_turn_boundary env) xs = f # ps"
    using ps by (simp add: user_message_positions_def positions_def)
  then have t: "turns env xs = length (f # ps)"
    using length_positions [of "is_user_turn_boundary env" xs] by (simp add: turns_def)
  let ?j = "length (f # ps) - n"
  have j: "?j < length (f # ps)" using \<open>0 < n\<close> by simp
  have c: "cx = (f # ps) ! ?j" using cx by auto
  then have mem: "cx \<in> set (f # ps)" using j by (metis nth_mem)
  have "turns env (take cx xs) = ?j"
    using filter_take_position [of ?j "is_user_turn_boundary env" xs] j by (simp only: pos c turns_def)
  moreover have "cx < length xs" using mem position_bound [of cx "is_user_turn_boundary env" xs] pos by simp
  ultimately show ?thesis using position_le [OF pos mem] t by simp
qed

text \<open>
  A rollback of \<open>n\<close> turns keeps a prefix of the history that holds exactly \<open>n\<close> turn
  boundaries less (none, when there are not that many) and never cuts into what came before
  the first turn.
\<close>

theorem drop_last_n_user_turns_spec:
  "(\<exists>k. items (drop_last_n_user_turns env n m) = take k (items m)) \<and>
   turns env (items (drop_last_n_user_turns env n m)) = turns env (items m) - n \<and>
   prefix (takeWhile (\<lambda>i. \<not> is_user_turn_boundary env i) (items m)) (items (drop_last_n_user_turns env n m))"
proof (cases "n = 0 \<or> user_message_positions env (items m) = []")
  case True
  have "turns env (items m) = 0" if "user_message_positions env (items m) = []"
    using that length_positions [of "is_user_turn_boundary env" "items m"]
    by (simp add: turns_def user_message_positions_def positions_def)
  with True have "items (drop_last_n_user_turns env n m) = items m \<and> turns env (items m) = turns env (items m) - n"
    by (auto simp: drop_last_n_user_turns_def replace_items_def)
  then show ?thesis
    by (auto simp: prefix_def intro: exI [of _ "length (items m)"] takeWhile_dropWhile_id [symmetric])
next
  case False
  then obtain f ps where ps: "user_message_positions env (items m) = f # ps" and n: "0 < n"
    by (cases "user_message_positions env (items m)") auto
  let ?cut = "if n \<ge> length (f # ps) then f else (f # ps) ! (length (f # ps) - n)"
  obtain c' cl where tr: "trim_pre_turn_context_updates env (items m) f ?cut False = (c', cl)" by fastforce
  have it: "items (drop_last_n_user_turns env n m) = take c' (items m)"
    using n ps tr by (simp add: drop_last_n_user_turns_def replace_items_def)
  from rollback_cut [OF ps n refl] trim_spec [OF tr]
  have c': "f \<le> c'" "turns env (take c' (items m)) = turns env (items m) - n" by auto
  have "take f (items m) = takeWhile (\<lambda>i. \<not> is_user_turn_boundary env i) (items m)"
    using ps position_takeWhile [of "is_user_turn_boundary env" "items m"]
    by (simp add: user_message_positions_def positions_def)
  moreover have "prefix (take f (items m)) (take c' (items m))"
    using c'(1) by (metis min.absorb1 take_is_prefix take_take)
  ultimately show ?thesis using it c'(2) by auto
qed

text \<open>No fragment is contextual, every item serialises to 40 bytes.\<close>

definition plain_env :: history_env where
  "plain_env = \<lparr>contextual_user_fragment = \<lambda>_. False, contextual_dev_fragment = \<lambda>_. False,
      inter_agent_text = \<lambda>_. False, serialized_len = \<lambda>_. 40, uuid_v5 = id, image_size = \<lambda>_. None, scale_budget = id\<rparr>"

text \<open>
  The rollback comment calls a history without user turns a no-op, but the code still
  goes through \<open>replace\<close>: the history version moves on and the world-state baseline is lost.
\<close>

theorem rollback_without_turns_not_noop:
  "\<exists>(env :: history_env) (m :: (unit, unit) context_manager).
     turns env (items m) = 0 \<and> items (drop_last_n_user_turns env 1 m) = items m \<and>
     history_version (drop_last_n_user_turns env 1 m) = history_version m + 1 \<and>
     world_state_baseline m = Some () \<and> world_state_baseline (drop_last_n_user_turns env 1 m) = None"
proof -
  let ?m = "new_manager\<lparr>world_state_baseline := Some ()\<rparr> :: (unit, unit) context_manager"
  let ?env = plain_env
  have "user_message_positions ?env (items ?m) = []" by (simp add: new_manager_def user_message_positions_def)
  then have "drop_last_n_user_turns ?env 1 ?m = replace_items (items ?m) ?m"
    by (simp add: drop_last_n_user_turns_def)
  then show ?thesis
    by (intro exI [of _ ?env] exI [of _ ?m])
      (simp add: replace_items_def bump_version_def turns_def new_manager_def)
qed

section \<open>Recording\<close>

lemma process_item_total: "\<exists>i'. process_item env i policy = Some i' \<and> call_key i' = call_key i \<and> output_key i' = output_key i"
proof -
  have "\<exists>out'. truncate_function_output_payload out p = Some out'" for out p
  proof (cases "body out")
    case (Text t)
    with truncate_text_Some [of t p] show ?thesis by (auto simp: truncate_function_output_payload_def)
  next
    case (ContentItems cs)
    obtain r om where "truncate_items_loop p (case p of Bytes _ \<Rightarrow> byte_budget p | Tokens _ \<Rightarrow> token_budget p) 0 [] cs = Some (r, om)"
      using truncate_items_loop_others [of p "case p of Bytes _ \<Rightarrow> byte_budget p | Tokens _ \<Rightarrow> token_budget p" 0 "[]" cs]
      by blast
    then obtain r' where "truncate_function_output_items_with_policy cs p = Some r'"
      by (simp add: truncate_function_output_items_with_policy_def)
    with ContentItems show ?thesis by (simp add: truncate_function_output_payload_def)
  qed
  note tot = this
  show ?thesis
    using tot by (cases i) (fastforce simp: process_item_def)+
qed

text \<open>
  Recording never panics and only appends: the old history stays as it is, the new items
  are the API messages of the batch in order, each answering or making the same call as
  the item it came from, and nothing else of the state changes.
\<close>

theorem record_items_appends:
  "\<exists>new. record_items env policy batch m = Some (m\<lparr>items := items m @ new\<rparr>) \<and>
     map call_key new = map call_key (filter is_api_message batch) \<and>
     map output_key new = map output_key (filter is_api_message batch)"
proof (induction batch arbitrary: m)
  case Nil
  show ?case by (intro exI [of _ "[]"]) simp
next
  case (Cons i batch)
  show ?case
  proof (cases "is_api_message i")
    case True
    obtain i' where i': "process_item env i policy = Some i'" "call_key i' = call_key i" "output_key i' = output_key i"
      using process_item_total by blast
    from Cons.IH [of "m\<lparr>items := items m @ [i']\<rparr>"] obtain new where
      "record_items env policy batch (m\<lparr>items := items m @ [i']\<rparr>) = Some (m\<lparr>items := items m @ i' # new\<rparr>)"
      "map call_key new = map call_key (filter is_api_message batch)"
      "map output_key new = map output_key (filter is_api_message batch)"
      by auto
    with i' True show ?thesis by (intro exI [of _ "i' # new"]) simp
  next
    case False
    with Cons.IH [of m] show ?thesis by simp
  qed
qed

section \<open>Token estimates\<close>

lemma i64_of_usize_range: "0 \<le> i64_of_usize n \<and> i64_of_usize n \<le> I64_MAX"
  by (simp add: i64_of_usize_def I64_MAX_def)

lemma estimate_item_range: "0 \<le> estimate_item_token_count env i \<and> estimate_item_token_count env i \<le> I64_MAX"
  using i64_of_usize_range
  by (simp add: estimate_item_token_count_def approx_tokens_from_byte_count_i64_def I64_MAX_def)

lemma sat_add_range: "0 \<le> a \<Longrightarrow> 0 \<le> b \<Longrightarrow> a \<le> I64_MAX \<Longrightarrow> a \<le> sat_add a b \<and> sat_add a b \<le> I64_MAX"
  by (simp add: sat_add_def clamp_i64_def I64_MAX_def I64_MIN_def)

lemma sum_tokens_range: "0 \<le> sum_tokens env xs \<and> sum_tokens env xs \<le> I64_MAX"
proof -
  have "0 \<le> a \<Longrightarrow> a \<le> I64_MAX \<Longrightarrow>
      0 \<le> fold (\<lambda>i acc. sat_add acc (estimate_item_token_count env i)) xs a \<and>
      fold (\<lambda>i acc. sat_add acc (estimate_item_token_count env i)) xs a \<le> I64_MAX" for a
  proof (induction xs arbitrary: a)
    case (Cons i xs)
    have "a \<le> sat_add a (estimate_item_token_count env i) \<and> sat_add a (estimate_item_token_count env i) \<le> I64_MAX"
      using Cons.prems estimate_item_range [of env i] by (intro sat_add_range) auto
    with Cons show ?case by simp
  qed simp
  from this [of 0] show ?thesis by (simp add: sum_tokens_def I64_MAX_def)
qed

text \<open>
  The running token total never overflows: with a reported last usage that is not
  negative, the total is at least that usage and at most \<open>i64::MAX\<close>, with or without the
  client's own estimate of past reasoning, and the latter never lowers it.
\<close>

theorem get_total_token_usage_bounds:
  assumes "0 \<le> t" "t \<le> I64_MAX"
    and "t = (case token_info m of Some info \<Rightarrow> total_tokens (last_token_usage info) | None \<Rightarrow> 0)"
  shows "t \<le> get_total_token_usage env True m \<and>
    get_total_token_usage env True m \<le> get_total_token_usage env False m \<and>
    get_total_token_usage env False m \<le> I64_MAX"
proof -
  let ?a = "sum_tokens env (items_after_last_model_generated_item m)"
  let ?r = "get_non_last_reasoning_items_tokens env m"
  have r: "0 \<le> ?r"
    using sum_tokens_range by (simp add: get_non_last_reasoning_items_tokens_def split: option.split)
  have a: "0 \<le> ?a" using sum_tokens_range by blast
  have mono: "sat_add x ?a \<le> sat_add y ?a" if "x \<le> y" for x y
    using that by (simp add: sat_add_def clamp_i64_def I64_MAX_def I64_MIN_def)
  from sat_add_range [OF assms(1) r assms(2)] assms(1,2) a show ?thesis
    unfolding get_total_token_usage_def Let_def assms(3) [symmetric]
    using sat_add_range [OF assms(1) a assms(2)] sat_add_range [of "sat_add t ?r" ?a] mono [of t "sat_add t ?r"]
    by simp
qed

theorem get_total_token_usage_bounds_witness:
  "0 \<le> get_total_token_usage plain_env False sample_history"
  using get_total_token_usage_bounds [of 0 sample_history plain_env]
  by (simp add: sample_history_def new_manager_def new_or_append_def I64_MAX_def)

end
