(* ===== verification/Anthropic_Correct.thy ===== *)
theory Anthropic_Correct
  imports Anthropic_Wire Context_Correct
begin

text \<open>
  Correctness of the Messages wire: the request alternates roles and loses nothing the
  mapping keeps; with a normalised transcript every tool use is answered; the decoder
  returns what an encoded response says, and ends with exactly one terminal event.
\<close>

section \<open>Requests\<close>

definition item_blocks :: "(ustr \<Rightarrow> json option) \<Rightarrow> response_item \<Rightarrow> (ustr \<times> json) list" where
  "item_blocks parse_json i = (case response_item_to_blocks parse_json i of
       None \<Rightarrow> [] | Some (role, bs) \<Rightarrow> map (Pair role) bs)"

definition flatten :: "anthropic_message list \<Rightarrow> (ustr \<times> json) list" where
  "flatten ms = concat (map (\<lambda>m. map (Pair (msg_role m)) (msg_content m)) ms)"

definition message_ok :: "anthropic_message \<Rightarrow> bool" where
  "message_ok m \<longleftrightarrow> msg_content m \<noteq> [] \<and> (msg_role m = lit ''user'' \<or> msg_role m = lit ''assistant'')"

definition messages_ok :: "anthropic_message list \<Rightarrow> bool" where
  "messages_ok ms \<longleftrightarrow> successively (\<lambda>a b. msg_role a \<noteq> msg_role b) ms \<and> list_all message_ok ms"

lemma flatten_append [simp]: "flatten (xs @ ys) = flatten xs @ flatten ys"
  by (simp add: flatten_def)

lemma push_blocks_flatten: "flatten (push_blocks ms r bs) = flatten ms @ map (Pair r) bs"
  by (cases ms rule: rev_cases) (auto simp: push_blocks_def flatten_def)

lemma successively_snoc:
  "successively P (xs @ [x]) \<longleftrightarrow> successively P xs \<and> (xs \<noteq> [] \<longrightarrow> P (last xs) x)"
  by (auto simp: successively_append_iff)

lemma push_blocks_ok:
  assumes "messages_ok ms" "bs \<noteq> []" "r = lit ''user'' \<or> r = lit ''assistant''"
  shows "messages_ok (push_blocks ms r bs)"
proof (cases ms rule: rev_cases)
  case Nil
  with assms show ?thesis by (auto simp: push_blocks_def messages_ok_def message_ok_def simp del: lit_simps)
next
  case (snoc ms' m)
  show ?thesis
  proof (cases "msg_role m = r")
    case True
    then have "push_blocks ms r bs = ms' @ [m\<lparr>msg_content := msg_content m @ bs\<rparr>]"
      by (simp add: push_blocks_def snoc)
    with assms(1) snoc show ?thesis
      by (auto simp: messages_ok_def successively_snoc message_ok_def simp del: lit_simps)
  next
    case False
    then have "push_blocks ms r bs = ms @ [\<lparr>msg_role = r, msg_content = bs\<rparr>]"
      by (simp add: push_blocks_def snoc)
    with assms snoc False show ?thesis
      by (auto simp: messages_ok_def successively_append_iff message_ok_def simp del: lit_simps)
  qed
qed

lemma item_role: "response_item_to_blocks pj i = Some (r, bs) \<Longrightarrow> r = lit ''user'' \<or> r = lit ''assistant''"
  by (cases i) (auto simp: response_item_to_blocks_def simp del: lit_simps)

lemma messages_loop_spec:
  "messages_ok ms \<Longrightarrow> messages_ok (messages_loop pj its ms) \<and>
     flatten (messages_loop pj its ms) = flatten ms @ concat (map (item_blocks pj) its)"
proof (induction its arbitrary: ms)
  case (Cons i its)
  show ?case
  proof (cases "response_item_to_blocks pj i")
    case None
    with Cons show ?thesis by (simp add: item_blocks_def)
  next
    case (Some rb)
    obtain r bs where rb: "rb = (r, bs)" by fastforce
    show ?thesis
    proof (cases "bs = []")
      case True
      with Cons Some rb show ?thesis by (simp add: item_blocks_def)
    next
      case False
      with Cons.prems Some rb have "messages_ok (push_blocks ms r bs)"
        by (intro push_blocks_ok) (auto dest: item_role)
      with Cons.IH False Some rb show ?thesis
        by (simp add: item_blocks_def push_blocks_flatten)
    qed
  qed
qed simp

lemma messages_flatten:
  "flatten (messages_from_response_items pj its) = concat (map (item_blocks pj) its)"
  using messages_loop_spec [of "[]" pj its]
  by (simp add: messages_from_response_items_def messages_ok_def flatten_def [of "[]"])

text \<open>
  The messages of a request alternate between user and assistant, none is empty, and
  read in order they are exactly the content blocks of the transcript, each under the role
  its item maps to.
\<close>

theorem messages_alternate_and_complete:
  "successively (\<lambda>a b. msg_role a \<noteq> msg_role b) (messages_from_response_items pj its) \<and>
   list_all message_ok (messages_from_response_items pj its) \<and>
   flatten (messages_from_response_items pj its) = concat (map (item_blocks pj) its)"
  using messages_loop_spec [of "[]" pj its] messages_flatten [of pj its]
  by (simp add: messages_from_response_items_def messages_ok_def)

section \<open>Tool uses are answered\<close>

lemma block_types [simp]:
  "tool_use_block c n i \<noteq> text_block t" "tool_use_block c n i \<noteq> image_block u"
  "tool_use_block c n i \<noteq> tool_result_block c' t"
  "tool_use_block c n i = tool_use_block c' n' i' \<longleftrightarrow> c = c' \<and> n = n' \<and> i = i'"
  by (auto simp: tool_use_block_def text_block_def image_block_def tool_result_block_def jobj_def Let_def
      split: option.splits if_splits)

lemma content_block_not_tool_use: "content_item_to_block c \<noteq> Some (tool_use_block a n i)"
  by (cases c) (auto simp: content_item_to_block_def dest: sym)

lemma tool_use_item:
  assumes "(r, tool_use_block c n inp) \<in> set (item_blocks pj i)"
  shows "call_key i = Some (FnKey c) \<or> call_key i = Some (CustomKey c)"
proof (cases i)
  case (Message a role content ph md)
  have "tool_use_block c n inp \<in> set (List.map_filter content_item_to_block content) \<Longrightarrow> False"
    using content_block_not_tool_use by (fastforce simp: List.map_filter_def)
  with assms Message show ?thesis by (auto simp: item_blocks_def response_item_to_blocks_def)
qed (use assms in \<open>auto simp: item_blocks_def response_item_to_blocks_def\<close>)

lemma output_item_result:
  assumes "output_key i = Some (FnKey c) \<or> output_key i = Some (CustomKey c)"
  shows "\<exists>t. (lit ''user'', tool_result_block c t) \<in> set (item_blocks pj i)"
  using assms
  by (cases i rule: output_key.cases) (auto simp: item_blocks_def response_item_to_blocks_def simp del: lit_simps)

text \<open>
  C34: In a request built from the prompt of a session, every tool use has a tool result with
  the same id, also when the session was interrupted before the tool answered.
\<close>

theorem request_tool_uses_answered:
  "\<forall>r c name input. (r, tool_use_block c name input) \<in> set (flatten (messages_from_response_items pj (for_prompt env modalities m))) \<longrightarrow>
     (\<exists>t. (lit ''user'', tool_result_block c t) \<in> set (flatten (messages_from_response_items pj (for_prompt env modalities m))))"
proof (intro allI impI)
  fix r c name input
  let ?its = "for_prompt env modalities m"
  assume "(r, tool_use_block c name input) \<in> set (flatten (messages_from_response_items pj ?its))"
  then obtain i where i: "i \<in> set ?its" "(r, tool_use_block c name input) \<in> set (item_blocks pj i)"
    by (auto simp: messages_flatten)
  from tool_use_item [OF i(2)] i(1) have "FnKey c \<in> call_keys ?its \<or> CustomKey c \<in> call_keys ?its"
    by (auto simp: call_keys_def)
  moreover have "paired ?its"
    by (simp add: for_prompt_def normalize_history_def normalize_items_paired)
  ultimately obtain i' where "i' \<in> set ?its" "output_key i' = Some (FnKey c) \<or> output_key i' = Some (CustomKey c)"
    by (auto simp: paired_def output_keys_def)
  with output_item_result [of i' c pj]
  show "\<exists>t. (lit ''user'', tool_result_block c t) \<in> set (flatten (messages_from_response_items pj ?its))"
    by (auto simp: messages_flatten)
qed

definition interrupted_history :: "(unit, unit) context_manager" where
  "interrupted_history = new_manager\<lparr>items :=
     [FunctionCall None (lit ''shell'') None (lit ''x'') (lit ''c1'') None]\<rparr>"

theorem request_tool_uses_answered_witness:
  "\<exists>t. (lit ''user'', tool_result_block (lit ''c1'') t) \<in>
     set (flatten (messages_from_response_items (\<lambda>_. None) (for_prompt plain_env [] interrupted_history)))"
proof -
  let ?ms = "messages_from_response_items (\<lambda>_. None) (for_prompt plain_env [] interrupted_history)"
  have "for_prompt plain_env [] interrupted_history =
      [FunctionCall None (lit ''shell'') None (lit ''x'') (lit ''c1'') None,
       FunctionCallOutput None (lit ''c1'') (from_text (lit ''aborted'')) None]"
    by code_simp
  then have "(lit ''assistant'', tool_use_block (lit ''c1'') (lit ''shell'') (jobj [])) \<in> set (flatten ?ms)"
    by (simp add: messages_flatten item_blocks_def response_item_to_blocks_def or_default_def)
  then show ?thesis
    using request_tool_uses_answered [of "\<lambda>_. None" plain_env "[]" interrupted_history] by blast
qed

definition shell_history :: "(unit, unit) context_manager" where
  "shell_history = new_manager\<lparr>items :=
     [LocalShellCall None (Some (lit ''c1'')) (lit ''completed'') (lit ''ls'') None,
      FunctionCallOutput None (lit ''c1'') (from_text (lit ''a.txt'')) None]\<rparr>"

text \<open>
  The converse fails: a local shell call has no block, but its output is still sent as a
  tool result, so a paired transcript can give a request with a tool result for a tool use
  it does not contain.
\<close>

theorem local_shell_output_is_orphaned:
  "messages_from_response_items (\<lambda>_. None) (for_prompt plain_env [] shell_history) =
     [\<lparr>msg_role = lit ''user'', msg_content = [tool_result_block (lit ''c1'') (lit ''a.txt'')]\<rparr>]"
  by code_simp

section \<open>One terminal event\<close>

fun terminal :: "(ustr, response_event) result \<Rightarrow> bool" where
  "terminal (Inl _) = True"
| "terminal (Inr (Completed _ _ _)) = True"
| "terminal _ = False"

fun added_count :: "(ustr, response_event) result list \<Rightarrow> nat" where
  "added_count [] = 0"
| "added_count (Inr (OutputItemAdded _) # es) = Suc (added_count es)"
| "added_count (_ # es) = added_count es"

fun done_count :: "(ustr, response_event) result list \<Rightarrow> nat" where
  "done_count [] = 0"
| "done_count (Inr (OutputItemDone _) # es) = Suc (done_count es)"
| "done_count (_ # es) = done_count es"

lemma counts_append [simp]:
  "added_count (xs @ ys) = added_count xs + added_count ys"
  "done_count (xs @ ys) = done_count xs + done_count ys"
proof -
  show "added_count (xs @ ys) = added_count xs + added_count ys"
    by (induction xs rule: added_count.induct) auto
  show "done_count (xs @ ys) = done_count xs + done_count ys"
    by (induction xs rule: done_count.induct) auto
qed

text \<open>
  What one poll does: at most one event, terminal exactly when the decoder returns, and a
  finished item is paid for by an open block.
\<close>

definition poll_ok :: "sse_state \<Rightarrow> sse_result \<Rightarrow> bool" where
  "poll_ok st r \<longleftrightarrow> (case r of (st', evs, ret) \<Rightarrow>
     (ret \<longrightarrow> (\<exists>e. evs = [e] \<and> terminal e)) \<and> (\<not> ret \<longrightarrow> (\<forall>e\<in>set evs. \<not> terminal e)) \<and>
     done_count evs + length (blocks st') \<le> added_count evs + length (blocks st))"

lemma length_remove_block: "map_of bs i = Some b \<Longrightarrow> Suc (length (remove_block i bs)) \<le> length bs"
  using length_filter_less [of "(i, b)" bs "\<lambda>e. fst e \<noteq> i"]
  by (auto simp: remove_block_def Suc_le_eq dest: map_of_SomeD)

lemma length_insert_block: "length (insert_block i b bs) \<le> Suc (length bs)"
  by (simp add: insert_block_def)

lemma length_append_buf [simp]: "length (append_buf i t bs) = length bs"
  by (simp add: append_buf_def)

lemma handlers_poll_ok:
  "poll_ok st (on_message_start st v)" "poll_ok st (on_content_block_start st v)"
  "poll_ok st (on_content_block_delta st v)" "poll_ok st (on_content_block_stop st v)"
  "poll_ok st (on_message_delta st v)" "poll_ok st (on_message_stop st)"
proof -
  show "poll_ok st (on_message_start st v)"
    by (auto simp: poll_ok_def on_message_start_def Let_def split: option.split)
  show "poll_ok st (on_content_block_start st v)"
    using length_insert_block by (simp add: poll_ok_def on_content_block_start_def Let_def)
  show "poll_ok st (on_content_block_delta st v)"
    by (simp add: poll_ok_def on_content_block_delta_def Let_def split: option.split)
  show "poll_ok st (on_content_block_stop st v)"
    by (auto simp: poll_ok_def on_content_block_stop_def Let_def dest: length_remove_block split: option.split)
  show "poll_ok st (on_message_delta st v)"
    by (simp add: poll_ok_def on_message_delta_def Let_def split: option.split)
  show "poll_ok st (on_message_stop st)"
    by (simp add: poll_ok_def on_message_stop_def)
qed

lemma handle_event_poll_ok: "poll_ok st (handle_event st v)"
  unfolding handle_event_def Let_def
  by (simp add: handlers_poll_ok del: lit_simps) (simp add: poll_ok_def)

lemma handle_poll_ok: "poll_ok st (handle_poll pj st p)"
  using handle_event_poll_ok by (auto simp: handle_poll_def poll_ok_def split: sse_poll.split option.split)

lemma process_spec:
  assumes "process_anthropic_sse pj st ps = (evs, ret)"
  shows "(if ret then \<exists>pre e. evs = pre @ [e] \<and> terminal e \<and> (\<forall>x\<in>set pre. \<not> terminal x)
          else \<forall>x\<in>set evs. \<not> terminal x) \<and>
    done_count evs \<le> added_count evs + length (blocks st)"
  using assms
proof (induction ps arbitrary: st evs)
  case (Cons p ps)
  obtain st' e1 r1 where h: "handle_poll pj st p = (st', e1, r1)" by (cases "handle_poll pj st p") auto
  have ok: "(r1 \<longrightarrow> (\<exists>e. e1 = [e] \<and> terminal e))" "(\<not> r1 \<longrightarrow> (\<forall>e\<in>set e1. \<not> terminal e))"
      "done_count e1 + length (blocks st') \<le> added_count e1 + length (blocks st)"
    using handle_poll_ok [of st pj p] h by (simp_all add: poll_ok_def)
  show ?case
  proof (cases r1)
    case True
    with h Cons.prems have "evs = e1" "ret" by auto
    moreover from True ok(1) obtain e where "e1 = [e]" "terminal e" by blast
    ultimately show ?thesis using ok(3) by (auto intro: exI [of _ "[]"])
  next
    case False
    obtain e2 r2 where p2: "process_anthropic_sse pj st' ps = (e2, r2)" by fastforce
    with False h Cons.prems have e: "evs = e1 @ e2" "r2 = ret" by auto
    have IH: "(if ret then \<exists>pre e. e2 = pre @ [e] \<and> terminal e \<and> (\<forall>x\<in>set pre. \<not> terminal x)
          else \<forall>x\<in>set e2. \<not> terminal x) \<and> done_count e2 \<le> added_count e2 + length (blocks st')"
      using Cons.IH [of st' e2] p2 e(2) by simp
    have "done_count evs \<le> added_count evs + length (blocks st)" using IH ok(3) e(1) by simp
    moreover have "if ret then \<exists>pre e. evs = pre @ [e] \<and> terminal e \<and> (\<forall>x\<in>set pre. \<not> terminal x)
          else \<forall>x\<in>set evs. \<not> terminal x"
    proof (cases ret)
      case True
      with IH obtain pre x where "e2 = pre @ [x]" "terminal x" "\<forall>y\<in>set pre. \<not> terminal y" by auto
      with ok(2) False e(1) True show ?thesis by (auto intro!: exI [of _ "e1 @ pre"])
    next
      case False
      with IH ok(2) \<open>\<not> r1\<close> e(1) show ?thesis by auto
    qed
    ultimately show ?thesis by blast
  qed
qed simp

text \<open>
  C33: Whatever arrives, the decoder sends one terminal event, the completion or an error, as
  its last event when it returns and none before, and it never finishes more items than it
  has announced.
\<close>

theorem process_anthropic_sse_terminates_once:
  assumes "process_anthropic_sse parse_json init_sse ps = (evs, ret)"
  shows "(ret \<longrightarrow> (\<exists>pre e. evs = pre @ [e] \<and> terminal e \<and> (\<forall>x\<in>set pre. \<not> terminal x))) \<and>
    (\<not> ret \<longrightarrow> (\<forall>x\<in>set evs. \<not> terminal x)) \<and> done_count evs \<le> added_count evs"
  using process_spec [OF assms] by (auto simp: init_sse_def split: if_splits)

theorem process_anthropic_sse_terminates_once_witness:
  "\<exists>pre e. [Err (lit ''stream closed before message_stop'')] = pre @ [e] \<and> terminal e"
proof -
  have "process_anthropic_sse (\<lambda>_. None) init_sse [Data (lit ''x''), StreamEnd] =
      ([Err (lit ''stream closed before message_stop'')], True)" by code_simp
  from process_anthropic_sse_terminates_once [OF this] show ?thesis by blast
qed

text \<open>
  The decoder announces an item before its deltas because the turn loop must not see a
  delta without an active item, yet a delta for a block that was never opened is passed on.
\<close>

theorem stray_delta_forwarded:
  "process_anthropic_sse
     (\<lambda>_. Some (jobj [(''type'', JStr (lit ''content_block_delta'')), (''index'', JInt 3),
        (''delta'', jobj [(''type'', JStr (lit ''text_delta'')), (''text'', JStr (lit ''Hi''))])]))
     init_sse [Data (lit ''x'')] = ([Ok (OutputTextDelta (lit ''Hi''))], False)"
  by code_simp

section \<open>Decoding an encoded response\<close>

text \<open>
  The response as the server sends it: blocks, each with the pieces its deltas carry, one
  block after the other.
\<close>

datatype reply_block = TextReply "ustr list" | ThinkingReply "ustr list" | ToolReply ustr ustr "ustr list"

definition start_event :: "nat \<Rightarrow> (string \<times> json) list \<Rightarrow> json" where
  "start_event i cb = jobj [(''type'', JStr (lit ''content_block_start'')), (''index'', JInt (int i)),
     (''content_block'', jobj cb)]"

definition delta_event :: "nat \<Rightarrow> string \<Rightarrow> string \<Rightarrow> ustr \<Rightarrow> json" where
  "delta_event i ty field t = jobj [(''type'', JStr (lit ''content_block_delta'')), (''index'', JInt (int i)),
     (''delta'', jobj [(''type'', JStr (lit ty)), (field, JStr t)])]"

definition stop_event :: "nat \<Rightarrow> json" where
  "stop_event i = jobj [(''type'', JStr (lit ''content_block_stop'')), (''index'', JInt (int i))]"

fun reply_kind :: "reply_block \<Rightarrow> block_kind" where
  "reply_kind (TextReply _) = TextBlock"
| "reply_kind (ThinkingReply _) = ThinkingBlock"
| "reply_kind (ToolReply i name _) = ToolUseBlock i name"

fun reply_pieces :: "reply_block \<Rightarrow> ustr list" where
  "reply_pieces (TextReply ps) = ps"
| "reply_pieces (ThinkingReply ps) = ps"
| "reply_pieces (ToolReply _ _ ps) = ps"

fun block_header :: "reply_block \<Rightarrow> (string \<times> json) list" where
  "block_header (TextReply _) = [(''type'', JStr (lit ''text''))]"
| "block_header (ThinkingReply _) = [(''type'', JStr (lit ''thinking''))]"
| "block_header (ToolReply i name _) = [(''type'', JStr (lit ''tool_use'')), (''id'', JStr i), (''name'', JStr name)]"

fun piece_event :: "nat \<Rightarrow> reply_block \<Rightarrow> ustr \<Rightarrow> json" where
  "piece_event i (TextReply _) t = delta_event i ''text_delta'' ''text'' t"
| "piece_event i (ThinkingReply _) t = delta_event i ''thinking_delta'' ''thinking'' t"
| "piece_event i (ToolReply _ _ _) t = delta_event i ''input_json_delta'' ''partial_json'' t"

fun piece_output :: "nat \<Rightarrow> reply_block \<Rightarrow> ustr \<Rightarrow> response_event" where
  "piece_output i (TextReply _) t = OutputTextDelta t"
| "piece_output i (ThinkingReply _) t = ReasoningContentDelta t (int i)"
| "piece_output i (ToolReply c _ _) t = ToolCallInputDelta c (Some c) t"

definition encode_block :: "nat \<Rightarrow> reply_block \<Rightarrow> json list" where
  "encode_block i b = start_event i (block_header b) # map (piece_event i b) (reply_pieces b) @ [stop_event i]"

definition block_events :: "nat \<Rightarrow> reply_block \<Rightarrow> (ustr, response_event) result list" where
  "block_events i b = Ok (OutputItemAdded (initial_item (reply_kind b))) #
     map (\<lambda>t. Ok (piece_output i b t)) (reply_pieces b) @
     [Ok (OutputItemDone (finished_item (reply_kind b) (concat (reply_pieces b))))]"

fun encode_blocks :: "nat \<Rightarrow> reply_block list \<Rightarrow> json list" where
  "encode_blocks i [] = []"
| "encode_blocks i (b # bs) = encode_block i b @ encode_blocks (Suc i) bs"

fun blocks_events :: "nat \<Rightarrow> reply_block list \<Rightarrow> (ustr, response_event) result list" where
  "blocks_events i [] = []"
| "blocks_events i (b # bs) = block_events i b @ blocks_events (Suc i) bs"

definition encode_response :: "ustr \<Rightarrow> int \<Rightarrow> int \<Rightarrow> ustr \<Rightarrow> reply_block list \<Rightarrow> json list" where
  "encode_response rid n_in n_out reason bs =
     [jobj [(''type'', JStr (lit ''message_start'')), (''message'', jobj [(''id'', JStr rid),
        (''usage'', jobj [(''input_tokens'', JInt n_in), (''output_tokens'', JInt 0)])])]] @
     encode_blocks 0 bs @
     [jobj [(''type'', JStr (lit ''message_delta'')), (''delta'', jobj [(''stop_reason'', JStr reason)]),
        (''usage'', jobj [(''output_tokens'', JInt n_out)])],
      jobj [(''type'', JStr (lit ''message_stop''))]]"

text \<open>Events that do not end the stream, run on values.\<close>

fun decode :: "sse_state \<Rightarrow> json list \<Rightarrow> sse_state \<times> (ustr, response_event) result list \<times> bool" where
  "decode st [] = (st, [], False)"
| "decode st (v # vs) = (case handle_event st v of
       (st', evs, True) \<Rightarrow> (st', evs, True)
     | (st', evs, False) \<Rightarrow> (case decode st' vs of (st'', evs', r) \<Rightarrow> (st'', evs @ evs', r)))"

lemma decode_append:
  "decode st (xs @ ys) = (case decode st xs of
     (st', evs, True) \<Rightarrow> (st', evs, True)
   | (st', evs, False) \<Rightarrow> (case decode st' ys of (st'', evs', r) \<Rightarrow> (st'', evs @ evs', r)))"
  by (induction xs arbitrary: st) (auto split: prod.splits bool.splits)

lemma process_decode:
  assumes "list_all2 (\<lambda>d v. parse_json d = Some v \<and> trim d \<noteq> []) ds vs"
  shows "process_anthropic_sse parse_json st (map Data ds) = (case decode st vs of (_, evs, r) \<Rightarrow> (evs, r))"
  using assms
  by (induction arbitrary: st rule: list_all2_induct) (auto simp: handle_poll_def split: prod.splits bool.splits)

lemma jget_jobj: "jget k (jobj kvs) = map_of kvs k"
proof -
  have inj: "lit a = lit b \<longleftrightarrow> a = b" for a b
    by (simp add: lit_def inj_map_eq_map [OF inj_of_char])
  show ?thesis by (induction kvs) (auto simp: jget_def jobj_def inj split: if_splits)
qed

lemma get_jobj:
  "get_str k (jobj kvs) = Option.bind (map_of kvs k) as_str"
  "get_i64 k (jobj kvs) = Option.bind (map_of kvs k) as_i64"
  by (simp_all add: get_str_def get_i64_def jget_jobj)

lemma as_simps [simp]: "as_str (JStr t) = Some t" "I64_MIN \<le> n \<Longrightarrow> n \<le> I64_MAX \<Longrightarrow> as_i64 (JInt n) = Some n"
  by (simp_all add: as_str_def as_i64_def)

lemma I64_index: "int i \<le> I64_MAX \<Longrightarrow> as_i64 (JInt (int i)) = Some (int i)"
  by (simp add: as_i64_def I64_MIN_def)

lemmas event_simps = jget_jobj get_jobj or_default_def I64_index

lemma handle_start_event:
  assumes "int i \<le> I64_MAX"
  shows "handle_event st (start_event i (block_header b)) =
    (st\<lparr>blocks := insert_block (int i) \<lparr>blk_kind = reply_kind b, buf = []\<rparr> (blocks st)\<rparr>,
     [Ok (OutputItemAdded (initial_item (reply_kind b)))], False)"
proof -
  have "block_kind_of (Some (jobj (block_header b))) = reply_kind b"
    by (cases b) (simp_all add: block_kind_of_def event_simps Let_def)
  with assms show ?thesis
    by (simp add: handle_event_def start_event_def on_content_block_start_def event_simps Let_def)
qed

lemma handle_piece_event:
  assumes "int i \<le> I64_MAX" "map_of (blocks st) (int i) = Some bl" "blk_kind bl = reply_kind b"
  shows "handle_event st (piece_event i b t) =
    (st\<lparr>blocks := append_buf (int i) t (blocks st)\<rparr>, [Ok (piece_output i b t)], False)"
  using assms
  by (cases b) (simp_all add: handle_event_def delta_event_def on_content_block_delta_def event_simps Let_def)

lemma handle_stop_event:
  assumes "int i \<le> I64_MAX" "map_of (blocks st) (int i) = Some bl"
  shows "handle_event st (stop_event i) =
    (st\<lparr>blocks := remove_block (int i) (blocks st)\<rparr>, [Ok (OutputItemDone (finished_item (blk_kind bl) (buf bl)))], False)"
  using assms by (simp add: handle_event_def stop_event_def on_content_block_stop_def event_simps Let_def)

text \<open>While one block is open, its pieces gather in its buffer.\<close>

lemma decode_pieces:
  assumes "int i \<le> I64_MAX"
  shows "decode (st\<lparr>blocks := [(int i, \<lparr>blk_kind = reply_kind b, buf = t\<rparr>)]\<rparr>) (map (piece_event i b) ps) =
    (st\<lparr>blocks := [(int i, \<lparr>blk_kind = reply_kind b, buf = t @ concat ps\<rparr>)]\<rparr>, map (\<lambda>p. Ok (piece_output i b p)) ps, False)"
  using assms
  by (induction ps arbitrary: t) (simp_all add: handle_piece_event append_buf_def)

lemma decode_block:
  assumes "int i \<le> I64_MAX" "blocks st = []"
  shows "decode st (encode_block i b) = (st, block_events i b, False)"
proof -
  let ?open = "\<lambda>t. st\<lparr>blocks := [(int i, \<lparr>blk_kind = reply_kind b, buf = t\<rparr>)]\<rparr>"
  have id: "st\<lparr>blocks := []\<rparr> = st" using assms(2) by (cases st) simp
  have stop: "handle_event (?open t) (stop_event i) = (st, [Ok (OutputItemDone (finished_item (reply_kind b) t))], False)" for t
    using handle_stop_event [OF assms(1), of "?open t"] by (simp add: remove_block_def id)
  show ?thesis
    using handle_start_event [OF assms(1), of st b] assms(2)
    by (simp add: encode_block_def insert_block_def decode_append decode_pieces [OF assms(1)] stop block_events_def)
qed

lemma decode_blocks:
  assumes "int (i + length bs) \<le> I64_MAX" "blocks st = []"
  shows "decode st (encode_blocks i bs) = (st, blocks_events i bs, False)"
  using assms
proof (induction bs arbitrary: i)
  case (Cons b bs)
  have "decode st (encode_block i b) = (st, block_events i b, False)"
    using Cons.prems by (intro decode_block) auto
  moreover have "decode st (encode_blocks (Suc i) bs) = (st, blocks_events (Suc i) bs, False)"
    using Cons.prems by (intro Cons.IH) auto
  ultimately show ?case by (simp add: decode_append)
qed simp

text \<open>
  C32: Round trip through the wire. A response sent as Anthropic events, whatever pieces its
  blocks are cut into, is decoded to exactly: the creation, for every block its announcement,
  one delta per piece and the finished item with all pieces joined, and the completion with
  the ids, counts and stop reason sent.
\<close>

theorem decode_encoded_response:
  assumes "list_all2 (\<lambda>d v. parse_json d = Some v \<and> trim d \<noteq> []) ds (encode_response rid n_in n_out reason bs)"
    and "int (length bs) \<le> I64_MAX"
    and "I64_MIN \<le> n_in" "n_in \<le> I64_MAX" "I64_MIN \<le> n_out" "n_out \<le> I64_MAX"
  shows "process_anthropic_sse parse_json init_sse (map Data ds) =
    (Ok Created # blocks_events 0 bs @
     [Ok (Completed rid (Some \<lparr>input_tokens = n_in, cached_input_tokens = 0, output_tokens = n_out,
        reasoning_output_tokens = 0, total_tokens = wrap_i64 (n_in + n_out)\<rparr>) (Some (reason = lit ''end_turn'')))], True)"
proof -
  let ?st = "init_sse\<lparr>response_id := rid, in_tokens := n_in, cached_tokens := 0, out_tokens := 0\<rparr>"
  have start: "handle_event init_sse (jobj [(''type'', JStr (lit ''message_start'')), (''message'', jobj [(''id'', JStr rid),
        (''usage'', jobj [(''input_tokens'', JInt n_in), (''output_tokens'', JInt 0)])])]) = (?st, [Ok Created], False)"
    using assms(3,4) by (simp add: handle_event_def on_message_start_def event_simps Let_def I64_MIN_def I64_MAX_def)
  have blocks: "decode ?st (encode_blocks 0 bs) = (?st, blocks_events 0 bs, False)"
    using assms(2) by (intro decode_blocks) (simp_all add: init_sse_def)
  have delta: "handle_event ?st (jobj [(''type'', JStr (lit ''message_delta'')), (''delta'', jobj [(''stop_reason'', JStr reason)]),
        (''usage'', jobj [(''output_tokens'', JInt n_out)])]) = (?st\<lparr>stop_reason := Some reason, out_tokens := n_out\<rparr>, [], False)"
    using assms(5,6) by (simp add: handle_event_def on_message_delta_def event_simps Let_def)
  have stop: "handle_event s (jobj [(''type'', JStr (lit ''message_stop''))]) = on_message_stop s" for s
    by (simp add: handle_event_def event_simps Let_def)
  show ?thesis
    unfolding process_decode [OF assms(1)] encode_response_def
    by (simp add: start decode_append blocks delta stop on_message_stop_def del: lit_simps)
qed

definition sample_reply :: "json list" where
  "sample_reply = encode_response (lit ''m1'') 10 7 (lit ''tool_use'')
     [TextReply [lit ''H'', lit ''i''], ToolReply (lit ''t1'') (lit ''shell'') []]"

theorem decode_encoded_response_witness:
  "\<exists>parse_json ds. process_anthropic_sse parse_json init_sse (map Data ds) =
    (Ok Created # blocks_events 0 [TextReply [lit ''H'', lit ''i''], ToolReply (lit ''t1'') (lit ''shell'') []] @
     [Ok (Completed (lit ''m1'') (Some \<lparr>input_tokens = 10, cached_input_tokens = 0, output_tokens = 7,
        reasoning_output_tokens = 0, total_tokens = wrap_i64 17\<rparr>) (Some False))], True)"
proof -
  let ?ds = "map (\<lambda>n. [65 + int n]) [0..<length sample_reply]"
  let ?pj = "\<lambda>d. Some (sample_reply ! nat (hd d - 65))"
  have "list_all2 (\<lambda>d v. ?pj d = Some v \<and> trim d \<noteq> []) ?ds sample_reply" by code_simp
  from decode_encoded_response [OF this [unfolded sample_reply_def]] show ?thesis
    by (intro exI [of _ ?pj] exI [of _ ?ds]) (simp add: sample_reply_def I64_MAX_def I64_MIN_def)
qed

end
