(* ===== verification/Seek_Sequence.thy ===== *)
theory Seek_Sequence
  imports Prelude
begin

text \<open>
  \<open>apply-patch/src/seek_sequence.rs\<close>: locating the lines of a patch chunk in a file.
  Four passes of decreasing strictness run over the same range of start indices; the
  first index of the first pass that matches is the answer. The lemmas show that each
  pass accepts what the pass before it accepts, so that a failed search means that no
  index of the range matches even after normalisation.
\<close>

section \<open>The search\<close>

text \<open>The typographic characters \<open>normalise\<close> maps to ASCII (local \<open>fn normalise\<close>).\<close>

definition normalise_char :: "uchar \<Rightarrow> uchar" where
  "normalise_char c =
     (if c \<in> {0x2010, 0x2011, 0x2012, 0x2013, 0x2014, 0x2015, 0x2212} then 45
      else if c \<in> {0x2018, 0x2019, 0x201A, 0x201B} then 39
      else if c \<in> {0x201C, 0x201D, 0x201E, 0x201F} then 34
      else if c \<in> {0x00A0, 0x2002, 0x2003, 0x2004, 0x2005, 0x2006, 0x2007, 0x2008,
                   0x2009, 0x200A, 0x202F, 0x205F, 0x3000} then 32
      else c)"

definition normalise :: "ustr \<Rightarrow> ustr" where
  "normalise s = map normalise_char (trim s)"

text \<open>
  The inner loop of a pass: \<open>lines[i + p_idx]\<close> against each \<open>pat\<close> under the pass's view
  of a line. Indexing past the end would panic; the range of \<open>i\<close> excludes it.
\<close>

fun matches_at :: "(ustr \<Rightarrow> ustr) \<Rightarrow> ustr list \<Rightarrow> ustr list \<Rightarrow> nat \<Rightarrow> bool" where
  "matches_at view ls [] i = True"
| "matches_at view ls (pat # pats) i =
     (i < length ls \<and> view (ls ! i) = view pat \<and> matches_at view ls pats (Suc i))"

text \<open>One pass: \<open>for i in search_start..=lines.len().saturating_sub(pattern.len())\<close>.\<close>

definition seek_pass :: "(ustr \<Rightarrow> ustr) \<Rightarrow> ustr list \<Rightarrow> ustr list \<Rightarrow> nat \<Rightarrow> nat option" where
  "seek_pass view ls pattern search_start =
     find (matches_at view ls pattern) [search_start..<Suc (length ls - length pattern)]"

definition seek_sequence :: "ustr list \<Rightarrow> ustr list \<Rightarrow> nat \<Rightarrow> bool \<Rightarrow> nat option" where
  "seek_sequence ls pattern start eof =
     (if pattern = [] then Some start
      else if length pattern > length ls then None
      else
        let search_start = (if eof \<and> length ls \<ge> length pattern
                            then length ls - length pattern else start)
        in case seek_pass id ls pattern search_start of
             Some i \<Rightarrow> Some i
           | None \<Rightarrow>
          (case seek_pass trim_end ls pattern search_start of
             Some i \<Rightarrow> Some i
           | None \<Rightarrow>
          (case seek_pass trim ls pattern search_start of
             Some i \<Rightarrow> Some i
           | None \<Rightarrow> seek_pass normalise ls pattern search_start)))"

section \<open>What a match is\<close>

lemma matches_at_iff:
  "matches_at view ls pats i \<longleftrightarrow>
     (pats = [] \<or> i + length pats \<le> length ls) \<and>
     map view (take (length pats) (drop i ls)) = map view pats"
proof (induction pats arbitrary: i)
  case (Cons p ps)
  show ?case
  proof (cases "i < length ls")
    case True
    then have "drop i ls = ls ! i # drop (Suc i) ls" by (rule Cons_nth_drop_Suc [symmetric])
    with True Cons show ?thesis by auto
  qed auto
qed simp

lemma matches_at_id:
  "matches_at id ls pats i \<longleftrightarrow>
     (pats = [] \<or> i + length pats \<le> length ls) \<and> take (length pats) (drop i ls) = pats"
  by (simp add: matches_at_iff)

lemma matches_at_coarser:
  assumes "\<And>s t. f s = f t \<Longrightarrow> g s = g t" "matches_at f ls pats i"
  shows "matches_at g ls pats i"
  using assms(2) by (induction pats arbitrary: i) (auto intro: assms(1))

text \<open>Each pass accepts what the pass before it accepts.\<close>

lemma matches_at_trim_end: "matches_at id ls pats i \<Longrightarrow> matches_at trim_end ls pats i"
  by (rule matches_at_coarser [where f = id]) auto

lemma matches_at_trim: "matches_at trim_end ls pats i \<Longrightarrow> matches_at trim ls pats i"
  by (rule matches_at_coarser [where f = trim_end]) (auto intro: trim_eq_if_trim_end_eq)

lemma matches_at_normalise: "matches_at trim ls pats i \<Longrightarrow> matches_at normalise ls pats i"
  by (rule matches_at_coarser [where f = trim]) (auto simp: normalise_def)

lemmas matches_at_weaken = matches_at_trim_end matches_at_trim matches_at_normalise

lemma seek_pass_Some:
  "seek_pass view ls pats a = Some i \<Longrightarrow>
     a \<le> i \<and> i \<le> length ls - length pats \<and> matches_at view ls pats i \<and>
     (\<forall>j. a \<le> j \<and> j < i \<longrightarrow> \<not> matches_at view ls pats j)"
  by (auto simp: seek_pass_def find_upt_Some_iff simp del: upt_Suc)

lemma seek_pass_None:
  "seek_pass view ls pats a = None \<longleftrightarrow>
     (\<forall>j. a \<le> j \<and> j \<le> length ls - length pats \<longrightarrow> \<not> matches_at view ls pats j)"
  by (auto simp: seek_pass_def find_upt_None_iff simp del: upt_Suc)

definition search_from :: "ustr list \<Rightarrow> ustr list \<Rightarrow> nat \<Rightarrow> bool \<Rightarrow> nat" where
  "search_from ls pattern start eof = (if eof then length ls - length pattern else start)"

lemma seek_sequence_cases:
  assumes "pattern \<noteq> []" "length pattern \<le> length ls"
  shows "seek_sequence ls pattern start eof =
     (let a = search_from ls pattern start eof
      in case seek_pass id ls pattern a of Some i \<Rightarrow> Some i
      | None \<Rightarrow> (case seek_pass trim_end ls pattern a of Some i \<Rightarrow> Some i
      | None \<Rightarrow> (case seek_pass trim ls pattern a of Some i \<Rightarrow> Some i
      | None \<Rightarrow> seek_pass normalise ls pattern a)))"
  using assms by (simp add: seek_sequence_def search_from_def Let_def)

section \<open>Properties\<close>

text \<open>
  A hit of \<open>seek_sequence\<close> on a non-empty pattern lies inside the file, never before the
  index the search starts from, at the end of the file when \<open>eof\<close> is set, and the file's
  lines there equal the pattern's after normalisation.
\<close>

theorem seek_sequence_sound:
  assumes "seek_sequence ls pattern start eof = Some i" "pattern \<noteq> []"
  shows "i + length pattern \<le> length ls \<and>
    (if eof then i = length ls - length pattern else start \<le> i) \<and>
    map normalise (take (length pattern) (drop i ls)) = map normalise pattern"
proof -
  from assms have le: "length pattern \<le> length ls"
    by (auto simp: seek_sequence_def split: if_splits)
  let ?a = "search_from ls pattern start eof"
  from assms le have
    "seek_pass id ls pattern ?a = Some i \<or> seek_pass trim_end ls pattern ?a = Some i \<or>
     seek_pass trim ls pattern ?a = Some i \<or> seek_pass normalise ls pattern ?a = Some i"
    by (auto simp: seek_sequence_cases Let_def split: option.splits)
  then have m: "?a \<le> i" "i \<le> length ls - length pattern" "matches_at normalise ls pattern i"
    using matches_at_weaken by (blast dest: seek_pass_Some)+
  from m(2) le have "i + length pattern \<le> length ls" by linarith
  moreover from m(1,2) have "if eof then i = length ls - length pattern else start \<le> i"
    by (auto simp: search_from_def)
  moreover from m(3) have
    "map normalise (take (length pattern) (drop i ls)) = map normalise pattern"
    by (simp add: matches_at_iff)
  ultimately show ?thesis by blast
qed

theorem seek_sequence_sound_witness:
  "seek_sequence [lit ''fn a'', lit ''fn b'', lit ''end''] [lit '' fn b'', lit ''end''] 0 False = Some 1
   \<and> (1::nat) + length [lit '' fn b'', lit ''end''] \<le> 3"
proof -
  let ?ls = "[lit ''fn a'', lit ''fn b'', lit ''end'']"
  let ?p = "[lit '' fn b'', lit ''end'']"
  have h: "seek_sequence ?ls ?p 0 False = Some 1" by code_simp
  from seek_sequence_sound [OF h] have "1 + length ?p \<le> length ?ls" by simp
  with h show ?thesis by simp
qed

text \<open>
  The search is complete. It reports \<open>None\<close> on a non-empty pattern exactly when no
  index of the searched range matches even after the most lenient normalisation.
\<close>

theorem seek_sequence_None_iff:
  assumes "pattern \<noteq> []"
  shows "seek_sequence ls pattern start eof = None \<longleftrightarrow>
    (\<forall>i. search_from ls pattern start eof \<le> i \<and> i + length pattern \<le> length ls \<longrightarrow>
         map normalise (take (length pattern) (drop i ls)) \<noteq> map normalise pattern)"
proof (cases "length pattern \<le> length ls")
  case False
  with assms show ?thesis by (auto simp: seek_sequence_def)
next
  case True
  let ?a = "search_from ls pattern start eof"
  have "seek_sequence ls pattern start eof = None \<longleftrightarrow>
      seek_pass id ls pattern ?a = None \<and> seek_pass trim_end ls pattern ?a = None \<and>
      seek_pass trim ls pattern ?a = None \<and> seek_pass normalise ls pattern ?a = None"
    using assms True by (auto simp: seek_sequence_cases Let_def split: option.splits)
  also have "\<dots> \<longleftrightarrow> seek_pass normalise ls pattern ?a = None"
    using matches_at_weaken unfolding seek_pass_None by blast
  also have "\<dots> \<longleftrightarrow> (\<forall>i. ?a \<le> i \<and> i + length pattern \<le> length ls \<longrightarrow>
         map normalise (take (length pattern) (drop i ls)) \<noteq> map normalise pattern)"
    using True by (auto simp: seek_pass_None matches_at_iff)
  finally show ?thesis .
qed

theorem seek_sequence_None_iff_witness:
  "[lit ''x''] \<noteq> [] \<and> seek_sequence [lit ''a'', lit ''b''] [lit ''x''] 0 False = None \<and>
   map normalise (take 1 (drop 1 [lit ''a'', lit ''b''])) \<noteq> map normalise [lit ''x'']"
proof -
  have n: "[lit ''x''] \<noteq> []" by simp
  have none: "seek_sequence [lit ''a'', lit ''b''] [lit ''x''] 0 False = None" by code_simp
  have "search_from [lit ''a'', lit ''b''] [lit ''x''] 0 False \<le> 1" by code_simp
  then have "map normalise (take 1 (drop 1 [lit ''a'', lit ''b''])) \<noteq> map normalise [lit ''x'']"
    using iffD1 [OF seek_sequence_None_iff [OF n] none, rule_format, of 1] by simp
  with n none show ?thesis by blast
qed

text \<open>
  Exact matches win. If the pattern occurs verbatim anywhere in the searched range, the
  answer is the first such occurrence, whatever the lenient passes would have found.
\<close>

theorem seek_sequence_exact_first:
  assumes "pattern \<noteq> []" "search_from ls pattern start eof \<le> j" "j + length pattern \<le> length ls"
    and "take (length pattern) (drop j ls) = pattern"
  shows "\<exists>i\<le>j. seek_sequence ls pattern start eof = Some i \<and>
    take (length pattern) (drop i ls) = pattern \<and>
    (\<forall>k. search_from ls pattern start eof \<le> k \<and> k < i \<longrightarrow>
         take (length pattern) (drop k ls) \<noteq> pattern)"
proof -
  let ?a = "search_from ls pattern start eof"
  have le: "length pattern \<le> length ls" using assms(3) by simp
  have mj: "matches_at id ls pattern j" using assms by (simp add: matches_at_id)
  have "j \<le> length ls - length pattern" using assms(3) by simp
  with mj assms(2) have "seek_pass id ls pattern ?a \<noteq> None"
    by (auto simp: seek_pass_None simp del: id_apply)
  then obtain i where i: "seek_pass id ls pattern ?a = Some i" by blast
  note s = seek_pass_Some [OF i]
  have "i \<le> j" using s mj assms(2) by (meson not_le)
  moreover have "seek_sequence ls pattern start eof = Some i"
    using assms(1) le i by (simp add: seek_sequence_cases)
  moreover have "take (length pattern) (drop k ls) \<noteq> pattern" if "?a \<le> k \<and> k < i" for k
  proof -
    from s that have "\<not> matches_at id ls pattern k" "k + length pattern \<le> length ls"
      using le by auto
    then show ?thesis by (simp add: matches_at_id)
  qed
  ultimately show ?thesis using s by (auto simp: matches_at_id)
qed

theorem seek_sequence_exact_first_witness:
  "\<exists>i\<le>(1::nat). seek_sequence [lit ''a '', lit ''a''] [lit ''a''] 0 False = Some i \<and>
    take 1 (drop i [lit ''a '', lit ''a'']) = [lit ''a'']"
  using seek_sequence_exact_first [of "[lit ''a'']" "[lit ''a '', lit ''a'']" 0 False 1]
  by (auto simp: search_from_def)

end
