(* ===== verification/Patch_Apply.thy ===== *)
theory Patch_Apply
  imports Patch_Parser Seek_Sequence
begin

text \<open>
  \<open>apply-patch/src/lib.rs\<close>: turning parsed hunks into file changes. The pure part locates
  every chunk (\<open>compute_replacements\<close>) and splices the new lines in
  (\<open>apply_replacements\<close>). The effectful part (\<open>apply_hunks_to_files\<close>) drives a file
  system and records what it committed in an \<open>AppliedPatchDelta\<close>.

  The file system is the trait \<open>ExecutorFileSystem\<close>: a record of operations over a state
  \<open>'w\<close> and paths \<open>'p\<close>. Reads leave the state as it is. Path operations of \<open>PathUri\<close>
  (joining, parent, printing) are fields of the same record; the sandbox context is fixed
  by the caller and passed on unchanged, so it is not a parameter here.
\<close>

section \<open>Errors\<close>

datatype io_kind = NotFound | InvalidInput | InvalidData | OtherKind

record io_error =
  kind :: io_kind
  message :: ustr

datatype apply_patch_error =
    ParseError parse_error
  | IoError ustr io_error
  | ComputeReplacements ustr
  | PathUriError ustr
  | ImplicitInvocation

section \<open>Locating and splicing chunks\<close>

type_synonym replacement = "nat \<times> nat \<times> ustr list"

definition context_error :: "ustr \<Rightarrow> ustr \<Rightarrow> apply_patch_error" where
  "context_error ctx_line path = ComputeReplacements
     (lit ''Failed to find context '' @ quoted ctx_line @ lit '' in '' @ path)"

definition lines_error :: "ustr \<Rightarrow> ustr list \<Rightarrow> apply_patch_error" where
  "lines_error path old = ComputeReplacements
     (lit ''Failed to find expected lines in '' @ path @ lit '':'' @ [LF] @ join_with [LF] old)"

text \<open>The seek for \<open>change_context\<close>: the line index the chunk's search starts from.\<close>

definition seek_context ::
  "ustr list \<Rightarrow> ustr \<Rightarrow> ustr option \<Rightarrow> nat \<Rightarrow> (apply_patch_error, nat) result" where
  "seek_context original_lines path ctx line_index =
     (case ctx of
        None \<Rightarrow> Ok line_index
      | Some ctx_line \<Rightarrow>
          (case seek_sequence original_lines [ctx_line] line_index False of
             Some idx \<Rightarrow> Ok (Suc idx)
           | None \<Rightarrow> Err (context_error ctx_line path)))"

definition insertion_index :: "ustr list \<Rightarrow> nat" where
  "insertion_index original_lines =
     (if last_is_empty original_lines then length original_lines - 1 else length original_lines)"

text \<open>
  The match for a chunk's old lines, with the retry that drops a trailing empty line:
  \<open>(start_idx, pattern, new_slice)\<close>.
\<close>

definition find_chunk ::
  "ustr list \<Rightarrow> update_file_chunk \<Rightarrow> nat \<Rightarrow> (nat \<times> ustr list \<times> ustr list) option" where
  "find_chunk original_lines chunk line_index =
     (case seek_sequence original_lines (old_lines chunk) line_index (is_end_of_file chunk) of
        Some i \<Rightarrow> Some (i, old_lines chunk, new_lines chunk)
      | None \<Rightarrow>
          if last_is_empty (old_lines chunk) then
            let pattern = butlast (old_lines chunk);
                new_slice = (if last_is_empty (new_lines chunk) then butlast (new_lines chunk)
                             else new_lines chunk)
            in (case seek_sequence original_lines pattern line_index (is_end_of_file chunk) of
                  Some i \<Rightarrow> Some (i, pattern, new_slice)
                | None \<Rightarrow> None)
          else None)"

fun replacements_loop ::
  "ustr list \<Rightarrow> ustr \<Rightarrow> update_file_chunk list \<Rightarrow> nat \<Rightarrow> (apply_patch_error, replacement list) result" where
  "replacements_loop original_lines path [] line_index = Ok []"
| "replacements_loop original_lines path (chunk # chunks) line_index =
     and_then (seek_context original_lines path (change_context chunk) line_index) (\<lambda>line_index.
       if old_lines chunk = [] then
         and_then (replacements_loop original_lines path chunks line_index) (\<lambda>rest.
           Ok ((insertion_index original_lines, 0, new_lines chunk) # rest))
       else
         (case find_chunk original_lines chunk line_index of
            Some (start_idx, pattern, new_slice) \<Rightarrow>
              and_then (replacements_loop original_lines path chunks (start_idx + length pattern))
                (\<lambda>rest. Ok ((start_idx, length pattern, new_slice) # rest))
          | None \<Rightarrow> Err (lines_error path (old_lines chunk))))"

text \<open>\<open>sort_by_key\<close> is a stable sort, as \<open>sort_key\<close> is.\<close>

definition compute_replacements ::
  "ustr list \<Rightarrow> ustr \<Rightarrow> update_file_chunk list \<Rightarrow> (apply_patch_error, replacement list) result" where
  "compute_replacements original_lines path chunks =
     and_then (replacements_loop original_lines path chunks 0) (\<lambda>rs. Ok (sort_key fst rs))"

text \<open>
  \<open>Vec::remove\<close> under its guard and \<open>Vec::insert\<close>, which panics past the end: \<open>None\<close>.
\<close>

definition remove_at :: "nat \<Rightarrow> 'a list \<Rightarrow> 'a list" where
  "remove_at i xs = (if i < length xs then take i xs @ drop (Suc i) xs else xs)"

definition insert_at :: "nat \<Rightarrow> 'a \<Rightarrow> 'a list \<Rightarrow> 'a list option" where
  "insert_at i x xs = (if i \<le> length xs then Some (take i xs @ x # drop i xs) else None)"

fun remove_loop :: "nat \<Rightarrow> nat \<Rightarrow> 'a list \<Rightarrow> 'a list" where
  "remove_loop start_idx 0 xs = xs"
| "remove_loop start_idx (Suc n) xs = remove_loop start_idx n (remove_at start_idx xs)"

fun insert_loop :: "nat \<Rightarrow> 'a list \<Rightarrow> 'a list \<Rightarrow> 'a list option" where
  "insert_loop i [] xs = Some xs"
| "insert_loop i (y # ys) xs = Option.bind (insert_at i y xs) (insert_loop (Suc i) ys)"

fun apply_replacements_loop :: "replacement list \<Rightarrow> ustr list \<Rightarrow> ustr list option" where
  "apply_replacements_loop [] ls = Some ls"
| "apply_replacements_loop ((start_idx, old_len, new_segment) # rs) ls =
     Option.bind (insert_loop start_idx new_segment (remove_loop start_idx old_len ls))
       (apply_replacements_loop rs)"

definition apply_replacements :: "ustr list \<Rightarrow> replacement list \<Rightarrow> ustr list option" where
  "apply_replacements ls replacements = apply_replacements_loop (rev replacements) ls"

section \<open>The file system interface\<close>

record metadata =
  is_directory :: bool
  is_file :: bool
  is_symlink :: bool

record ('p, 'w) executor_fs =
  read_file_text :: "'p \<Rightarrow> 'w \<Rightarrow> (io_error, ustr) result"
  get_metadata :: "'p \<Rightarrow> 'w \<Rightarrow> (io_error, metadata) result"
  write_file :: "'p \<Rightarrow> ustr \<Rightarrow> 'w \<Rightarrow> (io_error, unit) result \<times> 'w"
  create_directory :: "'p \<Rightarrow> 'w \<Rightarrow> (io_error, unit) result \<times> 'w"
  remove_path :: "'p \<Rightarrow> 'w \<Rightarrow> (io_error, unit) result \<times> 'w"
  join_path :: "'p \<Rightarrow> ustr \<Rightarrow> (ustr, 'p) result"
  parent_path :: "'p \<Rightarrow> 'p option"
  native_path :: "'p \<Rightarrow> ustr"

text \<open>The \<open>anyhow::Error\<close> values \<open>apply_hunks_to_files\<close> returns.\<close>

datatype any_error =
    NoFilesModified
  | PathError ustr
  | ContextError ustr io_error
  | PatchError apply_patch_error

datatype 'p applied_file_change =
    Add ustr "ustr option"
  | Delete ustr
  | Update "'p option" ustr "ustr option" ustr

record 'p applied_patch_change =
  path :: 'p
  change :: "'p applied_file_change"

text \<open>
  What the loop keeps in mutable variables: the file system, the delta (\<open>changes\<close>,
  \<open>exact\<close>) and the affected paths as spelled in the patch.
\<close>

record ('p, 'w) apply_state =
  world :: 'w
  changes :: "'p applied_patch_change list"
  exact :: bool
  added :: "ustr list"
  modified :: "ustr list"
  deleted :: "ustr list"

definition initial_state :: "'w \<Rightarrow> ('p, 'w) apply_state" where
  "initial_state w = \<lparr>world = w, changes = [], exact = True, added = [], modified = [], deleted = []\<rparr>"

section \<open>Reading the file to update\<close>

record applied_patch =
  original_contents :: ustr
  new_contents :: ustr

definition file_lines :: "ustr \<Rightarrow> ustr list" where
  "file_lines contents =
     (let ls = split_on LF contents in if last_is_empty ls then butlast ls else ls)"

text \<open>The new text of a file, \<open>None\<close> where \<open>apply_replacements\<close> would panic.\<close>

definition patched_text ::
  "ustr \<Rightarrow> ustr \<Rightarrow> update_file_chunk list \<Rightarrow> (apply_patch_error, ustr option) result" where
  "patched_text native contents chunks =
     and_then (compute_replacements (file_lines contents) native chunks) (\<lambda>rs.
       Ok (map_option
             (\<lambda>ls. join_with [LF] (if last_is_empty ls then ls else ls @ [[]]))
             (apply_replacements (file_lines contents) rs)))"

definition derive_new_contents_from_chunks ::
  "('p, 'w) executor_fs \<Rightarrow> 'p \<Rightarrow> update_file_chunk list \<Rightarrow> 'w \<Rightarrow>
     (apply_patch_error, applied_patch option) result" where
  "derive_new_contents_from_chunks fs p chunks w =
     (case read_file_text fs p w of
        Err err \<Rightarrow> Err (IoError (lit ''Failed to read file to update '' @ native_path fs p) err)
      | Ok contents \<Rightarrow>
          and_then (patched_text (native_path fs p) contents chunks) (\<lambda>r.
            Ok (map_option (\<lambda>t. \<lparr>original_contents = contents, new_contents = t\<rparr>) r)))"

section \<open>Applying hunks\<close>

definition hunk_path :: "hunk \<Rightarrow> ustr" where
  "hunk_path h = (case h of
       AddFile p _ \<Rightarrow> p
     | DeleteFile p \<Rightarrow> p
     | UpdateFile p mv _ \<Rightarrow> (case mv of Some q \<Rightarrow> q | None \<Rightarrow> p))"

definition resolve_path :: "('p, 'w) executor_fs \<Rightarrow> hunk \<Rightarrow> 'p \<Rightarrow> (ustr, 'p) result" where
  "resolve_path fs h cwd =
     join_path fs cwd (case h of UpdateFile p _ _ \<Rightarrow> p | _ \<Rightarrow> hunk_path h)"

definition ensure_not_directory ::
  "('p, 'w) executor_fs \<Rightarrow> 'p \<Rightarrow> 'w \<Rightarrow> (io_error, unit) result" where
  "ensure_not_directory fs p w =
     and_then (get_metadata fs p w) (\<lambda>m.
       if is_directory m then Err \<lparr>kind = InvalidInput, message = lit ''path is a directory''\<rparr>
       else Ok ())"

definition remove_failure_was_side_effect_free ::
  "('p, 'w) executor_fs \<Rightarrow> 'p \<Rightarrow> ustr option \<Rightarrow> 'w \<Rightarrow> bool" where
  "remove_failure_was_side_effect_free fs p expected w =
     (case expected of
        Some e \<Rightarrow> read_file_text fs p w = Ok e
      | None \<Rightarrow> False)"

text \<open>The \<open>&mut bool\<close> of the two probes is threaded through.\<close>

definition note_existing_path_delta_support ::
  "('p, 'w) executor_fs \<Rightarrow> 'p \<Rightarrow> 'w \<Rightarrow> bool \<Rightarrow> bool" where
  "note_existing_path_delta_support fs p w ex =
     (case get_metadata fs p w of
        Ok m \<Rightarrow> if is_file m \<and> \<not> is_symlink m then ex else False
      | Err e \<Rightarrow> if kind e = NotFound then ex else False)"

definition read_optional_file_text_for_delta ::
  "('p, 'w) executor_fs \<Rightarrow> 'p \<Rightarrow> 'w \<Rightarrow> bool \<Rightarrow> ustr option \<times> bool" where
  "read_optional_file_text_for_delta fs p w ex =
     (let ex' = note_existing_path_delta_support fs p w ex in
      case read_file_text fs p w of
        Ok c \<Rightarrow> (Some c, ex')
      | Err e \<Rightarrow> if kind e = NotFound then (None, ex') else (None, False))"

definition write_error :: "('p, 'w) executor_fs \<Rightarrow> 'p \<Rightarrow> io_error \<Rightarrow> any_error" where
  "write_error fs p e = ContextError (lit ''Failed to write file '' @ native_path fs p) e"

definition write_file_with_missing_parent_retry ::
  "('p, 'w) executor_fs \<Rightarrow> 'p \<Rightarrow> ustr \<Rightarrow> 'w \<Rightarrow> (any_error, unit) result \<times> 'w" where
  "write_file_with_missing_parent_retry fs p contents w =
     (case write_file fs p contents w of
        (Ok _, w1) \<Rightarrow> (Ok (), w1)
      | (Err err, w1) \<Rightarrow>
          if kind err = NotFound then
            let (r, w2) = (case parent_path fs p of
                             Some parent \<Rightarrow> create_directory fs parent w1
                           | None \<Rightarrow> (Ok (), w1))
            in (case r of
                  Err e \<Rightarrow>
                    (Err (ContextError
                       (lit ''Failed to create parent directories for '' @ native_path fs p) e), w2)
                | Ok _ \<Rightarrow>
                    (case write_file fs p contents w2 of
                       (Ok _, w3) \<Rightarrow> (Ok (), w3)
                     | (Err e, w3) \<Rightarrow> (Err (write_error fs p e), w3)))
          else (Err (write_error fs p err), w1))"

definition apply_add_file ::
  "('p, 'w) executor_fs \<Rightarrow> 'p \<Rightarrow> ustr \<Rightarrow> ustr \<Rightarrow> ('p, 'w) apply_state \<Rightarrow>
     any_error option \<times> ('p, 'w) apply_state" where
  "apply_add_file fs p affected contents s =
     (let (overwritten, ex) = read_optional_file_text_for_delta fs p (world s) (exact s) in
      case write_file_with_missing_parent_retry fs p contents (world s) of
        (Err e, w) \<Rightarrow> (Some e, s\<lparr>world := w, exact := False\<rparr>)
      | (Ok _, w) \<Rightarrow>
          (None, s\<lparr>world := w, exact := ex,
                   changes := changes s @ [\<lparr>path = p, change = Add contents overwritten\<rparr>],
                   added := added s @ [affected]\<rparr>))"

definition apply_delete_file ::
  "('p, 'w) executor_fs \<Rightarrow> 'p \<Rightarrow> ustr \<Rightarrow> ('p, 'w) apply_state \<Rightarrow>
     any_error option \<times> ('p, 'w) apply_state" where
  "apply_delete_file fs p affected s =
     (let deleted_content = (case read_file_text fs p (world s) of Ok c \<Rightarrow> Some c | Err _ \<Rightarrow> None);
          ex = note_existing_path_delta_support fs p (world s) (exact s) \<and> deleted_content \<noteq> None;
          ctx = lit ''Failed to delete file '' @ native_path fs p
      in case ensure_not_directory fs p (world s) of
           Err e \<Rightarrow> (Some (ContextError ctx e), s\<lparr>exact := ex\<rparr>)
         | Ok _ \<Rightarrow>
         (case remove_path fs p (world s) of
            (Err e, w) \<Rightarrow>
              (Some (ContextError ctx e),
               s\<lparr>world := w,
                 exact := ex \<and> remove_failure_was_side_effect_free fs p deleted_content w\<rparr>)
          | (Ok _, w) \<Rightarrow>
              (None, s\<lparr>world := w, exact := ex,
                       changes := changes s @ (case deleted_content of
                         Some c \<Rightarrow> [\<lparr>path = p, change = Delete c\<rparr>] | None \<Rightarrow> []),
                       deleted := deleted s @ [affected]\<rparr>)))"

text \<open>
  The \<open>move_path\<close> branch of an update: the destination is written and recorded as an
  \<open>Add\<close>, and only when the source is gone is that entry replaced by the \<open>Update\<close>.
\<close>

definition apply_move ::
  "('p, 'w) executor_fs \<Rightarrow> 'p \<Rightarrow> 'p \<Rightarrow> ustr \<Rightarrow> applied_patch \<Rightarrow> ('p, 'w) apply_state \<Rightarrow>
     any_error option \<times> ('p, 'w) apply_state" where
  "apply_move fs p dest affected ap s =
     (let (overwritten, ex) = read_optional_file_text_for_delta fs dest (world s) (exact s);
          ctx = lit ''Failed to remove original '' @ native_path fs p
      in case write_file_with_missing_parent_retry fs dest (new_contents ap) (world s) of
           (Err e, w) \<Rightarrow> (Some e, s\<lparr>world := w, exact := False\<rparr>)
         | (Ok _, w) \<Rightarrow>
           let s1 = s\<lparr>world := w, exact := ex,
                      changes := changes s @ [\<lparr>path = dest, change = Add (new_contents ap) overwritten\<rparr>]\<rparr>
           in (case ensure_not_directory fs p w of
                 Err e \<Rightarrow> (Some (ContextError ctx e), s1)
               | Ok _ \<Rightarrow>
               (case remove_path fs p w of
                  (Err e, w2) \<Rightarrow>
                    (Some (ContextError ctx e),
                     s1\<lparr>world := w2,
                        exact := ex \<and> remove_failure_was_side_effect_free fs p
                                        (Some (original_contents ap)) w2\<rparr>)
                | (Ok _, w2) \<Rightarrow>
                    (None, s1\<lparr>world := w2,
                              changes := changes s @
                                [\<lparr>path = p, change = Update (Some dest) (original_contents ap)
                                                overwritten (new_contents ap)\<rparr>],
                              modified := modified s @ [affected]\<rparr>))))"

text \<open>
  \<open>apply_update_file\<close> returns \<open>None\<close> for the panic of \<open>apply_replacements\<close>, which the
  properties exclude.
\<close>

definition apply_update_file ::
  "('p, 'w) executor_fs \<Rightarrow> 'p \<Rightarrow> 'p \<Rightarrow> ustr \<Rightarrow> ustr option \<Rightarrow> update_file_chunk list \<Rightarrow>
     ('p, 'w) apply_state \<Rightarrow> (any_error option \<times> ('p, 'w) apply_state) option" where
  "apply_update_file fs cwd p affected move_to chunks s =
     (let ex = note_existing_path_delta_support fs p (world s) (exact s);
          s0 = s\<lparr>exact := ex\<rparr>
      in case derive_new_contents_from_chunks fs p chunks (world s) of
           Err e \<Rightarrow> Some (Some (PatchError e), s0)
         | Ok None \<Rightarrow> None
         | Ok (Some ap) \<Rightarrow>
         (case move_to of
            Some dest \<Rightarrow>
              (case join_path fs cwd dest of
                 Err e \<Rightarrow> Some (Some (PathError e), s0)
               | Ok dest_uri \<Rightarrow> Some (apply_move fs p dest_uri affected ap s0))
          | None \<Rightarrow>
              (case write_file fs p (new_contents ap) (world s) of
                 (Err e, w) \<Rightarrow> Some (Some (write_error fs p e), s0\<lparr>world := w, exact := False\<rparr>)
               | (Ok _, w) \<Rightarrow>
                   Some (None, s0\<lparr>world := w,
                     changes := changes s @ [\<lparr>path = p, change = Update None (original_contents ap)
                                                None (new_contents ap)\<rparr>],
                     modified := modified s @ [affected]\<rparr>))))"

definition apply_hunk ::
  "('p, 'w) executor_fs \<Rightarrow> 'p \<Rightarrow> hunk \<Rightarrow> ('p, 'w) apply_state \<Rightarrow>
     (any_error option \<times> ('p, 'w) apply_state) option" where
  "apply_hunk fs cwd h s =
     (case resolve_path fs h cwd of
        Err e \<Rightarrow> Some (Some (PathError e), s)
      | Ok p \<Rightarrow>
          (case h of
             AddFile _ contents \<Rightarrow> Some (apply_add_file fs p (hunk_path h) contents s)
           | DeleteFile _ \<Rightarrow> Some (apply_delete_file fs p (hunk_path h) s)
           | UpdateFile _ mv chunks \<Rightarrow> apply_update_file fs cwd p (hunk_path h) mv chunks s))"

fun apply_hunks_loop ::
  "('p, 'w) executor_fs \<Rightarrow> 'p \<Rightarrow> hunk list \<Rightarrow> ('p, 'w) apply_state \<Rightarrow>
     (any_error option \<times> ('p, 'w) apply_state) option" where
  "apply_hunks_loop fs cwd [] s = Some (None, s)"
| "apply_hunks_loop fs cwd (h # hs) s =
     (case apply_hunk fs cwd h s of
        None \<Rightarrow> None
      | Some (Some e, s') \<Rightarrow> Some (Some e, s')
      | Some (None, s') \<Rightarrow> apply_hunks_loop fs cwd hs s')"

definition apply_hunks_to_files ::
  "('p, 'w) executor_fs \<Rightarrow> 'p \<Rightarrow> hunk list \<Rightarrow> ('p, 'w) apply_state \<Rightarrow>
     (any_error option \<times> ('p, 'w) apply_state) option" where
  "apply_hunks_to_files fs cwd hs s =
     (if hs = [] then Some (Some NoFilesModified, s) else apply_hunks_loop fs cwd hs s)"

text \<open>The two entry points; what is printed on stdout and stderr is left out.\<close>

datatype patch_outcome = Applied | ParseFailed parse_error | ApplyFailed any_error

definition apply_patch ::
  "('p, 'w) executor_fs \<Rightarrow> 'p \<Rightarrow> ustr \<Rightarrow> 'w \<Rightarrow> (patch_outcome \<times> ('p, 'w) apply_state) option" where
  "apply_patch fs cwd text w =
     (case parse_patch text of
        Err e \<Rightarrow> Some (ParseFailed e, initial_state w)
      | Ok args \<Rightarrow>
          map_option (\<lambda>(r, s). (case r of None \<Rightarrow> Applied | Some e \<Rightarrow> ApplyFailed e, s))
            (apply_hunks_to_files fs cwd (args_hunks args) (initial_state w)))"

end
