(* ===== verification/Patch_Splice.thy ===== *)
theory Patch_Splice
  imports Patch_Apply
begin

text \<open>
  Correctness of chunk application on the lines of a file. \<open>apply_replacements\<close> never
  panics on what \<open>compute_replacements\<close> returns; on chunks that all name old lines and
  are not pinned to the end of the file, it replaces exactly the located regions, in file
  order, and leaves every other line alone.
\<close>

section \<open>The two inner loops\<close>

lemma remove_loop_eq: "remove_loop i n xs = take i xs @ drop (i + n) xs"
proof (induction n arbitrary: xs)
  case (Suc n)
  show ?case
  proof (cases "i < length xs")
    case True
    then have "remove_loop i (Suc n) xs = remove_loop i n (take i xs @ drop (Suc i) xs)"
      by (simp add: remove_at_def)
    also have "\<dots> = take i xs @ drop (i + Suc n) xs"
      using True by (simp add: Suc min_def drop_take add.commute)
    finally show ?thesis .
  qed (use Suc in \<open>simp add: remove_at_def\<close>)
qed simp

lemma insert_loop_eq:
  "i \<le> length xs \<Longrightarrow> insert_loop i ys xs = Some (take i xs @ ys @ drop i xs)"
proof (induction ys arbitrary: i xs)
  case (Cons y ys)
  let ?zs = "take i xs @ y # drop i xs"
  have "insert_loop (Suc i) ys ?zs = Some (take (Suc i) ?zs @ ys @ drop (Suc i) ?zs)"
    using Cons.prems by (intro Cons.IH) simp
  with Cons.prems show ?case by (simp add: insert_at_def min_def)
qed simp

text \<open>One replacement, as a function on lists.\<close>

definition splice_at :: "replacement \<Rightarrow> ustr list \<Rightarrow> ustr list" where
  "splice_at r ls = (case r of (i, n, seg) \<Rightarrow> take i ls @ seg @ drop (i + n) ls)"

lemma apply_loop_Cons:
  "fst r \<le> length ls \<Longrightarrow> apply_replacements_loop (r # rs) ls = apply_replacements_loop rs (splice_at r ls)"
  by (cases r) (simp add: remove_loop_eq insert_loop_eq splice_at_def)

lemma length_splice_at_ge: "fst r \<le> length ls \<Longrightarrow> fst r \<le> length (splice_at r ls)"
  by (cases r) (simp add: splice_at_def)

lemma apply_loop_descending:
  assumes "sorted_wrt (\<lambda>a b. fst b \<le> fst a) rs" "rs \<noteq> [] \<Longrightarrow> fst (hd rs) \<le> length ls"
  shows "apply_replacements_loop rs ls = Some (fold splice_at rs ls)"
  using assms
proof (induction rs arbitrary: ls)
  case (Cons r rs)
  then have le: "fst r \<le> length ls" by simp
  have "rs \<noteq> [] \<Longrightarrow> fst (hd rs) \<le> fst r" using Cons.prems(1) by (cases rs) auto
  then have "rs \<noteq> [] \<Longrightarrow> fst (hd rs) \<le> length (splice_at r ls)"
    using length_splice_at_ge [OF le] by linarith
  with Cons.IH Cons.prems(1) show ?case by (simp add: apply_loop_Cons [OF le])
qed simp

lemma apply_replacements_sorted:
  assumes "sorted (map fst rs)" "list_all (\<lambda>r. fst r \<le> length ls) rs"
  shows "apply_replacements ls rs = Some (fold splice_at (rev rs) ls)"
proof -
  have "sorted_wrt (\<lambda>a b. fst b \<le> fst a) (rev rs)"
    using assms(1) by (simp add: sorted_wrt_rev sorted_map)
  moreover have "fst (hd (rev rs)) \<le> length ls" if "rev rs \<noteq> []"
    using that assms(2) by (cases rs rule: rev_cases) auto
  ultimately show ?thesis unfolding apply_replacements_def by (rule apply_loop_descending)
qed

section \<open>Where replacements start\<close>

lemma seek_context_bound:
  assumes "seek_context ls native ctx i = Ok j" "i \<le> length ls"
  shows "i \<le> j \<and> j \<le> length ls"
  using assms
  by (auto simp: seek_context_def split: option.splits dest!: seek_sequence_sound)

lemma seek_bound:
  assumes "seek_sequence ls pat i eof = Some j" "i \<le> length ls"
  shows "j + length pat \<le> length ls \<and> (\<not> eof \<longrightarrow> i \<le> j)"
proof (cases "pat = []")
  case True
  with assms show ?thesis by (simp add: seek_sequence_def)
next
  case False
  with seek_sequence_sound [OF assms(1)] show ?thesis by (auto split: if_splits)
qed

lemma find_chunk_bound:
  assumes "find_chunk ls c i = Some (j, pat, seg)" "i \<le> length ls"
  shows "j + length pat \<le> length ls \<and> (\<not> is_end_of_file c \<longrightarrow> i \<le> j)"
  using assms
  by (auto simp: find_chunk_def Let_def split: option.splits if_splits dest!: seek_bound)

lemma insertion_index_le: "insertion_index ls \<le> length ls"
  by (simp add: insertion_index_def)

lemma replacements_loop_bound:
  assumes "replacements_loop ls native cs i = Ok rs" "i \<le> length ls"
  shows "list_all (\<lambda>r. fst r \<le> length ls) rs"
  using assms
proof (induction cs arbitrary: i rs)
  case (Cons c cs)
  from Cons.prems obtain j where j: "seek_context ls native (change_context c) i = Ok j"
    by (auto split: if_splits)
  from seek_context_bound [OF j Cons.prems(2)] have jb: "j \<le> length ls" by simp
  show ?case
  proof (cases "old_lines c = []")
    case True
    with Cons.prems j obtain rest where
      "replacements_loop ls native cs j = Ok rest" "rs = (insertion_index ls, 0, new_lines c) # rest"
      by auto
    with Cons.IH [OF _ jb] show ?thesis by (simp add: insertion_index_le)
  next
    case False
    with Cons.prems j obtain k pat seg rest where f: "find_chunk ls c j = Some (k, pat, seg)"
        and r: "replacements_loop ls native cs (k + length pat) = Ok rest"
          "rs = (k, length pat, seg) # rest"
      by (auto split: option.splits)
    from find_chunk_bound [OF f jb] have "k + length pat \<le> length ls" by simp
    with Cons.IH [OF r(1)] r(2) show ?thesis by simp
  qed
qed simp

lemma replacements_in_bounds:
  assumes "compute_replacements ls native chunks = Ok rs"
  shows "\<exists>out. apply_replacements ls rs = Some out"
proof -
  from assms obtain rs0 where "replacements_loop ls native chunks 0 = Ok rs0" "rs = sort_key fst rs0"
    by (auto simp: compute_replacements_def)
  then have "list_all (\<lambda>r. fst r \<le> length ls) rs" "sorted (map fst rs)"
    using replacements_loop_bound by (fastforce simp: list_all_iff)+
  then show ?thesis by (simp add: apply_replacements_sorted)
qed

text \<open>
  Applying a patch to a file never panics. Whenever \<open>compute_replacements\<close> succeeds,
  every \<open>Vec::insert\<close> that \<open>apply_replacements\<close> performs is within bounds, so the
  application returns a list of lines.
\<close>

theorem apply_replacements_total:
  assumes "compute_replacements ls native chunks = Ok rs"
  shows "\<exists>out. apply_replacements ls rs = Some out"
  using assms by (rule replacements_in_bounds)

definition sample_chunk :: "string list \<Rightarrow> string list \<Rightarrow> update_file_chunk" where
  "sample_chunk old new = \<lparr>change_context = None, old_lines = map lit old, new_lines = map lit new,
     is_end_of_file = False\<rparr>"

theorem apply_replacements_total_witness:
  "\<exists>out. apply_replacements [lit ''a'', lit ''b''] [(1, 1, [lit ''c'', lit ''d''])] = Some out"
proof -
  have "compute_replacements [lit ''a'', lit ''b''] (lit ''f'') [sample_chunk [''b''] [''c'', ''d'']] =
      Ok [(1, 1, [lit ''c'', lit ''d''])]"
    by code_simp
  from apply_replacements_total [OF this] show ?thesis .
qed

section \<open>Exactly the located regions change\<close>

text \<open>
  What a chunk asks for at a region: the region's lines are its old lines (up to
  normalisation) and become its new lines, or both lists lose their final empty line.
\<close>

definition chunk_applies :: "update_file_chunk \<Rightarrow> ustr list \<Rightarrow> ustr list \<Rightarrow> bool" where
  "chunk_applies c region seg \<longleftrightarrow>
     map normalise region = map normalise (old_lines c) \<and> seg = new_lines c \<or>
     last_is_empty (old_lines c) \<and> map normalise region = map normalise (butlast (old_lines c)) \<and>
     seg = (if last_is_empty (new_lines c) then butlast (new_lines c) else new_lines c)"

text \<open>A file cut at the regions: \<open>pre\<close>, then each region followed by the lines kept after it.\<close>

type_synonym segment = "ustr list \<times> ustr list \<times> ustr list"

definition before_lines :: "ustr list \<Rightarrow> segment list \<Rightarrow> ustr list" where
  "before_lines pre segs = pre @ concat (map (\<lambda>(region, seg, kept). region @ kept) segs)"

definition after_lines :: "ustr list \<Rightarrow> segment list \<Rightarrow> ustr list" where
  "after_lines pre segs = pre @ concat (map (\<lambda>(region, seg, kept). seg @ kept) segs)"

lemma seek_matches:
  assumes "seek_sequence ls pat i False = Some j"
  shows "map normalise (take (length pat) (drop j ls)) = map normalise pat"
  using assms seek_sequence_sound [OF assms] by (cases "pat = []") auto

lemma find_chunk_applies:
  assumes "find_chunk ls c i = Some (j, pat, seg)" "\<not> is_end_of_file c"
  shows "chunk_applies c (take (length pat) (drop j ls)) seg"
  using assms
  by (auto simp: find_chunk_def Let_def chunk_applies_def split: option.splits if_splits
      dest!: seek_matches)

text \<open>The replacements of a run are ascending, disjoint, and cut the file into segments.\<close>

lemma replacements_loop_segments:
  assumes "replacements_loop ls native cs i = Ok rs" "i \<le> length ls"
    and "list_all (\<lambda>c. old_lines c \<noteq> [] \<and> \<not> is_end_of_file c) cs"
  shows "\<exists>pre segs. drop i ls = before_lines pre segs \<and> list_all2 (\<lambda>c (region, seg, kept). chunk_applies c region seg) cs segs
    \<and> sorted (map fst rs) \<and> list_all (\<lambda>r. i \<le> fst r) rs
    \<and> fold splice_at (rev rs) ls = take i ls @ after_lines pre segs"
  using assms
proof (induction cs arbitrary: i rs)
  case Nil
  then show ?case
    by (auto simp: before_lines_def after_lines_def intro!: exI [of _ "drop i ls"] exI [of _ "[]"])
next
  case (Cons c cs)
  from Cons.prems(1,3) obtain j k pat seg rest where
      j: "seek_context ls native (change_context c) i = Ok j"
      and f: "find_chunk ls c j = Some (k, pat, seg)"
      and r: "replacements_loop ls native cs (k + length pat) = Ok rest"
      and rs: "rs = (k, length pat, seg) # rest"
    by (auto split: option.splits if_splits)
  have ij: "i \<le> j" "j \<le> length ls" using seek_context_bound [OF j Cons.prems(2)] by auto
  have k: "k + length pat \<le> length ls" "j \<le> k"
    using find_chunk_bound [OF f ij(2)] Cons.prems(3) by auto
  let ?e = "k + length pat"
  from Cons.IH [OF r k(1)] Cons.prems(3) obtain pre segs where
      IH: "drop ?e ls = before_lines pre segs"
        "list_all2 (\<lambda>c (region, seg, kept). chunk_applies c region seg) cs segs"
        "sorted (map fst rest)" "list_all (\<lambda>r. ?e \<le> fst r) rest"
        "fold splice_at (rev rest) ls = take ?e ls @ after_lines pre segs"
    by auto
  let ?region = "take (length pat) (drop k ls)"
  let ?pre = "take (k - i) (drop i ls)"
  let ?segs = "(?region, seg, pre) # segs"
  have cut: "drop i ls = ?pre @ ?region @ drop ?e ls"
  proof -
    have "drop i ls = ?pre @ drop (k - i) (drop i ls)" by (rule append_take_drop_id [symmetric])
    also have "drop (k - i) (drop i ls) = drop k ls" using ij k by simp
    also have "drop k ls = ?region @ drop (length pat) (drop k ls)"
      by (rule append_take_drop_id [symmetric])
    finally show ?thesis by (simp add: add.commute)
  qed
  have "drop i ls = before_lines ?pre ?segs"
    using cut IH(1) by (simp add: before_lines_def)
  moreover have "list_all2 (\<lambda>c (region, seg, kept). chunk_applies c region seg) (c # cs) ?segs"
    using IH(2) find_chunk_applies [OF f] Cons.prems(3) by simp
  moreover have "sorted (map fst rs)" "list_all (\<lambda>r. i \<le> fst r) rs"
    using IH(3,4) ij k by (auto simp: rs list_all_iff)
  moreover have "fold splice_at (rev rs) ls = take i ls @ after_lines ?pre ?segs"
  proof -
    have tk: "take k ls = take i ls @ ?pre"
      using ij k by (simp add: take_drop) (metis append_take_drop_id le_trans min.absorb1 take_take)
    have "fold splice_at (rev rs) ls = splice_at (k, length pat, seg) (take ?e ls @ after_lines pre segs)"
      by (simp add: rs IH(5))
    also have "\<dots> = take k ls @ seg @ after_lines pre segs"
      using k by (simp add: splice_at_def min_def)
    finally show ?thesis by (simp add: tk after_lines_def)
  qed
  ultimately show ?case by blast
qed

text \<open>
  C3: Chunks change exactly what they name. If no chunk is a pure addition or pinned to the
  end of the file, a successful application cuts the file into kept lines and one region per
  chunk, in the chunks' order; each region matches its chunk's old lines and is replaced by
  its new lines, and all other lines are kept as they are.
\<close>

theorem apply_chunks_correct:
  assumes "compute_replacements ls native chunks = Ok rs"
    and "list_all (\<lambda>c. old_lines c \<noteq> [] \<and> \<not> is_end_of_file c) chunks"
  shows "\<exists>pre segs. ls = before_lines pre segs \<and>
    list_all2 (\<lambda>c (region, seg, kept). chunk_applies c region seg) chunks segs \<and>
    apply_replacements ls rs = Some (after_lines pre segs)"
proof -
  from assms obtain rs0 where r: "replacements_loop ls native chunks 0 = Ok rs0"
      and rs: "rs = sort_key fst rs0"
    by (auto simp: compute_replacements_def)
  from replacements_loop_segments [OF r _ assms(2)] obtain pre segs where
      s: "ls = before_lines pre segs" "sorted (map fst rs0)" "fold splice_at (rev rs0) ls = after_lines pre segs"
        "list_all2 (\<lambda>c (region, seg, kept). chunk_applies c region seg) chunks segs"
    by auto
  have "rs = rs0" using s(2) by (simp add: rs sort_key_id_if_sorted sorted_map)
  moreover have "list_all (\<lambda>r. fst r \<le> length ls) rs0"
    using replacements_loop_bound [OF r] by simp
  ultimately have "apply_replacements ls rs = Some (after_lines pre segs)"
    using s(2,3) by (simp add: apply_replacements_sorted)
  with s(1,4) show ?thesis by blast
qed

theorem apply_chunks_correct_witness:
  "\<exists>pre segs. [lit ''a'', lit ''b'', lit ''c''] = before_lines pre segs \<and> length segs = 1 \<and>
    apply_replacements [lit ''a'', lit ''b'', lit ''c''] [(1, 1, [lit ''x''])] = Some (after_lines pre segs)"
proof -
  let ?ls = "[lit ''a'', lit ''b'', lit ''c'']"
  have "compute_replacements ?ls (lit ''f'') [sample_chunk [''b''] [''x'']] = Ok [(1, 1, [lit ''x''])]"
    by code_simp
  from apply_chunks_correct [OF this] show ?thesis
    by (fastforce simp: sample_chunk_def dest: list_all2_lengthD)
qed

section \<open>A pure addition can be lost\<close>

text \<open>
  A flaw of the splice order. When one chunk rewrites the blank last line of a file and a
  later chunk is a pure addition, both replacements start at that line; they are applied in
  reverse order, so the added lines go in first and the rewrite then removes one of them
  instead of the blank line. The result has the first chunk's line and the old blank line,
  and the added line is gone.
\<close>

theorem addition_after_last_line_rewrite_lost:
  assumes "list_all (\<lambda>l. normalise l \<noteq> []) pre"
  shows "\<exists>rs. compute_replacements (pre @ [[]]) native
      [\<lparr>change_context = None, old_lines = [[]], new_lines = [x], is_end_of_file = False\<rparr>,
       \<lparr>change_context = None, old_lines = [], new_lines = [y], is_end_of_file = False\<rparr>] = Ok rs \<and>
    apply_replacements (pre @ [[]]) rs = Some (pre @ [x, []])"
proof -
  let ?c1 = "\<lparr>change_context = None, old_lines = [[]], new_lines = [x], is_end_of_file = False\<rparr>"
  let ?n = "length pre"
  have "matches_at id (pre @ [[]]) [[]] j \<longleftrightarrow> j = ?n" for j
    using assms by (auto simp: nth_append list_all_length normalise_def trim_def less_Suc_eq)
  then have "seek_pass id (pre @ [[]]) [[]] 0 = Some ?n"
    unfolding seek_pass_def find_upt_Some_iff by (simp del: matches_at.simps)
  then have "find_chunk (pre @ [[]]) ?c1 0 = Some (?n, [[]], [x])"
    by (simp add: find_chunk_def seek_sequence_def)
  then have c: "compute_replacements (pre @ [[]]) native
      [?c1, \<lparr>change_context = None, old_lines = [], new_lines = [y], is_end_of_file = False\<rparr>] =
      Ok [(?n, 1, [x]), (?n, 0, [y])]"
    by (simp add: compute_replacements_def seek_context_def insertion_index_def last_is_empty_def)
  have "apply_replacements (pre @ [[]]) [(?n, 1, [x]), (?n, 0, [y])] = Some (pre @ [x, []])"
    by (simp add: apply_replacements_def insert_at_def remove_at_def)
  with c show ?thesis by blast
qed

theorem addition_after_last_line_rewrite_lost_witness:
  "\<exists>rs. compute_replacements [lit ''a'', []] (lit ''f'')
      [\<lparr>change_context = None, old_lines = [[]], new_lines = [lit ''x''], is_end_of_file = False\<rparr>,
       \<lparr>change_context = None, old_lines = [], new_lines = [lit ''y''], is_end_of_file = False\<rparr>] = Ok rs \<and>
    apply_replacements [lit ''a'', []] rs = Some [lit ''a'', lit ''x'', []]"
proof -
  have "list_all (\<lambda>l. normalise l \<noteq> []) [lit ''a'']" by code_simp
  from addition_after_last_line_rewrite_lost [OF this, of "lit ''f''" "lit ''x''" "lit ''y''"]
  show ?thesis by simp
qed

end
