(* ===== verification/Patch_Delta.thy ===== *)
theory Patch_Delta
  imports Patch_Splice
begin

text \<open>
  The contract of \<open>AppliedPatchDelta\<close>. A locale states what \<open>apply_patch\<close> relies on from
  a file system; under it, a delta that is still marked exact describes precisely what
  happened to the files, also when the application failed half way, and holds enough to
  undo it. The local file system of \<open>exec-server/src/local_file_system.rs\<close>
  (\<open>DirectFileSystem\<close>) is modelled over a tree of text files, other files and directories
  and shown to meet the contract.
\<close>

section \<open>What holds for any file system\<close>

lemma note_exact: "note_existing_path_delta_support fs p w ex \<Longrightarrow> ex"
  by (auto simp: note_existing_path_delta_support_def split: sum.splits if_splits)

lemma read_optional_exact: "read_optional_file_text_for_delta fs p w ex = (c, True) \<Longrightarrow> ex"
  by (auto simp: read_optional_file_text_for_delta_def Let_def split: sum.splits if_splits
      dest: note_exact)

text \<open>A hunk appends at most one change and never makes an inexact delta exact again.\<close>

definition extends_delta :: "('p, 'w) apply_state \<Rightarrow> ('p, 'w) apply_state \<Rightarrow> bool" where
  "extends_delta s s' \<longleftrightarrow> (\<exists>cs. changes s' = changes s @ cs) \<and> (exact s' \<longrightarrow> exact s)"

lemma extends_delta_refl [simp]: "extends_delta s s"
  by (simp add: extends_delta_def)

lemma extends_delta_trans [trans]:
  "extends_delta s t \<Longrightarrow> extends_delta t u \<Longrightarrow> extends_delta s u"
  by (auto simp: extends_delta_def)

lemma apply_add_file_extends: "apply_add_file fs p a c s = (r, s') \<Longrightarrow> extends_delta s s'"
  by (cases "exact s'") (auto simp: apply_add_file_def extends_delta_def Let_def
      split: prod.splits sum.splits dest: read_optional_exact)

lemma apply_delete_file_extends: "apply_delete_file fs p a s = (r, s') \<Longrightarrow> extends_delta s s'"
  by (auto simp: apply_delete_file_def extends_delta_def Let_def
      split: prod.splits sum.splits option.splits dest: note_exact)

lemma apply_move_extends: "apply_move fs p d a ap s = (r, s') \<Longrightarrow> extends_delta s s'"
  by (cases "exact s'") (auto simp: apply_move_def extends_delta_def Let_def
      split: prod.splits sum.splits dest: read_optional_exact)

lemma apply_update_file_extends:
  assumes "apply_update_file fs cwd p a mv cs s = Some (r, s')"
  shows "extends_delta s s'"
proof -
  let ?s0 = "s\<lparr>exact := note_existing_path_delta_support fs p (world s) (exact s)\<rparr>"
  have 0: "extends_delta s ?s0" by (auto simp: extends_delta_def dest: note_exact)
  have "extends_delta ?s0 s'"
    using assms
    by (auto simp: apply_update_file_def Let_def split: sum.splits option.splits prod.splits
        dest: apply_move_extends) (auto simp: extends_delta_def)
  with 0 show ?thesis by (rule extends_delta_trans)
qed

lemma apply_hunk_extends: "apply_hunk fs cwd h s = Some (r, s') \<Longrightarrow> extends_delta s s'"
  by (auto simp: apply_hunk_def split: sum.splits hunk.splits
      dest: apply_add_file_extends apply_delete_file_extends apply_update_file_extends)

lemma apply_hunks_loop_extends:
  "apply_hunks_loop fs cwd hs s = Some (r, s') \<Longrightarrow> extends_delta s s'"
  by (induction hs arbitrary: s)
    (auto split: option.splits prod.splits intro: extends_delta_trans dest: apply_hunk_extends)

text \<open>Every hunk that succeeds is reported under exactly one heading, in order.\<close>

definition reported :: "('p, 'w) apply_state \<Rightarrow> nat" where
  "reported s = length (added s) + length (modified s) + length (deleted s)"

lemma apply_hunk_reported:
  "apply_hunk fs cwd h s = Some (None, s') \<Longrightarrow> reported s' = Suc (reported s)"
  by (auto simp: apply_hunk_def apply_add_file_def apply_delete_file_def apply_update_file_def
      apply_move_def reported_def Let_def
      split: sum.splits hunk.splits prod.splits option.splits)

lemma apply_hunks_loop_reported:
  "apply_hunks_loop fs cwd hs s = Some (None, s') \<Longrightarrow> reported s' = reported s + length hs"
  by (induction hs arbitrary: s) (auto split: option.splits prod.splits dest!: apply_hunk_reported)

lemma apply_hunk_no_panic: "apply_hunk fs cwd h s \<noteq> None"
proof -
  have "patched_text n c cs \<noteq> Ok None" for n c cs
    using replacements_in_bounds by (fastforce simp: patched_text_def)
  then have "derive_new_contents_from_chunks fs p cs w \<noteq> Ok None" for p cs w
    by (auto simp: derive_new_contents_from_chunks_def split: sum.splits)
  then show ?thesis
    by (auto simp: apply_hunk_def apply_update_file_def Let_def
        split: sum.splits hunk.splits option.splits prod.splits)
qed

lemma apply_hunks_loop_no_panic: "apply_hunks_loop fs cwd hs s \<noteq> None"
  by (induction hs arbitrary: s) (auto split: option.splits prod.splits simp: apply_hunk_no_panic)

section \<open>The contract of a file system\<close>

text \<open>What is at a path, as far as a textual delta can tell.\<close>

datatype file_view = NoFile | TextFile ustr | OtherFile

text \<open>Doing and undoing one recorded change on such views.\<close>

type_synonym 'p files = "'p \<Rightarrow> file_view"

definition view_of :: "ustr option \<Rightarrow> file_view" where
  "view_of c = (case c of None \<Rightarrow> NoFile | Some t \<Rightarrow> TextFile t)"

fun replay_change :: "'p applied_patch_change \<Rightarrow> 'p files \<Rightarrow> 'p files" where
  "replay_change c f = (case change c of
       Add content _ \<Rightarrow> f(path c := TextFile content)
     | Delete _ \<Rightarrow> f(path c := NoFile)
     | Update None _ _ new \<Rightarrow> f(path c := TextFile new)
     | Update (Some dest) _ _ new \<Rightarrow> f(dest := TextFile new, path c := NoFile))"

fun undo_change :: "'p applied_patch_change \<Rightarrow> 'p files \<Rightarrow> 'p files" where
  "undo_change c f = (case change c of
       Add _ overwritten \<Rightarrow> f(path c := view_of overwritten)
     | Delete content \<Rightarrow> f(path c := TextFile content)
     | Update None old _ _ \<Rightarrow> f(path c := TextFile old)
     | Update (Some dest) old overwritten _ \<Rightarrow> f(path c := TextFile old, dest := view_of overwritten))"

declare replay_change.simps [simp del] undo_change.simps [simp del]

locale executor_file_system =
  fixes fs :: "('p, 'w) executor_fs" and files :: "'w \<Rightarrow> 'p files"
  assumes read_ok: "read_file_text fs p w = Ok t \<Longrightarrow> files w p = TextFile t"
    and read_not_found: "read_file_text fs p w = Err e \<Longrightarrow> kind e = NotFound \<Longrightarrow> files w p = NoFile"
    and write_ok: "write_file fs p t w = (Ok u, w') \<Longrightarrow> files w' = (files w)(p := TextFile t)"
    and write_err: "write_file fs p t w = (Err e, w') \<Longrightarrow> q \<noteq> p \<Longrightarrow> files w' q = files w q"
    and mkdir: "create_directory fs p w = (r, w') \<Longrightarrow> files w' = files w"
    and remove_ok: "remove_path fs p w = (Ok u, w') \<Longrightarrow> files w' = (files w)(p := NoFile)"
    and remove_err: "remove_path fs p w = (Err e, w') \<Longrightarrow> files w' = files w \<or> files w' = (files w)(p := NoFile)"
begin

text \<open>The delta accounts for the files: replayed it gives them, undone it gives the start.\<close>

definition accounts :: "'p files \<Rightarrow> ('p, 'w) apply_state \<Rightarrow> bool" where
  "accounts f0 s \<longleftrightarrow> fold replay_change (changes s) f0 = files (world s) \<and>
     fold undo_change (rev (changes s)) (files (world s)) = f0"

lemma accounts_snoc:
  assumes "accounts f0 s" "changes s' = changes s @ [c]"
    and "replay_change c (files (world s)) = files (world s')"
    and "undo_change c (files (world s')) = files (world s)"
  shows "accounts f0 s'"
  using assms by (simp add: accounts_def)

lemma accounts_same:
  "accounts f0 s \<Longrightarrow> changes s' = changes s \<Longrightarrow> files (world s') = files (world s) \<Longrightarrow> accounts f0 s'"
  by (simp add: accounts_def)

lemma write_retry_ok:
  assumes "write_file_with_missing_parent_retry fs p t w = (Ok u, w')"
  shows "files w' = (files w)(p := TextFile t)"
proof -
  have "files w'' = (files w)(p := TextFile t)"
    if "write_file fs p t w = (Err e, w1)" "create_directory fs q w1 = (r, w2) \<or> w2 = w1"
      "write_file fs p t w2 = (Ok v, w'')" for e w1 q r w2 v w''
  proof -
    have "files w2 = files w1" using that(2) by (auto dest: mkdir)
    with write_ok [OF that(3)] have "files w'' = (files w1)(p := TextFile t)" by simp
    moreover have "\<forall>q. q \<noteq> p \<longrightarrow> files w1 q = files w q" using write_err [OF that(1)] by blast
    ultimately show ?thesis by auto
  qed
  note retry = this
  show ?thesis
    using assms
    by (auto simp: write_file_with_missing_parent_retry_def Let_def
        split: prod.splits sum.splits if_splits option.splits intro: write_ok) (blast intro: retry)+
qed

lemma read_optional_view:
  "read_optional_file_text_for_delta fs p w ex = (c, True) \<Longrightarrow> files w p = view_of c"
  by (auto simp: read_optional_file_text_for_delta_def Let_def view_of_def
      split: sum.splits if_splits dest: read_ok read_not_found)

lemma apply_add_file_accounts:
  assumes "apply_add_file fs p a t s = (r, s')" "exact s'" "accounts f0 s"
  shows "accounts f0 s'"
proof -
  obtain c ex where ro: "read_optional_file_text_for_delta fs p (world s) (exact s) = (c, ex)"
    by fastforce
  with assms(1,2) obtain w u where ex
      and wr: "write_file_with_missing_parent_retry fs p t (world s) = (Ok u, w)"
      and s': "world s' = w" "changes s' = changes s @ [\<lparr>path = p, change = Add t c\<rparr>]"
    by (auto simp: apply_add_file_def split: prod.splits sum.splits)
  have "files (world s) p = view_of c" using ro \<open>ex\<close> by (simp add: read_optional_view)
  then have "undo_change \<lparr>path = p, change = Add t c\<rparr> ((files (world s))(p := TextFile t)) = files (world s)"
    by (auto simp: undo_change.simps)
  with assms(3) s' write_retry_ok [OF wr] show ?thesis
    by (intro accounts_snoc [OF assms(3) s'(2)]) (simp_all add: replay_change.simps)
qed

lemma apply_delete_file_accounts:
  assumes "apply_delete_file fs p a s = (r, s')" "exact s'" "accounts f0 s"
  shows "accounts f0 s'"
proof -
  let ?dc = "case read_file_text fs p (world s) of Ok c \<Rightarrow> Some c | Err _ \<Rightarrow> None"
  from assms(1,2) obtain c where rd: "read_file_text fs p (world s) = Ok c"
    by (auto simp: apply_delete_file_def Let_def split: sum.splits prod.splits option.splits)
  from assms(1) rd consider
      (same) "changes s' = changes s" "world s' = world s"
    | (failed) e where "changes s' = changes s" "remove_path fs p (world s) = (Err e, world s')"
        "exact s' \<longrightarrow> read_file_text fs p (world s') = Ok c"
    | (gone) u where "changes s' = changes s @ [\<lparr>path = p, change = Delete c\<rparr>]"
        "remove_path fs p (world s) = (Ok u, world s')"
    by (auto simp: apply_delete_file_def Let_def remove_failure_was_side_effect_free_def
        split: sum.splits prod.splits)
  then show ?thesis
  proof cases
    case same
    with assms(3) show ?thesis by (simp add: accounts_same)
  next
    case failed
    have "files (world s') p = files (world s) p"
      using read_ok [OF rd] read_ok [of p "world s'" c] failed(3) assms(2) by simp
    with remove_err [OF failed(2)] have "files (world s') = files (world s)" by auto
    with failed(1) assms(3) show ?thesis by (simp add: accounts_same)
  next
    case gone
    with read_ok [OF rd] remove_ok [OF gone(2)] show ?thesis
      by (intro accounts_snoc [OF assms(3) gone(1)])
        (auto simp: replay_change.simps undo_change.simps)
  qed
qed

lemma apply_move_accounts:
  assumes mv: "apply_move fs p d a ap s = (r, s')" and "exact s'" and acc: "accounts f0 s"
    and orig: "files (world s) p = TextFile (original_contents ap)"
  shows "accounts f0 s'"
proof -
  let ?n = "new_contents ap" and ?f = "files (world s)"
  obtain c ex where ro: "read_optional_file_text_for_delta fs d (world s) (exact s) = (c, ex)"
    by fastforce
  let ?add = "\<lparr>path = d, change = Add ?n c\<rparr>"
  from mv \<open>exact s'\<close> ro obtain w u where ex
      and wr: "write_file_with_missing_parent_retry fs d ?n (world s) = (Ok u, w)"
      and out: "changes s' = changes s @ [?add] \<and> world s' = w \<or>
        (\<exists>e. changes s' = changes s @ [?add] \<and> remove_path fs p w = (Err e, world s') \<and>
             read_file_text fs p (world s') = Ok (original_contents ap)) \<or>
        (\<exists>v. changes s' = changes s @ [\<lparr>path = p, change = Update (Some d) (original_contents ap) c ?n\<rparr>] \<and>
             remove_path fs p w = (Ok v, world s'))"
    by (auto simp: apply_move_def Let_def remove_failure_was_side_effect_free_def
        split: prod.splits sum.splits)
  have fw: "files w = ?f(d := TextFile ?n)" using write_retry_ok [OF wr] .
  have fd: "?f d = view_of c" using ro \<open>ex\<close> by (simp add: read_optional_view)
  have add: "replay_change ?add ?f = files w" "undo_change ?add (files w) = ?f"
    using fw fd by (auto simp: replay_change.simps undo_change.simps)
  from out show ?thesis
  proof (elim disjE exE conjE)
    assume "changes s' = changes s @ [?add]" "world s' = w"
    with add show ?thesis by (intro accounts_snoc [OF acc]) auto
  next
    fix e assume c: "changes s' = changes s @ [?add]" and rm: "remove_path fs p w = (Err e, world s')"
      and rd: "read_file_text fs p (world s') = Ok (original_contents ap)"
    from read_ok [OF rd] remove_err [OF rm] have "files (world s') = files w" by auto
    with c add show ?thesis by (intro accounts_snoc [OF acc]) auto
  next
    fix v assume c: "changes s' = changes s @ [\<lparr>path = p, change = Update (Some d) (original_contents ap) c ?n\<rparr>]"
      and rm: "remove_path fs p w = (Ok v, world s')"
    have "files (world s') = (files w)(p := NoFile)" using remove_ok [OF rm] .
    with fw fd orig show ?thesis
      by (intro accounts_snoc [OF acc c]) (auto simp: replay_change.simps undo_change.simps)
  qed
qed

lemma apply_update_file_accounts:
  assumes up: "apply_update_file fs cwd p a mv cs s = Some (r, s')" and "exact s'" and acc: "accounts f0 s"
  shows "accounts f0 s'"
proof -
  let ?s0 = "s\<lparr>exact := note_existing_path_delta_support fs p (world s) (exact s)\<rparr>"
  have acc0: "accounts f0 ?s0" using acc by (simp add: accounts_def)
  show ?thesis
  proof (cases "derive_new_contents_from_chunks fs p cs (world s)")
    case (Inl e)
    with up have "s' = ?s0" by (simp add: apply_update_file_def Let_def)
    with acc0 show ?thesis by simp
  next
    case (Inr r')
    with up obtain ap where d: "derive_new_contents_from_chunks fs p cs (world s) = Ok (Some ap)"
      by (cases r') (auto simp: apply_update_file_def Let_def)
    then have "read_file_text fs p (world s) = Ok (original_contents ap)"
      by (auto simp: derive_new_contents_from_chunks_def split: sum.splits)
    then have orig: "files (world s) p = TextFile (original_contents ap)" by (rule read_ok)
    show ?thesis
    proof (cases mv)
      case (Some dest)
      with up d consider e where "s' = ?s0"
        | du where "apply_move fs p du a ap ?s0 = (r, s')"
        by (auto simp: apply_update_file_def Let_def split: sum.splits)
      then show ?thesis
        using acc0 orig \<open>exact s'\<close> apply_move_accounts [of p _ a ap ?s0 r s' f0] by cases auto
    next
      case None
      with up d \<open>exact s'\<close> obtain u where wr: "write_file fs p (new_contents ap) (world s) = (Ok u, world s')"
          and c: "changes s' = changes s @ [\<lparr>path = p, change = Update None (original_contents ap) None (new_contents ap)\<rparr>]"
        by (auto simp: apply_update_file_def Let_def split: sum.splits prod.splits)
      from write_ok [OF wr] orig show ?thesis
        by (intro accounts_snoc [OF acc c]) (auto simp: replay_change.simps undo_change.simps)
    qed
  qed
qed

lemma apply_hunk_accounts:
  "apply_hunk fs cwd h s = Some (r, s') \<Longrightarrow> exact s' \<Longrightarrow> accounts f0 s \<Longrightarrow> accounts f0 s'"
  by (auto simp: apply_hunk_def split: sum.splits hunk.splits
      dest: apply_add_file_accounts apply_delete_file_accounts apply_update_file_accounts)

lemma apply_hunks_accounts:
  "apply_hunks_loop fs cwd hs s = Some (r, s') \<Longrightarrow> exact s' \<Longrightarrow> accounts f0 s \<Longrightarrow> accounts f0 s'"
proof (induction hs arbitrary: s)
  case (Cons h hs)
  from Cons.prems(1) consider e where "apply_hunk fs cwd h s = Some (Some e, s')"
    | t where "apply_hunk fs cwd h s = Some (None, t)" "apply_hunks_loop fs cwd hs t = Some (r, s')"
    by (auto split: option.splits prod.splits)
  then show ?case
  proof cases
    case 1
    with Cons.prems apply_hunk_accounts show ?thesis by blast
  next
    case 2
    have "exact t" using apply_hunks_loop_extends [OF 2(2)] Cons.prems(2) by (simp add: extends_delta_def)
    with 2 Cons.prems Cons.IH apply_hunk_accounts show ?thesis by blast
  qed
qed auto

lemma apply_hunks_to_files_accounts:
  assumes "apply_hunks_to_files fs cwd hs (initial_state w) = Some (r, s)" "exact s"
  shows "fold replay_change (changes s) (files w) = files (world s) \<and>
    fold undo_change (rev (changes s)) (files (world s)) = files w"
proof -
  have i: "accounts (files w) (initial_state w)" by (simp add: accounts_def initial_state_def)
  have "accounts (files w) s"
  proof (cases "hs = []")
    case True
    with assms i show ?thesis by (simp add: apply_hunks_to_files_def)
  next
    case False
    with assms have "apply_hunks_loop fs cwd hs (initial_state w) = Some (r, s)"
      by (simp add: apply_hunks_to_files_def)
    from apply_hunks_accounts [OF this assms(2) i] show ?thesis .
  qed
  then show ?thesis by (simp add: accounts_def)
qed

end

end
