(* ===== verification/Local_Fs.thy ===== *)
theory Local_Fs
  imports Patch_Delta Path_Uri
begin

text \<open>
  The local file system: \<open>DirectFileSystem\<close> of \<open>exec-server/src/local_file_system.rs\<close> with
  the path operations of \<open>Path_Uri\<close>.

  The disk is an association list from the segments of a path to what is there: a text
  file, a file of other bytes (with its length) or a directory; the root is always a
  directory. Symbolic links, permissions and special files are left out, so the calls of
  \<open>std::fs\<close> fail only for the reasons this tree has. The model of the calls of \<open>std::fs\<close>
  comes first, the code's own functions after it.
\<close>

section \<open>The calls of std::fs\<close>

datatype node = TextNode ustr | RawNode nat | DirNode

type_synonym disk = "(path_uri \<times> node) list"

definition os_error :: "io_kind \<Rightarrow> io_error" where
  "os_error k = \<lparr>kind = k, message = lit ''os error''\<rparr>"

text \<open>
  \<open>NotFound\<close> where a component is missing, another kind (\<open>NotADirectory\<close>) where one is a
  file. A path with a trailing separator names a directory only.
\<close>

definition node_at :: "disk \<Rightarrow> path_uri \<Rightarrow> node option" where
  "node_at d p = (if p = [] then Some DirNode else map_of d p)"

definition missing_kind :: "disk \<Rightarrow> path_uri \<Rightarrow> io_kind" where
  "missing_kind d p =
     (if list_ex (\<lambda>n. \<exists>k\<in>set_option (node_at d (take n p)). k \<noteq> DirNode) [0..<length p]
      then OtherKind else NotFound)"

definition fs_stat :: "path_uri \<Rightarrow> disk \<Rightarrow> (io_error, node) result" where
  "fs_stat p d =
     (case node_at d (pop_if_empty p) of
        None \<Rightarrow> Err (os_error (missing_kind d (pop_if_empty p)))
      | Some n \<Rightarrow> if last_is_empty p \<and> n \<noteq> DirNode then Err (os_error OtherKind) else Ok n)"

definition fs_write :: "path_uri \<Rightarrow> ustr \<Rightarrow> disk \<Rightarrow> (io_error, unit) result \<times> disk" where
  "fs_write p t d =
     (case fs_stat p d of
        Ok DirNode \<Rightarrow> (Err (os_error OtherKind), d)
      | Ok _ \<Rightarrow> (Ok (), (p, TextNode t) # filter (\<lambda>e. fst e \<noteq> p) d)
      | Err e \<Rightarrow>
          if kind e = NotFound then
            (case fs_stat (butlast (pop_if_empty p)) d of
               Ok DirNode \<Rightarrow>
                 if last_is_empty p then (Err (os_error OtherKind), d)
                 else (Ok (), (p, TextNode t) # filter (\<lambda>e. fst e \<noteq> p) d)
             | Ok _ \<Rightarrow> (Err (os_error OtherKind), d)
             | Err e' \<Rightarrow> (Err e', d))
          else (Err e, d))"

text \<open>\<open>create_dir_all\<close> goes down from the root; \<open>create_dir\<close> wants the parent to exist.\<close>

fun make_dirs :: "path_uri list \<Rightarrow> disk \<Rightarrow> (io_error, unit) result \<times> disk" where
  "make_dirs [] d = (Ok (), d)"
| "make_dirs (p # ps) d =
     (case node_at d p of
        None \<Rightarrow> make_dirs ps ((p, DirNode) # d)
      | Some DirNode \<Rightarrow> make_dirs ps d
      | Some _ \<Rightarrow> (Err (os_error OtherKind), d))"

definition fs_create_dir_all :: "path_uri \<Rightarrow> disk \<Rightarrow> (io_error, unit) result \<times> disk" where
  "fs_create_dir_all p d =
     (let q = pop_if_empty p in make_dirs (map (\<lambda>n. take n q) [1..<Suc (length q)]) d)"

definition has_children :: "path_uri \<Rightarrow> disk \<Rightarrow> bool" where
  "has_children p d \<longleftrightarrow> list_ex (\<lambda>e. take (length p) (fst e) = p \<and> fst e \<noteq> p) d"

definition fs_remove_dir :: "path_uri \<Rightarrow> disk \<Rightarrow> (io_error, unit) result \<times> disk" where
  "fs_remove_dir p d =
     (let q = pop_if_empty p in
      if q = [] \<or> has_children q d then (Err (os_error OtherKind), d)
      else (Ok (), filter (\<lambda>e. fst e \<noteq> q) d))"

definition fs_remove_dir_all :: "path_uri \<Rightarrow> disk \<Rightarrow> (io_error, unit) result \<times> disk" where
  "fs_remove_dir_all p d =
     (let q = pop_if_empty p in
      if q = [] then (Err (os_error OtherKind), d)
      else (Ok (), filter (\<lambda>e. take (length q) (fst e) \<noteq> q) d))"

definition fs_remove_file :: "path_uri \<Rightarrow> disk \<Rightarrow> (io_error, unit) result \<times> disk" where
  "fs_remove_file p d = (Ok (), filter (\<lambda>e. fst e \<noteq> p) d)"

section \<open>DirectFileSystem\<close>

definition MAX_READ_FILE_BYTES :: int where
  "MAX_READ_FILE_BYTES = 512 * 1024 * 1024"

definition open_regular_file :: "path_uri \<Rightarrow> disk \<Rightarrow> (io_error, node) result" where
  "open_regular_file p d =
     and_then (fs_stat p d) (\<lambda>n.
       if n = DirNode then
         Err \<lparr>kind = InvalidInput, message = lit ''path `'' @ native_string p @ lit ''` is not a file''\<rparr>
       else Ok n)"

definition node_len :: "node \<Rightarrow> int" where
  "node_len n = (case n of TextNode t \<Rightarrow> int (utf8_len t) | RawNode k \<Rightarrow> int k | DirNode \<Rightarrow> 0)"

definition file_too_large_error :: io_error where
  "file_too_large_error = \<lparr>kind = InvalidInput,
     message = lit ''file is too large to read: limit is 536870912 bytes''\<rparr>"

definition direct_read_file :: "path_uri \<Rightarrow> disk \<Rightarrow> (io_error, node) result" where
  "direct_read_file p d =
     and_then (open_regular_file p d) (\<lambda>n.
       if node_len n > MAX_READ_FILE_BYTES then Err file_too_large_error else Ok n)"

definition direct_read_file_text :: "path_uri \<Rightarrow> disk \<Rightarrow> (io_error, ustr) result" where
  "direct_read_file_text p d =
     and_then (direct_read_file p d) (\<lambda>n. case n of
         TextNode t \<Rightarrow> Ok t
       | _ \<Rightarrow> Err \<lparr>kind = InvalidData, message = lit ''invalid utf-8''\<rparr>)"

definition direct_get_metadata :: "path_uri \<Rightarrow> disk \<Rightarrow> (io_error, metadata) result" where
  "direct_get_metadata p d =
     and_then (fs_stat p d) (\<lambda>n.
       Ok \<lparr>is_directory = (n = DirNode), is_file = (n \<noteq> DirNode), is_symlink = False\<rparr>)"

definition direct_create_directory ::
  "bool \<Rightarrow> path_uri \<Rightarrow> disk \<Rightarrow> (io_error, unit) result \<times> disk" where
  "direct_create_directory recursive p d =
     (if recursive then fs_create_dir_all p d
      else case fs_stat p d of
          Ok _ \<Rightarrow> (Err (os_error OtherKind), d)
        | Err e \<Rightarrow>
            if kind e = NotFound \<and> fs_stat (butlast (pop_if_empty p)) d = Ok DirNode
            then (Ok (), (pop_if_empty p, DirNode) # d)
            else (Err e, d))"

definition direct_remove ::
  "bool \<Rightarrow> bool \<Rightarrow> path_uri \<Rightarrow> disk \<Rightarrow> (io_error, unit) result \<times> disk" where
  "direct_remove recursive force p d =
     (case fs_stat p d of
        Ok n \<Rightarrow>
          if n = DirNode then
            (if recursive then fs_remove_dir_all p d else fs_remove_dir p d)
          else fs_remove_file p d
      | Err e \<Rightarrow> if kind e = NotFound \<and> force then (Ok (), d) else (Err e, d))"

text \<open>
  The operations with the options \<open>apply_patch\<close> passes: parents are created recursively,
  removal is neither recursive nor forced.
\<close>

definition direct_fs :: "(path_uri, disk) executor_fs" where
  "direct_fs = \<lparr>read_file_text = direct_read_file_text,
     get_metadata = direct_get_metadata,
     write_file = fs_write,
     create_directory = direct_create_directory True,
     remove_path = direct_remove False False,
     join_path = path_join,
     parent_path = path_parent,
     native_path = native_string\<rparr>"

lemma direct_fs_simps [simp]:
  "read_file_text direct_fs = direct_read_file_text"
  "get_metadata direct_fs = direct_get_metadata"
  "write_file direct_fs = fs_write"
  "create_directory direct_fs = direct_create_directory True"
  "remove_path direct_fs = direct_remove False False"
  "join_path direct_fs = path_join"
  "parent_path direct_fs = path_parent"
  "native_path direct_fs = native_string"
  by (simp_all add: direct_fs_def)

section \<open>The disk meets the contract\<close>

text \<open>The files of a disk: a path with a trailing separator and a directory are no file.\<close>

definition disk_files :: "disk \<Rightarrow> path_uri files" where
  "disk_files d p = (if last_is_empty p then NoFile else
     case node_at d p of Some (TextNode t) \<Rightarrow> TextFile t | Some (RawNode _) \<Rightarrow> OtherFile | _ \<Rightarrow> NoFile)"

lemma map_of_filter_neq: "map_of (filter (\<lambda>e. fst e \<noteq> p) d) = (map_of d)(p := None)"
  by (induction d) (auto simp: fun_eq_iff)

lemma fs_stat_files:
  "fs_stat p d = Ok n \<Longrightarrow> n \<noteq> DirNode \<Longrightarrow> \<not> last_is_empty p \<and> p \<noteq> [] \<and> node_at d p = Some n"
  by (auto simp: fs_stat_def pop_if_empty_id node_at_def split: option.splits if_splits)

lemma fs_stat_not_found: "fs_stat p d = Err e \<Longrightarrow> kind e = NotFound \<Longrightarrow> disk_files d p = NoFile"
  by (auto simp: fs_stat_def disk_files_def os_error_def pop_if_empty_id split: option.splits if_splits)

lemma direct_read_file_text_eq:
  "direct_read_file_text p d = (case fs_stat p d of
       Err e \<Rightarrow> Err e
     | Ok DirNode \<Rightarrow> Err \<lparr>kind = InvalidInput, message = lit ''path `'' @ native_string p @ lit ''` is not a file''\<rparr>
     | Ok n \<Rightarrow> if node_len n > MAX_READ_FILE_BYTES then Err file_too_large_error
         else case n of TextNode t \<Rightarrow> Ok t | _ \<Rightarrow> Err \<lparr>kind = InvalidData, message = lit ''invalid utf-8''\<rparr>)"
  by (simp add: direct_read_file_text_def direct_read_file_def open_regular_file_def
      split: node.split sum.split)

lemma direct_read_file_text_Ok: "direct_read_file_text p d = Ok t \<Longrightarrow> fs_stat p d = Ok (TextNode t)"
  by (simp add: direct_read_file_text_eq split: sum.splits node.splits if_splits)

lemma direct_read_file_text_NotFound:
  "direct_read_file_text p d = Err e \<Longrightarrow> kind e = NotFound \<Longrightarrow> fs_stat p d = Err e"
  by (auto simp: direct_read_file_text_eq file_too_large_error_def
      split: sum.splits node.splits if_splits)

lemma fs_write_ok:
  assumes "fs_write p t d = (Ok u, d')"
  shows "p \<noteq> [] \<and> \<not> last_is_empty p \<and> d' = (p, TextNode t) # filter (\<lambda>e. fst e \<noteq> p) d"
  using assms
  by (auto simp: fs_write_def fs_stat_def node_at_def pop_if_empty_id
      split: sum.splits node.splits if_splits option.splits)

lemma make_dirs_files:
  "make_dirs ps d = (r, d') \<Longrightarrow> disk_files d' = disk_files d"
proof (induction ps d arbitrary: r rule: make_dirs.induct)
  case (2 p ps d)
  have "disk_files ((p, DirNode) # d) = disk_files d" if "node_at d p = None"
    using that by (auto simp: disk_files_def node_at_def fun_eq_iff)
  with 2 show ?case by (auto split: option.splits node.splits)
qed simp

lemma disk_files_remove:
  assumes "\<not> last_is_empty p" "p \<noteq> []"
  shows "disk_files (filter (\<lambda>e. fst e \<noteq> p) d) = (disk_files d)(p := NoFile)"
  using assms by (auto simp: disk_files_def node_at_def map_of_filter_neq fun_eq_iff)

lemma disk_files_remove_dir:
  assumes "node_at d q = Some DirNode"
  shows "disk_files (filter (\<lambda>e. fst e \<noteq> q) d) = disk_files d"
  using assms by (auto simp: disk_files_def node_at_def map_of_filter_neq fun_eq_iff)

lemma direct_remove_ok:
  assumes "direct_remove False False p d = (Ok u, d')"
  shows "disk_files d' = (disk_files d)(p := NoFile)"
proof (cases "fs_stat p d")
  case (Inl e)
  with assms show ?thesis by (simp add: direct_remove_def)
next
  case (Inr n)
  show ?thesis
  proof (cases "n = DirNode")
    case True
    with Inr have nd: "node_at d (pop_if_empty p) = Some DirNode"
      by (auto simp: fs_stat_def split: option.splits if_splits)
    then have "disk_files d p = NoFile"
      by (auto simp: disk_files_def pop_if_empty_def)
    with True Inr assms disk_files_remove_dir [OF nd] show ?thesis
      by (auto simp: direct_remove_def fs_remove_dir_def Let_def split: if_splits)
  next
    case False
    with Inr fs_stat_files [OF Inr False] assms show ?thesis
      by (auto simp: direct_remove_def fs_remove_file_def disk_files_remove)
  qed
qed

interpretation local: executor_file_system direct_fs disk_files
proof
  fix p q :: path_uri and t :: ustr and e :: io_error and d d' :: disk and u r
  show "read_file_text direct_fs p d = Ok t \<Longrightarrow> disk_files d p = TextFile t"
    by (auto simp: disk_files_def dest!: direct_read_file_text_Ok fs_stat_files)
  show "read_file_text direct_fs p d = Err e \<Longrightarrow> kind e = NotFound \<Longrightarrow> disk_files d p = NoFile"
    by (auto dest: direct_read_file_text_NotFound fs_stat_not_found)
  show "write_file direct_fs p t d = (Ok u, d') \<Longrightarrow> disk_files d' = (disk_files d)(p := TextFile t)"
    by (auto simp: disk_files_def node_at_def map_of_filter_neq fun_eq_iff dest!: fs_write_ok)
  show "write_file direct_fs p t d = (Err e, d') \<Longrightarrow> q \<noteq> p \<Longrightarrow> disk_files d' q = disk_files d q"
    by (auto simp: fs_write_def split: sum.splits node.splits if_splits)
  show "create_directory direct_fs p d = (r, d') \<Longrightarrow> disk_files d' = disk_files d"
    by (auto simp: direct_create_directory_def fs_create_dir_all_def Let_def dest: make_dirs_files)
  show "remove_path direct_fs p d = (Ok u, d') \<Longrightarrow> disk_files d' = (disk_files d)(p := NoFile)"
    by (simp add: direct_remove_ok)
  show "remove_path direct_fs p d = (Err e, d') \<Longrightarrow>
      disk_files d' = disk_files d \<or> disk_files d' = (disk_files d)(p := NoFile)"
    by (auto simp: direct_remove_def fs_remove_dir_def fs_remove_dir_all_def fs_remove_file_def Let_def
        split: sum.splits if_splits)
qed

section \<open>Properties\<close>


definition sample_disk :: disk where
  "sample_disk = [([lit ''w''], DirNode), ([lit ''w'', lit ''a''], TextNode (lit ''x'' @ [LF]))]"

definition sample_patch :: ustr where
  "sample_patch = join_with [LF] (map lit
     [''*** Begin Patch'', ''*** Update File: a'', ''*** Move to: d/b'', ''@@'', ''-x'', ''+y'',
      ''*** Add File: n'', ''+t'', ''*** End Patch''])"

definition sample_result :: "(path_uri, disk) apply_state" where
  "sample_result = \<lparr>world =
       [([lit ''w'', lit ''n''], TextNode (lit ''t'' @ [LF])),
        ([lit ''w'', lit ''d'', lit ''b''], TextNode (lit ''y'' @ [LF])),
        ([lit ''w'', lit ''d''], DirNode), ([lit ''w''], DirNode)],
     changes =
       [\<lparr>path = [lit ''w'', lit ''a''],
         change = Update (Some [lit ''w'', lit ''d'', lit ''b'']) (lit ''x'' @ [LF]) None (lit ''y'' @ [LF])\<rparr>,
        \<lparr>path = [lit ''w'', lit ''n''], change = Add (lit ''t'' @ [LF]) None\<rparr>],
     exact = True, added = [lit ''n''], modified = [lit ''d/b''], deleted = []\<rparr>"

definition sample_hunks :: "hunk list" where
  "sample_hunks =
     [UpdateFile (lit ''a'') (Some (lit ''d/b''))
        [\<lparr>change_context = None, old_lines = [lit ''x''], new_lines = [lit ''y''], is_end_of_file = False\<rparr>],
      AddFile (lit ''n'') (lit ''t'' @ [LF])]"

lemma sample_parse: "map_sum id args_hunks (parse_patch sample_patch) = Ok sample_hunks"
  by code_simp

lemma sample_apply:
  "apply_patch direct_fs [lit ''w''] sample_patch sample_disk = Some (Applied, sample_result)"
  by code_simp


text \<open>
  C2: On the local disk, a delta that is still marked exact tells the whole story, also when
  the patch failed half way: replaying its changes on the files before the patch gives the
  files after it, and undoing them in reverse order gives back the files before.
\<close>

theorem apply_patch_exact_delta:
  assumes "apply_patch direct_fs cwd patch_text d = Some (r, s)" "exact s"
  shows "fold replay_change (changes s) (disk_files d) = disk_files (world s) \<and>
    fold undo_change (rev (changes s)) (disk_files (world s)) = disk_files d"
proof (cases "parse_patch patch_text")
  case (Inl e)
  with assms show ?thesis by (auto simp: apply_patch_def initial_state_def)
next
  case (Inr args)
  with assms(1) obtain r' where
    "apply_hunks_to_files direct_fs cwd (args_hunks args) (initial_state d) = Some (r', s)"
    by (auto simp: apply_patch_def)
  from local.apply_hunks_to_files_accounts [OF this assms(2)] show ?thesis .
qed

theorem apply_patch_exact_delta_witness:
  "fold replay_change (changes sample_result) (disk_files sample_disk) = disk_files (world sample_result) \<and>
   fold undo_change (rev (changes sample_result)) (disk_files (world sample_result)) = disk_files sample_disk"
  using apply_patch_exact_delta [OF sample_apply] by (simp add: sample_result_def)

end
