(* ===== verification/Patch_Invocation.thy ===== *)
theory Patch_Invocation
  imports Local_Fs Exec_Policy
begin

text \<open>
  Recognising a patch in a command line and working out what it would change:
  \<open>apply-patch/src/invocation.rs\<close>. The Tree-sitter query of the shell form is a parameter, which
  gives the captures of every match; so is the diff printer of the package \<open>similar\<close>.
\<close>

section \<open>Command lines\<close>

definition APPLY_PATCH_COMMANDS :: "ustr list" where
  "APPLY_PATCH_COMMANDS = [lit ''apply_patch'', lit ''applypatch'']"

datatype apply_patch_shell = UnixShell | PowerShell | Cmd

datatype extract_heredoc_error =
    CommandDidNotStartWithApplyPatch
  | HeredocNotUtf8
  | FailedToParsePatchIntoAst

datatype maybe_apply_patch =
    Body apply_patch_args
  | ShellParseError extract_heredoc_error
  | PatchParseError parse_error
  | NotApplyPatch

definition classify_shell_name :: "ustr \<Rightarrow> ustr" where
  "classify_shell_name shell =
     (let basename = last (split_on SLASH shell);
          parts = split_on 46 basename;
          stem = join_with [46] (butlast parts)
      in to_ascii_lowercase (if length parts = 1 \<or> stem = [] then basename else stem))"

definition classify_shell :: "ustr \<Rightarrow> ustr \<Rightarrow> apply_patch_shell option" where
  "classify_shell shell flag =
     (let name = classify_shell_name shell in
      if name \<in> {lit ''bash'', lit ''zsh'', lit ''sh''} \<and> flag \<in> {lit ''-lc'', lit ''-c''} then Some UnixShell
      else if name \<in> {lit ''pwsh'', lit ''powershell''} \<and> to_ascii_lowercase flag = lit ''-command'' then Some PowerShell
      else if name = lit ''cmd'' \<and> to_ascii_lowercase flag = lit ''/c'' then Some Cmd
      else None)"

definition can_skip_flag :: "ustr \<Rightarrow> ustr \<Rightarrow> bool" where
  "can_skip_flag shell flag \<longleftrightarrow> classify_shell_name shell \<in> {lit ''pwsh'', lit ''powershell''} \<and>
     to_ascii_lowercase flag = lit ''-noprofile''"

definition parse_shell_script :: "ustr list \<Rightarrow> (apply_patch_shell \<times> ustr) option" where
  "parse_shell_script argv = (case argv of
       [shell, flag, script] \<Rightarrow> map_option (\<lambda>s. (s, script)) (classify_shell shell flag)
     | [shell, skip_flag, flag, script] \<Rightarrow>
         if \<not> can_skip_flag shell skip_flag then None
         else map_option (\<lambda>s. (s, script)) (classify_shell shell flag)
     | _ \<Rightarrow> None)"

text \<open>The captures of one match: a name, and the text of the node unless it is not UTF-8.\<close>

type_synonym query_match = "(ustr \<times> ustr option) list"

definition unquote :: "ustr \<Rightarrow> ustr" where
  "unquote raw = (case Option.bind (strip_prefix [39] raw) (strip_suffix [39]) of Some t \<Rightarrow> t | None \<Rightarrow> raw)"

fun read_captures :: "query_match \<Rightarrow> ustr option \<Rightarrow> ustr option \<Rightarrow>
    (extract_heredoc_error, ustr option \<times> ustr option) result" where
  "read_captures [] heredoc cd = Ok (heredoc, cd)"
| "read_captures ((name, node) # cs) heredoc cd =
     (if name = lit ''heredoc'' then
        (case node of None \<Rightarrow> Err HeredocNotUtf8
         | Some t \<Rightarrow> read_captures cs (Some (rev (dropWhile (\<lambda>c. c = LF) (rev t)))) cd)
      else if name = lit ''cd_path'' then
        (case node of None \<Rightarrow> Err HeredocNotUtf8 | Some t \<Rightarrow> read_captures cs heredoc (Some t))
      else if name = lit ''cd_raw_string'' then
        (case node of None \<Rightarrow> Err HeredocNotUtf8 | Some t \<Rightarrow> read_captures cs heredoc (Some (unquote t)))
      else read_captures cs heredoc cd)"

fun first_heredoc :: "query_match list \<Rightarrow> (extract_heredoc_error, ustr \<times> ustr option) result" where
  "first_heredoc [] = Err CommandDidNotStartWithApplyPatch"
| "first_heredoc (m # ms) = and_then (read_captures m None None) (\<lambda>(heredoc, cd).
     case heredoc of Some h \<Rightarrow> Ok (h, cd) | None \<Rightarrow> first_heredoc ms)"

definition extract_apply_patch_from_bash ::
  "(ustr \<Rightarrow> query_match list option) \<Rightarrow> ustr \<Rightarrow> (extract_heredoc_error, ustr \<times> ustr option) result" where
  "extract_apply_patch_from_bash query src = (case query src of
       None \<Rightarrow> Err FailedToParsePatchIntoAst
     | Some ms \<Rightarrow> first_heredoc ms)"

definition parse_body :: "ustr \<Rightarrow> ustr option \<Rightarrow> maybe_apply_patch" where
  "parse_body body dir = (case parse_patch body of
       Ok source \<Rightarrow> Body (source\<lparr>workdir := dir\<rparr>)
     | Err e \<Rightarrow> PatchParseError e)"

definition maybe_parse_apply_patch ::
  "(ustr \<Rightarrow> query_match list option) \<Rightarrow> ustr list \<Rightarrow> maybe_apply_patch" where
  "maybe_parse_apply_patch query argv =
     (if length argv = 2 \<and> argv ! 0 \<in> set APPLY_PATCH_COMMANDS then
        (case parse_patch (argv ! 1) of Ok source \<Rightarrow> Body source | Err e \<Rightarrow> PatchParseError e)
      else case parse_shell_script argv of
          None \<Rightarrow> NotApplyPatch
        | Some (_, script) \<Rightarrow> (case extract_apply_patch_from_bash query script of
              Ok (body, dir) \<Rightarrow> parse_body body dir
            | Err CommandDidNotStartWithApplyPatch \<Rightarrow> NotApplyPatch
            | Err e \<Rightarrow> ShellParseError e))"

section \<open>What a patch would change\<close>

datatype 'p apply_patch_file_change =
    AddChange ustr
  | DeleteChange ustr
  | UpdateChange ustr "'p option" ustr

text \<open>The \<open>HashMap\<close> of changes as an association list with one entry for a path.\<close>

record 'p apply_patch_action =
  action_changes :: "('p \<times> 'p apply_patch_file_change) list"
  action_patch :: ustr
  action_cwd :: 'p

definition map_insert :: "'k \<Rightarrow> 'v \<Rightarrow> ('k \<times> 'v) list \<Rightarrow> ('k \<times> 'v) list" where
  "map_insert k v m = (k, v) # filter (\<lambda>e. fst e \<noteq> k) m"

datatype 'p maybe_apply_patch_verified =
    VerifiedBody "'p apply_patch_action"
  | VerifiedShellParseError extract_heredoc_error
  | CorrectnessError apply_patch_error
  | VerifiedNotApplyPatch

text \<open>The diff and the new text of an update; \<open>None\<close> for the panic of \<open>apply_replacements\<close>.\<close>

definition unified_diff_from_chunks ::
  "(ustr \<Rightarrow> ustr \<Rightarrow> ustr) \<Rightarrow> ('p, 'w) executor_fs \<Rightarrow> 'p \<Rightarrow> update_file_chunk list \<Rightarrow> 'w \<Rightarrow>
     (apply_patch_error, (ustr \<times> ustr) option) result" where
  "unified_diff_from_chunks text_diff fs p chunks w =
     and_then (derive_new_contents_from_chunks fs p chunks w) (\<lambda>r.
       Ok (map_option (\<lambda>ap. (text_diff (original_contents ap) (new_contents ap), new_contents ap)) r))"

definition path_result :: "(ustr, 'a) result \<Rightarrow> (apply_patch_error, 'a) result" where
  "path_result r = (case r of Ok x \<Rightarrow> Ok x | Err e \<Rightarrow> Err (PathUriError e))"

definition verify_hunk ::
  "(ustr \<Rightarrow> ustr \<Rightarrow> ustr) \<Rightarrow> ('p, 'w) executor_fs \<Rightarrow> 'p \<Rightarrow> 'w \<Rightarrow> hunk \<Rightarrow>
     (apply_patch_error, ('p \<times> 'p apply_patch_file_change) option) result" where
  "verify_hunk text_diff fs cwd w h =
     and_then (path_result (resolve_path fs h cwd)) (\<lambda>p. case h of
         AddFile _ contents \<Rightarrow> Ok (Some (p, AddChange contents))
       | DeleteFile _ \<Rightarrow> (case read_file_text fs p w of
             Ok content \<Rightarrow> Ok (Some (p, DeleteChange content))
           | Err e \<Rightarrow> Err (IoError (lit ''Failed to read '' @ native_path fs p) e))
       | UpdateFile _ mv chunks \<Rightarrow>
           and_then (unified_diff_from_chunks text_diff fs p chunks w) (\<lambda>r. case r of
               None \<Rightarrow> Ok None
             | Some (diff, contents) \<Rightarrow> (case mv of
                   None \<Rightarrow> Ok (Some (p, UpdateChange diff None contents))
                 | Some d \<Rightarrow> and_then (path_result (join_path fs cwd d)) (\<lambda>dest.
                     Ok (Some (p, UpdateChange diff (Some dest) contents))))))"

fun verify_hunks ::
  "(ustr \<Rightarrow> ustr \<Rightarrow> ustr) \<Rightarrow> ('p, 'w) executor_fs \<Rightarrow> 'p \<Rightarrow> 'w \<Rightarrow> hunk list \<Rightarrow> ('p \<times> 'p apply_patch_file_change) list \<Rightarrow>
     (apply_patch_error, ('p \<times> 'p apply_patch_file_change) list option) result" where
  "verify_hunks text_diff fs cwd w [] cs = Ok (Some cs)"
| "verify_hunks text_diff fs cwd w (h # hs) cs =
     and_then (verify_hunk text_diff fs cwd w h) (\<lambda>r. case r of
         None \<Rightarrow> Ok None
       | Some (p, c) \<Rightarrow> verify_hunks text_diff fs cwd w hs (map_insert p c cs))"

definition try_verify_apply_patch_args ::
  "(ustr \<Rightarrow> ustr \<Rightarrow> ustr) \<Rightarrow> ('p, 'w) executor_fs \<Rightarrow> apply_patch_args \<Rightarrow> 'p \<Rightarrow> 'w \<Rightarrow>
     (apply_patch_error, 'p apply_patch_action option) result" where
  "try_verify_apply_patch_args text_diff fs args cwd w =
     and_then (case workdir args of None \<Rightarrow> Ok cwd | Some dir \<Rightarrow> path_result (join_path fs cwd dir)) (\<lambda>cwd'.
     and_then (verify_hunks text_diff fs cwd' w (args_hunks args) []) (\<lambda>r.
       Ok (map_option (\<lambda>cs. \<lparr>action_changes = cs, action_patch = patch args, action_cwd = cwd'\<rparr>) r)))"

text \<open>\<open>None\<close> is the panic.\<close>

definition verify_apply_patch_args ::
  "(ustr \<Rightarrow> ustr \<Rightarrow> ustr) \<Rightarrow> ('p, 'w) executor_fs \<Rightarrow> apply_patch_args \<Rightarrow> 'p \<Rightarrow> 'w \<Rightarrow> 'p maybe_apply_patch_verified option" where
  "verify_apply_patch_args text_diff fs args cwd w = (case try_verify_apply_patch_args text_diff fs args cwd w of
       Ok r \<Rightarrow> map_option VerifiedBody r
     | Err e \<Rightarrow> Some (CorrectnessError e))"

definition parses :: "ustr \<Rightarrow> bool" where
  "parses body = (case parse_patch body of Ok _ \<Rightarrow> True | Err _ \<Rightarrow> False)"

definition maybe_parse_apply_patch_verified ::
  "(ustr \<Rightarrow> query_match list option) \<Rightarrow> (ustr \<Rightarrow> ustr \<Rightarrow> ustr) \<Rightarrow> ('p, 'w) executor_fs \<Rightarrow> ustr list \<Rightarrow> 'p \<Rightarrow> 'w \<Rightarrow>
     'p maybe_apply_patch_verified option" where
  "maybe_parse_apply_patch_verified query text_diff fs argv cwd w =
     (if length argv = 1 \<and> parses (argv ! 0) then Some (CorrectnessError ImplicitInvocation)
      else if (case parse_shell_script argv of Some (_, script) \<Rightarrow> parses script | None \<Rightarrow> False)
      then Some (CorrectnessError ImplicitInvocation)
      else case maybe_parse_apply_patch query argv of
          Body args \<Rightarrow> verify_apply_patch_args text_diff fs args cwd w
        | ShellParseError e \<Rightarrow> Some (VerifiedShellParseError e)
        | PatchParseError e \<Rightarrow> Some (CorrectnessError (ParseError e))
        | NotApplyPatch \<Rightarrow> Some VerifiedNotApplyPatch)"

end
