(* ===== verification/Command_Safety.thy ===== *)
theory Command_Safety
  imports Path_Uri
begin

text \<open>
  Which commands run without asking: \<open>is_safe_command.rs\<close> and \<open>is_dangerous_command.rs\<close> of
  \<open>shell-command/src/command_safety\<close>, with the reading of shell scripts in \<open>bash.rs\<close> and
  \<open>detect_shell_type\<close> of \<open>shell_detect.rs\<close>, on a Unix host. The syntax tree of a script comes
  from the tree-sitter grammar: the parameter \<open>parse_tree\<close>. \<open>linux\<close> is the target check.
\<close>

section \<open>File names\<close>

text \<open>\<open>Path::components\<close> drops empty and \<open>.\<close> components; a last \<open>..\<close> is no file name.\<close>

definition path_components :: "ustr \<Rightarrow> ustr list" where
  "path_components p = filter (\<lambda>c. c \<noteq> [] \<and> c \<noteq> lit ''.'') (split_on SLASH p)"

definition raw_file_name :: "ustr \<Rightarrow> ustr option" where
  "raw_file_name p = (case last_opt (path_components p) of
       Some n \<Rightarrow> if n = lit ''..'' then None else Some n
     | None \<Rightarrow> None)"

definition executable_name_lookup_key :: "ustr \<Rightarrow> ustr option" where
  "executable_name_lookup_key raw = raw_file_name raw"

text \<open>\<open>Path::file_stem\<close>: up to the last dot, unless that dot is the first character.\<close>

definition stem_of :: "ustr \<Rightarrow> ustr" where
  "stem_of n = (let parts = split_on 46 n; s = join_with [46] (butlast parts) in
     if length parts = 1 \<or> s = [] then n else s)"

definition file_stem :: "ustr \<Rightarrow> ustr option" where
  "file_stem p = map_option stem_of (raw_file_name p)"

text \<open>Equality of paths is by components, for a path that is one plain name.\<close>

definition same_path :: "ustr \<Rightarrow> ustr \<Rightarrow> bool" where
  "same_path name p \<longleftrightarrow> \<not> starts_with [SLASH] p \<and> path_components p = [name] \<and> hd (split_on SLASH p) \<noteq> lit ''.''"

datatype shell_type = Zsh | Bash | PowerShell | Sh | Cmd

lemma split_on_length: "sum_list (map length (split_on d xs)) + (length (split_on d xs) - 1) = length xs"
  by (induction xs) (auto split: list.splits)

lemma split_on_part_shorter:
  assumes "c \<in> set (split_on d xs)"
  shows "length c \<le> length xs" "length c = length xs \<Longrightarrow> split_on d xs = [c]"
proof -
  have "length c \<le> sum_list (map length (split_on d xs))"
    using assms by (simp add: member_le_sum_list)
  with split_on_length [of d xs] show "length c \<le> length xs" by linarith
  assume eq: "length c = length xs"
  with split_on_length [of d xs] \<open>length c \<le> sum_list _\<close> have "length (split_on d xs) - 1 = 0" by linarith
  with assms show "split_on d xs = [c]" by (cases "split_on d xs") auto
qed

lemma stem_of_length: "length (stem_of n) \<le> length n" "length (stem_of n) = length n \<Longrightarrow> stem_of n = n"
proof -
  let ?p = "split_on 46 n"
  have j: "?p = butlast ?p @ [last ?p]" by simp
  have "stem_of n = n \<or> length (stem_of n) < length n"
  proof (cases "length ?p = 1 \<or> join_with [46] (butlast ?p) = []")
    case False
    then have "butlast ?p \<noteq> []" by (cases ?p rule: rev_cases) auto
    then have "n = join_with [46] (butlast ?p) @ [46] @ last ?p"
      using join_split [of 46 n] j join_with_snoc [of "butlast ?p" "[46]" "last ?p"] by metis
    then have "length (join_with [46] (butlast ?p)) < length n" by (metis length_append add_less_cancel_left length_Cons
      less_add_same_cancel1 append_Cons append_Nil zero_less_Suc)
    with False show ?thesis by (simp add: stem_of_def Let_def)
  qed (simp add: stem_of_def Let_def)
  then show "length (stem_of n) \<le> length n" "length (stem_of n) = length n \<Longrightarrow> stem_of n = n" by auto
qed

lemma file_stem_shorter:
  assumes "file_stem p = Some s" "\<not> same_path s p"
  shows "length s < length p"
proof -
  from assms(1) obtain n where n: "raw_file_name p = Some n" "s = stem_of n" by (auto simp: file_stem_def)
  then have "last_opt (path_components p) = Some n" by (auto simp: raw_file_name_def split: option.splits if_splits)
  then obtain ys where ys: "path_components p = ys @ [n]" by (auto simp: last_opt_Some_iff)
  then have "n \<in> set (path_components p)" by simp
  then have mem: "n \<in> set (split_on SLASH p)" "n \<noteq> []" "n \<noteq> lit ''.''"
    by (simp_all add: path_components_def)
  have "length n \<le> length p" using split_on_part_shorter(1) [OF mem(1)] .
  moreover have "s = n \<Longrightarrow> length n = length p \<Longrightarrow> False"
  proof -
    assume s: "s = n" and l: "length n = length p"
    have sp: "split_on SLASH p = [n]" using split_on_part_shorter(2) [OF mem(1) l] .
    then have "p = n" using join_split [of SLASH p] by simp
    moreover have "SLASH \<notin> set n" using split_on_no_sep_elem [of n SLASH p] mem(1) by simp
    ultimately have "same_path s p"
      using sp mem(2,3) s by (auto simp: same_path_def path_components_def starts_with_iff)
    with assms(2) show False ..
  qed
  moreover have "length s \<le> length n" "length s = length n \<Longrightarrow> s = n"
    unfolding n(2) by (rule stem_of_length(1), rule stem_of_length(2))
  ultimately show ?thesis by (cases "length s = length n"; cases "length n = length p") simp_all
qed

function detect_shell_type :: "ustr \<Rightarrow> shell_type option" where
  "detect_shell_type p =
     (if p = lit ''zsh'' then Some Zsh
      else if p = lit ''sh'' then Some Sh
      else if p = lit ''cmd'' then Some Cmd
      else if p = lit ''bash'' then Some Bash
      else if p = lit ''pwsh'' then Some PowerShell
      else if p = lit ''powershell'' then Some PowerShell
      else case file_stem p of
          None \<Rightarrow> None
        | Some s \<Rightarrow> if same_path s p then None else detect_shell_type s)"
  by pat_completeness auto
termination by (relation "measure length") (auto dest: file_stem_shorter)

declare detect_shell_type.simps [simp del]

section \<open>Git options\<close>

datatype git_option_pattern = Exact string | ShortWithInlineValue string | Prefix string

fun option_matches :: "git_option_pattern \<Rightarrow> ustr \<Rightarrow> bool" where
  "option_matches (Exact opt) arg = (arg = lit opt)"
| "option_matches (ShortWithInlineValue opt) arg = (starts_with (lit opt) arg \<and> length arg > length opt)"
| "option_matches (Prefix pre) arg = starts_with (lit pre) arg"

definition UNSAFE_GIT_GLOBAL_OPTIONS :: "git_option_pattern list" where
  "UNSAFE_GIT_GLOBAL_OPTIONS =
     [Exact ''-C'', ShortWithInlineValue ''-C'', Exact ''-c'', ShortWithInlineValue ''-c'', Exact ''-p'',
      Exact ''--config-env'', Prefix ''--config-env='', Exact ''--exec-path'', Prefix ''--exec-path='',
      Exact ''--git-dir'', Prefix ''--git-dir='', Exact ''--namespace'', Prefix ''--namespace='',
      Exact ''--paginate'', Exact ''--super-prefix'', Prefix ''--super-prefix='',
      Exact ''--work-tree'', Prefix ''--work-tree='']"

definition UNSAFE_GIT_SUBCOMMAND_OPTIONS :: "git_option_pattern list" where
  "UNSAFE_GIT_SUBCOMMAND_OPTIONS =
     [Exact ''--output'', Prefix ''--output='', Exact ''--ext-diff'', Exact ''--textconv'',
      Exact ''--exec'', Prefix ''--exec='']"

definition git_matches_option_pattern :: "ustr \<Rightarrow> git_option_pattern list \<Rightarrow> bool" where
  "git_matches_option_pattern arg patterns = list_ex (\<lambda>p. option_matches p arg) patterns"

definition git_has_unsafe_global_option :: "ustr list \<Rightarrow> bool" where
  "git_has_unsafe_global_option args = list_ex (\<lambda>a. git_matches_option_pattern a UNSAFE_GIT_GLOBAL_OPTIONS) args"

definition git_subcommand_args_are_read_only :: "ustr list \<Rightarrow> bool" where
  "git_subcommand_args_are_read_only args =
     (\<not> list_ex (\<lambda>a. git_matches_option_pattern a UNSAFE_GIT_SUBCOMMAND_OPTIONS) args)"

definition is_git_global_option_with_value :: "ustr \<Rightarrow> bool" where
  "is_git_global_option_with_value arg = list_ex (\<lambda>o'. arg = lit o')
     [''-C'', ''-c'', ''--config-env'', ''--exec-path'', ''--git-dir'', ''--namespace'', ''--super-prefix'', ''--work-tree'']"

definition is_git_global_option_with_inline_value :: "ustr \<Rightarrow> bool" where
  "is_git_global_option_with_inline_value arg \<longleftrightarrow>
     list_ex (\<lambda>p. starts_with (lit p) arg)
       [''--config-env='', ''--exec-path='', ''--git-dir='', ''--namespace='', ''--super-prefix='', ''--work-tree=''] \<or>
     ((starts_with (lit ''-C'') arg \<or> starts_with (lit ''-c'') arg) \<and> length arg > 2)"

fun scan_git_args :: "ustr list \<Rightarrow> nat \<Rightarrow> bool \<Rightarrow> ustr list \<Rightarrow> (nat \<times> ustr) option" where
  "scan_git_args subcommands idx skip_next [] = None"
| "scan_git_args subcommands idx skip_next (arg # args) =
     (if skip_next then scan_git_args subcommands (Suc idx) False args
      else if is_git_global_option_with_inline_value arg then scan_git_args subcommands (Suc idx) False args
      else if is_git_global_option_with_value arg then scan_git_args subcommands (Suc idx) True args
      else if arg = lit ''--'' \<or> starts_with (lit ''-'') arg then scan_git_args subcommands (Suc idx) False args
      else if arg \<in> set subcommands then Some (idx, arg)
      else None)"

definition find_git_subcommand :: "ustr list \<Rightarrow> ustr list \<Rightarrow> (nat \<times> ustr) option" where
  "find_git_subcommand command subcommands = (case command of
       [] \<Rightarrow> None
     | cmd0 # args \<Rightarrow>
         if executable_name_lookup_key cmd0 \<noteq> Some (lit ''git'') then None
         else scan_git_args subcommands 1 False args)"

fun branch_args_loop :: "bool \<Rightarrow> ustr list \<Rightarrow> bool" where
  "branch_args_loop saw [] = saw"
| "branch_args_loop saw (arg # args) =
     (if list_ex (\<lambda>o'. arg = lit o')
           [''--list'', ''-l'', ''--show-current'', ''-a'', ''--all'', ''-r'', ''--remotes'', ''-v'', ''-vv'', ''--verbose'']
         \<or> starts_with (lit ''--format='') arg
      then branch_args_loop True args else False)"

definition git_branch_is_read_only :: "ustr list \<Rightarrow> bool" where
  "git_branch_is_read_only args = (args = [] \<or> branch_args_loop False args)"

definition GIT_READ_COMMANDS :: "ustr list" where
  "GIT_READ_COMMANDS = map lit [''status'', ''log'', ''diff'', ''show'', ''branch'']"

definition is_safe_git_command :: "ustr list \<Rightarrow> bool" where
  "is_safe_git_command command =
     (case find_git_subcommand command GIT_READ_COMMANDS of
        None \<Rightarrow> False
      | Some (subcommand_idx, subcommand) \<Rightarrow>
          if git_has_unsafe_global_option (take (subcommand_idx - 1) (drop 1 command)) then False
          else
            let subcommand_args = drop (subcommand_idx + 1) command in
            if subcommand \<in> set (map lit [''status'', ''log'', ''diff'', ''show'']) then
              git_subcommand_args_are_read_only subcommand_args
            else if subcommand = lit ''branch'' then
              git_subcommand_args_are_read_only subcommand_args \<and> git_branch_is_read_only subcommand_args
            else False)"

section \<open>Single commands\<close>

definition all_digits :: "ustr \<Rightarrow> bool" where
  "all_digits s \<longleftrightarrow> s \<noteq> [] \<and> list_all (\<lambda>c. 48 \<le> c \<and> c \<le> 57) s"

definition is_valid_sed_n_arg :: "ustr option \<Rightarrow> bool" where
  "is_valid_sed_n_arg arg = (case arg of
       None \<Rightarrow> False
     | Some s \<Rightarrow> (case strip_suffix (lit ''p'') s of
          None \<Rightarrow> False
        | Some core \<Rightarrow> (case split_on 44 core of
             [num] \<Rightarrow> all_digits num
           | [a, b] \<Rightarrow> all_digits a \<and> all_digits b
           | _ \<Rightarrow> False)))"

definition ALWAYS_SAFE :: "ustr list" where
  "ALWAYS_SAFE = map lit
     [''cat'', ''cd'', ''cut'', ''echo'', ''expr'', ''false'', ''grep'', ''head'', ''id'', ''ls'', ''nl'', ''paste'',
      ''pwd'', ''rev'', ''seq'', ''stat'', ''tail'', ''tr'', ''true'', ''uname'', ''uniq'', ''wc'', ''which'', ''whoami'']"

definition get_arg :: "nat \<Rightarrow> ustr list \<Rightarrow> ustr option" where
  "get_arg i command = (if i < length command then Some (command ! i) else None)"

definition is_safe_to_call_with_exec :: "bool \<Rightarrow> ustr list \<Rightarrow> bool" where
  "is_safe_to_call_with_exec linux command = (case command of
       [] \<Rightarrow> False
     | cmd0 # args \<Rightarrow> (case executable_name_lookup_key cmd0 of
          None \<Rightarrow> False
        | Some cmd \<Rightarrow>
            if linux \<and> (cmd = lit ''numfmt'' \<or> cmd = lit ''tac'') then True
            else if cmd \<in> set ALWAYS_SAFE then True
            else if cmd = lit ''base64'' then
              \<not> list_ex (\<lambda>a. a = lit ''-o'' \<or> a = lit ''--output'' \<or> starts_with (lit ''--output='') a \<or>
                   (starts_with (lit ''-o'') a \<and> a \<noteq> lit ''-o'')) args
            else if cmd = lit ''find'' then
              \<not> list_ex (\<lambda>a. list_ex (\<lambda>o'. a = lit o') [''-exec'', ''-execdir'', ''-ok'', ''-okdir'', ''-delete'',
                   ''-fls'', ''-fprint'', ''-fprint0'', ''-fprintf'']) command
            else if cmd = lit ''rg'' then
              \<not> list_ex (\<lambda>a. a = lit ''--search-zip'' \<or> a = lit ''-z'' \<or>
                   a = lit ''--pre'' \<or> starts_with (lit ''--pre='') a \<or>
                   a = lit ''--hostname-bin'' \<or> starts_with (lit ''--hostname-bin='') a) command
            else if cmd = lit ''git'' then is_safe_git_command command
            else cmd = lit ''sed'' \<and> length command \<le> 4 \<and> get_arg 1 command = Some (lit ''-n'') \<and>
                 is_valid_sed_n_arg (get_arg 2 command)))"

fun is_dangerous_to_call_with_exec :: "ustr list \<Rightarrow> bool" where
  "is_dangerous_to_call_with_exec [] = False"
| "is_dangerous_to_call_with_exec (cmd0 # args) =
     (if cmd0 = lit ''rm'' then (case args of [] \<Rightarrow> False | a # _ \<Rightarrow> a = lit ''-f'' \<or> a = lit ''-rf'')
      else if cmd0 = lit ''sudo'' then is_dangerous_to_call_with_exec args
      else False)"

section \<open>Shell scripts\<close>

text \<open>A node of the syntax tree: kind, whether it is named, its text, its start, its children.\<close>

datatype ts_node = Node ustr bool ustr nat "ts_node list"

primrec node_kind where "node_kind (Node k n t s cs) = k"
primrec node_named where "node_named (Node k n t s cs) = n"
primrec node_text where "node_text (Node k n t s cs) = t"
primrec node_start where "node_start (Node k n t s cs) = s"
primrec node_children where "node_children (Node k n t s cs) = cs"

fun node_count :: "ts_node \<Rightarrow> nat" where
  "node_count (Node _ _ _ _ cs) = Suc (sum_list (map node_count cs))"

record ts_tree =
  root_node :: ts_node
  has_error :: bool

definition ALLOWED_KINDS :: "ustr list" where
  "ALLOWED_KINDS = map lit [''program'', ''list'', ''pipeline'', ''command'', ''command_name'', ''word'',
     ''string'', ''string_content'', ''raw_string'', ''number'', ''concatenation'']"

definition ALLOWED_PUNCT_TOKENS :: "ustr list" where
  "ALLOWED_PUNCT_TOKENS = [lit ''&&'', lit ''||'', lit '';'', lit ''|'', [34], [39]]"

definition node_allowed :: "ts_node \<Rightarrow> bool" where
  "node_allowed n =
     (if node_named n then node_kind n \<in> set ALLOWED_KINDS
      else if list_ex (\<lambda>c. c \<in> set (lit ''&;|'')) (node_kind n) \<and> node_kind n \<notin> set ALLOWED_PUNCT_TOKENS then False
      else node_kind n \<in> set ALLOWED_PUNCT_TOKENS \<or> trim (node_kind n) = [])"

text \<open>The stack, top first; children are pushed in order.\<close>

function walk_nodes :: "ts_node list \<Rightarrow> ts_node list \<Rightarrow> ts_node list option" where
  "walk_nodes [] commands = Some commands"
| "walk_nodes (n # stack) commands =
     (if \<not> node_allowed n then None
      else walk_nodes (rev (node_children n) @ stack)
             (if node_named n \<and> node_kind n = lit ''command'' then commands @ [n] else commands))"
  by pat_completeness auto
termination
proof (relation "measure (\<lambda>(stack, _). sum_list (map node_count stack))")
  fix n stack and commands :: "ts_node list"
  have "sum_list (map node_count (rev cs)) = sum_list (map node_count cs)" for cs
    by (induction cs) simp_all
  then show "((rev (node_children n) @ stack, if node_named n \<and> node_kind n = lit ''command'' then commands @ [n] else commands),
      (n # stack, commands)) \<in> measure (\<lambda>(stack, _). sum_list (map node_count stack))"
    by (cases n) simp
qed simp

definition named_children :: "ts_node \<Rightarrow> ts_node list" where
  "named_children n = filter node_named (node_children n)"

definition unquote :: "uchar \<Rightarrow> ustr \<Rightarrow> ustr option" where
  "unquote q raw = Option.bind (strip_prefix [q] raw) (strip_suffix [q])"

definition parse_double_quoted_string :: "ts_node \<Rightarrow> ustr option" where
  "parse_double_quoted_string n =
     (if node_kind n \<noteq> lit ''string'' then None
      else if list_ex (\<lambda>p. node_kind p \<noteq> lit ''string_content'') (named_children n) then None
      else unquote 34 (node_text n))"

definition parse_raw_string :: "ts_node \<Rightarrow> ustr option" where
  "parse_raw_string n =
     (if node_kind n \<noteq> lit ''raw_string'' then None else unquote 39 (node_text n))"

definition word_text :: "ts_node \<Rightarrow> ustr option" where
  "word_text n =
     (if node_kind n = lit ''word'' \<or> node_kind n = lit ''number'' then Some (node_text n)
      else if node_kind n = lit ''string'' then parse_double_quoted_string n
      else if node_kind n = lit ''raw_string'' then parse_raw_string n
      else None)"

fun concat_texts :: "ts_node list \<Rightarrow> ustr option" where
  "concat_texts [] = Some []"
| "concat_texts (p # ps) = Option.bind (word_text p) (\<lambda>t. map_option (\<lambda>r. t @ r) (concat_texts ps))"

definition child_word :: "ts_node \<Rightarrow> ustr option" where
  "child_word n =
     (if node_kind n = lit ''command_name'' then
        (case named_children n of
           [] \<Rightarrow> None
         | w # _ \<Rightarrow> if node_kind w = lit ''word'' then Some (node_text w) else None)
      else if node_kind n = lit ''concatenation'' then
        (case concat_texts (named_children n) of
           None \<Rightarrow> None
         | Some t \<Rightarrow> if t = [] then None else Some t)
      else word_text n)"

fun option_list :: "'a option list \<Rightarrow> 'a list option" where
  "option_list [] = Some []"
| "option_list (x # xs) = Option.bind x (\<lambda>y. map_option (Cons y) (option_list xs))"

definition parse_plain_command_from_node :: "ts_node \<Rightarrow> ustr list option" where
  "parse_plain_command_from_node n =
     (if node_kind n \<noteq> lit ''command'' then None else option_list (map child_word (named_children n)))"

definition try_parse_word_only_commands_sequence :: "ts_tree \<Rightarrow> ustr list list option" where
  "try_parse_word_only_commands_sequence tree =
     (if has_error tree then None
      else case walk_nodes [root_node tree] [] of
          None \<Rightarrow> None
        | Some command_nodes \<Rightarrow>
            option_list (map parse_plain_command_from_node (sort_key node_start command_nodes)))"

definition parse_shell_script_into_commands :: "(ustr \<Rightarrow> ts_tree option) \<Rightarrow> ustr \<Rightarrow> ustr list list option" where
  "parse_shell_script_into_commands parse_tree script =
     Option.bind (parse_tree script) try_parse_word_only_commands_sequence"

definition extract_bash_command :: "ustr list \<Rightarrow> (ustr \<times> ustr) option" where
  "extract_bash_command command = (case command of
       [shell, flag, script] \<Rightarrow>
         if (flag = lit ''-lc'' \<or> flag = lit ''-c'') \<and>
            detect_shell_type shell \<in> {Some Zsh, Some Bash, Some Sh}
         then Some (shell, script) else None
     | _ \<Rightarrow> None)"

definition parse_shell_lc_plain_commands :: "(ustr \<Rightarrow> ts_tree option) \<Rightarrow> ustr list \<Rightarrow> ustr list list option" where
  "parse_shell_lc_plain_commands parse_tree command =
     Option.bind (extract_bash_command command) (\<lambda>(_, script). parse_shell_script_into_commands parse_tree script)"

subsection \<open>One command with a here-document\<close>

definition is_literal_word_or_number :: "ts_node \<Rightarrow> bool" where
  "is_literal_word_or_number n \<longleftrightarrow>
     (node_kind n = lit ''word'' \<or> node_kind n = lit ''number'') \<and> named_children n = []"

definition is_allowed_heredoc_attachment_kind :: "ustr \<Rightarrow> bool" where
  "is_allowed_heredoc_attachment_kind kind = list_ex (\<lambda>k. kind = lit k)
     [''heredoc_body'', ''simple_heredoc_body'', ''heredoc_redirect'', ''herestring_redirect'', ''redirected_statement'']"

fun heredoc_words :: "ts_node list \<Rightarrow> ustr list option" where
  "heredoc_words [] = Some []"
| "heredoc_words (child # rest) =
     (if node_kind child = lit ''command_name'' then
        (case named_children child of
           [] \<Rightarrow> None
         | w # _ \<Rightarrow> if is_literal_word_or_number w then map_option (Cons (node_text w)) (heredoc_words rest) else None)
      else if node_kind child = lit ''word'' \<or> node_kind child = lit ''number'' then
        (if is_literal_word_or_number child then map_option (Cons (node_text child)) (heredoc_words rest) else None)
      else if node_kind child = lit ''comment'' \<or> is_allowed_heredoc_attachment_kind (node_kind child)
        then heredoc_words rest
      else None)"

definition parse_heredoc_command_words :: "ts_node \<Rightarrow> ustr list option" where
  "parse_heredoc_command_words cmd =
     (if node_kind cmd \<noteq> lit ''command'' then None
      else case heredoc_words (named_children cmd) of
          None \<Rightarrow> None
        | Some words \<Rightarrow> if words = [] then None else Some words)"

lemma sum_list_rev_map_nat: "sum_list (map (f :: 'a \<Rightarrow> nat) (rev xs)) = sum_list (map f xs)"
  by (induction xs) simp_all

lemma named_children_count:
  "sum_list (map node_count (rev (named_children n))) < node_count n"
proof (cases n)
  case (Node k m t s cs)
  have "sum_list (map node_count (filter node_named cs)) \<le> sum_list (map node_count cs)"
    by (induction cs) auto
  with Node show ?thesis by (simp add: named_children_def sum_list_rev_map_nat less_Suc_eq_le)
qed

function find_command_loop :: "ts_node list \<Rightarrow> ts_node option \<Rightarrow> ts_node option" where
  "find_command_loop [] single_command = single_command"
| "find_command_loop (n # stack) single_command =
     (if node_kind n = lit ''command'' then
        (if single_command \<noteq> None then None
         else find_command_loop (rev (named_children n) @ stack) (Some n))
      else find_command_loop (rev (named_children n) @ stack) single_command)"
  by pat_completeness auto
termination
  by (relation "measure (\<lambda>(stack, _). sum_list (map node_count stack))") (auto simp: named_children_count)

definition find_single_command_node :: "ts_node \<Rightarrow> ts_node option" where
  "find_single_command_node root = find_command_loop [root] None"

function has_kind_loop :: "ustr \<Rightarrow> ts_node list \<Rightarrow> bool" where
  "has_kind_loop kind [] = False"
| "has_kind_loop kind (n # stack) =
     (if node_kind n = kind then True else has_kind_loop kind (rev (named_children n) @ stack))"
  by pat_completeness auto
termination
  by (relation "measure (\<lambda>(_, stack). sum_list (map node_count stack))") (auto simp: named_children_count)

definition has_named_descendant_kind :: "ts_node \<Rightarrow> ustr \<Rightarrow> bool" where
  "has_named_descendant_kind n kind = has_kind_loop kind [n]"

definition parse_shell_lc_single_command_prefix :: "(ustr \<Rightarrow> ts_tree option) \<Rightarrow> ustr list \<Rightarrow> ustr list option" where
  "parse_shell_lc_single_command_prefix parse_tree command = (case extract_bash_command command of
       None \<Rightarrow> None
     | Some (_, script) \<Rightarrow> (case parse_tree script of
          None \<Rightarrow> None
        | Some tree \<Rightarrow>
            let root = root_node tree in
            if has_error tree then None
            else if \<not> has_named_descendant_kind root (lit ''heredoc_redirect'') then None
            else if has_named_descendant_kind root (lit ''file_redirect'') then None
            else Option.bind (find_single_command_node root) parse_heredoc_command_words))"

section \<open>The two verdicts\<close>

definition is_known_safe_command :: "bool \<Rightarrow> (ustr \<Rightarrow> ts_tree option) \<Rightarrow> ustr list \<Rightarrow> bool" where
  "is_known_safe_command linux parse_tree command =
     (let command = map (\<lambda>s. if s = lit ''zsh'' then lit ''bash'' else s) command in
      if is_safe_to_call_with_exec linux command then True
      else case parse_shell_lc_plain_commands parse_tree command of
          Some all_commands \<Rightarrow> all_commands \<noteq> [] \<and> list_all (is_safe_to_call_with_exec linux) all_commands
        | None \<Rightarrow> False)"

definition command_might_be_dangerous :: "(ustr \<Rightarrow> ts_tree option) \<Rightarrow> ustr list \<Rightarrow> bool" where
  "command_might_be_dangerous parse_tree command =
     (if is_dangerous_to_call_with_exec command then True
      else case parse_shell_lc_plain_commands parse_tree command of
          Some all_commands \<Rightarrow> list_ex is_dangerous_to_call_with_exec all_commands
        | None \<Rightarrow> False)"

end
