(* ===== verification/Command_Safety_Correct.thy ===== *)
theory Command_Safety_Correct
  imports Command_Safety "HOL-Library.Multiset"
begin

text \<open>
  What the two verdicts of \<open>shell-command/src/command_safety\<close> guarantee: they never contradict each
  other, a git command that runs unasked carries no option that makes git write or run a program,
  and a script that runs unasked is one whose syntax tree holds nothing but words, quotes and the
  four operators, with every command in it on the safe list.
\<close>

section \<open>The names on the safe list\<close>

definition safe_names :: "ustr list" where
  "safe_names = map lit [''numfmt'', ''tac'', ''base64'', ''find'', ''rg'', ''git'', ''sed''] @ ALWAYS_SAFE"

lemma safe_call_name:
  assumes "is_safe_to_call_with_exec linux command"
  obtains c args k where "command = c # args" "raw_file_name c = Some k" "k \<in> set safe_names"
proof -
  obtain c args where c: "command = c # args"
    using assms by (cases command) (simp_all add: is_safe_to_call_with_exec_def)
  obtain k where k: "raw_file_name c = Some k"
    using assms c by (cases "raw_file_name c") (simp_all add: is_safe_to_call_with_exec_def executable_name_lookup_key_def)
  have "k \<in> set safe_names"
    using assms unfolding c is_safe_to_call_with_exec_def executable_name_lookup_key_def list.case k option.case safe_names_def
    by (simp only: list.map list.set set_append Un_iff insert_iff empty_iff split: if_split_asm) blast+
  with c k show ?thesis by (rule that)
qed

lemma safe_names_plain:
  "list_all (\<lambda>k. stem_of k = k \<and> detect_shell_type k = None \<and> k \<noteq> lit ''rm'' \<and> k \<noteq> lit ''sudo'') safe_names"
  by code_simp

lemma shell_names_are_file_names:
  "list_all (\<lambda>k. raw_file_name k = Some k \<and> k \<notin> set safe_names)
     (map lit [''zsh'', ''sh'', ''cmd'', ''bash'', ''pwsh'', ''powershell'', ''rm'', ''sudo''])"
  by code_simp

lemma safe_name_not_shell:
  assumes "raw_file_name p = Some k" "k \<in> set safe_names"
  shows "detect_shell_type p = None" "p \<noteq> lit ''rm''" "p \<noteq> lit ''sudo''"
proof -
  have neq: "p \<noteq> q" if "q \<in> set (map lit [''zsh'', ''sh'', ''cmd'', ''bash'', ''pwsh'', ''powershell'', ''rm'', ''sudo''])" for q
  proof
    assume "p = q"
    moreover have "raw_file_name q = Some q \<and> q \<notin> set safe_names"
      using shell_names_are_file_names that unfolding list_all_iff by blast
    ultimately show False using assms by simp
  qed
  show "p \<noteq> lit ''rm''" "p \<noteq> lit ''sudo''" by (rule neq; simp del: lit_simps)+
  have k: "stem_of k = k" "detect_shell_type k = None" using safe_names_plain assms(2) unfolding list_all_iff by blast+
  have "p \<noteq> lit ''zsh''" "p \<noteq> lit ''sh''" "p \<noteq> lit ''cmd''" "p \<noteq> lit ''bash''" "p \<noteq> lit ''pwsh''" "p \<noteq> lit ''powershell''"
    by (rule neq; simp del: lit_simps)+
  then show "detect_shell_type p = None"
    using assms(1) k by (subst detect_shell_type.simps) (simp add: file_stem_def del: lit_simps)
qed

lemma safe_call_not_dangerous:
  assumes "is_safe_to_call_with_exec linux command"
  shows "\<not> is_dangerous_to_call_with_exec command"
  using assms
proof (rule safe_call_name)
  fix c args k assume "command = c # args" "raw_file_name c = Some k" "k \<in> set safe_names"
  with safe_name_not_shell(2,3) [of c k] show ?thesis by (simp del: lit_simps)
qed

lemma safe_call_not_shell:
  assumes "is_safe_to_call_with_exec linux command"
  shows "extract_bash_command command = None"
  using assms
proof (rule safe_call_name)
  fix c args k assume *: "command = c # args" "raw_file_name c = Some k" "k \<in> set safe_names"
  then have "detect_shell_type c = None" using safe_name_not_shell(1) by blast
  with * show ?thesis by (simp add: extract_bash_command_def split: list.splits)
qed

section \<open>The verdicts agree\<close>

text \<open>The rewriting of \<open>zsh\<close> to \<open>bash\<close> at the head of \<open>is_known_safe_command\<close>.\<close>

abbreviation zsh_as_bash :: "ustr list \<Rightarrow> ustr list" where
  "zsh_as_bash \<equiv> map (\<lambda>s. if s = lit ''zsh'' then lit ''bash'' else s)"

lemma shell_detected:
  "detect_shell_type (lit ''zsh'') = Some Zsh" "detect_shell_type (lit ''bash'') = Some Bash"
  "detect_shell_type (lit ''rm'') = None" "detect_shell_type (lit ''sudo'') = None"
  by code_simp+

lemma lit_distinct:
  "lit ''zsh'' \<noteq> lit ''rm''" "lit ''zsh'' \<noteq> lit ''sudo''" "lit ''bash'' \<noteq> lit ''rm''" "lit ''bash'' \<noteq> lit ''sudo''"
  "lit ''zsh'' \<noteq> lit ''-f''" "lit ''zsh'' \<noteq> lit ''-rf''" "lit ''bash'' \<noteq> lit ''-f''" "lit ''bash'' \<noteq> lit ''-rf''"
  "lit ''zsh'' \<noteq> lit ''-c''" "lit ''zsh'' \<noteq> lit ''-lc''" "lit ''bash'' \<noteq> lit ''-c''" "lit ''bash'' \<noteq> lit ''-lc''"
  by simp_all

lemma dangerous_zsh_as_bash:
  "is_dangerous_to_call_with_exec (zsh_as_bash command) = is_dangerous_to_call_with_exec command"
  by (induction command) (auto simp: lit_distinct simp del: lit_simps split: list.splits)

lemma plain_commands_zsh_as_bash:
  assumes "lit ''zsh'' \<notin> set (drop 2 command)"
  shows "parse_shell_lc_plain_commands parse_tree (zsh_as_bash command) = parse_shell_lc_plain_commands parse_tree command"
proof (cases "\<exists>sh flag script. command = [sh, flag, script]")
  case True
  then obtain sh flag script where c: "command = [sh, flag, script]" by blast
  with assms have "script \<noteq> lit ''zsh''" by (simp del: lit_simps)
  with c show ?thesis
    by (auto simp: parse_shell_lc_plain_commands_def extract_bash_command_def shell_detected lit_distinct simp del: lit_simps)
next
  case False
  then have "extract_bash_command command = None"
    by (auto simp: extract_bash_command_def simp del: lit_simps split: list.splits)
  moreover have "extract_bash_command (zsh_as_bash command) = None"
    using False by (auto simp: extract_bash_command_def map_eq_Cons_conv simp del: lit_simps split: list.splits)
  ultimately show ?thesis by (simp add: parse_shell_lc_plain_commands_def)
qed

lemma dangerous_call_not_shell:
  "is_dangerous_to_call_with_exec command \<Longrightarrow> extract_bash_command command = None"
  by (cases command)
     (auto simp: extract_bash_command_def shell_detected simp del: lit_simps split: list.splits if_splits)

lemma known_safe_excludes_dangerous:
  assumes "is_known_safe_command linux parse_tree command"
    and "lit ''zsh'' \<notin> set (drop 2 command)"
  shows "\<not> command_might_be_dangerous parse_tree command"
proof -
  let ?c = "zsh_as_bash command"
  have disj: "is_safe_to_call_with_exec linux ?c \<or>
      (\<exists>cs. parse_shell_lc_plain_commands parse_tree ?c = Some cs \<and> list_all (is_safe_to_call_with_exec linux) cs)"
    using assms(1) unfolding is_known_safe_command_def Let_def by (auto simp del: lit_simps split: if_splits option.splits)
  then have "\<not> is_dangerous_to_call_with_exec ?c"
    using safe_call_not_dangerous dangerous_call_not_shell [of ?c]
    by (auto simp: parse_shell_lc_plain_commands_def simp del: lit_simps)
  moreover have "\<not> list_ex is_dangerous_to_call_with_exec cs"
    if "parse_shell_lc_plain_commands parse_tree ?c = Some cs" for cs
    using disj that safe_call_not_dangerous safe_call_not_shell [of linux ?c]
    by (auto simp: parse_shell_lc_plain_commands_def list_all_iff list_ex_iff simp del: lit_simps)
  ultimately show ?thesis
    using plain_commands_zsh_as_bash [OF assms(2), of parse_tree] dangerous_zsh_as_bash [of command]
    unfolding command_might_be_dangerous_def by (auto simp del: lit_simps split: option.splits)
qed

text \<open>
  The two verdicts never contradict each other: a command that \<open>is_known_safe_command\<close> lets run
  without approval is never one that \<open>command_might_be_dangerous\<close> flags, on any target and whatever
  trees the shell grammar returns. The word \<open>zsh\<close> must not be an argument after the first: the safe
  check rewrites it to \<open>bash\<close> there, so the two verdicts would look at different scripts.
\<close>

theorem known_safe_not_dangerous:
  assumes "is_known_safe_command linux parse_tree command"
    and "lit ''zsh'' \<notin> set (drop 2 command)"
  shows "\<not> command_might_be_dangerous parse_tree command"
  using assms by (rule known_safe_excludes_dangerous)

text \<open>The tree of \<open>ls | wc -l\<close>, used to show the hypotheses can hold.\<close>

definition word_node :: "string \<Rightarrow> nat \<Rightarrow> ts_node" where
  "word_node w at = Node (lit ''word'') True (lit w) at []"

definition command_node :: "string \<Rightarrow> string list \<Rightarrow> nat \<Rightarrow> ts_node" where
  "command_node name args at = Node (lit ''command'') True (lit name) at
     (Node (lit ''command_name'') True (lit name) at [word_node name at] # map (\<lambda>a. word_node a (at + 3)) args)"

definition sample_tree :: ts_tree where
  "sample_tree = \<lparr>root_node = Node (lit ''program'') True (lit ''ls | wc -l'') 0
     [Node (lit ''pipeline'') True (lit ''ls | wc -l'') 0
        [command_node ''ls'' [] 0, Node (lit ''|'') False (lit ''|'') 3 [], command_node ''wc'' [''-l''] 5]],
     has_error = False\<rparr>"

theorem known_safe_not_dangerous_witness:
  "is_known_safe_command True (\<lambda>_. Some sample_tree) [lit ''zsh'', lit ''-lc'', lit ''ls | wc -l''] \<and>
   lit ''zsh'' \<notin> set (drop 2 [lit ''zsh'', lit ''-lc'', lit ''ls | wc -l'']) \<and>
   \<not> command_might_be_dangerous (\<lambda>_. Some sample_tree) [lit ''zsh'', lit ''-lc'', lit ''ls | wc -l'']"
proof -
  have 1: "is_known_safe_command True (\<lambda>_. Some sample_tree) [lit ''zsh'', lit ''-lc'', lit ''ls | wc -l'']" by code_simp
  have 2: "lit ''zsh'' \<notin> set (drop 2 [lit ''zsh'', lit ''-lc'', lit ''ls | wc -l''])" by code_simp
  from 1 2 known_safe_not_dangerous [OF 1 2] show ?thesis by blast
qed

section \<open>Git commands\<close>

lemma scan_git_args_Some:
  assumes "scan_git_args subs idx skip args = Some (i, sub)"
  shows "\<exists>pre rest. args = pre @ sub # rest \<and> i = idx + length pre \<and> sub \<in> set subs \<and>
     (\<not> skip \<longrightarrow> list_all (\<lambda>a. \<not> is_git_global_option_with_value a) pre \<longrightarrow> list_all (starts_with (lit ''-'')) pre)"
  using assms
proof (induction subs idx skip args rule: scan_git_args.induct)
  case (2 subs idx skip arg args)
  have inline: "starts_with (lit ''-'') a" if "is_git_global_option_with_inline_value a" for a
    using that by (auto simp: is_git_global_option_with_inline_value_def starts_with_iff)
  have step: ?case if "scan_git_args subs (Suc idx) skip' args = Some (i, sub)"
    and IH: "\<exists>pre rest. args = pre @ sub # rest \<and> i = Suc idx + length pre \<and> sub \<in> set subs \<and>
      (\<not> skip' \<longrightarrow> list_all (\<lambda>a. \<not> is_git_global_option_with_value a) pre \<longrightarrow> list_all (starts_with (lit ''-'')) pre)"
    and ok: "skip \<or> is_git_global_option_with_value arg \<or> starts_with (lit ''-'') arg \<and> \<not> skip'" for skip'
  proof -
    from IH obtain pre rest where "args = pre @ sub # rest" "i = Suc idx + length pre" "sub \<in> set subs"
      "\<not> skip' \<longrightarrow> list_all (\<lambda>a. \<not> is_git_global_option_with_value a) pre \<longrightarrow> list_all (starts_with (lit ''-'')) pre" by blast
    with ok show ?thesis by (intro exI [of _ "arg # pre"] exI [of _ rest]) (auto simp del: lit_simps)
  qed
  show ?case
  proof (cases "skip \<or> is_git_global_option_with_inline_value arg \<or> is_git_global_option_with_value arg \<or>
      arg = lit ''--'' \<or> starts_with (lit ''-'') arg")
    case True
    have dd: "starts_with (lit ''-'') (lit ''--'')" by (simp add: starts_with_iff)
    show ?thesis
    proof (cases "\<not> skip \<and> \<not> is_git_global_option_with_inline_value arg \<and> is_git_global_option_with_value arg")
      case True
      with 2 show ?thesis by (intro step [of True]) (simp_all del: lit_simps)
    next
      case False
      with True 2 dd show ?thesis
        by (intro step [of False]) (auto simp del: lit_simps dest: inline split: if_splits)
    qed
  next
    case False
    with "2.prems" show ?thesis
      by (intro exI [of _ "[]"] exI [of _ args]) (auto simp del: lit_simps split: if_splits)
  qed
qed simp

text \<open>The options of git that name a file to write, a program to run or another repository.\<close>

definition git_global_redirects :: "string list" where
  "git_global_redirects = [''--config-env'', ''--exec-path'', ''--git-dir'', ''--namespace'', ''--super-prefix'', ''--work-tree'']"

definition harmless_global_option :: "ustr \<Rightarrow> bool" where
  "harmless_global_option a \<longleftrightarrow> starts_with (lit ''-'') a \<and>
     \<not> starts_with (lit ''-C'') a \<and> \<not> starts_with (lit ''-c'') a \<and> a \<noteq> lit ''-p'' \<and> a \<noteq> lit ''--paginate'' \<and>
     list_all (\<lambda>o'. a \<noteq> lit o' \<and> \<not> starts_with (lit (o' @ ''='')) a) git_global_redirects"

definition harmless_subcommand_arg :: "ustr \<Rightarrow> bool" where
  "harmless_subcommand_arg a \<longleftrightarrow> a \<noteq> lit ''--ext-diff'' \<and> a \<noteq> lit ''--textconv'' \<and>
     list_all (\<lambda>o'. a \<noteq> lit o' \<and> \<not> starts_with (lit (o' @ ''='')) a) [''--output'', ''--exec'']"

lemma no_unsafe_global:
  assumes "\<not> git_matches_option_pattern a UNSAFE_GIT_GLOBAL_OPTIONS"
  shows "\<not> is_git_global_option_with_value a" "starts_with (lit ''-'') a \<Longrightarrow> harmless_global_option a"
proof -
  have short: "starts_with o' a \<Longrightarrow> a \<noteq> o' \<Longrightarrow> length o' < length a" for o' :: ustr
    by (auto simp: starts_with_iff)
  show "\<not> is_git_global_option_with_value a"
    using assms by (simp add: git_matches_option_pattern_def UNSAFE_GIT_GLOBAL_OPTIONS_def
        is_git_global_option_with_value_def del: lit_simps)
  assume "starts_with (lit ''-'') a"
  moreover have "length (lit ''-C'') = length ''-C''" "length (lit ''-c'') = length ''-c''" by simp_all
  ultimately show "harmless_global_option a"
    using assms short [of "lit ''-C''"] short [of "lit ''-c''"]
    by (auto simp: git_matches_option_pattern_def UNSAFE_GIT_GLOBAL_OPTIONS_def harmless_global_option_def
        git_global_redirects_def simp del: lit_simps)
qed

lemma subcommand_args_harmless:
  "git_subcommand_args_are_read_only args = list_all harmless_subcommand_arg args"
  by (auto simp: git_subcommand_args_are_read_only_def list_all_iff list_ex_iff git_matches_option_pattern_def
      UNSAFE_GIT_SUBCOMMAND_OPTIONS_def harmless_subcommand_arg_def simp del: lit_simps)

definition branch_listing_flag :: "ustr \<Rightarrow> bool" where
  "branch_listing_flag a \<longleftrightarrow> starts_with (lit ''--format='') a \<or>
     a \<in> set (map lit [''--list'', ''-l'', ''--show-current'', ''-a'', ''--all'', ''-r'', ''--remotes'', ''-v'', ''-vv'', ''--verbose''])"

lemma branch_loop_flags: "branch_args_loop saw args = (list_all branch_listing_flag args \<and> (saw \<or> args \<noteq> []))"
  by (induction saw args rule: branch_args_loop.induct)
     (auto simp: branch_listing_flag_def simp del: lit_simps)

lemma scan_git_args_harmless:
  assumes "list_all harmless_global_option pre" "sub \<in> set GIT_READ_COMMANDS"
  shows "scan_git_args GIT_READ_COMMANDS idx False (pre @ sub # args) = Some (idx + length pre, sub)"
  using assms(1)
proof (induction pre arbitrary: idx)
  case Nil
  have "list_all (\<lambda>s. \<not> is_git_global_option_with_inline_value s \<and> \<not> is_git_global_option_with_value s \<and>
      s \<noteq> lit ''--'' \<and> \<not> starts_with (lit ''-'') s) GIT_READ_COMMANDS" by code_simp
  with assms(2) show ?case by (simp add: list_all_iff del: lit_simps)
next
  case (Cons a pre)
  then have "harmless_global_option a" by simp
  then have "starts_with (lit ''-'') a" "\<not> is_git_global_option_with_inline_value a" "\<not> is_git_global_option_with_value a"
    by (auto simp: harmless_global_option_def is_git_global_option_with_inline_value_def git_global_redirects_def
        is_git_global_option_with_value_def starts_with_iff simp del: lit_simps)
  with Cons show ?case by (simp del: lit_simps)
qed

lemma harmless_no_unsafe_global:
  "harmless_global_option a \<Longrightarrow> \<not> git_matches_option_pattern a UNSAFE_GIT_GLOBAL_OPTIONS"
  by (auto simp: git_matches_option_pattern_def UNSAFE_GIT_GLOBAL_OPTIONS_def harmless_global_option_def
      git_global_redirects_def starts_with_iff simp del: lit_simps)

lemma safe_git_split:
  assumes "command = g # pre @ sub # args" "executable_name_lookup_key g = Some (lit ''git'')"
    and "find_git_subcommand command GIT_READ_COMMANDS = Some (Suc (length pre), sub)" "sub \<in> set GIT_READ_COMMANDS"
  shows "is_safe_git_command command \<longleftrightarrow> \<not> git_has_unsafe_global_option pre \<and>
    list_all harmless_subcommand_arg args \<and> (sub = lit ''branch'' \<longrightarrow> list_all branch_listing_flag args)"
proof -
  have br: "git_branch_is_read_only args = list_all branch_listing_flag args"
    by (auto simp: git_branch_is_read_only_def branch_loop_flags)
  have "lit ''branch'' \<notin> set (map lit [''status'', ''log'', ''diff'', ''show''])" by simp
  with assms br show ?thesis
    by (auto simp: is_safe_git_command_def Let_def subcommand_args_harmless GIT_READ_COMMANDS_def simp del: lit_simps)
qed

text \<open>
  C17: A git command that runs without approval has the shape \<open>git options subcommand args\<close>: the
  subcommand is one of \<open>status\<close>, \<open>log\<close>, \<open>diff\<close>, \<open>show\<close>, \<open>branch\<close>; every word before it is an option, and
  none of them changes the configuration, the repository, the work tree, the helper programs or the
  pager; no argument after it writes a file or runs an external program; and \<open>branch\<close> has only
  listing flags. The converse holds too, so the check is exactly this grammar.
\<close>

theorem safe_git_command_shape:
  "is_safe_git_command command \<longleftrightarrow>
     (\<exists>g pre sub args. command = g # pre @ sub # args \<and>
        executable_name_lookup_key g = Some (lit ''git'') \<and> sub \<in> set GIT_READ_COMMANDS \<and>
        list_all harmless_global_option pre \<and> list_all harmless_subcommand_arg args \<and>
        (sub = lit ''branch'' \<longrightarrow> list_all branch_listing_flag args))"
  (is "_ \<longleftrightarrow> ?shape")
proof
  assume safe: "is_safe_git_command command"
  then obtain i sub where f: "find_git_subcommand command GIT_READ_COMMANDS = Some (i, sub)"
    by (auto simp: is_safe_git_command_def split: option.splits)
  then obtain g rest where g: "command = g # rest" "executable_name_lookup_key g = Some (lit ''git'')"
    and scan: "scan_git_args GIT_READ_COMMANDS 1 False rest = Some (i, sub)"
    by (auto simp: find_git_subcommand_def simp del: lit_simps split: list.splits if_splits)
  obtain pre args where p: "rest = pre @ sub # args" "i = Suc (length pre)" "sub \<in> set GIT_READ_COMMANDS"
    and dash: "list_all (\<lambda>a. \<not> is_git_global_option_with_value a) pre \<longrightarrow> list_all (starts_with (lit ''-'')) pre"
    using scan_git_args_Some [OF scan] by auto
  have props: "\<not> git_has_unsafe_global_option pre" "list_all harmless_subcommand_arg args"
    "sub = lit ''branch'' \<longrightarrow> list_all branch_listing_flag args"
    using safe_git_split [of command g pre sub args] safe g f p by (simp_all del: lit_simps)
  then have "list_all harmless_global_option pre"
    using dash no_unsafe_global by (auto simp: git_has_unsafe_global_option_def list_ex_iff list_all_iff simp del: lit_simps)
  with g p props show "?shape" by blast
next
  assume ?shape
  then obtain g pre sub args where s: "command = g # pre @ sub # args" "executable_name_lookup_key g = Some (lit ''git'')"
    "sub \<in> set GIT_READ_COMMANDS" and h: "list_all harmless_global_option pre" "list_all harmless_subcommand_arg args"
    "sub = lit ''branch'' \<longrightarrow> list_all branch_listing_flag args" by blast
  then have "find_git_subcommand command GIT_READ_COMMANDS = Some (Suc (length pre), sub)"
    using scan_git_args_harmless [OF h(1) s(3), of 1 args] by (simp add: find_git_subcommand_def del: lit_simps)
  moreover have "\<not> git_has_unsafe_global_option pre"
    using h(1) harmless_no_unsafe_global by (auto simp: git_has_unsafe_global_option_def list_ex_iff list_all_iff)
  ultimately show "is_safe_git_command command" using safe_git_split [OF s(1,2) _ s(3)] h by blast
qed

theorem safe_git_command_shape_witness:
  "is_safe_git_command (map lit [''git'', ''--no-pager'', ''log'', ''-n'', ''5''])"
proof -
  have "map lit [''git'', ''--no-pager'', ''log'', ''-n'', ''5''] = lit ''git'' # [lit ''--no-pager''] @ lit ''log'' # [lit ''-n'', lit ''5'']"
    by simp
  moreover have "executable_name_lookup_key (lit ''git'') = Some (lit ''git'')" by code_simp
  moreover have "lit ''log'' \<in> set GIT_READ_COMMANDS" by code_simp
  moreover have "list_all harmless_global_option [lit ''--no-pager'']" by code_simp
  moreover have "list_all harmless_subcommand_arg [lit ''-n'', lit ''5'']" by code_simp
  moreover have "lit ''log'' = lit ''branch'' \<longrightarrow> list_all branch_listing_flag [lit ''-n'', lit ''5'']" by simp
  ultimately show ?thesis unfolding safe_git_command_shape
    by (intro exI [of _ "lit ''git''"] exI [of _ "[lit ''--no-pager'']"] exI [of _ "lit ''log''"]
        exI [of _ "[lit ''-n'', lit ''5'']"] conjI)
qed

section \<open>Scripts\<close>

text \<open>Every node of a tree, in the order of the source.\<close>

fun tree_nodes :: "ts_node \<Rightarrow> ts_node list" where
  "tree_nodes (Node k m t s cs) = Node k m t s cs # concat (map tree_nodes cs)"

lemma tree_nodes_eq: "tree_nodes n = n # concat (map tree_nodes (node_children n))"
  by (cases n) simp

definition is_command_node :: "ts_node \<Rightarrow> bool" where
  "is_command_node n \<longleftrightarrow> node_named n \<and> node_kind n = lit ''command''"

lemma walk_nodes_Some:
  assumes "walk_nodes stack commands = Some result"
  shows "list_all node_allowed (concat (map tree_nodes stack)) \<and>
    mset result = mset commands + mset (filter is_command_node (concat (map tree_nodes stack)))"
  using assms
proof (induction stack commands rule: walk_nodes.induct)
  case (2 n stack commands)
  let ?cs = "if is_command_node n then commands @ [n] else commands"
  from "2.prems" have n: "node_allowed n" and w: "walk_nodes (rev (node_children n) @ stack) ?cs = Some result"
    by (auto simp: is_command_node_def simp del: lit_simps split: if_splits)
  have IH: "list_all node_allowed (concat (map tree_nodes (rev (node_children n) @ stack)))"
    "mset result = mset ?cs + mset (filter is_command_node (concat (map tree_nodes (rev (node_children n) @ stack))))"
    using "2.IH" n w by (simp_all add: is_command_node_def del: lit_simps)
  have rev: "mset (filter P (concat (map tree_nodes (rev xs)))) = mset (filter P (concat (map tree_nodes xs)))" for P xs
    by (induction xs) simp_all
  have "concat (map tree_nodes (n # stack)) = n # concat (map tree_nodes (node_children n)) @ concat (map tree_nodes stack)"
    by (simp add: tree_nodes_eq [of n])
  with IH n rev [of is_command_node "node_children n"] show ?case
    by (auto simp: list_all_iff)
qed simp

lemma option_list_Some: "option_list xs = Some ys \<longleftrightarrow> xs = map Some ys"
proof (induction xs arbitrary: ys)
  case (Cons x xs)
  then show ?case by (cases x; cases ys; cases "option_list xs") auto
qed auto

lemma script_commands:
  assumes "try_parse_word_only_commands_sequence tree = Some cmds"
  shows "\<not> has_error tree" "list_all node_allowed (tree_nodes (root_node tree))"
    "\<exists>ns. mset ns = mset (filter is_command_node (tree_nodes (root_node tree))) \<and>
       sorted (map node_start ns) \<and> map parse_plain_command_from_node ns = map Some cmds"
proof -
  from assms show e: "\<not> has_error tree" by (auto simp: try_parse_word_only_commands_sequence_def split: if_splits)
  with assms obtain ns where w: "walk_nodes [root_node tree] [] = Some ns"
    and c: "map parse_plain_command_from_node (sort_key node_start ns) = map Some cmds"
    by (auto simp: try_parse_word_only_commands_sequence_def option_list_Some split: option.splits)
  from walk_nodes_Some [OF w] show "list_all node_allowed (tree_nodes (root_node tree))" by simp
  from walk_nodes_Some [OF w] c show "\<exists>ns. mset ns = mset (filter is_command_node (tree_nodes (root_node tree))) \<and>
       sorted (map node_start ns) \<and> map parse_plain_command_from_node ns = map Some cmds"
    by (intro exI [of _ "sort_key node_start ns"]) simp
qed

text \<open>
  C16: A script that runs without approval has been read completely: when a shell invocation
  (\<open>bash -lc script\<close> and its relatives) is known to be safe, the grammar produced an error-free tree
  for the script, every node of that tree, at any depth, is a word, a quote, one of the operators or
  their containers (so no redirection, substitution, expansion, subshell or control flow), there is
  at least one command, and every command node of the tree, none skipped by the traversal, reads as
  plain words that are on the safe list.
\<close>

theorem safe_script_fully_checked:
  assumes "is_known_safe_command linux parse_tree [shell, flag, script]"
    and "extract_bash_command [shell, flag, script] = Some (shell, script)" and "script \<noteq> lit ''zsh''"
  shows "\<exists>tree. parse_tree script = Some tree \<and> \<not> has_error tree \<and>
     list_all node_allowed (tree_nodes (root_node tree)) \<and>
     filter is_command_node (tree_nodes (root_node tree)) \<noteq> [] \<and>
     (\<forall>n \<in> set (tree_nodes (root_node tree)). is_command_node n \<longrightarrow>
        (\<exists>words. parse_plain_command_from_node n = Some words \<and> is_safe_to_call_with_exec linux words))"
proof -
  let ?c = "[shell, flag, script]"
  have same: "parse_shell_lc_plain_commands parse_tree (zsh_as_bash ?c) = parse_shell_lc_plain_commands parse_tree ?c"
    using assms(3) by (intro plain_commands_zsh_as_bash) (simp del: lit_simps)
  have "extract_bash_command (zsh_as_bash ?c) \<noteq> None"
    using assms(2,3) by (auto simp: extract_bash_command_def shell_detected lit_distinct simp del: lit_simps split: if_splits)
  then have "\<not> is_safe_to_call_with_exec linux (zsh_as_bash ?c)" by (rule contrapos_nn) (rule safe_call_not_shell)
  then obtain cmds where cmds: "parse_shell_lc_plain_commands parse_tree ?c = Some cmds" "cmds \<noteq> []"
    "list_all (is_safe_to_call_with_exec linux) cmds"
    using assms(1) same unfolding is_known_safe_command_def Let_def by (auto simp del: lit_simps list.map split: option.splits)
  then obtain tree where t: "parse_tree script = Some tree" "try_parse_word_only_commands_sequence tree = Some cmds"
    using assms(2) by (auto simp: parse_shell_lc_plain_commands_def parse_shell_script_into_commands_def bind_eq_Some_conv)
  obtain ns where ns: "mset ns = mset (filter is_command_node (tree_nodes (root_node tree)))"
    "map parse_plain_command_from_node ns = map Some cmds" using script_commands(3) [OF t(2)] by blast
  have "\<exists>words. parse_plain_command_from_node n = Some words \<and> is_safe_to_call_with_exec linux words"
    if "n \<in> set (tree_nodes (root_node tree))" "is_command_node n" for n
  proof -
    have "n \<in> set ns" using that mset_eq_setD [OF ns(1)] by simp
    then have "parse_plain_command_from_node n \<in> set (map Some cmds)" unfolding ns(2) [symmetric] by simp
    with cmds(3) show ?thesis by (auto simp: list_all_iff)
  qed
  moreover have "filter is_command_node (tree_nodes (root_node tree)) \<noteq> []"
  proof
    assume "filter is_command_node (tree_nodes (root_node tree)) = []"
    with ns(1) have "ns = []" by (simp only: mset.simps mset_zero_iff)
    with ns(2) cmds(2) show False by simp
  qed
  ultimately show ?thesis using t(1) script_commands(1,2) [OF t(2)] by blast
qed

theorem safe_script_fully_checked_witness:
  "is_known_safe_command True (\<lambda>_. Some sample_tree) [lit ''bash'', lit ''-lc'', lit ''ls | wc -l''] \<and>
   (\<exists>tree. (\<lambda>_. Some sample_tree) (lit ''ls | wc -l'') = Some tree \<and>
     (\<forall>n \<in> set (tree_nodes (root_node tree)). is_command_node n \<longrightarrow>
        (\<exists>words. parse_plain_command_from_node n = Some words \<and> is_safe_to_call_with_exec True words)))"
proof -
  have 1: "is_known_safe_command True (\<lambda>_. Some sample_tree) [lit ''bash'', lit ''-lc'', lit ''ls | wc -l'']" by code_simp
  have 2: "extract_bash_command [lit ''bash'', lit ''-lc'', lit ''ls | wc -l''] = Some (lit ''bash'', lit ''ls | wc -l'')"
    by code_simp
  have 3: "lit ''ls | wc -l'' \<noteq> lit ''zsh''" by simp
  show ?thesis using 1 safe_script_fully_checked [OF 1 2 3] by blast
qed

text \<open>
  The safe list holds \<open>uniq\<close> with any arguments, though its second operand names a file that it
  overwrites.
\<close>

lemma uniq_output_file_approved:
  "is_known_safe_command linux parse_tree (map lit [''uniq'', ''input'', ''output''])"
proof -
  have "is_safe_to_call_with_exec linux (zsh_as_bash (map lit [''uniq'', ''input'', ''output'']))"
    by (cases linux; simp only:; code_simp)
  then show ?thesis by (simp add: is_known_safe_command_def del: list.map lit_simps)
qed

end
