(* ===== verification/Fs_Permissions.thy ===== *)
theory Fs_Permissions
  imports Path_Uri
begin

text \<open>
  File system permissions: \<open>protocol/src/permissions.rs\<close>, with the legacy policies of
  \<open>protocol/src/protocol.rs\<close> and the path helpers of \<open>utils/absolute-path/src/lib.rs\<close>, on a
  Unix host. An \<open>AbsolutePathBuf\<close> is the list of its components; a \<open>Path\<close> argument is text.
  What the host's file system answers is the record \<open>host_fs\<close>. The glob compiler is left out,
  and the subpaths of symbolic entries are compared as text (\<open>PathBuf\<close> also identifies
  \<open>a//b\<close> and \<open>a/b\<close>).
\<close>

section \<open>The host\<close>

text \<open>\<open>link_metadata\<close> is \<open>symlink_metadata\<close>: nothing there, or whether it is a symbolic link.\<close>

record host_fs =
  process :: host_env
  tmpdir_var :: "ustr option"
  link_metadata :: "path_uri \<Rightarrow> bool option"
  canonical :: "path_uri \<Rightarrow> path_uri option"
  path_is_dir :: "path_uri \<Rightarrow> bool"
  path_is_file :: "path_uri \<Rightarrow> bool"
  path_exists :: "path_uri \<Rightarrow> bool"
  file_text :: "path_uri \<Rightarrow> ustr option"

definition abs_path :: "host_fs \<Rightarrow> ustr \<Rightarrow> path_uri option" where
  "abs_path h p = from_absolute_path (process h) p"

definition resolve_path_against_base :: "host_fs \<Rightarrow> ustr \<Rightarrow> path_uri \<Rightarrow> path_uri" where
  "resolve_path_against_base h p base =
     (case maybe_expand_home_directory (process h) p of
        Inl expanded \<Rightarrow> normalize_path expanded
      | Inr raw \<Rightarrow>
          (case strip_prefix [SLASH] raw of
             Some rest \<Rightarrow> normalize_path (split_on SLASH rest)
           | None \<Rightarrow> normalize_path (base @ split_on SLASH raw)))"

definition is_absolute :: "ustr \<Rightarrow> bool" where
  "is_absolute p = starts_with [SLASH] p"

text \<open>\<open>Path::starts_with\<close> compares whole components.\<close>

definition path_starts_with :: "path_uri \<Rightarrow> path_uri \<Rightarrow> bool" where
  "path_starts_with p base \<longleftrightarrow> take (length base) p = base"

definition path_strip_prefix :: "path_uri \<Rightarrow> path_uri \<Rightarrow> path_uri option" where
  "path_strip_prefix p base = (if path_starts_with p base then Some (drop (length base) p) else None)"

text \<open>\<open>Path::ancestors\<close>: the path itself, then its parents up to the root.\<close>

fun ancestors :: "path_uri \<Rightarrow> path_uri list" where
  "ancestors [] = [[]]"
| "ancestors (c # cs) = map (Cons c) (ancestors cs) @ [[]]"

definition should_preserve_logical_path :: "host_fs \<Rightarrow> path_uri \<Rightarrow> bool" where
  "should_preserve_logical_path h logical =
     list_ex (\<lambda>a. link_metadata h a = Some True \<and> 2 \<le> length a) (ancestors logical)"

definition canonicalize_preserving_symlinks :: "host_fs \<Rightarrow> path_uri \<Rightarrow> path_uri" where
  "canonicalize_preserving_symlinks h logical =
     (case canonical h logical of
        Some c \<Rightarrow> if should_preserve_logical_path h logical \<and> c \<noteq> logical then logical else c
      | None \<Rightarrow> logical)"

fun normalize_from_ancestors :: "host_fs \<Rightarrow> path_uri \<Rightarrow> path_uri list \<Rightarrow> path_uri" where
  "normalize_from_ancestors h p [] = p"
| "normalize_from_ancestors h p (a # as) =
     (if link_metadata h a = None then normalize_from_ancestors h p as
      else case path_strip_prefix p a of
          None \<Rightarrow> normalize_from_ancestors h p as
        | Some suffix \<Rightarrow> normalize_path (canonicalize_preserving_symlinks h a @ suffix))"

definition normalize_effective_absolute_path :: "host_fs \<Rightarrow> path_uri \<Rightarrow> path_uri" where
  "normalize_effective_absolute_path h p = normalize_from_ancestors h p (ancestors p)"

section \<open>Policies\<close>

datatype network_sandbox_policy = NetRestricted | NetEnabled

definition net_is_enabled :: "network_sandbox_policy \<Rightarrow> bool" where
  "net_is_enabled n \<longleftrightarrow> n = NetEnabled"

datatype access_mode = Read | Write | Deny

instantiation access_mode :: linorder
begin

fun access_rank :: "access_mode \<Rightarrow> nat" where
  "access_rank Read = 0"
| "access_rank Write = 1"
| "access_rank Deny = 2"

definition less_eq_access_mode :: "access_mode \<Rightarrow> access_mode \<Rightarrow> bool" where
  "less_eq_access_mode a b \<longleftrightarrow> access_rank a \<le> access_rank b"

definition less_access_mode :: "access_mode \<Rightarrow> access_mode \<Rightarrow> bool" where
  "less_access_mode a b \<longleftrightarrow> access_rank a < access_rank b"

instance
proof
  fix a b :: access_mode
  show "a \<le> b \<Longrightarrow> b \<le> a \<Longrightarrow> a = b"
    by (cases a; cases b) (simp_all add: less_eq_access_mode_def)
qed (auto simp: less_eq_access_mode_def less_access_mode_def)

end

definition can_read :: "access_mode \<Rightarrow> bool" where
  "can_read a \<longleftrightarrow> a \<noteq> Deny"

definition can_write :: "access_mode \<Rightarrow> bool" where
  "can_write a \<longleftrightarrow> a = Write"

datatype special_path =
    RootPath
  | Minimal
  | ProjectRoots "ustr option"
  | Tmpdir
  | SlashTmp
  | UnknownPath ustr "ustr option"

datatype fs_path = AtPath path_uri | GlobPattern ustr | Special special_path

record sandbox_entry =
  entry_path :: fs_path
  entry_access :: access_mode

datatype sandbox_kind = Restricted | Unrestricted | ExternalSandboxKind

record sandbox_policy =
  kind :: sandbox_kind
  glob_scan_max_depth :: "nat option"
  entries :: "sandbox_entry list"

definition entry_of :: "fs_path \<Rightarrow> access_mode \<Rightarrow> sandbox_entry" where
  "entry_of p a = \<lparr>entry_path = p, entry_access = a\<rparr>"

definition unrestricted :: sandbox_policy where
  "unrestricted = \<lparr>kind = Unrestricted, glob_scan_max_depth = None, entries = []\<rparr>"

definition external_sandbox :: sandbox_policy where
  "external_sandbox = \<lparr>kind = ExternalSandboxKind, glob_scan_max_depth = None, entries = []\<rparr>"

definition restricted :: "sandbox_entry list \<Rightarrow> sandbox_policy" where
  "restricted es = \<lparr>kind = Restricted, glob_scan_max_depth = None, entries = es\<rparr>"

definition read_only :: sandbox_policy where
  "read_only = restricted [entry_of (Special RootPath) Read]"

section \<open>What a policy grants as a whole\<close>

definition has_root_access :: "(access_mode \<Rightarrow> bool) \<Rightarrow> sandbox_policy \<Rightarrow> bool" where
  "has_root_access P p \<longleftrightarrow> kind p = Restricted \<and>
     list_ex (\<lambda>e. entry_path e = Special RootPath \<and> P (entry_access e)) (entries p)"

definition has_denied_read_restrictions :: "sandbox_policy \<Rightarrow> bool" where
  "has_denied_read_restrictions p \<longleftrightarrow> kind p = Restricted \<and>
     list_ex (\<lambda>e. entry_access e = Deny) (entries p)"

definition special_path_matches_absolute_path :: "special_path \<Rightarrow> path_uri \<Rightarrow> bool" where
  "special_path_matches_absolute_path s p = (case s of
       RootPath \<Rightarrow> p = []
     | SlashTmp \<Rightarrow> p = [lit ''tmp'']
     | _ \<Rightarrow> False)"

definition special_paths_share_target :: "special_path \<Rightarrow> special_path \<Rightarrow> bool" where
  "special_paths_share_target l r = (l = r)"

fun file_system_paths_share_target :: "fs_path \<Rightarrow> fs_path \<Rightarrow> bool" where
  "file_system_paths_share_target (AtPath l) (AtPath r) = (l = r)"
| "file_system_paths_share_target (Special l) (Special r) = special_paths_share_target l r"
| "file_system_paths_share_target (AtPath p) (Special s) = special_path_matches_absolute_path s p"
| "file_system_paths_share_target (Special s) (AtPath p) = special_path_matches_absolute_path s p"
| "file_system_paths_share_target (GlobPattern l) (GlobPattern r) = (l = r)"
| "file_system_paths_share_target _ _ = False"

definition has_same_target_write_override :: "sandbox_policy \<Rightarrow> sandbox_entry \<Rightarrow> bool" where
  "has_same_target_write_override p e = list_ex (\<lambda>c. can_write (entry_access c) \<and>
     entry_access e < entry_access c \<and> file_system_paths_share_target (entry_path c) (entry_path e)) (entries p)"

definition narrows_write :: "sandbox_policy \<Rightarrow> sandbox_entry \<Rightarrow> bool" where
  "narrows_write p e =
     (if can_write (entry_access e) then False
      else case entry_path e of
          AtPath _ \<Rightarrow> \<not> has_same_target_write_override p e
        | GlobPattern _ \<Rightarrow> True
        | Special s \<Rightarrow> (case s of
              RootPath \<Rightarrow> entry_access e = Deny
            | Minimal \<Rightarrow> False
            | UnknownPath _ _ \<Rightarrow> False
            | _ \<Rightarrow> \<not> has_same_target_write_override p e))"

definition has_write_narrowing_entries :: "sandbox_policy \<Rightarrow> bool" where
  "has_write_narrowing_entries p \<longleftrightarrow> kind p = Restricted \<and> list_ex (narrows_write p) (entries p)"

definition has_full_disk_read_access :: "sandbox_policy \<Rightarrow> bool" where
  "has_full_disk_read_access p = (case kind p of
       Restricted \<Rightarrow> has_root_access can_read p \<and> \<not> has_denied_read_restrictions p
     | _ \<Rightarrow> True)"

definition has_full_disk_write_access :: "sandbox_policy \<Rightarrow> bool" where
  "has_full_disk_write_access p = (case kind p of
       Restricted \<Rightarrow> has_root_access can_write p \<and> \<not> has_write_narrowing_entries p
     | _ \<Rightarrow> True)"

definition include_platform_defaults :: "sandbox_policy \<Rightarrow> bool" where
  "include_platform_defaults p \<longleftrightarrow> \<not> has_full_disk_read_access p \<and> kind p = Restricted \<and>
     list_ex (\<lambda>e. entry_path e = Special Minimal \<and> can_read (entry_access e)) (entries p)"

section \<open>Access to one path\<close>

definition resolve_file_system_special_path :: "host_fs \<Rightarrow> special_path \<Rightarrow> path_uri option \<Rightarrow> path_uri option" where
  "resolve_file_system_special_path h s cwd = (case s of
       RootPath \<Rightarrow> None
     | Minimal \<Rightarrow> None
     | UnknownPath _ _ \<Rightarrow> None
     | ProjectRoots subpath \<Rightarrow> (case cwd of
           None \<Rightarrow> None
         | Some c \<Rightarrow> (case subpath of
               Some sub \<Rightarrow> Some (resolve_path_against_base h sub c)
             | None \<Rightarrow> Some c))
     | Tmpdir \<Rightarrow> (case tmpdir_var h of
           None \<Rightarrow> None
         | Some t \<Rightarrow> if t = [] then None else abs_path h t)
     | SlashTmp \<Rightarrow> if path_is_dir h [lit ''tmp''] then Some [lit ''tmp''] else None)"

definition resolve_file_system_path :: "host_fs \<Rightarrow> fs_path \<Rightarrow> path_uri option \<Rightarrow> path_uri option" where
  "resolve_file_system_path h f cwd = (case f of
       AtPath p \<Rightarrow> Some p
     | GlobPattern _ \<Rightarrow> None
     | Special s \<Rightarrow> resolve_file_system_special_path h s cwd)"

text \<open>The root of a Unix path is the empty list of components.\<close>

definition absolute_root_path_for_cwd :: "path_uri \<Rightarrow> path_uri" where
  "absolute_root_path_for_cwd cwd = last (ancestors cwd)"

definition resolve_entry_path :: "host_fs \<Rightarrow> fs_path \<Rightarrow> path_uri option \<Rightarrow> path_uri option" where
  "resolve_entry_path h f cwd = (case f of
       Special RootPath \<Rightarrow> map_option absolute_root_path_for_cwd cwd
     | _ \<Rightarrow> resolve_file_system_path h f cwd)"

record resolved_entry =
  res_path :: path_uri
  res_access :: access_mode

definition resolved_entries_with_cwd :: "host_fs \<Rightarrow> sandbox_policy \<Rightarrow> ustr \<Rightarrow> resolved_entry list" where
  "resolved_entries_with_cwd h p cwd =
     List.map_filter (\<lambda>e. map_option (\<lambda>q. \<lparr>res_path = q, res_access = entry_access e\<rparr>)
       (resolve_entry_path h (entry_path e) (abs_path h cwd))) (entries p)"

definition resolve_candidate_path :: "host_fs \<Rightarrow> ustr \<Rightarrow> ustr \<Rightarrow> path_uri option" where
  "resolve_candidate_path h p cwd =
     (if is_absolute p then abs_path h p
      else map_option (resolve_path_against_base h p) (abs_path h cwd))"

text \<open>\<open>components().count()\<close> counts the root too.\<close>

definition resolved_entry_precedence :: "resolved_entry \<Rightarrow> nat \<times> access_mode" where
  "resolved_entry_precedence e = (Suc (length (res_path e)), res_access e)"

definition precedence_le :: "nat \<times> access_mode \<Rightarrow> nat \<times> access_mode \<Rightarrow> bool" where
  "precedence_le a b \<longleftrightarrow> fst a < fst b \<or> fst a = fst b \<and> snd a \<le> snd b"

text \<open>\<open>Iterator::max_by_key\<close>: the last of the greatest elements.\<close>

fun max_entry :: "resolved_entry option \<Rightarrow> resolved_entry list \<Rightarrow> resolved_entry option" where
  "max_entry best [] = best"
| "max_entry best (e # es) = max_entry (case best of
       None \<Rightarrow> Some e
     | Some b \<Rightarrow> if precedence_le (resolved_entry_precedence b) (resolved_entry_precedence e) then Some e else Some b) es"

definition resolve_access_with_cwd :: "host_fs \<Rightarrow> sandbox_policy \<Rightarrow> ustr \<Rightarrow> ustr \<Rightarrow> access_mode" where
  "resolve_access_with_cwd h p path cwd =
     (if kind p \<noteq> Restricted then Write
      else case resolve_candidate_path h path cwd of
          None \<Rightarrow> Deny
        | Some q \<Rightarrow>
            (case max_entry None (filter (\<lambda>e. path_starts_with q (res_path e)) (resolved_entries_with_cwd h p cwd)) of
               None \<Rightarrow> Deny
             | Some e \<Rightarrow> res_access e))"

definition can_read_path_with_cwd :: "host_fs \<Rightarrow> sandbox_policy \<Rightarrow> ustr \<Rightarrow> ustr \<Rightarrow> bool" where
  "can_read_path_with_cwd h p path cwd = can_read (resolve_access_with_cwd h p path cwd)"

section \<open>Protected metadata\<close>

definition PROTECTED_METADATA_PATH_NAMES :: "ustr list" where
  "PROTECTED_METADATA_PATH_NAMES = map lit [''.git'', ''.agents'', ''.codex'', ''.dsx'']"

definition is_protected_metadata_name :: "ustr \<Rightarrow> bool" where
  "is_protected_metadata_name n = list_ex (\<lambda>m. n = m) PROTECTED_METADATA_PATH_NAMES"

definition metadata_path_name :: "ustr \<Rightarrow> ustr option" where
  "metadata_path_name n = List.find (\<lambda>m. n = m) PROTECTED_METADATA_PATH_NAMES"

definition metadata_child :: "path_uri \<Rightarrow> resolved_entry \<Rightarrow> (path_uri \<times> ustr) option" where
  "metadata_child target e =
     (if \<not> can_write (res_access e) then None
      else case path_strip_prefix target (res_path e) of
          Some (first # _) \<Rightarrow> map_option (\<lambda>m. (res_path e @ [m], m)) (metadata_path_name first)
        | _ \<Rightarrow> None)"

definition metadata_child_of_writable_root ::
  "host_fs \<Rightarrow> sandbox_policy \<Rightarrow> path_uri \<Rightarrow> ustr \<Rightarrow> (path_uri \<times> ustr) option" where
  "metadata_child_of_writable_root h p target cwd =
     (case List.map_filter (metadata_child target) (resolved_entries_with_cwd h p cwd) of
        [] \<Rightarrow> None
      | x # _ \<Rightarrow> Some x)"

definition has_explicit_write_entry_for_metadata_path ::
  "host_fs \<Rightarrow> sandbox_policy \<Rightarrow> path_uri \<Rightarrow> path_uri \<Rightarrow> ustr \<Rightarrow> bool" where
  "has_explicit_write_entry_for_metadata_path h p protected target cwd =
     list_ex (\<lambda>e. can_write (res_access e) \<and> path_starts_with target (res_path e) \<and>
       path_starts_with (res_path e) protected) (resolved_entries_with_cwd h p cwd)"

definition is_metadata_write_denied :: "host_fs \<Rightarrow> sandbox_policy \<Rightarrow> ustr \<Rightarrow> ustr \<Rightarrow> bool" where
  "is_metadata_write_denied h p path cwd =
     (if kind p \<noteq> Restricted then False
      else case resolve_candidate_path h path cwd of
          None \<Rightarrow> True
        | Some target \<Rightarrow>
            (case metadata_child_of_writable_root h p target cwd of
               None \<Rightarrow> False
             | Some (protected, _) \<Rightarrow> \<not> has_explicit_write_entry_for_metadata_path h p protected target cwd))"

definition can_write_path_with_cwd :: "host_fs \<Rightarrow> sandbox_policy \<Rightarrow> ustr \<Rightarrow> ustr \<Rightarrow> bool" where
  "can_write_path_with_cwd h p path cwd =
     (if \<not> can_write (resolve_access_with_cwd h p path cwd) then False
      else if has_full_disk_write_access p then True
      else \<not> is_metadata_write_denied h p path cwd)"

definition forbidden_agent_metadata_write :: "host_fs \<Rightarrow> ustr \<Rightarrow> ustr \<Rightarrow> sandbox_policy \<Rightarrow> ustr option" where
  "forbidden_agent_metadata_write h path cwd p =
     (if kind p \<noteq> Restricted then None
      else case resolve_candidate_path h path cwd of
          None \<Rightarrow> None
        | Some target \<Rightarrow>
            (case metadata_child_of_writable_root h p target cwd of
               None \<Rightarrow> None
             | Some (protected, name) \<Rightarrow>
                 if has_explicit_write_entry_for_metadata_path h p protected target cwd then None
                 else if \<not> can_write_path_with_cwd h p (native_string target) cwd then Some name
                 else None))"

section \<open>Building policies\<close>

definition append_default_read_only_entry_if_no_explicit_rule :: "fs_path \<Rightarrow> sandbox_entry list \<Rightarrow> sandbox_entry list" where
  "append_default_read_only_entry_if_no_explicit_rule f es =
     (if list_ex (\<lambda>e. file_system_paths_share_target (entry_path e) f) es then es
      else es @ [entry_of f Read])"

fun dedup_loop :: "path_uri list \<Rightarrow> path_uri list \<Rightarrow> path_uri list" where
  "dedup_loop seen [] = []"
| "dedup_loop seen (q # qs) =
     (if list_ex (\<lambda>r. r = q) seen then dedup_loop seen qs else q # dedup_loop (q # seen) qs)"

definition dedup_absolute_paths :: "host_fs \<Rightarrow> bool \<Rightarrow> path_uri list \<Rightarrow> path_uri list" where
  "dedup_absolute_paths h normalize_effective qs =
     dedup_loop [] (if normalize_effective then map (normalize_effective_absolute_path h) qs else qs)"

definition split_colon :: "ustr \<Rightarrow> (ustr \<times> ustr) option" where
  "split_colon t = (case split_on 58 t of [_] \<Rightarrow> None | c # cs \<Rightarrow> Some (c, join_with [58] cs) | [] \<Rightarrow> None)"

definition resolve_gitdir_from_file :: "host_fs \<Rightarrow> path_uri \<Rightarrow> path_uri option" where
  "resolve_gitdir_from_file h dot_git = (case file_text h dot_git of
       None \<Rightarrow> None
     | Some contents \<Rightarrow> (case split_colon (trim contents) of
          None \<Rightarrow> None
        | Some (pre, raw) \<Rightarrow>
            if trim pre \<noteq> lit ''gitdir'' then None
            else if trim raw = [] then None
            else if dot_git = [] then None
            else let gitdir = resolve_path_against_base h (trim raw) (butlast dot_git) in
              if path_exists h gitdir then Some gitdir else None))"

definition is_git_pointer_file :: "host_fs \<Rightarrow> path_uri \<Rightarrow> bool" where
  "is_git_pointer_file h p \<longleftrightarrow> path_is_file h p \<and> file_name p = Some (lit ''.git'')"

definition default_read_only_subpaths_for_writable_root :: "host_fs \<Rightarrow> path_uri \<Rightarrow> bool \<Rightarrow> path_uri list" where
  "default_read_only_subpaths_for_writable_root h root protect_missing =
     (let git = root @ [lit ''.git'']; agents = root @ [lit ''.agents''];
          codex = root @ [lit ''.codex'']; dsx = root @ [lit ''.dsx''] in
      dedup_absolute_paths h False
       ((if path_is_dir h git \<or> path_is_file h git then
           (if path_is_file h git \<and> is_git_pointer_file h git
            then (case resolve_gitdir_from_file h git of Some g \<Rightarrow> [g] | None \<Rightarrow> []) else []) @ [git]
         else []) @
        (if path_is_dir h agents then [agents] else []) @
        (if protect_missing \<or> path_is_dir h codex then [codex] else []) @
        (if protect_missing \<or> path_is_dir h dsx then [dsx] else [])))"

definition protect_root :: "host_fs \<Rightarrow> bool \<Rightarrow> path_uri \<Rightarrow> sandbox_entry list \<Rightarrow> sandbox_entry list" where
  "protect_root h protect_missing root es =
     fold (\<lambda>q. append_default_read_only_entry_if_no_explicit_rule (AtPath q))
       (default_read_only_subpaths_for_writable_root h root protect_missing) es"

definition workspace_entries :: "path_uri list \<Rightarrow> bool \<Rightarrow> bool \<Rightarrow> sandbox_entry list" where
  "workspace_entries roots exclude_tmpdir exclude_slash_tmp =
     [entry_of (Special RootPath) Read, entry_of (Special (ProjectRoots None)) Write] @
     (if exclude_slash_tmp then [] else [entry_of (Special SlashTmp) Write]) @
     (if exclude_tmpdir then [] else [entry_of (Special Tmpdir) Write]) @
     map (\<lambda>q. entry_of (AtPath q) Write) roots"

definition workspace_write :: "host_fs \<Rightarrow> path_uri list \<Rightarrow> bool \<Rightarrow> bool \<Rightarrow> sandbox_policy" where
  "workspace_write h roots exclude_tmpdir exclude_slash_tmp =
     restricted (fold (protect_root h False) roots
       (fold (\<lambda>n. append_default_read_only_entry_if_no_explicit_rule (Special (ProjectRoots (Some n))))
          PROTECTED_METADATA_PATH_NAMES (workspace_entries roots exclude_tmpdir exclude_slash_tmp)))"

datatype legacy_policy =
    DangerFullAccess
  | ReadOnlyPolicy bool
  | ExternalSandbox network_sandbox_policy
  | WorkspaceWrite "path_uri list" bool bool bool

fun has_full_network_access :: "legacy_policy \<Rightarrow> bool" where
  "has_full_network_access DangerFullAccess = True"
| "has_full_network_access (ExternalSandbox n) = net_is_enabled n"
| "has_full_network_access (ReadOnlyPolicy n) = n"
| "has_full_network_access (WorkspaceWrite _ n _ _) = n"

definition network_of_legacy :: "legacy_policy \<Rightarrow> network_sandbox_policy" where
  "network_of_legacy l = (if has_full_network_access l then NetEnabled else NetRestricted)"

fun from_legacy :: "host_fs \<Rightarrow> legacy_policy \<Rightarrow> sandbox_policy" where
  "from_legacy h DangerFullAccess = unrestricted"
| "from_legacy h (ExternalSandbox _) = external_sandbox"
| "from_legacy h (ReadOnlyPolicy _) = restricted [entry_of (Special RootPath) Read]"
| "from_legacy h (WorkspaceWrite roots _ exclude_tmpdir exclude_slash_tmp) =
     workspace_write h roots exclude_tmpdir exclude_slash_tmp"

definition from_legacy_sandbox_policy_for_cwd :: "host_fs \<Rightarrow> legacy_policy \<Rightarrow> ustr \<Rightarrow> sandbox_policy" where
  "from_legacy_sandbox_policy_for_cwd h l cwd =
     (let p = from_legacy h l in
      case l of
        WorkspaceWrite roots _ _ _ \<Rightarrow>
          let es = (case abs_path h cwd of Some c \<Rightarrow> protect_root h True c (entries p) | None \<Rightarrow> entries p)
          in p\<lparr>entries := fold (protect_root h False) roots es\<rparr>
      | _ \<Rightarrow> p)"

definition add_missing_denies :: "sandbox_entry list \<Rightarrow> sandbox_entry list \<Rightarrow> sandbox_entry list" where
  "add_missing_denies existing es =
     fold (\<lambda>d es. if list_ex (\<lambda>e. e = d) es then es else es @ [d])
       (filter (\<lambda>e. entry_access e = Deny) existing) es"

definition from_legacy_sandbox_policy_preserving_deny_entries ::
  "host_fs \<Rightarrow> legacy_policy \<Rightarrow> ustr \<Rightarrow> sandbox_policy \<Rightarrow> sandbox_policy" where
  "from_legacy_sandbox_policy_preserving_deny_entries h l cwd existing =
     (let rebuilt = from_legacy_sandbox_policy_for_cwd h l cwd in
      if kind rebuilt \<noteq> Restricted then rebuilt
      else rebuilt\<lparr>glob_scan_max_depth := glob_scan_max_depth existing,
                   entries := add_missing_denies (entries existing) (entries rebuilt)\<rparr>)"

definition preserve_deny_read_restrictions_from :: "sandbox_policy \<Rightarrow> sandbox_policy \<Rightarrow> sandbox_policy" where
  "preserve_deny_read_restrictions_from p existing =
     (let has_deny = list_ex (\<lambda>e. entry_access e = Deny) (entries existing);
          p1 = (if kind p = Unrestricted \<and> has_deny
                then restricted [entry_of (Special RootPath) Write] else p)
      in if kind p1 \<noteq> Restricted then p1
         else p1\<lparr>glob_scan_max_depth := (case glob_scan_max_depth p1 of
                     None \<Rightarrow> glob_scan_max_depth existing | Some d \<Rightarrow> Some d),
                 entries := add_missing_denies (entries existing) (entries p1)\<rparr>)"

section \<open>Back to the legacy policies\<close>

record legacy_scan =
  workspace_root_writable :: bool
  scan_roots :: "path_uri list"
  tmpdir_writable :: bool
  slash_tmp_writable :: bool
  unbridgeable_root_write :: bool

definition scan_entry :: "host_fs \<Rightarrow> path_uri option \<Rightarrow> sandbox_entry \<Rightarrow> legacy_scan \<Rightarrow> legacy_scan" where
  "scan_entry h cwd e s =
     (let w = can_write (entry_access e) in
      case entry_path e of
        GlobPattern _ \<Rightarrow> s
      | AtPath q \<Rightarrow>
          if w then
            (if cwd = Some q then s\<lparr>workspace_root_writable := True\<rparr>
             else s\<lparr>scan_roots := scan_roots s @ [q]\<rparr>)
          else s
      | Special v \<Rightarrow> (case v of
            RootPath \<Rightarrow> if w then s\<lparr>unbridgeable_root_write := True\<rparr> else s
          | Minimal \<Rightarrow> s
          | ProjectRoots sub \<Rightarrow>
              if sub = None \<and> w then s\<lparr>workspace_root_writable := True\<rparr>
              else (case resolve_file_system_special_path h v cwd of
                      Some q \<Rightarrow> if w then s\<lparr>scan_roots := scan_roots s @ [q]\<rparr> else s
                    | None \<Rightarrow> s)
          | Tmpdir \<Rightarrow> if w then s\<lparr>tmpdir_writable := True\<rparr> else s
          | SlashTmp \<Rightarrow> if w then s\<lparr>slash_tmp_writable := True\<rparr> else s
          | UnknownPath _ _ \<Rightarrow> s))"

definition empty_scan :: legacy_scan where
  "empty_scan = \<lparr>workspace_root_writable = False, scan_roots = [], tmpdir_writable = False,
     slash_tmp_writable = False, unbridgeable_root_write = False\<rparr>"

definition full_access_legacy :: "network_sandbox_policy \<Rightarrow> legacy_policy" where
  "full_access_legacy n = (if net_is_enabled n then DangerFullAccess else ExternalSandbox NetRestricted)"

definition to_legacy_sandbox_policy ::
  "host_fs \<Rightarrow> sandbox_policy \<Rightarrow> network_sandbox_policy \<Rightarrow> ustr \<Rightarrow> (ustr, legacy_policy) result" where
  "to_legacy_sandbox_policy h p n cwd = (case kind p of
       ExternalSandboxKind \<Rightarrow> Ok (ExternalSandbox (if net_is_enabled n then NetEnabled else NetRestricted))
     | Unrestricted \<Rightarrow> Ok (full_access_legacy n)
     | Restricted \<Rightarrow>
         let s = fold (scan_entry h (abs_path h cwd)) (entries p) empty_scan in
         if has_full_disk_write_access p then Ok (full_access_legacy n)
         else if workspace_root_writable s then
           Ok (WorkspaceWrite (dedup_absolute_paths h False (scan_roots s)) (net_is_enabled n)
                 (\<not> tmpdir_writable s) (\<not> slash_tmp_writable s))
         else if unbridgeable_root_write s \<or> scan_roots s \<noteq> [] \<or> tmpdir_writable s \<or> slash_tmp_writable s then
           Err (lit ''permissions profile requests filesystem writes outside the workspace root, which is not supported until the runtime enforces FileSystemSandboxPolicy directly'')
         else Ok (ReadOnlyPolicy (net_is_enabled n)))"

section \<open>Project roots and additional roots\<close>

definition PROJECT_ROOTS_GLOB_PATTERN_PREFIX :: ustr where
  "PROJECT_ROOTS_GLOB_PATTERN_PREFIX = lit ''codex-project-roots://''"

definition project_roots_glob_pattern :: "ustr \<Rightarrow> ustr" where
  "project_roots_glob_pattern sub = PROJECT_ROOTS_GLOB_PATTERN_PREFIX @ sub"

definition parse_project_roots_glob_pattern :: "ustr \<Rightarrow> ustr option" where
  "parse_project_roots_glob_pattern pat = strip_prefix PROJECT_ROOTS_GLOB_PATTERN_PREFIX pat"

definition resolve_project_roots_glob_pattern :: "host_fs \<Rightarrow> ustr \<Rightarrow> path_uri \<Rightarrow> ustr" where
  "resolve_project_roots_glob_pattern h sub root = native_string (resolve_path_against_base h sub root)"

definition materialize_entry_with_cwd :: "host_fs \<Rightarrow> path_uri option \<Rightarrow> sandbox_entry \<Rightarrow> sandbox_entry" where
  "materialize_entry_with_cwd h cwd e = (case entry_path e of
       Special (ProjectRoots _) \<Rightarrow> (case resolve_file_system_path h (entry_path e) cwd of
           Some q \<Rightarrow> e\<lparr>entry_path := AtPath q\<rparr>
         | None \<Rightarrow> e)
     | GlobPattern pat \<Rightarrow> (case (cwd, parse_project_roots_glob_pattern pat) of
           (Some c, Some sub) \<Rightarrow> e\<lparr>entry_path := GlobPattern (resolve_project_roots_glob_pattern h sub c)\<rparr>
         | _ \<Rightarrow> e)
     | _ \<Rightarrow> e)"

definition materialize_project_roots_with_cwd :: "host_fs \<Rightarrow> sandbox_policy \<Rightarrow> ustr \<Rightarrow> sandbox_policy" where
  "materialize_project_roots_with_cwd h p cwd =
     p\<lparr>entries := map (materialize_entry_with_cwd h (abs_path h cwd)) (entries p)\<rparr>"

definition materialize_entry :: "host_fs \<Rightarrow> path_uri list \<Rightarrow> sandbox_entry \<Rightarrow> sandbox_entry list" where
  "materialize_entry h roots e = (case entry_path e of
       Special (ProjectRoots sub) \<Rightarrow>
         map (\<lambda>r. entry_of (AtPath (case sub of Some s \<Rightarrow> resolve_path_against_base h s r | None \<Rightarrow> r)) (entry_access e)) roots
     | GlobPattern pat \<Rightarrow> (case parse_project_roots_glob_pattern pat of
           Some sub \<Rightarrow> map (\<lambda>r. entry_of (GlobPattern (resolve_project_roots_glob_pattern h sub r)) (entry_access e)) roots
         | None \<Rightarrow> [e])
     | _ \<Rightarrow> [e])"

definition materialize_project_roots_with_workspace_roots :: "host_fs \<Rightarrow> sandbox_policy \<Rightarrow> path_uri list \<Rightarrow> sandbox_policy" where
  "materialize_project_roots_with_workspace_roots h p roots =
     p\<lparr>entries := concat (map (materialize_entry h roots) (entries p))\<rparr>"

definition with_materialized_project_roots_for_workspace_roots :: "host_fs \<Rightarrow> sandbox_policy \<Rightarrow> path_uri list \<Rightarrow> sandbox_policy" where
  "with_materialized_project_roots_for_workspace_roots h p roots =
     p\<lparr>entries := fold (\<lambda>e es. if list_ex (\<lambda>x. x = e) es then es else es @ [e])
        (entries (materialize_project_roots_with_workspace_roots h p roots)) (entries p)\<rparr>"

definition with_additional_readable_roots :: "host_fs \<Rightarrow> sandbox_policy \<Rightarrow> ustr \<Rightarrow> path_uri list \<Rightarrow> sandbox_policy" where
  "with_additional_readable_roots h p cwd roots =
     (if has_full_disk_read_access p then p
      else fold (\<lambda>q p. if can_read_path_with_cwd h p (native_string q) cwd then p
                       else p\<lparr>entries := entries p @ [entry_of (AtPath q) Read]\<rparr>) roots p)"

definition with_additional_writable_roots :: "host_fs \<Rightarrow> sandbox_policy \<Rightarrow> ustr \<Rightarrow> path_uri list \<Rightarrow> sandbox_policy" where
  "with_additional_writable_roots h p cwd roots =
     fold (\<lambda>q p. if can_write_path_with_cwd h p (native_string q) cwd then p
                 else p\<lparr>entries := entries p @ [entry_of (AtPath q) Write]\<rparr>) roots p"

definition with_additional_legacy_workspace_writable_roots :: "host_fs \<Rightarrow> sandbox_policy \<Rightarrow> path_uri list \<Rightarrow> sandbox_policy" where
  "with_additional_legacy_workspace_writable_roots h p roots =
     (if kind p \<noteq> Restricted then p
      else p\<lparr>entries := fold (\<lambda>q es. protect_root h False q
               (if list_ex (\<lambda>e. can_write (entry_access e) \<and> entry_path e = AtPath q) es then es
                else es @ [entry_of (AtPath q) Write])) roots (entries p)\<rparr>)"

section \<open>The roots a sandbox enforces\<close>

definition get_readable_roots_with_cwd :: "host_fs \<Rightarrow> sandbox_policy \<Rightarrow> ustr \<Rightarrow> path_uri list" where
  "get_readable_roots_with_cwd h p cwd =
     (if has_full_disk_read_access p then []
      else dedup_absolute_paths h True (map res_path
        (filter (\<lambda>e. can_read (res_access e) \<and> can_read_path_with_cwd h p (native_string (res_path e)) cwd)
          (resolved_entries_with_cwd h p cwd))))"

definition get_unreadable_roots_with_cwd :: "host_fs \<Rightarrow> sandbox_policy \<Rightarrow> ustr \<Rightarrow> path_uri list" where
  "get_unreadable_roots_with_cwd h p cwd =
     (if kind p \<noteq> Restricted then []
      else dedup_absolute_paths h True (map res_path
        (filter (\<lambda>e. res_access e = Deny \<and> \<not> can_read_path_with_cwd h p (native_string (res_path e)) cwd \<and>
             map_option absolute_root_path_for_cwd (abs_path h cwd) \<noteq> Some (res_path e))
          (resolved_entries_with_cwd h p cwd))))"

record writable_root =
  wr_root :: path_uri
  read_only_subpaths :: "path_uri list"
  protected_metadata_names :: "ustr list"

definition protected_metadata_names_for_writable_root ::
  "host_fs \<Rightarrow> sandbox_policy \<Rightarrow> path_uri \<Rightarrow> path_uri list \<Rightarrow> ustr \<Rightarrow> ustr list" where
  "protected_metadata_names_for_writable_root h p root raw_roots cwd =
     filter (\<lambda>n. list_all (\<lambda>r. \<not> can_write_path_with_cwd h p (native_string (r @ [n])) cwd) (root # raw_roots))
       PROTECTED_METADATA_PATH_NAMES"

definition raw_carveout_path :: "host_fs \<Rightarrow> path_uri \<Rightarrow> path_uri list \<Rightarrow> path_uri \<Rightarrow> path_uri option" where
  "raw_carveout_path h root raw_roots q =
     (if root = [] then None
      else if q = root then None
      else if path_starts_with q root then Some q
      else (case List.map_filter (\<lambda>r. case path_strip_prefix q r of
                Some suffix \<Rightarrow> if suffix = [] then None
                  else Some (resolve_path_against_base h (join_with [SLASH] suffix) root)
              | None \<Rightarrow> None) raw_roots of
              [] \<Rightarrow> None
            | x # _ \<Rightarrow> Some x))"

definition carveout :: "host_fs \<Rightarrow> path_uri \<Rightarrow> path_uri list \<Rightarrow> path_uri \<Rightarrow> path_uri option" where
  "carveout h root raw_roots q =
     (case raw_carveout_path h root raw_roots q of
        Some c \<Rightarrow> Some c
      | None \<Rightarrow>
          let eff = normalize_effective_absolute_path h q in
          if eff = root \<or> \<not> path_starts_with eff root then None else Some eff)"

definition writable_root_for :: "host_fs \<Rightarrow> sandbox_policy \<Rightarrow> ustr \<Rightarrow> path_uri list \<Rightarrow> path_uri \<Rightarrow> writable_root" where
  "writable_root_for h p cwd writable_entries root =
     (let resolved = resolved_entries_with_cwd h p cwd;
          raw_roots = filter (\<lambda>q. normalize_effective_absolute_path h q = root) writable_entries;
          protect_missing = (case abs_path h cwd of
              Some c \<Rightarrow> normalize_effective_absolute_path h c = root | None \<Rightarrow> False);
          defaults = filter (\<lambda>q. \<not> list_ex (\<lambda>e. res_path e = q) resolved)
              (default_read_only_subpaths_for_writable_root h root protect_missing);
          carveouts = List.map_filter (\<lambda>e. carveout h root raw_roots (res_path e))
              (filter (\<lambda>e. \<not> can_write (res_access e) \<and>
                 \<not> can_write_path_with_cwd h p (native_string (res_path e)) cwd) resolved)
      in \<lparr>wr_root = root,
          read_only_subpaths = dedup_absolute_paths h False (defaults @ carveouts),
          protected_metadata_names = protected_metadata_names_for_writable_root h p root raw_roots cwd\<rparr>)"

definition get_writable_roots_with_cwd :: "host_fs \<Rightarrow> sandbox_policy \<Rightarrow> ustr \<Rightarrow> writable_root list" where
  "get_writable_roots_with_cwd h p cwd =
     (if has_full_disk_write_access p then []
      else let writable_entries = map res_path (filter (\<lambda>e. can_write (res_access e) \<and>
                 can_write_path_with_cwd h p (native_string (res_path e)) cwd) (resolved_entries_with_cwd h p cwd))
           in map (writable_root_for h p cwd writable_entries) (dedup_absolute_paths h True writable_entries))"

definition path_contains_protected_metadata_name :: "writable_root \<Rightarrow> path_uri \<Rightarrow> bool" where
  "path_contains_protected_metadata_name w q =
     (case path_strip_prefix q (wr_root w) of
        Some (first # _) \<Rightarrow> list_ex (\<lambda>n. first = n) (protected_metadata_names w)
      | _ \<Rightarrow> False)"

definition is_path_writable :: "writable_root \<Rightarrow> path_uri \<Rightarrow> bool" where
  "is_path_writable w q \<longleftrightarrow> path_starts_with q (wr_root w) \<and>
     \<not> list_ex (\<lambda>sub. path_starts_with q sub) (read_only_subpaths w) \<and>
     \<not> path_contains_protected_metadata_name w q"

end
