(* ===== verification/Exec_Approval.thy ===== *)
theory Exec_Approval
  imports Exec_Policy_Builder Command_Safety_Correct Fs_Permissions
begin

text \<open>
  Whether a command needs approval: \<open>core/src/exec_policy.rs\<close>, which puts the rules of
  \<open>execpolicy\<close>, the safe and dangerous lists of \<open>shell-command\<close> and the permission profile together,
  on a Unix host (\<open>windows_sandbox_level\<close> and PowerShell words do not occur there). The shell
  quoting of the \<open>shlex\<close> crate and the JSON quoting of \<open>serde\<close> are the parameters \<open>shlex_join\<close> and
  \<open>json\<close>, the bash grammar is \<open>parse_tree\<close>.
\<close>

section \<open>Settings\<close>

record granular_config =
  sandbox_approval :: bool
  rules_approval :: bool
  skill_approval :: bool
  request_permissions :: bool
  mcp_elicitations :: bool

datatype ask_for_approval = UnlessTrusted | OnRequest | Granular granular_config | Never

datatype managed_fs = ManagedRestricted "sandbox_entry list" "nat option" | ManagedUnrestricted

datatype permission_profile =
    Managed managed_fs network_sandbox_policy
  | DisabledProfile
  | ExternalProfile network_sandbox_policy

fun to_sandbox_policy :: "managed_fs \<Rightarrow> sandbox_policy" where
  "to_sandbox_policy (ManagedRestricted es depth) = \<lparr>kind = Restricted, glob_scan_max_depth = depth, entries = es\<rparr>"
| "to_sandbox_policy ManagedUnrestricted = unrestricted"

fun file_system_sandbox_policy :: "permission_profile \<Rightarrow> sandbox_policy" where
  "file_system_sandbox_policy (Managed fs _) = to_sandbox_policy fs"
| "file_system_sandbox_policy DisabledProfile = unrestricted"
| "file_system_sandbox_policy (ExternalProfile _) = external_sandbox"

fun profile_network_policy :: "permission_profile \<Rightarrow> network_sandbox_policy" where
  "profile_network_policy (Managed _ n) = n"
| "profile_network_policy (ExternalProfile n) = n"
| "profile_network_policy DisabledProfile = NetEnabled"

datatype sandbox_permissions = UseDefault | RequireEscalated | WithAdditionalPermissions

definition requires_escalated_permissions :: "sandbox_permissions \<Rightarrow> bool" where
  "requires_escalated_permissions s \<longleftrightarrow> s = RequireEscalated"

definition requests_sandbox_override :: "sandbox_permissions \<Rightarrow> bool" where
  "requests_sandbox_override s \<longleftrightarrow> s \<noteq> UseDefault"

type_synonym amendment = "ustr list"

datatype exec_approval_requirement =
    Skip bool "amendment option"
  | NeedsApproval "ustr option" "amendment option"
  | ForbiddenExec ustr

section \<open>Commands no rule matches\<close>

record unmatched_context =
  approval_policy :: ask_for_approval
  permission_profile :: permission_profile
  sandbox_permissions :: sandbox_permissions
  used_complex_parsing :: bool

definition fs_kind_decision :: "unmatched_context \<Rightarrow> decision" where
  "fs_kind_decision ctx = (case kind (file_system_sandbox_policy (permission_profile ctx)) of
       Restricted \<Rightarrow> if requests_sandbox_override (sandbox_permissions ctx) then Prompt else Allow
     | _ \<Rightarrow> Allow)"

definition render_decision_for_unmatched_command ::
  "bool \<Rightarrow> (ustr \<Rightarrow> ts_tree option) \<Rightarrow> unmatched_context \<Rightarrow> ustr list \<Rightarrow> decision" where
  "render_decision_for_unmatched_command linux parse_tree ctx command =
     (if is_known_safe_command linux parse_tree command \<and> \<not> used_complex_parsing ctx \<and>
         approval_policy ctx = UnlessTrusted
      then Allow
      else if command_might_be_dangerous parse_tree command then
        (case approval_policy ctx of
           Never \<Rightarrow> (case permission_profile ctx of
               DisabledProfile \<Rightarrow> Allow
             | ExternalProfile _ \<Rightarrow> Allow
             | Managed _ _ \<Rightarrow> Forbidden)
         | _ \<Rightarrow> Prompt)
      else (case approval_policy ctx of
           Never \<Rightarrow> Allow
         | UnlessTrusted \<Rightarrow> Prompt
         | OnRequest \<Rightarrow> fs_kind_decision ctx
         | Granular _ \<Rightarrow> fs_kind_decision ctx))"

record exec_policy_commands =
  commands :: "ustr list list"
  complex_parsing :: bool

definition commands_for_exec_policy :: "(ustr \<Rightarrow> ts_tree option) \<Rightarrow> ustr list \<Rightarrow> exec_policy_commands" where
  "commands_for_exec_policy parse_tree command =
     (case parse_shell_lc_plain_commands parse_tree command of
        Some (c # cs) \<Rightarrow> \<lparr>commands = c # cs, complex_parsing = False\<rparr>
      | _ \<Rightarrow>
          (case parse_shell_lc_single_command_prefix parse_tree command of
             Some single \<Rightarrow> \<lparr>commands = [single], complex_parsing = True\<rparr>
           | None \<Rightarrow> \<lparr>commands = [command], complex_parsing = False\<rparr>))"

section \<open>Amendments\<close>

fun is_policy_match :: "rule_match \<Rightarrow> bool" where
  "is_policy_match (PrefixRuleMatch _ _ _ _) = True"
| "is_policy_match (HeuristicsRuleMatch _ _) = False"

fun first_heuristics :: "decision \<Rightarrow> rule_match list \<Rightarrow> amendment option" where
  "first_heuristics d [] = None"
| "first_heuristics d (HeuristicsRuleMatch c d' # ms) = (if d' = d then Some c else first_heuristics d ms)"
| "first_heuristics d (PrefixRuleMatch _ _ _ _ # ms) = first_heuristics d ms"

definition try_derive_execpolicy_amendment_for_prompt_rules :: "rule_match list \<Rightarrow> amendment option" where
  "try_derive_execpolicy_amendment_for_prompt_rules ms =
     (if list_ex (\<lambda>m. is_policy_match m \<and> match_decision m = Prompt) ms then None else first_heuristics Prompt ms)"

definition try_derive_execpolicy_amendment_for_allow_rules :: "rule_match list \<Rightarrow> amendment option" where
  "try_derive_execpolicy_amendment_for_allow_rules ms =
     (if list_ex is_policy_match ms then None else first_heuristics Allow ms)"

definition BANNED_PREFIX_SUGGESTIONS :: "ustr list list" where
  "BANNED_PREFIX_SUGGESTIONS = map (map lit)
     [[''python3''], [''python3'', ''-''], [''python3'', ''-c''], [''python''], [''python'', ''-''], [''python'', ''-c''],
      [''py''], [''py'', ''-3''], [''pythonw''], [''pyw''], [''pypy''], [''pypy3''], [''git''],
      [''bash''], [''bash'', ''-lc''], [''sh''], [''sh'', ''-c''], [''sh'', ''-lc''], [''zsh''], [''zsh'', ''-lc''],
      [''/bin/zsh''], [''/bin/zsh'', ''-lc''], [''/bin/bash''], [''/bin/bash'', ''-lc''],
      [''pwsh''], [''pwsh'', ''-Command''], [''pwsh'', ''-c''], [''powershell''], [''powershell'', ''-Command''],
      [''powershell'', ''-c''], [''powershell.exe''], [''powershell.exe'', ''-Command''], [''powershell.exe'', ''-c''],
      [''env''], [''sudo''], [''node''], [''node'', ''-e''], [''perl''], [''perl'', ''-e''], [''ruby''], [''ruby'', ''-e''],
      [''php''], [''php'', ''-r''], [''lua''], [''lua'', ''-e''], [''osascript'']]"

definition prefix_rule_would_approve_all_commands ::
  "host_env \<Rightarrow> policy \<Rightarrow> ustr list \<Rightarrow> ustr list list \<Rightarrow> (ustr list \<Rightarrow> decision) \<Rightarrow> bool" where
  "prefix_rule_would_approve_all_commands env p prefix cmds fallback =
     (case (add_prefix_rule p prefix Allow :: (unit policy_error, policy) result) of
        Inl _ \<Rightarrow> False
      | Inr p' \<Rightarrow> list_all (\<lambda>cmd. (case check_with_options env p' cmd fallback True of
            Some e \<Rightarrow> decision_of e = Allow | None \<Rightarrow> False)) cmds)"

definition derive_requested_execpolicy_amendment_from_prefix_rule ::
  "host_env \<Rightarrow> ustr list option \<Rightarrow> rule_match list \<Rightarrow> policy \<Rightarrow> ustr list list \<Rightarrow> (ustr list \<Rightarrow> decision) \<Rightarrow> amendment option" where
  "derive_requested_execpolicy_amendment_from_prefix_rule env prefix_rule ms p cmds fallback = (case prefix_rule of
       None \<Rightarrow> None
     | Some prefix \<Rightarrow>
         if prefix = [] then None
         else if list_ex (\<lambda>b. prefix = b) BANNED_PREFIX_SUGGESTIONS then None
         else if list_ex is_policy_match ms then None
         else if prefix_rule_would_approve_all_commands env p prefix cmds fallback then Some prefix
         else None)"

section \<open>Reasons\<close>

definition PROMPT_CONFLICT_REASON :: ustr where
  "PROMPT_CONFLICT_REASON = lit ''approval required by policy, but AskForApproval is set to Never''"

definition REJECT_SANDBOX_APPROVAL_REASON :: ustr where
  "REJECT_SANDBOX_APPROVAL_REASON =
     lit ''approval required by policy, but AskForApproval::Granular.sandbox_approval is false''"

definition REJECT_RULES_APPROVAL_REASON :: ustr where
  "REJECT_RULES_APPROVAL_REASON =
     lit ''approval required by policy rule, but AskForApproval::Granular.rules is false''"

definition prompt_is_rejected_by_policy :: "ask_for_approval \<Rightarrow> bool \<Rightarrow> ustr option" where
  "prompt_is_rejected_by_policy a prompt_is_rule = (case a of
       Never \<Rightarrow> Some PROMPT_CONFLICT_REASON
     | OnRequest \<Rightarrow> None
     | UnlessTrusted \<Rightarrow> None
     | Granular g \<Rightarrow>
         if prompt_is_rule then (if rules_approval g then None else Some REJECT_RULES_APPROVAL_REASON)
         else if \<not> sandbox_approval g then Some REJECT_SANDBOX_APPROVAL_REASON
         else None)"

definition render_shlex_command :: "(ustr list \<Rightarrow> ustr option) \<Rightarrow> ustr list \<Rightarrow> ustr" where
  "render_shlex_command shlex_join args = (case shlex_join args of Some t \<Rightarrow> t | None \<Rightarrow> join_with [SPACE] args)"

text \<open>The prefix rules of one decision, with their prefix and justification; the last longest wins.\<close>

fun most_specific :: "decision \<Rightarrow> (ustr list \<times> ustr option) option \<Rightarrow> rule_match list \<Rightarrow> (ustr list \<times> ustr option) option" where
  "most_specific d best [] = best"
| "most_specific d best (PrefixRuleMatch pre d' _ j # ms) = most_specific d
     (if d' \<noteq> d then best
      else case best of
          Some (b, _) \<Rightarrow> if length b \<le> length pre then Some (pre, j) else best
        | None \<Rightarrow> Some (pre, j)) ms"
| "most_specific d best (HeuristicsRuleMatch _ _ # ms) = most_specific d best ms"

definition BACKTICK :: ustr where "BACKTICK = [96]"

definition derive_prompt_reason :: "(ustr list \<Rightarrow> ustr option) \<Rightarrow> ustr list \<Rightarrow> evaluation \<Rightarrow> ustr option" where
  "derive_prompt_reason shlex_join args e =
     (let command = render_shlex_command shlex_join args in
      case most_specific Prompt None (matched_rules e) of
        Some (_, Some j) \<Rightarrow> Some (BACKTICK @ command @ BACKTICK @ lit '' requires approval: '' @ j)
      | Some (_, None) \<Rightarrow> Some (BACKTICK @ command @ BACKTICK @ lit '' requires approval by policy'')
      | None \<Rightarrow> None)"

definition derive_forbidden_reason :: "(ustr list \<Rightarrow> ustr option) \<Rightarrow> ustr list \<Rightarrow> evaluation \<Rightarrow> ustr" where
  "derive_forbidden_reason shlex_join args e =
     (let command = render_shlex_command shlex_join args in
      case most_specific Forbidden None (matched_rules e) of
        Some (_, Some j) \<Rightarrow> BACKTICK @ command @ BACKTICK @ lit '' rejected: '' @ j
      | Some (pre, None) \<Rightarrow> BACKTICK @ command @ BACKTICK @ lit '' rejected: policy forbids commands starting with '' @
          BACKTICK @ render_shlex_command shlex_join pre @ BACKTICK
      | None \<Rightarrow> BACKTICK @ command @ BACKTICK @ lit '' rejected: blocked by policy'')"

section \<open>The manager\<close>

record exec_approval_request =
  req_command :: "ustr list"
  req_approval_policy :: ask_for_approval
  req_permission_profile :: permission_profile
  req_sandbox_permissions :: sandbox_permissions
  req_prefix_rule :: "ustr list option"

definition fallback_context :: "exec_approval_request \<Rightarrow> exec_policy_commands \<Rightarrow> unmatched_context" where
  "fallback_context req cs = \<lparr>approval_policy = req_approval_policy req, permission_profile = req_permission_profile req,
     sandbox_permissions = req_sandbox_permissions req, used_complex_parsing = complex_parsing cs\<rparr>"

text \<open>\<open>None\<close> is the panic of an evaluation with no matches.\<close>

definition create_exec_approval_requirement_for_command ::
  "host_env \<Rightarrow> bool \<Rightarrow> (ustr \<Rightarrow> ts_tree option) \<Rightarrow> (ustr list \<Rightarrow> ustr option) \<Rightarrow> policy \<Rightarrow>
     exec_approval_request \<Rightarrow> exec_approval_requirement option" where
  "create_exec_approval_requirement_for_command env linux parse_tree shlex_join p req =
     (let cs = commands_for_exec_policy parse_tree (req_command req);
          auto_amendment_allowed = \<not> complex_parsing cs;
          fallback = render_decision_for_unmatched_command linux parse_tree (fallback_context req cs)
      in case check_multiple_with_options env p (commands cs) fallback True of
           None \<Rightarrow> None
         | Some e \<Rightarrow>
             let requested = (if auto_amendment_allowed
                   then derive_requested_execpolicy_amendment_from_prefix_rule env (req_prefix_rule req)
                          (matched_rules e) p (commands cs) fallback
                   else None)
             in Some (case decision_of e of
                  Forbidden \<Rightarrow> ForbiddenExec (derive_forbidden_reason shlex_join (req_command req) e)
                | Prompt \<Rightarrow>
                    (case prompt_is_rejected_by_policy (req_approval_policy req)
                            (list_ex (\<lambda>m. is_policy_match m \<and> match_decision m = Prompt) (matched_rules e)) of
                       Some reason \<Rightarrow> ForbiddenExec reason
                     | None \<Rightarrow> NeedsApproval (derive_prompt_reason shlex_join (req_command req) e)
                         (case requested of
                            Some a \<Rightarrow> Some a
                          | None \<Rightarrow> if auto_amendment_allowed
                              then try_derive_execpolicy_amendment_for_prompt_rules (matched_rules e) else None))
                | Allow \<Rightarrow> Skip
                    (list_all (\<lambda>cmd. list_ex (\<lambda>m. is_policy_match m \<and> match_decision m = Allow)
                       (matches_for_command_with_options env p cmd None True)) (commands cs))
                    (if auto_amendment_allowed
                     then try_derive_execpolicy_amendment_for_allow_rules (matched_rules e) else None)))"

text \<open>The policy in memory and the text of \<open>default.rules\<close>; the semaphore orders the updates.\<close>

record exec_policy_manager =
  current_policy :: policy
  rules_file :: ustr

datatype update_error = AppendRule amend_error | AddRule "unit policy_error" | PolicyPanic

definition append_amendment_and_update ::
  "host_env \<Rightarrow> (ustr \<Rightarrow> ustr) \<Rightarrow> amendment \<Rightarrow> exec_policy_manager \<Rightarrow> update_error option \<times> exec_policy_manager" where
  "append_amendment_and_update env json a m =
     (case append_allow_prefix_rule json a (rules_file m) of
        Inl err \<Rightarrow> (Some (AppendRule err), m)
      | Inr contents \<Rightarrow>
          let m1 = m\<lparr>rules_file := contents\<rparr> in
          (case check_multiple_with_options env (current_policy m) [a] (\<lambda>_. Forbidden) True of
             None \<Rightarrow> (Some PolicyPanic, m1)
           | Some e \<Rightarrow>
               if decision_of e = Allow \<and> list_ex (\<lambda>r. is_policy_match r \<and> match_decision r = Allow) (matched_rules e)
               then (None, m1)
               else (case add_prefix_rule (current_policy m) a Allow of
                       Inl err \<Rightarrow> (Some (AddRule err), m1)
                     | Inr p \<Rightarrow> (None, m1\<lparr>current_policy := p\<rparr>))))"

definition append_network_rule_and_update ::
  "(ustr \<Rightarrow> ustr) \<Rightarrow> ustr \<Rightarrow> network_rule_protocol \<Rightarrow> decision \<Rightarrow> ustr option \<Rightarrow> exec_policy_manager \<Rightarrow>
     update_error option \<times> exec_policy_manager" where
  "append_network_rule_and_update json h proto d j m =
     (case append_network_rule json h proto d j (rules_file m) of
        Inl err \<Rightarrow> (Some (AppendRule err), m)
      | Inr contents \<Rightarrow>
          let m1 = m\<lparr>rules_file := contents\<rparr> in
          (case add_network_rule (current_policy m) h proto d j of
             Inl err \<Rightarrow> (Some (AddRule err), m1)
           | Inr p \<Rightarrow> (None, m1\<lparr>current_policy := p\<rparr>)))"

end
