(* ===== verification/Tool_Orchestrator.thy ===== *)
theory Tool_Orchestrator
  imports Exec_Approval
begin

text \<open>
  How a tool call is carried out: \<open>core/src/tools/orchestrator.rs\<close> and \<open>core/src/tools/sandboxing.rs\<close>
  (approval, choice of sandbox, attempt, retry), the sandbox selection of
  \<open>sandboxing/src/{manager,policy_transforms}.rs\<close>, and \<open>core/src/safety.rs\<close> for patches. A tool
  runtime and the people and hooks that answer are parameters; what happened is a list of events.
  Telemetry is left out.
\<close>

section \<open>Choosing a sandbox\<close>

datatype sandbox_type = NoSandbox | MacosSeatbelt | LinuxSeccomp | WindowsRestrictedToken

datatype sandbox_preference = Auto | Require | Forbid

datatype target_os = Macos | Linux | OtherUnix

definition get_platform_sandbox :: "target_os \<Rightarrow> sandbox_type option" where
  "get_platform_sandbox os = (case os of
       Macos \<Rightarrow> Some MacosSeatbelt | Linux \<Rightarrow> Some LinuxSeccomp | OtherUnix \<Rightarrow> None)"

definition should_require_platform_sandbox :: "sandbox_policy \<Rightarrow> network_sandbox_policy \<Rightarrow> bool \<Rightarrow> bool" where
  "should_require_platform_sandbox fs net managed_network =
     (if managed_network then True
      else if \<not> net_is_enabled net then kind fs \<noteq> ExternalSandboxKind
      else case kind fs of
          Restricted \<Rightarrow> \<not> has_full_disk_write_access fs
        | _ \<Rightarrow> False)"

definition should_sandbox :: "sandbox_policy \<Rightarrow> network_sandbox_policy \<Rightarrow> sandbox_preference \<Rightarrow> bool \<Rightarrow> bool" where
  "should_sandbox fs net pref managed_network = (case pref of
       Forbid \<Rightarrow> False
     | Require \<Rightarrow> True
     | Auto \<Rightarrow> should_require_platform_sandbox fs net managed_network)"

definition select_initial :: "target_os \<Rightarrow> sandbox_policy \<Rightarrow> network_sandbox_policy \<Rightarrow> sandbox_preference \<Rightarrow> bool \<Rightarrow> sandbox_type" where
  "select_initial os fs net pref managed_network =
     (if should_sandbox fs net pref managed_network
      then (case get_platform_sandbox os of Some s \<Rightarrow> s | None \<Rightarrow> NoSandbox) else NoSandbox)"

definition unsandboxed_execution_allowed :: "sandbox_policy \<Rightarrow> bool" where
  "unsandboxed_execution_allowed fs = (\<not> has_denied_read_restrictions fs)"

datatype sandbox_override = NoOverride | BypassSandboxFirstAttempt

definition sandbox_override_for_first_attempt ::
  "sandbox_permissions \<Rightarrow> exec_approval_requirement \<Rightarrow> sandbox_policy \<Rightarrow> sandbox_override" where
  "sandbox_override_for_first_attempt perms r fs =
     (if \<not> unsandboxed_execution_allowed fs then NoOverride
      else if (case r of Skip b _ \<Rightarrow> b | _ \<Rightarrow> False) then BypassSandboxFirstAttempt
      else if requires_escalated_permissions perms then BypassSandboxFirstAttempt
      else NoOverride)"

definition sandbox_permissions_preserving_denied_reads :: "sandbox_permissions \<Rightarrow> sandbox_policy \<Rightarrow> sandbox_permissions" where
  "sandbox_permissions_preserving_denied_reads perms fs =
     (if requires_escalated_permissions perms \<and> \<not> unsandboxed_execution_allowed fs then UseDefault else perms)"

definition default_exec_approval_requirement :: "ask_for_approval \<Rightarrow> sandbox_policy \<Rightarrow> exec_approval_requirement" where
  "default_exec_approval_requirement a fs =
     (let needs = (case a of
            Never \<Rightarrow> False
          | OnRequest \<Rightarrow> kind fs = Restricted
          | Granular _ \<Rightarrow> kind fs = Restricted
          | UnlessTrusted \<Rightarrow> True)
      in if needs \<and> (case a of Granular g \<Rightarrow> \<not> sandbox_approval g | _ \<Rightarrow> False)
         then ForbiddenExec (lit ''approval policy disallowed sandbox approval prompt'')
         else if needs then NeedsApproval None None
         else Skip False None)"

text \<open>The defaults of the trait \<open>Approvable\<close>, and the override of the patch runtime.\<close>

definition default_should_bypass_approval :: "ask_for_approval \<Rightarrow> bool \<Rightarrow> bool" where
  "default_should_bypass_approval a already_approved = (already_approved \<or> a = Never)"

definition default_wants_no_sandbox_approval :: "ask_for_approval \<Rightarrow> bool" where
  "default_wants_no_sandbox_approval a = (case a of
       UnlessTrusted \<Rightarrow> True | Never \<Rightarrow> False | OnRequest \<Rightarrow> False | Granular g \<Rightarrow> sandbox_approval g)"

definition patch_wants_no_sandbox_approval :: "ask_for_approval \<Rightarrow> bool" where
  "patch_wants_no_sandbox_approval a = (case a of
       Never \<Rightarrow> False | Granular g \<Rightarrow> sandbox_approval g | OnRequest \<Rightarrow> True | UnlessTrusted \<Rightarrow> True)"

section \<open>Answers\<close>

datatype network_action = NetAllow | NetDeny

datatype review_decision =
    Approved
  | ApprovedExecpolicyAmendment amendment
  | ApprovedForSession
  | NetworkPolicyAmendment network_action
  | Denied
  | TimedOut
  | Abort

datatype hook_answer = HookAllow | HookDeny ustr

datatype net_protocol = Http | Https | Socks5Tcp | Socks5Udp

datatype net_decision = NetPolicyDeny | NetPolicyAsk

datatype net_source = BaselinePolicy | ModeGuard | ProxyState | Decider

record net_payload =
  pay_decision :: net_decision
  pay_source :: net_source
  pay_protocol :: "net_protocol option"
  pay_host :: "ustr option"

record net_context =
  ctx_host :: ustr
  ctx_protocol :: net_protocol

definition network_approval_context_from_payload :: "net_payload \<Rightarrow> net_context option" where
  "network_approval_context_from_payload p =
     (if \<not> (pay_decision p = NetPolicyAsk \<and> pay_source p = Decider) then None
      else case pay_protocol p of
          None \<Rightarrow> None
        | Some proto \<Rightarrow> (case pay_host p of
              None \<Rightarrow> None
            | Some h \<Rightarrow> if trim h = [] then None else Some \<lparr>ctx_host = trim h, ctx_protocol = proto\<rparr>))"

text \<open>The session cache: keys approved for the session, by their serialised form.\<close>

type_synonym approval_store = "(ustr \<times> review_decision) list"

definition with_cached_approval ::
  "ustr list \<Rightarrow> review_decision \<Rightarrow> approval_store \<Rightarrow> review_decision \<times> bool \<times> approval_store" where
  "with_cached_approval keys fetched store =
     (if keys = [] then (fetched, True, store)
      else if list_all (\<lambda>k. map_of store k = Some ApprovedForSession) keys then (ApprovedForSession, False, store)
      else (fetched, True,
            if fetched = ApprovedForSession then fold (\<lambda>k s. (k, ApprovedForSession) # s) keys store else store))"

section \<open>One tool call\<close>

datatype 'e tool_error =
    Rejected ustr
  | SandboxDenied 'e "net_payload option"
  | OtherError 'e

record approval_ask =
  ask_is_retry :: bool
  ask_by_guardian :: bool
  ask_reason :: "ustr option"
  ask_network :: "net_context option"

record sandbox_attempt =
  att_sandbox :: sandbox_type
  att_sandbox_requested :: bool

datatype event = HookAsked bool | Asked approval_ask | Attempted sandbox_attempt

text \<open>A tool runtime, and what the surroundings answer to it.\<close>

datatype approval_mode = Immediate | Deferred

text \<open>\<open>NetworkApprovalSpec\<close>: whether it names a network proxy, and its mode.\<close>

record network_spec =
  spec_has_network :: bool
  spec_mode :: approval_mode

definition begin_network_approval :: "bool \<Rightarrow> network_spec option \<Rightarrow> approval_mode option" where
  "begin_network_approval managed_network spec = (case spec of
       None \<Rightarrow> None
     | Some s \<Rightarrow> if \<not> managed_network \<or> \<not> spec_has_network s then None else Some (spec_mode s))"

record ('e, 'o) tool_runtime =
  tool_requirement :: "exec_approval_requirement option"
  tool_permissions :: sandbox_permissions
  tool_preference :: sandbox_preference
  escalate_on_failure :: bool
  has_permission_payload :: bool
  network_approval_spec :: "network_spec option"
  wants_no_sandbox_approval :: "ask_for_approval \<Rightarrow> bool"
  should_bypass_approval :: "ask_for_approval \<Rightarrow> bool \<Rightarrow> bool"
  run_tool :: "bool \<Rightarrow> sandbox_attempt \<Rightarrow> ('e tool_error, 'o) result"

text \<open>
  The answers may differ between the first attempt (\<open>False\<close>) and the retry (\<open>True\<close>):
  \<open>finish_network\<close> is what closing the attempt's network registration reports, and
  \<open>registration\<close> the handle a deferred one is kept under.
\<close>

record ('e, 'd) surroundings =
  hook_decision :: "bool \<Rightarrow> hook_answer option"
  review :: "approval_ask \<Rightarrow> review_decision"
  guardian_rejection :: ustr
  guardian_timeout :: ustr
  finish_network :: "bool \<Rightarrow> 'e tool_error option"
  registration :: "bool \<Rightarrow> 'd"

record turn_context =
  turn_os :: target_os
  turn_fs :: sandbox_policy
  turn_net :: network_sandbox_policy
  turn_managed_network :: bool
  strict_auto_review :: bool
  routes_to_guardian :: bool

definition use_guardian :: "turn_context \<Rightarrow> bool" where
  "use_guardian t \<longleftrightarrow> routes_to_guardian t \<or> strict_auto_review t"

definition run_attempt ::
  "('e, 'o) tool_runtime \<Rightarrow> ('e, 'd) surroundings \<Rightarrow> turn_context \<Rightarrow> bool \<Rightarrow> sandbox_attempt \<Rightarrow>
     ('e tool_error, 'o) result \<times> 'd option" where
  "run_attempt tool w t retry att =
     (let r = run_tool tool retry att in
      case begin_network_approval (turn_managed_network t) (network_approval_spec tool) of
        None \<Rightarrow> (r, None)
      | Some Immediate \<Rightarrow> (case finish_network w retry of Some err \<Rightarrow> (Inl err, None) | None \<Rightarrow> (r, None))
      | Some Deferred \<Rightarrow> (case r of
            Inl _ \<Rightarrow> (case finish_network w retry of Some err \<Rightarrow> (Inl err, None) | None \<Rightarrow> (r, None))
          | Inr _ \<Rightarrow> (r, Some (registration w retry))))"

definition request_approval ::
  "('e, 'o) tool_runtime \<Rightarrow> ('e, 'd) surroundings \<Rightarrow> approval_ask \<Rightarrow> bool \<Rightarrow> ('e tool_error, review_decision) result \<times> event list" where
  "request_approval tool w ask evaluate_hooks =
     (if evaluate_hooks \<and> has_permission_payload tool then
        (case hook_decision w (ask_is_retry ask) of
           Some HookAllow \<Rightarrow> (Inr Approved, [HookAsked (ask_is_retry ask)])
         | Some (HookDeny msg) \<Rightarrow> (Inl (Rejected msg), [HookAsked (ask_is_retry ask)])
         | None \<Rightarrow> (Inr (review w ask), [HookAsked (ask_is_retry ask), Asked ask]))
      else (Inr (review w ask), [Asked ask]))"

definition reject_if_not_approved :: "('e, 'd) surroundings \<Rightarrow> bool \<Rightarrow> review_decision \<Rightarrow> 'e tool_error option" where
  "reject_if_not_approved w guardian d = (case d of
       Denied \<Rightarrow> Some (Rejected (if guardian then guardian_rejection w else lit ''rejected by user''))
     | Abort \<Rightarrow> Some (Rejected (if guardian then guardian_rejection w else lit ''rejected by user''))
     | TimedOut \<Rightarrow> Some (Rejected (guardian_timeout w))
     | NetworkPolicyAmendment NetDeny \<Rightarrow> Some (Rejected (lit ''rejected by user''))
     | _ \<Rightarrow> None)"

text \<open>An approval step: the error that ends the call, if any, and the events.\<close>

definition approval_step ::
  "('e, 'o) tool_runtime \<Rightarrow> ('e, 'd) surroundings \<Rightarrow> approval_ask \<Rightarrow> bool \<Rightarrow> 'e tool_error option \<times> event list" where
  "approval_step tool w ask evaluate_hooks =
     (case request_approval tool w ask evaluate_hooks of
        (Inl err, evs) \<Rightarrow> (Some err, evs)
      | (Inr d, evs) \<Rightarrow> (reject_if_not_approved w (ask_by_guardian ask) d, evs))"

definition requirement_of :: "('e, 'o) tool_runtime \<Rightarrow> turn_context \<Rightarrow> ask_for_approval \<Rightarrow> exec_approval_requirement" where
  "requirement_of tool t a = (case tool_requirement tool of
       Some r \<Rightarrow> r | None \<Rightarrow> default_exec_approval_requirement a (turn_fs t))"

text \<open>Step 1: approval. The flag is \<open>already_approved\<close>.\<close>

definition initial_approval ::
  "('e, 'o) tool_runtime \<Rightarrow> ('e, 'd) surroundings \<Rightarrow> turn_context \<Rightarrow> ask_for_approval \<Rightarrow>
     ('e tool_error, bool) result \<times> event list" where
  "initial_approval tool w t a = (case requirement_of tool t a of
       Skip _ _ \<Rightarrow>
         if strict_auto_review t then
           (case approval_step tool w \<lparr>ask_is_retry = False, ask_by_guardian = True, ask_reason = None, ask_network = None\<rparr> False of
              (Some err, evs) \<Rightarrow> (Inl err, evs)
            | (None, evs) \<Rightarrow> (Inr True, evs))
         else (Inr False, [])
     | ForbiddenExec reason \<Rightarrow> (Inl (Rejected reason), [])
     | NeedsApproval reason _ \<Rightarrow>
         (case approval_step tool w \<lparr>ask_is_retry = False, ask_by_guardian = use_guardian t, ask_reason = reason, ask_network = None\<rparr>
                 (\<not> strict_auto_review t) of
            (Some err, evs) \<Rightarrow> (Inl err, evs)
          | (None, evs) \<Rightarrow> (Inr True, evs)))"

definition turn_should_sandbox :: "('e, 'o) tool_runtime \<Rightarrow> turn_context \<Rightarrow> bool" where
  "turn_should_sandbox tool t = should_sandbox (turn_fs t) (turn_net t) (tool_preference tool) (turn_managed_network t)"

definition make_attempt :: "('e, 'o) tool_runtime \<Rightarrow> turn_context \<Rightarrow> bool \<Rightarrow> sandbox_attempt" where
  "make_attempt tool t requested = \<lparr>
     att_sandbox = (if requested
       then select_initial (turn_os t) (turn_fs t) (turn_net t) (tool_preference tool) (turn_managed_network t) else NoSandbox),
     att_sandbox_requested = requested\<rparr>"

definition first_attempt :: "('e, 'o) tool_runtime \<Rightarrow> turn_context \<Rightarrow> ask_for_approval \<Rightarrow> sandbox_attempt" where
  "first_attempt tool t a = make_attempt tool t
     (case sandbox_override_for_first_attempt (tool_permissions tool) (requirement_of tool t a) (turn_fs t) of
        BypassSandboxFirstAttempt \<Rightarrow> False
      | NoOverride \<Rightarrow> turn_should_sandbox tool t)"

text \<open>Whether a denied first attempt may be tried again.\<close>

definition may_retry :: "('e, 'o) tool_runtime \<Rightarrow> turn_context \<Rightarrow> ask_for_approval \<Rightarrow> net_payload option \<Rightarrow> net_context option \<Rightarrow> bool" where
  "may_retry tool t a payload ctx =
     (if payload \<noteq> None \<and> ctx = None then False
      else if \<not> escalate_on_failure tool then False
      else if \<not> wants_no_sandbox_approval tool a \<and>
              \<not> (a = OnRequest \<and> ctx \<noteq> None \<and>
                 (case default_exec_approval_requirement a (turn_fs t) of NeedsApproval _ _ \<Rightarrow> True | _ \<Rightarrow> False))
      then False
      else \<not> (\<not> unsandboxed_execution_allowed (turn_fs t) \<and> ctx = None))"

definition retry_reason :: "net_context option \<Rightarrow> ustr" where
  "retry_reason ctx = (case ctx of
       Some c \<Rightarrow> lit ''Network access to '' @ [34] @ ctx_host c @ [34] @ lit '' is blocked by policy.''
     | None \<Rightarrow> lit ''command failed; retry without sandbox?'')"

definition retry_attempt :: "('e, 'o) tool_runtime \<Rightarrow> turn_context \<Rightarrow> sandbox_attempt" where
  "retry_attempt tool t = make_attempt tool t
     (\<not> unsandboxed_execution_allowed (turn_fs t) \<and> turn_should_sandbox tool t)"

definition retry_denied ::
  "('e, 'o) tool_runtime \<Rightarrow> ('e, 'd) surroundings \<Rightarrow> turn_context \<Rightarrow> ask_for_approval \<Rightarrow> bool \<Rightarrow> 'e \<Rightarrow> net_payload option \<Rightarrow>
     ('e tool_error, 'o \<times> 'd option) result \<times> event list" where
  "retry_denied tool w t a already_approved out payload =
     (let ctx = (if turn_managed_network t then Option.bind payload network_approval_context_from_payload else None) in
      if \<not> may_retry tool t a payload ctx then (Inl (SandboxDenied out payload), [])
      else
        let bypass = (\<not> strict_auto_review t \<and> should_bypass_approval tool a already_approved \<and> ctx = None);
            (err, evs) = (if bypass then (None, [])
               else approval_step tool w \<lparr>ask_is_retry = True, ask_by_guardian = use_guardian t,
                      ask_reason = Some (retry_reason ctx), ask_network = ctx\<rparr> (\<not> strict_auto_review t))
        in (case err of
              Some e \<Rightarrow> (Inl e, evs)
            | None \<Rightarrow>
                (case run_attempt tool w t True (retry_attempt tool t) of
                   (Inr out', d) \<Rightarrow> (Inr (out', d), evs @ [Attempted (retry_attempt tool t)])
                 | (Inl e, _) \<Rightarrow> (Inl e, evs @ [Attempted (retry_attempt tool t)]))))"

definition orchestrator_run ::
  "('e, 'o) tool_runtime \<Rightarrow> ('e, 'd) surroundings \<Rightarrow> turn_context \<Rightarrow> ask_for_approval \<Rightarrow>
     ('e tool_error, 'o \<times> 'd option) result \<times> event list" where
  "orchestrator_run tool w t a =
     (case initial_approval tool w t a of
        (Inl err, evs) \<Rightarrow> (Inl err, evs)
      | (Inr already_approved, evs) \<Rightarrow>
          let att = first_attempt tool t a in
          (case run_attempt tool w t False att of
             (Inr out, d) \<Rightarrow> (Inr (out, d), evs @ [Attempted att])
           | (Inl (SandboxDenied out payload), _) \<Rightarrow>
               (case retry_denied tool w t a already_approved out payload of
                  (r, evs') \<Rightarrow> (r, evs @ [Attempted att] @ evs'))
           | (Inl err, _) \<Rightarrow> (Inl err, evs @ [Attempted att])))"

end
