(* ===== verification/Patch_Safety.thy ===== *)
theory Patch_Safety
  imports Patch_Invocation Tool_Orchestrator
begin

text \<open>
  Whether a patch may be applied without asking: \<open>core/src/safety.rs\<close> and
  \<open>core/src/apply_patch.rs\<close>, for paths of the POSIX convention on a Unix host.
\<close>

datatype safety_check =
    AutoApprove sandbox_type bool
  | AskUser
  | Reject ustr

definition PATCH_REJECTED_OUTSIDE_PROJECT_REASON :: ustr where
  "PATCH_REJECTED_OUTSIDE_PROJECT_REASON = lit ''writing outside of the project; rejected by user approval settings''"

definition PATCH_REJECTED_READ_ONLY_REASON :: ustr where
  "PATCH_REJECTED_READ_ONLY_REASON = lit ''writing is blocked by read-only sandbox; rejected by user approval settings''"

text \<open>
  \<open>PathUri::to_abs_path\<close> of a URI without a host and with decodable segments: a drive-shaped first
  segment makes it a Windows path, which a Unix host refuses; any other is made an
  \<open>AbsolutePathBuf\<close>.
\<close>

definition is_windows_drive_uri_segment :: "ustr \<Rightarrow> bool" where
  "is_windows_drive_uri_segment s = (case s of
       [d, c] \<Rightarrow> c = 58 \<and> (65 \<le> d \<and> d \<le> 90 \<or> 97 \<le> d \<and> d \<le> 122)
     | _ \<Rightarrow> False)"

definition to_abs_path :: "path_uri \<Rightarrow> path_uri option" where
  "to_abs_path u = (case filter (\<lambda>s. s \<noteq> []) u of
       s # _ \<Rightarrow> if is_windows_drive_uri_segment s then None else Some (normalize_path u)
     | [] \<Rightarrow> Some (normalize_path u))"

text \<open>The local function \<open>normalize\<close> of the check, over the components after the root.\<close>

fun normalize :: "path_uri \<Rightarrow> path_uri \<Rightarrow> path_uri" where
  "normalize [] out = out"
| "normalize (c # cs) out = normalize cs
     (if c = lit ''..'' then butlast out else if c = lit ''.'' then out else out @ [c])"

definition patch_path_writable :: "host_fs \<Rightarrow> sandbox_policy \<Rightarrow> path_uri \<Rightarrow> path_uri \<Rightarrow> bool" where
  "patch_path_writable h fs native_cwd u = (case to_abs_path u of
       None \<Rightarrow> False
     | Some p \<Rightarrow> can_write_path_with_cwd h fs (native_string (normalize p [])) (native_string native_cwd))"

definition change_writable :: "host_fs \<Rightarrow> sandbox_policy \<Rightarrow> path_uri \<Rightarrow> path_uri \<times> path_uri apply_patch_file_change \<Rightarrow> bool" where
  "change_writable h fs native_cwd e = (case snd e of
       UpdateChange _ (Some dest) _ \<Rightarrow> patch_path_writable h fs native_cwd (fst e) \<and> patch_path_writable h fs native_cwd dest
     | _ \<Rightarrow> patch_path_writable h fs native_cwd (fst e))"

definition is_write_patch_constrained_to_writable_paths ::
  "host_fs \<Rightarrow> path_uri apply_patch_action \<Rightarrow> sandbox_policy \<Rightarrow> path_uri \<Rightarrow> bool" where
  "is_write_patch_constrained_to_writable_paths h action fs cwd =
     (if has_full_disk_write_access fs then True
      else case to_abs_path cwd of
          None \<Rightarrow> False
        | Some native_cwd \<Rightarrow> list_all (change_writable h fs native_cwd) (action_changes action))"

definition patch_rejection_reason :: "host_fs \<Rightarrow> permission_profile \<Rightarrow> sandbox_policy \<Rightarrow> path_uri \<Rightarrow> ustr" where
  "patch_rejection_reason h profile fs cwd =
     (let has_no_writable_roots = (case to_abs_path cwd of
            None \<Rightarrow> False | Some c \<Rightarrow> get_writable_roots_with_cwd h fs (native_string c) = [])
      in case profile of
           Managed _ _ \<Rightarrow>
             if \<not> has_full_disk_write_access fs \<and> has_no_writable_roots then PATCH_REJECTED_READ_ONLY_REASON
             else PATCH_REJECTED_OUTSIDE_PROJECT_REASON
         | _ \<Rightarrow> PATCH_REJECTED_OUTSIDE_PROJECT_REASON)"

definition assess_patch_safety ::
  "host_fs \<Rightarrow> target_os \<Rightarrow> path_uri apply_patch_action \<Rightarrow> ask_for_approval \<Rightarrow> permission_profile \<Rightarrow> sandbox_policy \<Rightarrow> path_uri \<Rightarrow> safety_check" where
  "assess_patch_safety h os action policy profile fs cwd =
     (if action_changes action = [] then Reject (lit ''empty patch'')
      else if policy = UnlessTrusted then AskUser
      else
        let rejects_sandbox_approval = (policy = Never \<or> (case policy of Granular g \<Rightarrow> \<not> sandbox_approval g | _ \<Rightarrow> False));
            otherwise = (if rejects_sandbox_approval then Reject (patch_rejection_reason h profile fs cwd) else AskUser)
        in if is_write_patch_constrained_to_writable_paths h action fs cwd then
             (case profile of
                Managed _ _ \<Rightarrow> (case get_platform_sandbox os of Some s \<Rightarrow> AutoApprove s False | None \<Rightarrow> otherwise)
              | _ \<Rightarrow> AutoApprove NoSandbox False)
           else otherwise)"

datatype internal_apply_patch_invocation =
    Output ustr
  | DelegateToRuntime "path_uri apply_patch_action" bool exec_approval_requirement

text \<open>\<open>core::apply_patch\<close>: an error for the model, or the requirement the runtime works under.\<close>

definition core_apply_patch ::
  "host_fs \<Rightarrow> target_os \<Rightarrow> ask_for_approval \<Rightarrow> permission_profile \<Rightarrow> sandbox_policy \<Rightarrow> path_uri apply_patch_action \<Rightarrow>
     internal_apply_patch_invocation" where
  "core_apply_patch h os policy profile fs action =
     (case assess_patch_safety h os action policy profile fs (action_cwd action) of
        AutoApprove _ user_explicitly_approved \<Rightarrow>
          DelegateToRuntime action (\<not> user_explicitly_approved) (Skip False None)
      | AskUser \<Rightarrow> DelegateToRuntime action False (NeedsApproval None None)
      | Reject reason \<Rightarrow> Output (lit ''patch rejected: '' @ reason))"

end
