(* ===== verification/Fs_Permissions_Correct.thy ===== *)
theory Fs_Permissions_Correct
  imports Fs_Permissions
begin

text \<open>
  What the file system permissions of \<open>protocol/src/permissions.rs\<close> guarantee: the most specific
  entry decides and denials win ties, the whole-disk predicates agree with the decision for each
  path, deny entries survive a change of profile, metadata directories stay protected, the legacy
  form round-trips, and the roots handed to a sandbox grant no more than the policy.
\<close>

text \<open>A host with nothing but its root directory and \<open>/tmp\<close>, for examples.\<close>

definition bare_host :: host_fs where
  "bare_host = \<lparr>process = \<lparr>current_dir = None, home_dir = None\<rparr>, tmpdir_var = None,
     link_metadata = (\<lambda>q. if q = [] then Some False else None), canonical = (\<lambda>q. if q = [] then Some [] else None),
     path_is_dir = (\<lambda>q. q = [] \<or> q = [lit ''tmp'']), path_is_file = (\<lambda>_. False),
     path_exists = (\<lambda>q. q = [] \<or> q = [lit ''tmp'']), file_text = (\<lambda>_. None)\<rparr>"

section \<open>The governing entry\<close>

lemma path_starts_with_refl [simp]: "path_starts_with p p"
  by (simp add: path_starts_with_def)

lemma path_starts_with_root [simp]: "path_starts_with p []"
  by (simp add: path_starts_with_def)

lemma path_starts_with_append [simp]: "path_starts_with (p @ q) p"
  by (simp add: path_starts_with_def)

lemma path_starts_with_iff: "path_starts_with q p \<longleftrightarrow> (\<exists>r. q = p @ r)"
  by (metis append_take_drop_id path_starts_with_append path_starts_with_def)

lemma path_starts_with_trans: "path_starts_with a b \<Longrightarrow> path_starts_with b c \<Longrightarrow> path_starts_with a c"
  unfolding path_starts_with_iff by auto

lemma path_starts_with_linear:
  "path_starts_with q a \<Longrightarrow> path_starts_with q b \<Longrightarrow> length a \<le> length b \<Longrightarrow> path_starts_with b a"
  unfolding path_starts_with_def by (metis min.absorb1 take_take)

lemma path_starts_with_same_length:
  "path_starts_with q a \<Longrightarrow> path_starts_with q b \<Longrightarrow> length a = length b \<Longrightarrow> a = b"
  unfolding path_starts_with_def by metis

lemma precedence_total: "\<not> precedence_le a b \<Longrightarrow> precedence_le b a"
  unfolding precedence_le_def by (meson linorder_le_cases not_less_iff_gr_or_eq)

lemma precedence_trans: "precedence_le a b \<Longrightarrow> precedence_le b c \<Longrightarrow> precedence_le a c"
  unfolding precedence_le_def by auto

lemma precedence_refl [simp]: "precedence_le a a"
  by (simp add: precedence_le_def)

lemma max_entry_spec:
  assumes "max_entry best es = Some m"
  shows "(best = Some m \<or> m \<in> set es) \<and>
    (\<forall>e. best = Some e \<or> e \<in> set es \<longrightarrow> precedence_le (resolved_entry_precedence e) (resolved_entry_precedence m))"
  using assms
proof (induction best es rule: max_entry.induct)
  case (2 best e es)
  show ?case
  proof (cases best)
    case None
    with 2 show ?thesis by auto
  next
    case (Some b)
    show ?thesis
    proof (cases "precedence_le (resolved_entry_precedence b) (resolved_entry_precedence e)")
      case True
      with 2 Some have IH: "e = m \<or> m \<in> set es"
        "\<forall>x. e = x \<or> x \<in> set es \<longrightarrow> precedence_le (resolved_entry_precedence x) (resolved_entry_precedence m)"
        by simp_all
      with True have "precedence_le (resolved_entry_precedence b) (resolved_entry_precedence m)"
        using precedence_trans by blast
      with IH Some show ?thesis by auto
    next
      case False
      with 2 Some have IH: "b = m \<or> m \<in> set es"
        "\<forall>x. b = x \<or> x \<in> set es \<longrightarrow> precedence_le (resolved_entry_precedence x) (resolved_entry_precedence m)"
        by simp_all
      with precedence_total [OF False] have "precedence_le (resolved_entry_precedence e) (resolved_entry_precedence m)"
        using precedence_trans by blast
      with IH Some show ?thesis by auto
    qed
  qed
qed simp

lemma max_entry_None: "max_entry best es = None \<longleftrightarrow> best = None \<and> es = []"
  by (induction best es rule: max_entry.induct) (auto split: option.splits)

text \<open>The entries of the policy that cover a path.\<close>

definition covering :: "host_fs \<Rightarrow> sandbox_policy \<Rightarrow> ustr \<Rightarrow> path_uri \<Rightarrow> resolved_entry set" where
  "covering h p cwd q = {e \<in> set (resolved_entries_with_cwd h p cwd). path_starts_with q (res_path e)}"

text \<open>\<open>governs\<close>: no covering entry is more specific, and at the same path none is stricter.\<close>

definition governs :: "host_fs \<Rightarrow> sandbox_policy \<Rightarrow> ustr \<Rightarrow> path_uri \<Rightarrow> resolved_entry \<Rightarrow> bool" where
  "governs h p cwd q e \<longleftrightarrow> e \<in> covering h p cwd q \<and>
     (\<forall>e' \<in> covering h p cwd q. path_starts_with (res_path e) (res_path e') \<and>
        (res_path e' = res_path e \<longrightarrow> res_access e' \<le> res_access e))"

lemma governs_max_entry:
  assumes "max_entry None (filter (\<lambda>e. path_starts_with q (res_path e)) (resolved_entries_with_cwd h p cwd)) = Some m"
  shows "governs h p cwd q m"
proof -
  have m: "m \<in> covering h p cwd q"
    and le: "e \<in> covering h p cwd q \<Longrightarrow> precedence_le (resolved_entry_precedence e) (resolved_entry_precedence m)" for e
    using max_entry_spec [OF assms] by (auto simp: covering_def)
  have "path_starts_with (res_path m) (res_path e)" if "e \<in> covering h p cwd q" for e
  proof -
    have "length (res_path e) \<le> length (res_path m)"
      using le [OF that] by (auto simp: precedence_le_def resolved_entry_precedence_def)
    with that m show ?thesis by (auto simp: covering_def intro: path_starts_with_linear)
  qed
  moreover have "res_access e \<le> res_access m" if "e \<in> covering h p cwd q" "res_path e = res_path m" for e
    using le [OF that(1)] that(2) by (auto simp: precedence_le_def resolved_entry_precedence_def)
  ultimately show ?thesis using m by (auto simp: governs_def)
qed

lemma resolve_access_cases:
  assumes "kind p = Restricted" "resolve_candidate_path h path cwd = Some q"
  shows "covering h p cwd q = {} \<Longrightarrow> resolve_access_with_cwd h p path cwd = Deny"
    and "covering h p cwd q \<noteq> {} \<Longrightarrow>
      \<exists>e. governs h p cwd q e \<and> resolve_access_with_cwd h p path cwd = res_access e"
proof -
  let ?es = "filter (\<lambda>e. path_starts_with q (res_path e)) (resolved_entries_with_cwd h p cwd)"
  have cov: "covering h p cwd q = set ?es" by (auto simp: covering_def)
  show "covering h p cwd q = {} \<Longrightarrow> resolve_access_with_cwd h p path cwd = Deny"
    using assms unfolding cov by (simp add: resolve_access_with_cwd_def)
  assume "covering h p cwd q \<noteq> {}"
  then have "?es \<noteq> []" unfolding cov by (simp del: set_filter)
  then obtain m where m: "max_entry None ?es = Some m"
    using max_entry_None [of None ?es] by (cases "max_entry None ?es") blast+
  with assms governs_max_entry [OF m] show "\<exists>e. governs h p cwd q e \<and> resolve_access_with_cwd h p path cwd = res_access e"
    by (auto simp: resolve_access_with_cwd_def)
qed

lemma governs_same:
  assumes "governs h p cwd q e" "governs h p cwd q e'"
  shows "res_path e = res_path e'" "res_access e = res_access e'"
proof -
  have "path_starts_with (res_path e) (res_path e')" "path_starts_with (res_path e') (res_path e)"
    using assms by (auto simp: governs_def)
  then show eq: "res_path e = res_path e'" by (auto simp: path_starts_with_iff)
  with assms show "res_access e = res_access e'" by (auto simp: governs_def intro: order_antisym)
qed

text \<open>
  C20: The most specific entry decides, denials win ties. For a restricted policy the access to a path
  is denied when no entry covers it; otherwise it is the access of the covering entry that lies
  deepest, and among entries for that same path deny beats write and write beats read. The order
  of the entries in the profile does not matter.
\<close>

theorem resolve_access_governed:
  assumes "kind p = Restricted" "resolve_candidate_path h path cwd = Some q"
  shows "resolve_access_with_cwd h p path cwd = a \<longleftrightarrow>
    (if covering h p cwd q = {} then a = Deny else \<exists>e. governs h p cwd q e \<and> res_access e = a)"
proof (cases "covering h p cwd q = {}")
  case True
  with resolve_access_cases(1) [OF assms] show ?thesis by auto
next
  case False
  with resolve_access_cases(2) [OF assms] obtain e where
    e: "governs h p cwd q e" "resolve_access_with_cwd h p path cwd = res_access e" by blast
  have "res_access x = res_access e" if "governs h p cwd q x" for x
    by (rule governs_same(2) [OF that e(1)])
  with e(1) have "res_access e = a \<longleftrightarrow> (\<exists>x. governs h p cwd q x \<and> res_access x = a)" by metis
  with False e(2) show ?thesis by simp
qed

theorem resolve_access_governed_witness:
  "resolve_access_with_cwd bare_host (restricted [entry_of (AtPath [lit ''w'']) Deny, entry_of (Special RootPath) Write])
     (lit ''/w/x'') (lit ''/'') = Deny"
proof -
  let ?p = "restricted [entry_of (AtPath [lit ''w'']) Deny, entry_of (Special RootPath) Write]"
  have k: "kind ?p = Restricted" by code_simp
  have c: "resolve_candidate_path bare_host (lit ''/w/x'') (lit ''/'') = Some [lit ''w'', lit ''x'']" by code_simp
  have es: "resolved_entries_with_cwd bare_host ?p (lit ''/'') =
      [\<lparr>res_path = [lit ''w''], res_access = Deny\<rparr>, \<lparr>res_path = [], res_access = Write\<rparr>]" by code_simp
  have "governs bare_host ?p (lit ''/'') [lit ''w'', lit ''x''] \<lparr>res_path = [lit ''w''], res_access = Deny\<rparr>"
    unfolding governs_def covering_def es by (auto simp: path_starts_with_def)
  then show ?thesis unfolding resolve_access_governed [OF k c] by (auto simp: governs_def)
qed

section \<open>Whole-disk access\<close>

lemma set_map_filter: "y \<in> set (List.map_filter f xs) \<longleftrightarrow> (\<exists>x \<in> set xs. f x = Some y)"
  by (induction xs) (auto simp: List.map_filter_def split: option.splits)

lemma map_filter_same: "(\<And>x. x \<in> set xs \<Longrightarrow> f x = g x) \<Longrightarrow> List.map_filter f xs = List.map_filter g xs"
  by (induction xs) (auto simp: List.map_filter_def split: option.splits)

lemma resolved_entries_iff:
  "r \<in> set (resolved_entries_with_cwd h p cwd) \<longleftrightarrow> (\<exists>e \<in> set (entries p).
     resolve_entry_path h (entry_path e) (abs_path h cwd) = Some (res_path r) \<and> res_access r = entry_access e)"
  unfolding resolved_entries_with_cwd_def set_map_filter by (cases r) fastforce

lemma ancestors_last: "last (ancestors q) = []"
  by (cases q) simp_all

lemma root_entry_covers:
  assumes "e \<in> set (entries p)" "entry_path e = Special RootPath" "abs_path h cwd = Some c"
  shows "\<lparr>res_path = [], res_access = entry_access e\<rparr> \<in> covering h p cwd q"
  using assms unfolding covering_def
  by (auto simp: resolved_entries_iff resolve_entry_path_def absolute_root_path_for_cwd_def ancestors_last intro!: bexI [of _ e])

lemma full_read_all:
  assumes "has_full_disk_read_access p" "abs_path h cwd = Some c" "resolve_candidate_path h path cwd = Some q"
  shows "can_read_path_with_cwd h p path cwd"
proof (cases "kind p = Restricted")
  case True
  with assms(1) obtain e where e: "e \<in> set (entries p)" "entry_path e = Special RootPath"
    and nd: "\<And>x. x \<in> set (entries p) \<Longrightarrow> entry_access x \<noteq> Deny"
    by (auto simp: has_full_disk_read_access_def has_root_access_def has_denied_read_restrictions_def list_ex_iff)
  have "covering h p cwd q \<noteq> {}" using root_entry_covers [OF e assms(2)] by blast
  then obtain m where m: "governs h p cwd q m" "resolve_access_with_cwd h p path cwd = res_access m"
    using resolve_access_cases(2) [OF True assms(3)] by blast
  obtain x where "x \<in> set (entries p)" "entry_access x = res_access m"
    using m(1) by (auto simp: governs_def covering_def resolved_entries_iff)
  with nd have "res_access m \<noteq> Deny" by metis
  with m show ?thesis by (simp add: can_read_path_with_cwd_def can_read_def)
qed (simp add: can_read_path_with_cwd_def resolve_access_with_cwd_def can_read_def)

lemma override_resolves_same:
  assumes "file_system_paths_share_target (entry_path c) (entry_path e)" "entry_path e \<noteq> Special RootPath"
    and "resolve_entry_path h (entry_path e) cwd = Some r" "path_is_dir h [lit ''tmp'']" "cwd \<noteq> None"
  shows "resolve_entry_path h (entry_path c) cwd = Some r"
proof (cases "entry_path c")
  case (AtPath q)
  with assms show ?thesis
    by (cases "entry_path e")
       (auto simp: special_path_matches_absolute_path_def resolve_entry_path_def resolve_file_system_path_def
          resolve_file_system_special_path_def simp del: lit_simps split: special_path.splits)
next
  case (GlobPattern g)
  with assms show ?thesis by (cases "entry_path e") (simp_all add: resolve_entry_path_def resolve_file_system_path_def)
next
  case (Special s)
  with assms show ?thesis
    by (cases "entry_path e")
       (auto simp: special_path_matches_absolute_path_def special_paths_share_target_def resolve_entry_path_def
          resolve_file_system_path_def resolve_file_system_special_path_def absolute_root_path_for_cwd_def ancestors_last
          simp del: lit_simps split: special_path.splits)
qed

lemma full_write_all:
  assumes "has_full_disk_write_access p" "abs_path h cwd = Some c" "resolve_candidate_path h path cwd = Some q"
    and "path_is_dir h [lit ''tmp'']"
  shows "can_write_path_with_cwd h p path cwd"
proof (cases "kind p = Restricted")
  case True
  with assms(1) obtain e where e: "e \<in> set (entries p)" "entry_path e = Special RootPath" "entry_access e = Write"
    and nn: "\<And>x. x \<in> set (entries p) \<Longrightarrow> \<not> narrows_write p x"
    by (auto simp: has_full_disk_write_access_def has_root_access_def has_write_narrowing_entries_def list_ex_iff can_write_def)
  have rt: "\<lparr>res_path = [], res_access = Write\<rparr> \<in> covering h p cwd q" using root_entry_covers [OF e(1,2) assms(2)] e(3) by simp
  then obtain m where m: "governs h p cwd q m" "resolve_access_with_cwd h p path cwd = res_access m"
    using resolve_access_cases(2) [OF True assms(3)] by blast
  obtain x where x: "x \<in> set (entries p)" "resolve_entry_path h (entry_path x) (abs_path h cwd) = Some (res_path m)"
    "entry_access x = res_access m" using m(1) by (auto simp: governs_def covering_def resolved_entries_iff)
  have "res_access m = Write"
  proof (rule ccontr)
    assume no: "res_access m \<noteq> Write"
    show False
    proof (cases "entry_path x = Special RootPath")
      case True
      then have "res_path m = []" using x(2) assms(2) by (simp add: resolve_entry_path_def absolute_root_path_for_cwd_def ancestors_last)
      moreover have "res_access m \<noteq> Deny" using nn [OF x(1)] True x(3) no by (auto simp: narrows_write_def can_write_def)
      ultimately show False using m(1) rt no
        by (cases "res_access m") (auto simp: governs_def less_eq_access_mode_def)
    next
      case False
      then have "has_same_target_write_override p x"
        using nn [OF x(1)] no x(2,3)
        by (auto simp: narrows_write_def can_write_def resolve_entry_path_def resolve_file_system_path_def
            resolve_file_system_special_path_def split: fs_path.splits special_path.splits)
      then obtain w where w: "w \<in> set (entries p)" "entry_access w = Write" "entry_access x < entry_access w"
        "file_system_paths_share_target (entry_path w) (entry_path x)"
        by (auto simp: has_same_target_write_override_def list_ex_iff can_write_def)
      then have "\<lparr>res_path = res_path m, res_access = Write\<rparr> \<in> covering h p cwd q"
        using override_resolves_same [OF w(4) False x(2) assms(4)] assms(2) m(1)
        by (auto simp: governs_def covering_def resolved_entries_iff)
      with m(1) have "Write \<le> res_access m" by (auto simp: governs_def)
      with w(2,3) x(3) show False by simp
    qed
  qed
  with m assms(1) show ?thesis by (simp add: can_write_path_with_cwd_def can_write_def)
qed (use assms(1) in \<open>simp add: can_write_path_with_cwd_def resolve_access_with_cwd_def can_write_def\<close>)

text \<open>
  The whole-disk predicates tell the truth. When a policy counts as having full read access,
  every path that resolves is readable under it, and with full write access every such path is
  writable; the sandbox is switched off on the strength of these two answers. For the write
  side \<open>/tmp\<close> must exist, since a symbolic \<open>/tmp\<close> entry is dropped where it does not.
\<close>

theorem full_disk_access_sound:
  assumes "abs_path h cwd = Some c" "resolve_candidate_path h path cwd = Some q"
  shows "(has_full_disk_read_access p \<longrightarrow> can_read_path_with_cwd h p path cwd) \<and>
    (has_full_disk_write_access p \<and> path_is_dir h [lit ''tmp''] \<longrightarrow> can_write_path_with_cwd h p path cwd)"
  using full_read_all [OF _ assms] full_write_all [OF _ assms] by blast

theorem full_disk_access_sound_witness:
  "has_full_disk_write_access (restricted [entry_of (AtPath [lit ''tmp'']) Read, entry_of (Special SlashTmp) Write, entry_of (Special RootPath) Write]) \<and>
   can_write_path_with_cwd bare_host (restricted [entry_of (AtPath [lit ''tmp'']) Read, entry_of (Special SlashTmp) Write, entry_of (Special RootPath) Write])
     (lit ''x'') (lit ''/tmp'')"
proof -
  let ?p = "restricted [entry_of (AtPath [lit ''tmp'']) Read, entry_of (Special SlashTmp) Write, entry_of (Special RootPath) Write]"
  have a: "abs_path bare_host (lit ''/tmp'') = Some [lit ''tmp'']" by code_simp
  have b: "resolve_candidate_path bare_host (lit ''x'') (lit ''/tmp'') = Some [lit ''tmp'', lit ''x'']" by code_simp
  have f: "has_full_disk_write_access ?p" by code_simp
  have t: "path_is_dir bare_host [lit ''tmp'']" by code_simp
  from full_disk_access_sound [OF a b, of ?p] f t show ?thesis by blast
qed

section \<open>Deny entries survive\<close>

definition abs_ok :: "path_uri \<Rightarrow> bool" where
  "abs_ok q = list_all (\<lambda>c. clean_segment c \<and> SLASH \<notin> set c) q"

lemma push_clean: "list_all clean_segment cs \<Longrightarrow> push_components cs segs = segs @ cs"
  by (induction cs arbitrary: segs) (simp_all add: clean_segment_def del: lit_simps)

lemma abs_path_native:
  assumes "abs_ok q"
  shows "abs_path h (native_string q) = Some q" "is_absolute (native_string q)"
proof -
  have no: "strip_prefix (lit ''~'') (native_string q) = None" by (simp add: native_string_def SLASH_def)
  have sp: "strip_prefix [SLASH] (native_string q) = Some (join_with [SLASH] q)" by (simp add: native_string_def)
  have "push_components (split_on SLASH (join_with [SLASH] q)) [] = q"
  proof (cases "q = []")
    case False
    have "\<forall>c\<in>set q. SLASH \<notin> set c" using assms by (simp add: abs_ok_def list_all_iff)
    then have "split_on SLASH (join_with [SLASH] q) = q" using split_join [of q SLASH] False by simp
    with assms push_clean [of q "[]"] show ?thesis by (simp add: abs_ok_def list_all_iff)
  qed simp
  with no sp show "abs_path h (native_string q) = Some q"
    by (simp add: abs_path_def from_absolute_path_def maybe_expand_home_directory_def normalize_path_def split: option.splits)
  show "is_absolute (native_string q)" by (simp add: is_absolute_def native_string_def starts_with_iff)
qed

lemma candidate_native: "abs_ok q \<Longrightarrow> resolve_candidate_path h (native_string q) cwd = Some q"
  by (simp add: resolve_candidate_path_def abs_path_native)

lemma add_missing_denies_set:
  "set (add_missing_denies existing es) = set es \<union> {e \<in> set existing. entry_access e = Deny}"
proof -
  have "set (fold (\<lambda>d es. if list_ex (\<lambda>e. e = d) es then es else es @ [d]) ds es) = set es \<union> set ds" for ds
    by (induction ds arbitrary: es) (auto simp: list_ex_iff)
  then show ?thesis by (simp add: add_missing_denies_def)
qed

lemma exact_deny_governs:
  assumes "kind p = Restricted" "e \<in> set (entries p)" "entry_access e = Deny"
    and "resolve_entry_path h (entry_path e) (abs_path h cwd) = Some d" "abs_ok d"
  shows "resolve_access_with_cwd h p (native_string d) cwd = Deny"
proof -
  have d: "\<lparr>res_path = d, res_access = Deny\<rparr> \<in> covering h p cwd d"
    using assms by (auto simp: covering_def resolved_entries_iff)
  then obtain m where m: "governs h p cwd d m" "resolve_access_with_cwd h p (native_string d) cwd = res_access m"
    using resolve_access_cases(2) [OF assms(1) candidate_native [OF assms(5)]] by blast
  then have "path_starts_with d (res_path m)" "path_starts_with (res_path m) d"
    using d by (auto simp: governs_def covering_def)
  then have "res_path m = d" by (auto simp: path_starts_with_iff)
  with m(1) d have "Deny \<le> res_access m" by (auto simp: governs_def)
  with m(2) show ?thesis by (cases "res_access m") (simp_all add: less_eq_access_mode_def)
qed

text \<open>
  Deny entries survive a change of profile. After \<open>preserve_deny_read_restrictions_from\<close> every
  path that the old policy denies by an entry of its own is denied under the new one, whatever the
  new profile grants there, also when the new profile was unrestricted; and the new policy
  still counts as having denied reads, so it is never run without a sandbox. Only a profile whose
  isolation is external is left alone.
\<close>

theorem preserve_deny_keeps_denies:
  assumes "kind p \<noteq> ExternalSandboxKind" "e \<in> set (entries existing)" "entry_access e = Deny"
    and "resolve_entry_path h (entry_path e) (abs_path h cwd) = Some d" "abs_ok d"
  shows "resolve_access_with_cwd h (preserve_deny_read_restrictions_from p existing) (native_string d) cwd = Deny \<and>
    has_denied_read_restrictions (preserve_deny_read_restrictions_from p existing)"
proof -
  let ?q = "preserve_deny_read_restrictions_from p existing"
  have "list_ex (\<lambda>e. entry_access e = Deny) (entries existing)" using assms(2,3) by (auto simp: list_ex_iff)
  then have k: "kind ?q = Restricted" and m: "e \<in> set (entries ?q)"
    using assms(1,2,3) by (cases "kind p"; simp add: preserve_deny_read_restrictions_from_def Let_def restricted_def add_missing_denies_set)+
  then have "has_denied_read_restrictions ?q" using assms(3) by (auto simp: has_denied_read_restrictions_def list_ex_iff)
  with exact_deny_governs [OF k m assms(3-5)] show ?thesis by blast
qed

theorem preserve_deny_keeps_denies_witness:
  "resolve_access_with_cwd bare_host
     (preserve_deny_read_restrictions_from unrestricted (restricted [entry_of (AtPath [lit ''etc'']) Deny]))
     (native_string [lit ''etc'']) (lit ''/'') = Deny"
proof -
  have 1: "kind unrestricted \<noteq> ExternalSandboxKind" by code_simp
  have 2: "entry_of (AtPath [lit ''etc'']) Deny \<in> set (entries (restricted [entry_of (AtPath [lit ''etc'']) Deny]))"
    by (simp add: restricted_def)
  have 3: "entry_access (entry_of (AtPath [lit ''etc'']) Deny) = Deny" by code_simp
  have 4: "resolve_entry_path bare_host (entry_path (entry_of (AtPath [lit ''etc'']) Deny)) (abs_path bare_host (lit ''/'')) = Some [lit ''etc'']"
    by code_simp
  have 5: "abs_ok [lit ''etc'']" by code_simp
  from preserve_deny_keeps_denies [OF 1 2 3 4 5] show ?thesis by blast
qed

section \<open>Metadata directories\<close>

lemma metadata_path_name_Some: "metadata_path_name n = Some m \<longleftrightarrow> is_protected_metadata_name n \<and> m = n"
proof -
  have "List.find (\<lambda>m. n = m) xs = (if list_ex (\<lambda>m. n = m) xs then Some n else None)" for xs
    by (induction xs) auto
  then show ?thesis by (auto simp: metadata_path_name_def is_protected_metadata_name_def)
qed

lemma metadata_child_Some:
  "metadata_child q e = Some (d, n) \<longleftrightarrow> res_access e = Write \<and> is_protected_metadata_name n \<and>
     d = res_path e @ [n] \<and> (\<exists>rest. q = res_path e @ n # rest)"
  by (cases "drop (length (res_path e)) q")
     (auto simp: metadata_child_def can_write_def path_strip_prefix_def path_starts_with_iff metadata_path_name_Some
        split: list.splits)

lemma metadata_denied_iff:
  assumes "kind p = Restricted" "resolve_candidate_path h path cwd = Some q"
  shows "is_metadata_write_denied h p path cwd \<longleftrightarrow>
    (\<exists>d n rest. List.map_filter (metadata_child q) (resolved_entries_with_cwd h p cwd) = (d, n) # rest \<and>
       \<not> has_explicit_write_entry_for_metadata_path h p d q cwd)"
  using assms by (auto simp: is_metadata_write_denied_def metadata_child_of_writable_root_def split: list.splits)

text \<open>
  Metadata directories stay protected. Under a policy without full write access, nothing at or
  below \<open>.git\<close>, \<open>.agents\<close>, \<open>.codex\<close> or \<open>.dsx\<close> of a writable root can be written, whether or not
  the directory exists yet, unless a write entry that covers the path names such a directory itself.
\<close>

theorem metadata_write_protected:
  assumes "\<not> has_full_disk_write_access p" "resolve_candidate_path h path cwd = Some (root @ m # rest)"
    and "\<lparr>res_path = root, res_access = Write\<rparr> \<in> set (resolved_entries_with_cwd h p cwd)"
    and "is_protected_metadata_name m"
    and "\<forall>e \<in> covering h p cwd (root @ m # rest). res_access e = Write \<longrightarrow> \<not> list_ex is_protected_metadata_name (res_path e)"
  shows "\<not> can_write_path_with_cwd h p path cwd"
proof -
  let ?q = "root @ m # rest" and ?rs = "resolved_entries_with_cwd h p cwd"
  have k: "kind p = Restricted" using assms(1) by (cases "kind p") (simp_all add: has_full_disk_write_access_def)
  have "metadata_child ?q \<lparr>res_path = root, res_access = Write\<rparr> = Some (root @ [m], m)"
    using assms(4) by (simp add: metadata_child_Some)
  then have "(root @ [m], m) \<in> set (List.map_filter (metadata_child ?q) ?rs)"
    using assms(3) by (auto simp: set_map_filter)
  then obtain d n more where f: "List.map_filter (metadata_child ?q) ?rs = (d, n) # more"
    by (cases "List.map_filter (metadata_child ?q) ?rs") auto
  then have "(d, n) \<in> set (List.map_filter (metadata_child ?q) ?rs)" by simp
  then obtain r where r: "is_protected_metadata_name n" "d = r @ [n]" by (auto simp: set_map_filter metadata_child_Some)
  have "\<not> has_explicit_write_entry_for_metadata_path h p d ?q cwd"
  proof
    assume "has_explicit_write_entry_for_metadata_path h p d ?q cwd"
    then obtain e where "e \<in> covering h p cwd ?q" "res_access e = Write" "path_starts_with (res_path e) d"
      by (auto simp: has_explicit_write_entry_for_metadata_path_def list_ex_iff covering_def can_write_def)
    with assms(5) r show False by (auto simp: path_starts_with_iff list_ex_iff)
  qed
  with f have "is_metadata_write_denied h p path cwd" using metadata_denied_iff [OF k assms(2)] by blast
  with assms(1) show ?thesis by (simp add: can_write_path_with_cwd_def)
qed

theorem metadata_write_protected_witness:
  "\<not> can_write_path_with_cwd bare_host (workspace_write bare_host [] True False) (lit ''.git/config'') (lit ''/w'')"
proof -
  let ?p = "workspace_write bare_host [] True False"
  have rs: "resolved_entries_with_cwd bare_host ?p (lit ''/w'') =
     [\<lparr>res_path = [], res_access = Read\<rparr>, \<lparr>res_path = [lit ''w''], res_access = Write\<rparr>,
      \<lparr>res_path = [lit ''tmp''], res_access = Write\<rparr>, \<lparr>res_path = [lit ''w'', lit ''.git''], res_access = Read\<rparr>,
      \<lparr>res_path = [lit ''w'', lit ''.agents''], res_access = Read\<rparr>, \<lparr>res_path = [lit ''w'', lit ''.codex''], res_access = Read\<rparr>,
      \<lparr>res_path = [lit ''w'', lit ''.dsx''], res_access = Read\<rparr>]" by code_simp
  have 1: "\<not> has_full_disk_write_access ?p" by code_simp
  have 2: "resolve_candidate_path bare_host (lit ''.git/config'') (lit ''/w'') = Some ([lit ''w''] @ lit ''.git'' # [lit ''config''])" by code_simp
  have 3: "\<lparr>res_path = [lit ''w''], res_access = Write\<rparr> \<in> set (resolved_entries_with_cwd bare_host ?p (lit ''/w''))"
    unfolding rs by simp
  have 4: "is_protected_metadata_name (lit ''.git'')" by code_simp
  have "list_all (\<lambda>e. res_access e = Write \<longrightarrow> \<not> list_ex is_protected_metadata_name (res_path e))
      (resolved_entries_with_cwd bare_host ?p (lit ''/w''))" by code_simp
  then have 5: "\<forall>e \<in> covering bare_host ?p (lit ''/w'') ([lit ''w''] @ lit ''.git'' # [lit ''config'']).
      res_access e = Write \<longrightarrow> \<not> list_ex is_protected_metadata_name (res_path e)"
    by (simp add: covering_def list_all_iff del: lit_simps)
  show ?thesis by (rule metadata_write_protected [OF 1 2 3 4 5])
qed

section \<open>The legacy form\<close>

lemma append_default_reads:
  "\<exists>xs. append_default_read_only_entry_if_no_explicit_rule f es = es @ xs \<and> list_all (\<lambda>e. entry_access e = Read) xs"
  by (cases "list_ex (\<lambda>e. file_system_paths_share_target (entry_path e) f) es")
     (simp_all add: append_default_read_only_entry_if_no_explicit_rule_def entry_of_def)

lemma fold_appends_reads:
  assumes "\<And>x es. \<exists>xs. f x es = es @ xs \<and> list_all (\<lambda>e. entry_access e = Read) xs"
  shows "\<exists>xs. fold f ys es = es @ xs \<and> list_all (\<lambda>e. entry_access e = Read) xs"
proof (induction ys arbitrary: es)
  case (Cons y ys)
  obtain xs where xs: "f y es = es @ xs" "list_all (\<lambda>e. entry_access e = Read) xs" using assms by blast
  obtain zs where "fold f ys (es @ xs) = (es @ xs) @ zs" "list_all (\<lambda>e. entry_access e = Read) zs" using Cons by blast
  with xs show ?case by (intro exI [of _ "xs @ zs"]) simp
qed simp

lemma workspace_write_entries:
  "\<exists>xs. workspace_write h roots xt xs' = restricted (workspace_entries roots xt xs' @ xs) \<and>
     list_all (\<lambda>e. entry_access e = Read) xs"
proof -
  have pr: "\<exists>xs. protect_root h False r es = es @ xs \<and> list_all (\<lambda>e. entry_access e = Read) xs" for r es
    unfolding protect_root_def by (rule fold_appends_reads) (rule append_default_reads)
  obtain ys where ys: "fold (\<lambda>n. append_default_read_only_entry_if_no_explicit_rule (Special (ProjectRoots (Some n))))
      PROTECTED_METADATA_PATH_NAMES (workspace_entries roots xt xs') = workspace_entries roots xt xs' @ ys"
      "list_all (\<lambda>e. entry_access e = Read) ys"
    using fold_appends_reads [of "\<lambda>n. append_default_read_only_entry_if_no_explicit_rule (Special (ProjectRoots (Some n)))"]
      append_default_reads by blast
  obtain zs where "fold (protect_root h False) roots (workspace_entries roots xt xs' @ ys) = (workspace_entries roots xt xs' @ ys) @ zs"
      "list_all (\<lambda>e. entry_access e = Read) zs" using fold_appends_reads [of "protect_root h False", OF pr] by blast
  with ys show ?thesis by (intro exI [of _ "ys @ zs"]) (simp add: workspace_write_def)
qed

lemma scan_read_id: "entry_access e = Read \<Longrightarrow> scan_entry h cwd e s = s"
  by (auto simp: scan_entry_def can_write_def split: fs_path.splits special_path.splits option.splits)

lemma scan_reads: "list_all (\<lambda>e. entry_access e = Read) xs \<Longrightarrow> fold (scan_entry h cwd) xs s = s"
  by (induction xs arbitrary: s) (simp_all add: scan_read_id)

lemma scan_roots_loop:
  "\<forall>r\<in>set roots. cwd \<noteq> Some r \<Longrightarrow> fold (scan_entry h cwd) (map (\<lambda>q. entry_of (AtPath q) Write) roots) s =
     s\<lparr>scan_roots := scan_roots s @ roots\<rparr>"
  by (induction roots arbitrary: s) (auto simp: scan_entry_def entry_of_def can_write_def)

lemma dedup_distinct: "distinct qs \<Longrightarrow> set qs \<inter> set seen = {} \<Longrightarrow> dedup_loop seen qs = qs"
  by (induction qs arbitrary: seen) (auto simp: list_ex_iff)

text \<open>
  The legacy form round-trips. A legacy sandbox policy turned into permissions and back is the
  policy it was: the access class, the network flag, the writable roots in their order and both
  temporary-directory switches, whatever protected subpaths the host adds on the way. The roots
  must be distinct and must not repeat the workspace itself.
\<close>

theorem legacy_roundtrip:
  assumes "\<And>roots n xt xs. l = WorkspaceWrite roots n xt xs \<Longrightarrow> distinct roots \<and> (\<forall>r\<in>set roots. abs_path h cwd \<noteq> Some r)"
  shows "to_legacy_sandbox_policy h (from_legacy h l) (network_of_legacy l) cwd = Ok l"
proof (cases l)
  case (WorkspaceWrite roots n xt xs)
  with assms have d: "distinct roots" and c: "\<forall>r\<in>set roots. abs_path h cwd \<noteq> Some r" by blast+
  obtain ys where ys: "workspace_write h roots xt xs = restricted (workspace_entries roots xt xs @ ys)"
    "list_all (\<lambda>e. entry_access e = Read) ys" using workspace_write_entries by blast
  have "\<not> has_full_disk_write_access (restricted (workspace_entries roots xt xs @ ys))"
    using ys(2) by (auto simp: has_full_disk_write_access_def has_root_access_def restricted_def workspace_entries_def
        list_ex_iff list_all_iff entry_of_def can_write_def split: if_splits)
  moreover have "fold (scan_entry h (abs_path h cwd)) (workspace_entries roots xt xs @ ys) empty_scan =
      \<lparr>workspace_root_writable = True, scan_roots = roots, tmpdir_writable = \<not> xt, slash_tmp_writable = \<not> xs,
       unbridgeable_root_write = False\<rparr>"
    using scan_reads [OF ys(2)] c
    by (simp add: workspace_entries_def scan_roots_loop) (simp add: scan_entry_def entry_of_def can_write_def empty_scan_def)
  ultimately show ?thesis using WorkspaceWrite ys(1) dedup_distinct [OF d, of "[]"]
    by (simp add: to_legacy_sandbox_policy_def network_of_legacy_def net_is_enabled_def dedup_absolute_paths_def restricted_def)
next
  case (ExternalSandbox n)
  then show ?thesis by (cases n) (simp_all add: to_legacy_sandbox_policy_def external_sandbox_def network_of_legacy_def net_is_enabled_def)
qed (simp_all add: to_legacy_sandbox_policy_def unrestricted_def full_access_legacy_def network_of_legacy_def
       net_is_enabled_def restricted_def has_full_disk_write_access_def has_root_access_def can_write_def entry_of_def
       scan_entry_def empty_scan_def)

theorem legacy_roundtrip_witness:
  "to_legacy_sandbox_policy bare_host (from_legacy bare_host (WorkspaceWrite [[lit ''data'']] False True False))
     (network_of_legacy (WorkspaceWrite [[lit ''data'']] False True False)) (lit ''/w'') =
   Ok (WorkspaceWrite [[lit ''data'']] False True False)"
proof (rule legacy_roundtrip)
  fix roots n xt xs
  assume "WorkspaceWrite [[lit ''data'']] False True False = WorkspaceWrite roots n xt xs"
  moreover have "abs_path bare_host (lit ''/w'') = Some [lit ''w'']" by code_simp
  ultimately show "distinct roots \<and> (\<forall>r\<in>set roots. abs_path bare_host (lit ''/w'') \<noteq> Some r)" by auto
qed

section \<open>The roots a sandbox is given\<close>

lemma dedup_loop_set: "set (dedup_loop seen qs) = set qs - set seen"
  by (induction seen qs rule: dedup_loop.induct) (auto simp: list_ex_iff)

lemma governs_ancestor:
  assumes "governs h p cwd q m"
  shows "governs h p cwd (res_path m) m"
proof -
  have "e \<in> covering h p cwd q" if "e \<in> covering h p cwd (res_path m)" for e
    using that assms by (auto simp: governs_def covering_def intro: path_starts_with_trans)
  with assms show ?thesis by (auto simp: governs_def covering_def)
qed

lemma resolve_access_governs:
  assumes "kind p = Restricted" "abs_ok q" "governs h p cwd q m"
  shows "resolve_access_with_cwd h p (native_string q) cwd = res_access m"
proof -
  have "covering h p cwd q \<noteq> {}" using assms(3) by (auto simp: governs_def)
  with resolve_access_cases(2) [OF assms(1) candidate_native [OF assms(2)]] governs_same(2) [OF _ assms(3)]
  show ?thesis by metis
qed

text \<open>Host and policy without symbolic links: effective paths are the paths themselves.\<close>

definition no_links :: "host_fs \<Rightarrow> bool" where
  "no_links h \<longleftrightarrow> (\<forall>q. abs_ok q \<longrightarrow> normalize_effective_absolute_path h q = q)"

definition paths_ok :: "host_fs \<Rightarrow> sandbox_policy \<Rightarrow> ustr \<Rightarrow> bool" where
  "paths_ok h p cwd = list_all (\<lambda>e. abs_ok (res_path e)) (resolved_entries_with_cwd h p cwd)"

definition writable_entries :: "host_fs \<Rightarrow> sandbox_policy \<Rightarrow> ustr \<Rightarrow> path_uri list" where
  "writable_entries h p cwd = map res_path (filter (\<lambda>e. can_write (res_access e) \<and>
     can_write_path_with_cwd h p (native_string (res_path e)) cwd) (resolved_entries_with_cwd h p cwd))"

lemma writable_entries_ok:
  assumes "paths_ok h p cwd" "r \<in> set (writable_entries h p cwd)"
  shows "abs_ok r" "\<lparr>res_path = r, res_access = Write\<rparr> \<in> set (resolved_entries_with_cwd h p cwd)"
    "can_write_path_with_cwd h p (native_string r) cwd"
proof -
  from assms(2) obtain e where e: "e \<in> set (resolved_entries_with_cwd h p cwd)" "res_path e = r" "res_access e = Write"
    "can_write_path_with_cwd h p (native_string r) cwd" by (auto simp: writable_entries_def can_write_def)
  moreover have "e = \<lparr>res_path = r, res_access = Write\<rparr>" using e(2,3) by (cases e) simp
  ultimately show "abs_ok r" "\<lparr>res_path = r, res_access = Write\<rparr> \<in> set (resolved_entries_with_cwd h p cwd)"
    "can_write_path_with_cwd h p (native_string r) cwd"
    using assms(1) by (auto simp: paths_ok_def list_all_iff)
qed

lemma writable_root_in:
  assumes "no_links h" "paths_ok h p cwd" "w \<in> set (get_writable_roots_with_cwd h p cwd)"
  shows "\<not> has_full_disk_write_access p" "wr_root w \<in> set (writable_entries h p cwd)"
    "w = writable_root_for h p cwd (writable_entries h p cwd) (wr_root w)"
proof -
  have f: "\<not> has_full_disk_write_access p" using assms(3) by (auto simp: get_writable_roots_with_cwd_def)
  have "map (normalize_effective_absolute_path h) (writable_entries h p cwd) = writable_entries h p cwd"
    using assms(1) writable_entries_ok(1) [OF assms(2)] by (auto simp: no_links_def intro: map_idI)
  then have "set (dedup_absolute_paths h True (writable_entries h p cwd)) = set (writable_entries h p cwd)"
    by (simp add: dedup_absolute_paths_def dedup_loop_set)
  moreover have "get_writable_roots_with_cwd h p cwd =
      map (writable_root_for h p cwd (writable_entries h p cwd)) (dedup_absolute_paths h True (writable_entries h p cwd))"
    using f by (simp add: get_writable_roots_with_cwd_def writable_entries_def Let_def)
  ultimately obtain r where r: "r \<in> set (writable_entries h p cwd)" "w = writable_root_for h p cwd (writable_entries h p cwd) r"
    using assms(3) by auto
  then have "wr_root w = r" by (simp add: writable_root_for_def Let_def)
  with r show "wr_root w \<in> set (writable_entries h p cwd)" "w = writable_root_for h p cwd (writable_entries h p cwd) (wr_root w)" by auto
  show "\<not> has_full_disk_write_access p" by (rule f)
qed

lemma carveout_below:
  assumes "no_links h" "abs_ok q" "path_starts_with q root" "q \<noteq> root"
  shows "carveout h root raw q = Some q"
  using assms by (auto simp: carveout_def raw_carveout_path_def no_links_def)

lemma read_only_subpath_in:
  assumes "no_links h" "paths_ok h p cwd" "m \<in> set (resolved_entries_with_cwd h p cwd)" "res_access m \<noteq> Write"
    and "\<not> can_write_path_with_cwd h p (native_string (res_path m)) cwd"
    and "path_starts_with (res_path m) root" "res_path m \<noteq> root"
  shows "res_path m \<in> set (read_only_subpaths (writable_root_for h p cwd ws root))"
proof -
  let ?raw = "filter (\<lambda>q. normalize_effective_absolute_path h q = root) ws"
  have "carveout h root ?raw (res_path m) = Some (res_path m)"
    using assms by (intro carveout_below) (auto simp: paths_ok_def list_all_iff)
  then have "res_path m \<in> set (List.map_filter (\<lambda>e. carveout h root ?raw (res_path e))
      (filter (\<lambda>e. \<not> can_write (res_access e) \<and> \<not> can_write_path_with_cwd h p (native_string (res_path e)) cwd)
        (resolved_entries_with_cwd h p cwd)))"
    unfolding set_map_filter using assms by (intro bexI [of _ m]) (auto simp: can_write_def)
  then show ?thesis by (simp add: writable_root_for_def Let_def dedup_absolute_paths_def dedup_loop_set)
qed

lemma writable_below_root:
  assumes "no_links h" "paths_ok h p cwd" "w \<in> set (get_writable_roots_with_cwd h p cwd)"
    and "abs_ok q" "is_path_writable w q"
  shows "resolve_access_with_cwd h p (native_string q) cwd = Write"
proof -
  note w = writable_root_in [OF assms(1-3)]
  let ?R = "wr_root w"
  note R = writable_entries_ok [OF assms(2) w(2)]
  have k: "kind p = Restricted" using w(1) by (cases "kind p") (simp_all add: has_full_disk_write_access_def)
  have qR: "path_starts_with q ?R" using assms(5) by (simp add: is_path_writable_def)
  then have cov: "\<lparr>res_path = ?R, res_access = Write\<rparr> \<in> covering h p cwd q" using R(2) by (simp add: covering_def)
  obtain m where m: "governs h p cwd q m" "resolve_access_with_cwd h p (native_string q) cwd = res_access m"
    using resolve_access_cases(2) [OF k candidate_native [OF assms(4)]] cov by blast
  have mR: "path_starts_with (res_path m) ?R" using m(1) cov by (auto simp: governs_def)
  have mset: "m \<in> set (resolved_entries_with_cwd h p cwd)" using m(1) by (auto simp: governs_def covering_def)
  have res: "resolve_access_with_cwd h p (native_string (res_path m)) cwd = res_access m"
    using assms(2) mset by (intro resolve_access_governs [OF k _ governs_ancestor [OF m(1)]]) (auto simp: paths_ok_def list_all_iff)
  have "res_access m = Write"
  proof (rule ccontr)
    assume no: "res_access m \<noteq> Write"
    with res have nw: "\<not> can_write_path_with_cwd h p (native_string (res_path m)) cwd"
      by (simp add: can_write_path_with_cwd_def can_write_def)
    with R(3) have "res_path m \<noteq> ?R" by auto
    with read_only_subpath_in [OF assms(1,2) mset no nw mR] w(3)
    have "res_path m \<in> set (read_only_subpaths w)" by metis
    moreover have "path_starts_with q (res_path m)" using m(1) by (auto simp: governs_def covering_def)
    ultimately show False using assms(5) by (auto simp: is_path_writable_def list_ex_iff)
  qed
  with m(2) show ?thesis by simp
qed

lemma metadata_child_same:
  assumes "\<forall>e \<in> covering h p cwd (R @ n # t). res_access e = Write \<longrightarrow> path_starts_with R (res_path e)"
    and "e \<in> set (resolved_entries_with_cwd h p cwd)"
  shows "metadata_child (R @ n # t) e = metadata_child (R @ [n]) e"
proof -
  consider "res_access e \<noteq> Write" | "\<not> path_starts_with (R @ n # t) (res_path e)"
    | "res_access e = Write" "path_starts_with (R @ n # t) (res_path e)" by blast
  then show ?thesis
  proof cases
    case 1
    then show ?thesis by (simp add: metadata_child_def can_write_def)
  next
    case 2
    have "path_starts_with (R @ n # t) (R @ [n])" by (simp add: path_starts_with_iff)
    with 2 have "\<not> path_starts_with (R @ [n]) (res_path e)" using path_starts_with_trans by blast
    with 2 show ?thesis by (simp add: metadata_child_def path_strip_prefix_def)
  next
    case 3
    with assms have "path_starts_with R (res_path e)" by (auto simp: covering_def)
    then obtain s where "R = res_path e @ s" by (auto simp: path_starts_with_iff)
    then show ?thesis by (cases s) (simp_all add: metadata_child_def path_strip_prefix_def path_starts_with_def)
  qed
qed

text \<open>
  C21: The sandbox is given no more than the policy grants. Each writable root computed for the
  sandbox, with its read-only subpaths and protected names, admits a path only if the policy
  itself lets that path be written, for paths whose deepest write entry is that root, on a host
  whose paths hold no symbolic links.
\<close>

theorem writable_roots_sound:
  assumes "no_links h" "paths_ok h p cwd" "w \<in> set (get_writable_roots_with_cwd h p cwd)"
    and "abs_ok q" "is_path_writable w q"
    and "\<forall>e \<in> covering h p cwd q. res_access e = Write \<longrightarrow> path_starts_with (wr_root w) (res_path e)"
  shows "can_write_path_with_cwd h p (native_string q) cwd"
proof (rule ccontr)
  assume neg: "\<not> ?thesis"
  note w = writable_root_in [OF assms(1-3)]
  let ?R = "wr_root w" and ?rs = "resolved_entries_with_cwd h p cwd"
  note R = writable_entries_ok [OF assms(2) w(2)]
  have k: "kind p = Restricted" using w(1) by (cases "kind p") (simp_all add: has_full_disk_write_access_def)
  have "is_metadata_write_denied h p (native_string q) cwd"
    using neg w(1) writable_below_root [OF assms(1-5)] by (auto simp: can_write_path_with_cwd_def can_write_def)
  then obtain d n more where f: "List.map_filter (metadata_child q) ?rs = (d, n) # more"
    and no: "\<not> has_explicit_write_entry_for_metadata_path h p d q cwd"
    using metadata_denied_iff [OF k candidate_native [OF assms(4)]] by blast
  then have "(d, n) \<in> set (List.map_filter (metadata_child q) ?rs)" by simp
  then obtain e t where e: "e \<in> set ?rs" "res_access e = Write" "is_protected_metadata_name n" "d = res_path e @ [n]"
    "q = res_path e @ n # t" by (auto simp: set_map_filter metadata_child_Some)
  have sub: "path_starts_with ?R (res_path e)" using assms(6) e by (auto simp: covering_def path_starts_with_iff)
  have qR: "path_starts_with q ?R" using assms(5) by (simp add: is_path_writable_def)
  have eq: "res_path e = ?R"
  proof (rule ccontr)
    assume "res_path e \<noteq> ?R"
    with sub obtain x s where "?R = res_path e @ x # s" by (auto simp: path_starts_with_iff neq_Nil_conv)
    with qR e(5) have "path_starts_with ?R d" by (auto simp: path_starts_with_iff e(4))
    with R(2) qR no show False
      by (auto simp: has_explicit_write_entry_for_metadata_path_def list_ex_iff can_write_def)
  qed
  have same: "List.map_filter (metadata_child (?R @ [n])) ?rs = (d, n) # more"
    unfolding f [symmetric] using e(5) eq metadata_child_same [of h p cwd ?R n t] assms(6) by (intro map_filter_same) auto
  have okn: "abs_ok (?R @ [n])" using assms(4) e(5) eq by (simp add: abs_ok_def)
  have "\<not> has_explicit_write_entry_for_metadata_path h p d (?R @ [n]) cwd"
  proof
    assume "has_explicit_write_entry_for_metadata_path h p d (?R @ [n]) cwd"
    then obtain x where x: "x \<in> set ?rs" "res_access x = Write" "path_starts_with (?R @ [n]) (res_path x)"
      "path_starts_with (res_path x) d"
      by (auto simp: has_explicit_write_entry_for_metadata_path_def list_ex_iff can_write_def)
    have "path_starts_with q (?R @ [n])" using e(5) eq by (simp add: path_starts_with_iff)
    with x(1,3) have "x \<in> covering h p cwd q" by (auto simp: covering_def intro: path_starts_with_trans)
    with assms(6) x(2,4) have "path_starts_with ?R d" by (blast intro: path_starts_with_trans)
    with e(4) eq show False by (simp add: path_starts_with_iff)
  qed
  with same have "is_metadata_write_denied h p (native_string (?R @ [n])) cwd"
    using metadata_denied_iff [OF k candidate_native [OF okn]] by blast
  then have nw: "\<not> can_write_path_with_cwd h p (native_string (?R @ [n])) cwd" using w(1) by (simp add: can_write_path_with_cwd_def)
  have "\<forall>r \<in> set (filter (\<lambda>q. normalize_effective_absolute_path h q = ?R) (writable_entries h p cwd)). r = ?R"
    using assms(1) writable_entries_ok(1) [OF assms(2)] by (auto simp: no_links_def)
  then have "n \<in> set (protected_metadata_names w)"
    using nw e(3) by (subst w(3)) (auto simp: writable_root_for_def Let_def protected_metadata_names_for_writable_root_def
        list_all_iff is_protected_metadata_name_def list_ex_iff)
  then have "path_contains_protected_metadata_name w q"
    using e(5) eq by (auto simp: path_contains_protected_metadata_name_def path_strip_prefix_def list_ex_iff)
  with assms(5) show False by (simp add: is_path_writable_def)
qed

lemma bare_host_no_links: "no_links bare_host"
proof -
  have r: "normalize_from_ancestors bare_host q (map (Cons c) as @ [[]]) = q" if "abs_ok q" for q c as
    using that
    by (induction as) (auto simp: bare_host_def path_strip_prefix_def canonicalize_preserving_symlinks_def
        should_preserve_logical_path_def normalize_path_def push_clean abs_ok_def list_all_iff)
  show ?thesis unfolding no_links_def normalize_effective_absolute_path_def
  proof (intro allI impI)
    fix q assume q: "abs_ok q"
    show "normalize_from_ancestors bare_host q (ancestors q) = q"
    proof (cases q)
      case Nil
      then show ?thesis by (simp add: bare_host_def path_strip_prefix_def canonicalize_preserving_symlinks_def normalize_path_def)
    next
      case (Cons c cs)
      with r [OF q, of c "ancestors cs"] show ?thesis by simp
    qed
  qed
qed

theorem writable_roots_sound_witness:
  "can_write_path_with_cwd bare_host (workspace_write bare_host [] True False)
     (native_string [lit ''w'', lit ''src'']) (lit ''/w'')"
proof -
  let ?p = "workspace_write bare_host [] True False"
  let ?w = "\<lparr>wr_root = [lit ''w''], read_only_subpaths = map (\<lambda>n. [lit ''w'', n]) [lit ''.git'', lit ''.agents'', lit ''.codex'', lit ''.dsx''],
      protected_metadata_names = PROTECTED_METADATA_PATH_NAMES\<rparr>"
  have rs: "resolved_entries_with_cwd bare_host ?p (lit ''/w'') =
     [\<lparr>res_path = [], res_access = Read\<rparr>, \<lparr>res_path = [lit ''w''], res_access = Write\<rparr>,
      \<lparr>res_path = [lit ''tmp''], res_access = Write\<rparr>, \<lparr>res_path = [lit ''w'', lit ''.git''], res_access = Read\<rparr>,
      \<lparr>res_path = [lit ''w'', lit ''.agents''], res_access = Read\<rparr>, \<lparr>res_path = [lit ''w'', lit ''.codex''], res_access = Read\<rparr>,
      \<lparr>res_path = [lit ''w'', lit ''.dsx''], res_access = Read\<rparr>]" by code_simp
  have 2: "paths_ok bare_host ?p (lit ''/w'')" by code_simp
  have "get_writable_roots_with_cwd bare_host ?p (lit ''/w'') =
     [?w, \<lparr>wr_root = [lit ''tmp''], read_only_subpaths = [], protected_metadata_names = PROTECTED_METADATA_PATH_NAMES\<rparr>]" by code_simp
  then have 3: "?w \<in> set (get_writable_roots_with_cwd bare_host ?p (lit ''/w''))" by (simp del: lit_simps)
  have 4: "abs_ok [lit ''w'', lit ''src'']" by code_simp
  have 5: "is_path_writable ?w [lit ''w'', lit ''src'']" by code_simp
  have 6: "\<forall>e \<in> covering bare_host ?p (lit ''/w'') [lit ''w'', lit ''src''].
      res_access e = Write \<longrightarrow> path_starts_with (wr_root ?w) (res_path e)"
    unfolding covering_def rs by (auto simp: path_starts_with_def)
  show ?thesis by (rule writable_roots_sound [OF bare_host_no_links 2 3 4 5 6])
qed

end
