(* ===== verification/Exec_Approval_Correct.thy ===== *)
theory Exec_Approval_Correct
  imports Exec_Approval
begin

text \<open>
  What the approval requirement guarantees, across the policy engine and the command lists: rules
  are never overruled, a dangerous command that no rule covers never runs unasked, the sandbox is
  bypassed only by explicit rules, and an accepted amendment settles the request it was made for.
\<close>

lemma commands_nonempty: "commands (commands_for_exec_policy parse_tree command) \<noteq> []"
  by (auto simp: commands_for_exec_policy_def split: option.splits list.splits)

text \<open>All matches of a request, in the order the evaluation holds them.\<close>

definition request_matches ::
  "host_env \<Rightarrow> bool \<Rightarrow> (ustr \<Rightarrow> ts_tree option) \<Rightarrow> policy \<Rightarrow> exec_approval_request \<Rightarrow> rule_match list" where
  "request_matches env linux parse_tree p req =
     (let cs = commands_for_exec_policy parse_tree (req_command req) in
      concat (map (\<lambda>cmd. matches_for_command_with_options env p cmd
        (Some (render_decision_for_unmatched_command linux parse_tree (fallback_context req cs))) True) (commands cs)))"

lemma request_matches_nonempty: "request_matches env linux parse_tree p req \<noteq> []"
proof -
  obtain c cs where "commands (commands_for_exec_policy parse_tree (req_command req)) = c # cs"
    using commands_nonempty by (meson neq_Nil_conv)
  then show ?thesis by (simp add: request_matches_def Let_def matches_nonempty)
qed

definition request_decision ::
  "host_env \<Rightarrow> bool \<Rightarrow> (ustr \<Rightarrow> ts_tree option) \<Rightarrow> policy \<Rightarrow> exec_approval_request \<Rightarrow> decision" where
  "request_decision env linux parse_tree p req = Max (match_decision ` set (request_matches env linux parse_tree p req))"

lemma request_decision_ge:
  "m \<in> set (request_matches env linux parse_tree p req) \<Longrightarrow> match_decision m \<le> request_decision env linux parse_tree p req"
  by (simp add: request_decision_def)

lemma requirement_shape:
  "\<exists>t pr reason am a. create_exec_approval_requirement_for_command env linux parse_tree shlex_join p req =
     Some (case request_decision env linux parse_tree p req of
         Forbidden \<Rightarrow> ForbiddenExec t
       | Prompt \<Rightarrow> (case prompt_is_rejected_by_policy (req_approval_policy req) pr of
           Some reason \<Rightarrow> ForbiddenExec reason | None \<Rightarrow> NeedsApproval reason am)
       | Allow \<Rightarrow> Skip (list_all (\<lambda>cmd. list_ex (\<lambda>m. is_policy_match m \<and> match_decision m = Allow)
            (matches_for_command_with_options env p cmd None True))
            (commands (commands_for_exec_policy parse_tree (req_command req)))) a)"
proof -
  have c: "check_multiple_with_options env p (commands (commands_for_exec_policy parse_tree (req_command req)))
      (render_decision_for_unmatched_command linux parse_tree
        (fallback_context req (commands_for_exec_policy parse_tree (req_command req)))) True =
      Some \<lparr>decision_of = request_decision env linux parse_tree p req, matched_rules = request_matches env linux parse_tree p req\<rparr>"
    using from_matches_Some [OF request_matches_nonempty [of env linux parse_tree p req]]
    by (simp add: check_multiple_with_options_def request_matches_def request_decision_def Let_def)
  show ?thesis unfolding create_exec_approval_requirement_for_command_def Let_def c option.case evaluation.simps
    by (intro exI) (rule refl)
qed

lemma requirement_cases:
  "\<exists>r. create_exec_approval_requirement_for_command env linux parse_tree shlex_join p req = Some r \<and>
    (request_decision env linux parse_tree p req = Forbidden \<longrightarrow> (\<exists>t. r = ForbiddenExec t)) \<and>
    ((\<exists>b a. r = Skip b a) \<longleftrightarrow> request_decision env linux parse_tree p req = Allow) \<and>
    (\<forall>b a. r = Skip b a \<longrightarrow> b = list_all (\<lambda>cmd. list_ex (\<lambda>m. is_policy_match m \<and> match_decision m = Allow)
       (matches_for_command_with_options env p cmd None True)) (commands (commands_for_exec_policy parse_tree (req_command req)))) \<and>
    (\<forall>x y. r = NeedsApproval x y \<longrightarrow> (\<exists>b. prompt_is_rejected_by_policy (req_approval_policy req) b = None))"
proof -
  obtain t pr reason am a where eq: "create_exec_approval_requirement_for_command env linux parse_tree shlex_join p req =
     Some (case request_decision env linux parse_tree p req of
         Forbidden \<Rightarrow> ForbiddenExec t
       | Prompt \<Rightarrow> (case prompt_is_rejected_by_policy (req_approval_policy req) pr of
           Some reason \<Rightarrow> ForbiddenExec reason | None \<Rightarrow> NeedsApproval reason am)
       | Allow \<Rightarrow> Skip (list_all (\<lambda>cmd. list_ex (\<lambda>m. is_policy_match m \<and> match_decision m = Allow)
            (matches_for_command_with_options env p cmd None True))
            (commands (commands_for_exec_policy parse_tree (req_command req)))) a)"
    using requirement_shape by blast
  show ?thesis
    by (rule exI, rule conjI [OF eq])
       (cases "request_decision env linux parse_tree p req";
        cases "prompt_is_rejected_by_policy (req_approval_policy req) pr"; auto)
qed

lemma rule_match_in_request:
  assumes "cmd \<in> set (commands (commands_for_exec_policy parse_tree (req_command req)))"
    and "m \<in> set (matches_for_command_with_options env p cmd None True)"
  shows "m \<in> set (request_matches env linux parse_tree p req)"
proof -
  let ?f = "render_decision_for_unmatched_command linux parse_tree (fallback_context req (commands_for_exec_policy parse_tree (req_command req)))"
  have "m \<in> set (matches_for_command_with_options env p cmd (Some ?f) True)"
    using assms(2) by (auto simp: matches_for_command_with_options_def Let_def split: if_splits)
  with assms(1) show ?thesis by (auto simp: request_matches_def Let_def)
qed

lemma unmatched_in_request:
  assumes "cmd \<in> set (commands (commands_for_exec_policy parse_tree (req_command req)))"
    and "matches_for_command_with_options env p cmd None True = []"
  shows "HeuristicsRuleMatch cmd (render_decision_for_unmatched_command linux parse_tree
      (fallback_context req (commands_for_exec_policy parse_tree (req_command req))) cmd)
    \<in> set (request_matches env linux parse_tree p req)"
proof -
  let ?f = "render_decision_for_unmatched_command linux parse_tree (fallback_context req (commands_for_exec_policy parse_tree (req_command req)))"
  have "matches_for_command_with_options env p cmd (Some ?f) True = [HeuristicsRuleMatch cmd (?f cmd)]"
    using assms(2) by (auto simp: matches_for_command_with_options_def Let_def split: if_splits)
  with assms(1) show ?thesis
    by (simp add: request_matches_def Let_def) (rule bexI [of _ cmd], simp_all)
qed

text \<open>A decision that some match of the request has bounds the requirement.\<close>

lemma requirement_bounded:
  assumes "create_exec_approval_requirement_for_command env linux parse_tree shlex_join p req = Some r"
    and "d \<le> request_decision env linux parse_tree p req"
  shows "(d = Forbidden \<longrightarrow> (\<exists>t. r = ForbiddenExec t)) \<and> (d \<noteq> Allow \<longrightarrow> (\<forall>b a. r \<noteq> Skip b a))"
proof -
  have max: "Forbidden \<le> d' \<Longrightarrow> d' = Forbidden" "d \<le> Allow \<Longrightarrow> d = Allow" for d'
    by (cases d; cases d'; simp add: less_eq_decision_def)+
  obtain r' where r': "create_exec_approval_requirement_for_command env linux parse_tree shlex_join p req = Some r'"
    and forb: "request_decision env linux parse_tree p req = Forbidden \<longrightarrow> (\<exists>t. r' = ForbiddenExec t)"
    and skip: "(\<exists>b a. r' = Skip b a) \<longleftrightarrow> request_decision env linux parse_tree p req = Allow"
    using requirement_cases [of env linux parse_tree shlex_join p req] by (elim exE conjE)
  have "r' = r" using r' assms(1) by simp
  with forb skip max assms(2) show ?thesis by auto
qed

lemma unmatched_dangerous_decision:
  assumes "cmd \<in> set (commands (commands_for_exec_policy parse_tree (req_command req)))"
    and "matches_for_command_with_options env p cmd None True = []"
    and "command_might_be_dangerous parse_tree cmd" "lit ''zsh'' \<notin> set (drop 2 cmd)"
    and "req_approval_policy req = Never \<Longrightarrow> \<exists>fs n. req_permission_profile req = Managed fs n"
  shows "\<exists>d. d \<noteq> Allow \<and> d \<le> request_decision env linux parse_tree p req"
proof -
  let ?d = "render_decision_for_unmatched_command linux parse_tree (fallback_context req (commands_for_exec_policy parse_tree (req_command req))) cmd"
  have "\<not> is_known_safe_command linux parse_tree cmd"
    using known_safe_excludes_dangerous assms(3,4) by blast
  then have "?d \<noteq> Allow"
    using assms(3,5) by (auto simp: render_decision_for_unmatched_command_def fallback_context_def split: ask_for_approval.splits)
  moreover have "?d \<le> request_decision env linux parse_tree p req"
    using request_decision_ge [OF unmatched_in_request [OF assms(1,2)]] by simp
  ultimately show ?thesis by blast
qed

text \<open>
  C19: Rules are never overruled and the sandbox is never dropped silently. For every request there is
  a requirement (evaluation cannot panic); a matching forbid rule for any command of the request
  forbids it, a matching prompt rule keeps it from running unasked, the sandbox is bypassed only
  when every command has rules that match and all of them allow it, and with approvals set to
  \<open>Never\<close> nobody is asked.
\<close>

theorem requirement_respects_rules:
  "\<exists>r. create_exec_approval_requirement_for_command env linux parse_tree shlex_join p req = Some r \<and>
     (\<forall>cmd \<in> set (commands (commands_for_exec_policy parse_tree (req_command req))).
        \<forall>m \<in> set (matches_for_command_with_options env p cmd None True).
          (match_decision m = Forbidden \<longrightarrow> (\<exists>t. r = ForbiddenExec t)) \<and>
          (match_decision m = Prompt \<longrightarrow> (\<forall>b a. r \<noteq> Skip b a))) \<and>
     (\<forall>a. r = Skip True a \<longrightarrow> (\<forall>cmd \<in> set (commands (commands_for_exec_policy parse_tree (req_command req))).
        matches_for_command_with_options env p cmd None True \<noteq> [] \<and>
        (\<forall>m \<in> set (matches_for_command_with_options env p cmd None True). match_decision m = Allow))) \<and>
     (req_approval_policy req = Never \<longrightarrow> (\<forall>x y. r \<noteq> NeedsApproval x y))"
proof -
  obtain r where r: "create_exec_approval_requirement_for_command env linux parse_tree shlex_join p req = Some r"
    and forb: "request_decision env linux parse_tree p req = Forbidden \<Longrightarrow> \<exists>t. r = ForbiddenExec t"
    and skip: "(\<exists>b a. r = Skip b a) \<longleftrightarrow> request_decision env linux parse_tree p req = Allow"
    and bypass: "\<And>b a. r = Skip b a \<Longrightarrow> b = list_all (\<lambda>cmd. list_ex (\<lambda>m. is_policy_match m \<and> match_decision m = Allow)
       (matches_for_command_with_options env p cmd None True)) (commands (commands_for_exec_policy parse_tree (req_command req)))"
    and need: "\<And>x y. r = NeedsApproval x y \<Longrightarrow> \<exists>b. prompt_is_rejected_by_policy (req_approval_policy req) b = None"
    using requirement_cases [of env linux parse_tree shlex_join p req] by blast
  have ge: "match_decision m \<le> request_decision env linux parse_tree p req"
    if "cmd \<in> set (commands (commands_for_exec_policy parse_tree (req_command req)))"
      "m \<in> set (matches_for_command_with_options env p cmd None True)" for cmd m
    by (rule request_decision_ge [OF rule_match_in_request [OF that]])
  have max: "Forbidden \<le> d \<Longrightarrow> d = Forbidden" "d \<le> Allow \<Longrightarrow> d = Allow" "\<not> Prompt \<le> Allow" for d
    by (cases d; simp add: less_eq_decision_def)+
  have never: "prompt_is_rejected_by_policy Never b \<noteq> None" for b by (simp add: prompt_is_rejected_by_policy_def)
  show ?thesis
  proof (intro exI [of _ r] conjI ballI allI impI)
    fix cmd m assume cm: "cmd \<in> set (commands (commands_for_exec_policy parse_tree (req_command req)))"
      "m \<in> set (matches_for_command_with_options env p cmd None True)"
    show "\<exists>t. r = ForbiddenExec t" if "match_decision m = Forbidden" using forb max(1) ge [OF cm] that by simp
    show "r \<noteq> Skip b a" if "match_decision m = Prompt" for b a using skip max(3) ge [OF cm] that by auto
    show "match_decision m = Allow" if "r = Skip True a" for a using skip max(2) ge [OF cm] that by auto
  next
    fix a cmd assume "r = Skip True a" "cmd \<in> set (commands (commands_for_exec_policy parse_tree (req_command req)))"
    with bypass show "matches_for_command_with_options env p cmd None True \<noteq> []" by (fastforce simp: list_all_iff list_ex_iff)
  next
    fix x y assume "req_approval_policy req = Never"
    with need never show "r \<noteq> NeedsApproval x y" by metis
  qed (rule r)
qed

definition push_request :: exec_approval_request where
  "push_request = \<lparr>req_command = [lit ''git'', lit ''push''], req_approval_policy = OnRequest,
     req_permission_profile = DisabledProfile, req_sandbox_permissions = UseDefault, req_prefix_rule = None\<rparr>"

theorem requirement_respects_rules_witness:
  "\<exists>r. create_exec_approval_requirement_for_command no_env True (\<lambda>_. None) (\<lambda>_. None) git_policy push_request = Some r \<and>
     (\<forall>b a. r \<noteq> Skip b a)"
proof -
  let ?cs = "commands (commands_for_exec_policy (\<lambda>_. None) (req_command push_request))"
  let ?m = "PrefixRuleMatch [lit ''git'', lit ''push''] Prompt None None"
  have c: "[lit ''git'', lit ''push''] \<in> set ?cs" by code_simp
  have "matches_for_command_with_options no_env git_policy [lit ''git'', lit ''push''] None True =
      [PrefixRuleMatch [lit ''git''] Allow None None, ?m]" by code_simp
  then have m: "?m \<in> set (matches_for_command_with_options no_env git_policy [lit ''git'', lit ''push''] None True)" by (simp del: lit_simps)
  have d: "match_decision ?m = Prompt" by simp
  obtain r where r: "create_exec_approval_requirement_for_command no_env True (\<lambda>_. None) (\<lambda>_. None) git_policy push_request = Some r"
    and all: "\<forall>cmd \<in> set ?cs. \<forall>m \<in> set (matches_for_command_with_options no_env git_policy cmd None True).
          (match_decision m = Forbidden \<longrightarrow> (\<exists>t. r = ForbiddenExec t)) \<and> (match_decision m = Prompt \<longrightarrow> (\<forall>b a. r \<noteq> Skip b a))"
    using requirement_respects_rules [of no_env True "\<lambda>_. None" "\<lambda>_. None" git_policy push_request] by (elim exE conjE)
  have "match_decision ?m = Prompt \<longrightarrow> (\<forall>b a. r \<noteq> Skip b a)"
    by (rule conjunct2 [OF bspec [OF bspec [OF all c] m]])
  with r d show ?thesis by (intro exI conjI) (assumption, blast)
qed

text \<open>
  A dangerous command never runs unasked. If a command of the request is flagged by
  \<open>command_might_be_dangerous\<close> and no rule matches it, the request is not let through, whatever the
  rest of the request and the policy are; the one exception is the user who disabled both
  approvals and the sandbox. This needs the two command lists to be disjoint, since the safe list
  is consulted first.
\<close>

theorem dangerous_command_not_skipped:
  assumes "cmd \<in> set (commands (commands_for_exec_policy parse_tree (req_command req)))"
    and "matches_for_command_with_options env p cmd None True = []"
    and "command_might_be_dangerous parse_tree cmd" "lit ''zsh'' \<notin> set (drop 2 cmd)"
    and "req_approval_policy req = Never \<Longrightarrow> \<exists>fs n. req_permission_profile req = Managed fs n"
  shows "\<exists>r. create_exec_approval_requirement_for_command env linux parse_tree shlex_join p req = Some r \<and> (\<forall>b a. r \<noteq> Skip b a)"
proof -
  obtain d where "d \<noteq> Allow" "d \<le> request_decision env linux parse_tree p req"
    using unmatched_dangerous_decision [OF assms] by blast
  moreover obtain r where "create_exec_approval_requirement_for_command env linux parse_tree shlex_join p req = Some r"
    using requirement_cases [of env linux parse_tree shlex_join p req] by (elim exE conjE)
  ultimately show ?thesis using requirement_bounded by blast
qed

definition rm_request :: exec_approval_request where
  "rm_request = push_request\<lparr>req_command := [lit ''sudo'', lit ''rm'', lit ''-rf'', lit ''/'']\<rparr>"

theorem dangerous_command_not_skipped_witness:
  "\<exists>r. create_exec_approval_requirement_for_command no_env True (\<lambda>_. None) (\<lambda>_. None) git_policy rm_request = Some r \<and> (\<forall>b a. r \<noteq> Skip b a)"
proof (rule dangerous_command_not_skipped)
  show "[lit ''sudo'', lit ''rm'', lit ''-rf'', lit ''/''] \<in> set (commands (commands_for_exec_policy (\<lambda>_. None) (req_command rm_request)))"
    by code_simp
  show "matches_for_command_with_options no_env git_policy [lit ''sudo'', lit ''rm'', lit ''-rf'', lit ''/''] None True = []" by code_simp
  show "command_might_be_dangerous (\<lambda>_. None) [lit ''sudo'', lit ''rm'', lit ''-rf'', lit ''/'']" by code_simp
  show "lit ''zsh'' \<notin> set (drop 2 [lit ''sudo'', lit ''rm'', lit ''-rf'', lit ''/''])" by code_simp
qed (simp add: rm_request_def push_request_def)

text \<open>
  An accepted amendment settles its request. If the prefix the model asked for is offered to the
  user and the user accepts it, then, once the amendment has changed the policy, the very same
  request is let through without asking; the rule file has gained the rule as well.
\<close>

theorem accepted_amendment_settles:
  assumes "derive_requested_execpolicy_amendment_from_prefix_rule env (req_prefix_rule req) ms (current_policy m)
      (commands (commands_for_exec_policy parse_tree (req_command req)))
      (render_decision_for_unmatched_command linux parse_tree
        (fallback_context req (commands_for_exec_policy parse_tree (req_command req)))) = Some a"
    and "append_amendment_and_update env json a m = (None, m')" "current_policy m' \<noteq> current_policy m"
  shows "rules_file m' = append_locked_line (rules_file m) (allow_prefix_rule_line json a) \<and>
    (\<exists>b x. create_exec_approval_requirement_for_command env linux parse_tree shlex_join (current_policy m') req = Some (Skip b x))"
proof -
  let ?cs = "commands_for_exec_policy parse_tree (req_command req)" and ?p = "current_policy m'"
  let ?f = "render_decision_for_unmatched_command linux parse_tree (fallback_context req ?cs)"
  have a: "prefix_rule_would_approve_all_commands env (current_policy m) a (commands ?cs) ?f"
    using assms(1) by (auto simp: derive_requested_execpolicy_amendment_from_prefix_rule_def split: option.splits if_splits)
  have upd: "(add_prefix_rule (current_policy m) a Allow :: (unit policy_error, policy) result) = Inr ?p \<and>
      rules_file m' = append_locked_line (rules_file m) (allow_prefix_rule_line json a)"
    using assms(2,3)
    by (auto simp: append_amendment_and_update_def append_allow_prefix_rule_def Let_def split: sum.splits option.splits if_splits)
  then have all: "\<exists>e. check_with_options env ?p cmd ?f True = Some e \<and> decision_of e = Allow" if "cmd \<in> set (commands ?cs)" for cmd
    using a that by (auto simp: prefix_rule_would_approve_all_commands_def list_all_iff split: option.splits)
  have "match_decision x = Allow" if x: "x \<in> set (request_matches env linux parse_tree ?p req)" for x
  proof -
    obtain cmd where cmd: "cmd \<in> set (commands ?cs)" "x \<in> set (matches_for_command_with_options env ?p cmd (Some ?f) True)"
      using x by (auto simp: request_matches_def Let_def)
    let ?ms = "matches_for_command_with_options env ?p cmd (Some ?f) True"
    have "check_with_options env ?p cmd ?f True = Some \<lparr>decision_of = Max (match_decision ` set ?ms), matched_rules = ?ms\<rparr>"
      by (simp add: check_with_options_def from_matches_Some matches_nonempty)
    with all [OF cmd(1)] have "Max (match_decision ` set ?ms) = Allow" by auto
    moreover have "match_decision x \<le> Max (match_decision ` set ?ms)" using cmd(2) by simp
    ultimately show ?thesis by (cases "match_decision x") (simp_all add: less_eq_decision_def)
  qed
  then have "request_decision env linux parse_tree ?p req = Allow"
    using request_matches_nonempty [of env linux parse_tree ?p req]
    by (simp add: request_decision_def image_constant_conv [where c = Allow] cong: image_cong_simp)
  moreover obtain r where "create_exec_approval_requirement_for_command env linux parse_tree shlex_join ?p req = Some r"
    "(\<exists>b a. r = Skip b a) \<longleftrightarrow> request_decision env linux parse_tree ?p req = Allow"
    using requirement_cases [of env linux parse_tree shlex_join ?p req] by (elim exE conjE)
  ultimately show ?thesis using upd by auto
qed

definition make_request :: exec_approval_request where
  "make_request = \<lparr>req_command = [lit ''make'', lit ''build''], req_approval_policy = UnlessTrusted,
     req_permission_profile = DisabledProfile, req_sandbox_permissions = UseDefault, req_prefix_rule = Some [lit ''make'']\<rparr>"

definition start_manager :: exec_policy_manager where
  "start_manager = \<lparr>current_policy = git_policy, rules_file = []\<rparr>"

theorem accepted_amendment_settles_witness:
  "\<exists>b x. create_exec_approval_requirement_for_command no_env True (\<lambda>_. None) (\<lambda>_. None)
     (current_policy (snd (append_amendment_and_update no_env (\<lambda>s. s) [lit ''make''] start_manager))) make_request = Some (Skip b x)"
proof -
  let ?r = "append_amendment_and_update no_env (\<lambda>s. s) [lit ''make''] start_manager"
  have 1: "derive_requested_execpolicy_amendment_from_prefix_rule no_env (req_prefix_rule make_request) [] (current_policy start_manager)
      (commands (commands_for_exec_policy (\<lambda>_. None) (req_command make_request)))
      (render_decision_for_unmatched_command True (\<lambda>_. None)
        (fallback_context make_request (commands_for_exec_policy (\<lambda>_. None) (req_command make_request)))) = Some [lit ''make'']"
    by code_simp
  have "fst ?r = None" by code_simp
  then have 2: "?r = (None, snd ?r)" by (metis prod.collapse)
  have 3: "current_policy (snd ?r) \<noteq> current_policy start_manager" by code_simp
  from accepted_amendment_settles [OF 1 2 3] show ?thesis by (rule conjunct2)
qed

end
