(* ===== verification/Tool_Orchestrator_Correct.thy ===== *)
theory Tool_Orchestrator_Correct
  imports Tool_Orchestrator Exec_Approval_Correct
begin

text \<open>
  What the orchestrator guarantees about every tool call, over the trace of what it asked and what
  it ran: nothing runs without the approval its requirement asks for, the sandbox is left only on
  the grounds the code names, denied reads keep it on, and there are at most two attempts.
\<close>

section \<open>Approval steps\<close>

definition approving :: "review_decision \<Rightarrow> bool" where
  "approving d \<longleftrightarrow> (case d of Denied \<Rightarrow> False | Abort \<Rightarrow> False | TimedOut \<Rightarrow> False
     | NetworkPolicyAmendment x \<Rightarrow> x = NetAllow | _ \<Rightarrow> True)"

lemma reject_None_iff [simp]: "reject_if_not_approved w g d = None \<longleftrightarrow> approving d"
  by (auto simp: reject_if_not_approved_def approving_def split: review_decision.splits network_action.splits)

text \<open>The approvals recorded in a trace: a hook that allowed, or an answer that approves.\<close>

definition approved_in ::
  "('e, 'o) tool_runtime \<Rightarrow> ('e, 'd) surroundings \<Rightarrow> turn_context \<Rightarrow> bool \<Rightarrow> event list \<Rightarrow> bool" where
  "approved_in tool w t retry evs \<longleftrightarrow>
     \<not> strict_auto_review t \<and> has_permission_payload tool \<and> HookAsked retry \<in> set evs \<and> hook_decision w retry = Some HookAllow \<or>
     (\<exists>ask. Asked ask \<in> set evs \<and> ask_is_retry ask = retry \<and> approving (review w ask) \<and>
        (strict_auto_review t \<longrightarrow> ask_by_guardian ask))"

lemma approved_in_append:
  "approved_in tool w t retry evs \<Longrightarrow> approved_in tool w t retry (pre @ evs @ post)"
  by (auto simp: approved_in_def)

abbreviation no_attempt :: "event list \<Rightarrow> bool" where
  "no_attempt evs \<equiv> (\<forall>att. Attempted att \<notin> set evs)"

lemma approval_step_events:
  assumes "approval_step tool w ask hooks = (err, evs)"
  shows "no_attempt evs"
  using assms by (auto simp: approval_step_def request_approval_def split: if_splits option.splits hook_answer.splits)

lemma approval_step_approved:
  assumes "approval_step tool w ask hooks = (None, evs)" "hooks \<Longrightarrow> \<not> strict_auto_review t"
    and "strict_auto_review t \<Longrightarrow> ask_by_guardian ask"
  shows "approved_in tool w t (ask_is_retry ask) evs"
  using assms
  by (auto simp: approval_step_def request_approval_def approved_in_def split: if_splits option.splits hook_answer.splits)

lemma initial_approval_events: "initial_approval tool w t a = (r, evs) \<Longrightarrow> no_attempt evs"
  by (auto simp: initial_approval_def split: exec_approval_requirement.splits if_splits prod.splits option.splits
      dest: approval_step_events)

text \<open>What an initial approval that went through leaves behind.\<close>

lemma initial_approval_ok:
  assumes "initial_approval tool w t a = (Inr already, evs)"
  shows "(\<forall>x. requirement_of tool t a \<noteq> ForbiddenExec x) \<and>
    (strict_auto_review t \<or> (\<exists>x y. requirement_of tool t a = NeedsApproval x y) \<longrightarrow> approved_in tool w t False evs) \<and>
    (already \<longrightarrow> approved_in tool w t False evs)"
  using assms
  by (auto simp: initial_approval_def use_guardian_def split: exec_approval_requirement.splits if_splits prod.splits option.splits
      dest!: approval_step_approved [where t = t])

section \<open>The shape of a trace\<close>

lemma retry_denied_trace:
  assumes "retry_denied tool w t a already out payload = (r, evs)"
  shows "no_attempt evs \<or>
    (\<exists>ctx asks. evs = asks @ [Attempted (retry_attempt tool t)] \<and> no_attempt asks \<and> may_retry tool t a payload ctx \<and>
      (ctx = None \<or> Option.bind payload network_approval_context_from_payload = ctx \<and> turn_managed_network t) \<and>
      (approved_in tool w t True asks \<or> \<not> strict_auto_review t \<and> should_bypass_approval tool a already \<and> ctx = None))"
proof -
  define ctx where "ctx = (if turn_managed_network t then Option.bind payload network_approval_context_from_payload else None)"
  define ask where "ask = \<lparr>ask_is_retry = True, ask_by_guardian = use_guardian t,
                      ask_reason = Some (retry_reason ctx), ask_network = ctx\<rparr>"
  define bypass where "bypass \<longleftrightarrow> \<not> strict_auto_review t \<and> should_bypass_approval tool a already \<and> ctx = None"
  define step where "step = (if bypass then (None, []) else approval_step tool w ask (\<not> strict_auto_review t))"
  have run: "retry_denied tool w t a already out payload =
      (if \<not> may_retry tool t a payload ctx then (Inl (SandboxDenied out payload), [])
       else case step of (err, evs) \<Rightarrow> (case err of Some e \<Rightarrow> (Inl e, evs)
         | None \<Rightarrow> (case run_attempt tool w t True (retry_attempt tool t) of
                   (Inr out', d) \<Rightarrow> (Inr (out', d), evs @ [Attempted (retry_attempt tool t)])
                 | (Inl e, _) \<Rightarrow> (Inl e, evs @ [Attempted (retry_attempt tool t)]))))"
    unfolding retry_denied_def Let_def ctx_def [symmetric] ask_def [symmetric] bypass_def [symmetric] step_def [symmetric] by simp
  show ?thesis
  proof (cases "may_retry tool t a payload ctx")
    case True
    obtain err asks where s: "step = (err, asks)" by (cases step)
    have none: "no_attempt asks" using s by (auto simp: step_def split: if_splits dest: approval_step_events)
    show ?thesis
    proof (cases err)
      case (Some e)
      then show ?thesis using assms run True s none by simp
    next
      case None
      have evs: "evs = asks @ [Attempted (retry_attempt tool t)]"
        using assms run True s None by (auto split: prod.splits sum.splits)
      have "bypass \<or> approved_in tool w t True asks"
        using s None approval_step_approved [of tool w ask "\<not> strict_auto_review t" asks t]
        by (auto simp: step_def ask_def use_guardian_def split: if_splits)
      then show ?thesis using evs none True
        by (intro disjI2 exI [of _ ctx] exI [of _ asks]) (auto simp: bypass_def ctx_def)
    qed
  qed (use assms run in auto)
qed

lemma run_trace:
  "\<exists>evs. (no_attempt evs \<and> snd (orchestrator_run tool w t a) = evs) \<or>
    (\<exists>already rest. initial_approval tool w t a = (Inr already, evs) \<and>
      snd (orchestrator_run tool w t a) = evs @ Attempted (first_attempt tool t a) # rest \<and>
      (rest = [] \<or> (\<exists>out payload d r. run_attempt tool w t False (first_attempt tool t a) = (Inl (SandboxDenied out payload), d) \<and>
         retry_denied tool w t a already out payload = (r, rest))))"
proof -
  obtain ia evs where i: "initial_approval tool w t a = (ia, evs)" by (cases "initial_approval tool w t a")
  show ?thesis
  proof (cases ia)
    case (Inl err)
    then show ?thesis using i by (intro exI [of _ evs]) (auto simp: orchestrator_run_def dest: initial_approval_events)
  next
    case (Inr already)
    let ?att = "first_attempt tool t a"
    obtain r d where ra: "run_attempt tool w t False ?att = (r, d)" by (cases "run_attempt tool w t False ?att")
    have tr: "snd (orchestrator_run tool w t a) = evs @ Attempted ?att #
        (case r of Inl (SandboxDenied out p) \<Rightarrow> snd (retry_denied tool w t a already out p) | _ \<Rightarrow> [])"
      using i Inr ra by (auto simp: orchestrator_run_def Let_def split: sum.splits tool_error.splits prod.splits)
    show ?thesis
      by (rule_tac x = evs in exI, rule disjI2, rule_tac x = already in exI,
          rule_tac x = "case r of Inl (SandboxDenied out p) \<Rightarrow> snd (retry_denied tool w t a already out p) | _ \<Rightarrow> []" in exI)
        (use tr i Inr ra in \<open>auto split: sum.splits tool_error.splits intro: prod.collapse [symmetric]\<close>)
  qed
qed

text \<open>The two kinds of attempt, with everything that was asked before them.\<close>

lemma append_Cons_unique:
  assumes "xs @ x # ys = xs' @ x' # ys'" "P x" "P x'" "\<forall>z \<in> set xs. \<not> P z" "\<forall>z \<in> set xs'. \<not> P z"
  shows "xs = xs' \<and> x = x' \<and> ys = ys'"
  using assms
proof (induction xs arbitrary: xs')
  case Nil
  then show ?case by (cases xs') auto
next
  case (Cons z xs)
  then show ?case by (cases xs') auto
qed

lemma first_attempt_in: "\<not> no_attempt evs \<Longrightarrow> \<exists>p1 x p2. evs = p1 @ Attempted x # p2 \<and> no_attempt p1"
proof (induction evs)
  case (Cons e evs)
  show ?case
  proof (cases "\<exists>x. e = Attempted x")
    case True
    then show ?thesis by fastforce
  next
    case False
    then obtain p1 x p2 where "evs = p1 @ Attempted x # p2" "no_attempt p1" using Cons by auto
    with False show ?thesis by (intro exI [of _ "e # p1"]) auto
  qed
qed simp

lemma attempt_cases:
  assumes "snd (orchestrator_run tool w t a) = pre @ Attempted att # post"
  obtains (first) already where "att = first_attempt tool t a" "no_attempt pre" "initial_approval tool w t a = (Inr already, pre)"
  | (retry) evs asks already out payload d ctx where "att = retry_attempt tool t" "post = []"
      "pre = evs @ Attempted (first_attempt tool t a) # asks" "no_attempt evs" "no_attempt asks"
      "initial_approval tool w t a = (Inr already, evs)"
      "run_attempt tool w t False (first_attempt tool t a) = (Inl (SandboxDenied out payload), d)"
      "may_retry tool t a payload ctx"
      "ctx = None \<or> Option.bind payload network_approval_context_from_payload = ctx \<and> turn_managed_network t"
      "approved_in tool w t True asks \<or> \<not> strict_auto_review t \<and> should_bypass_approval tool a already \<and> ctx = None"
proof -
  let ?P = "\<lambda>e. \<exists>x. e = Attempted x"
  obtain evs already rest where i: "initial_approval tool w t a = (Inr already, evs)"
    and tr: "pre @ Attempted att # post = evs @ Attempted (first_attempt tool t a) # rest"
    and rest: "rest = [] \<or> (\<exists>out payload d r. run_attempt tool w t False (first_attempt tool t a) = (Inl (SandboxDenied out payload), d) \<and>
         retry_denied tool w t a already out payload = (r, rest))"
    using run_trace [of tool w t a] assms by auto
  have noev: "no_attempt evs" using initial_approval_events [OF i] .
  show ?thesis
  proof (cases "no_attempt pre")
    case True
    then have "pre = evs \<and> att = first_attempt tool t a"
      using append_Cons_unique [OF tr, of ?P] noev by auto
    then show ?thesis using first i noev by auto
  next
    case False
    then obtain p1 x p2 where pre: "pre = p1 @ Attempted x # p2" and p1: "no_attempt p1"
      using first_attempt_in by blast
    then have eq: "p1 = evs \<and> x = first_attempt tool t a \<and> p2 @ Attempted att # post = rest"
      using append_Cons_unique [of p1 "Attempted x" "p2 @ Attempted att # post" evs "Attempted (first_attempt tool t a)" rest ?P] tr noev
      by auto
    then obtain out payload d r where ra: "run_attempt tool w t False (first_attempt tool t a) = (Inl (SandboxDenied out payload), d)"
      and rd: "retry_denied tool w t a already out payload = (r, p2 @ Attempted att # post)"
      using rest by auto
    obtain ctx asks where ctx: "p2 @ Attempted att # post = asks @ [Attempted (retry_attempt tool t)]" "no_attempt asks"
      "may_retry tool t a payload ctx"
      "ctx = None \<or> Option.bind payload network_approval_context_from_payload = ctx \<and> turn_managed_network t"
      "approved_in tool w t True asks \<or> \<not> strict_auto_review t \<and> should_bypass_approval tool a already \<and> ctx = None"
      using retry_denied_trace [OF rd] by auto
    have "p2 = asks \<and> Attempted att = Attempted (retry_attempt tool t) \<and> post = []"
    proof (cases "no_attempt p2")
      case True
      show ?thesis by (rule append_Cons_unique [OF ctx(1), of ?P]) (use True ctx(2) in auto)
    next
      case False
      then obtain q1 y q2 where q: "p2 = q1 @ Attempted y # q2" "no_attempt q1"
        using first_attempt_in by blast
      then have "q2 @ Attempted att # post = []"
        using append_Cons_unique [of q1 "Attempted y" "q2 @ Attempted att # post" asks "Attempted (retry_attempt tool t)" "[]" ?P] ctx(1,2)
        by auto
      then show ?thesis by simp
    qed
    then show ?thesis using retry pre p1 eq i noev ra ctx by blast
  qed
qed

section \<open>A sample call\<close>

definition demo_tool :: "(unit, nat) tool_runtime" where
  "demo_tool = \<lparr>tool_requirement = None, tool_permissions = UseDefault, tool_preference = Auto, escalate_on_failure = True,
     has_permission_payload = False, network_approval_spec = None,
     wants_no_sandbox_approval = default_wants_no_sandbox_approval, should_bypass_approval = default_should_bypass_approval,
     run_tool = (\<lambda>retry att. if retry then Inr 7 else Inl (SandboxDenied () None))\<rparr>"

definition demo_world :: "(unit, unit) surroundings" where
  "demo_world = \<lparr>hook_decision = (\<lambda>_. None), review = (\<lambda>_. Approved), guardian_rejection = [], guardian_timeout = [],
     finish_network = (\<lambda>_. None), registration = (\<lambda>_. ())\<rparr>"

definition demo_turn :: turn_context where
  "demo_turn = \<lparr>turn_os = Linux, turn_fs = read_only, turn_net = NetRestricted, turn_managed_network = False,
     strict_auto_review = False, routes_to_guardian = False\<rparr>"

definition denying_turn :: turn_context where
  "denying_turn = demo_turn\<lparr>turn_fs := restricted [entry_of (Special RootPath) Write, entry_of (AtPath [lit ''secret'']) Deny]\<rparr>"

abbreviation demo_ask :: approval_ask where
  "demo_ask \<equiv> \<lparr>ask_is_retry = False, ask_by_guardian = False, ask_reason = None, ask_network = None\<rparr>"

abbreviation sandboxed :: sandbox_attempt where
  "sandboxed \<equiv> \<lparr>att_sandbox = LinuxSeccomp, att_sandbox_requested = True\<rparr>"

abbreviation unsandboxed :: sandbox_attempt where
  "unsandboxed \<equiv> \<lparr>att_sandbox = NoSandbox, att_sandbox_requested = False\<rparr>"

lemma demo_trace:
  "snd (orchestrator_run demo_tool demo_world demo_turn UnlessTrusted) =
     [Asked demo_ask, Attempted sandboxed] @ Attempted unsandboxed # []"
  by code_simp

lemma denying_trace:
  "snd (orchestrator_run demo_tool demo_world denying_turn UnlessTrusted) = [Asked demo_ask] @ Attempted sandboxed # []"
  by code_simp

section \<open>Guarantees\<close>

lemma denied_read_requires_sandbox:
  assumes "kind fs = Restricted" "e \<in> set (entries fs)" "entry_access e = Deny"
    and "\<And>s. entry_path e = Special s \<Longrightarrow> s \<noteq> Minimal \<and> (\<forall>x y. s \<noteq> UnknownPath x y)"
  shows "should_require_platform_sandbox fs net managed"
proof -
  have "narrows_write fs e"
    using assms(3,4)
    by (auto simp: narrows_write_def has_same_target_write_override_def list_ex_iff less_access_mode_def can_write_def
        split: fs_path.splits special_path.splits)
  then have "has_write_narrowing_entries fs"
    using assms(1,2) by (auto simp: has_write_narrowing_entries_def list_ex_iff)
  then show ?thesis
    using assms(1) by (simp add: should_require_platform_sandbox_def has_full_disk_write_access_def)
qed

lemma attempts_with_denied_reads:
  assumes "has_denied_read_restrictions (turn_fs t)" "Attempted att \<in> set (snd (orchestrator_run tool w t a))"
  shows "att = make_attempt tool t (turn_should_sandbox tool t)"
proof -
  obtain pre post where "snd (orchestrator_run tool w t a) = pre @ Attempted att # post"
    using assms(2) by (meson split_list)
  then show ?thesis
    by (cases rule: attempt_cases)
       (use assms(1) in \<open>auto simp: first_attempt_def retry_attempt_def sandbox_override_for_first_attempt_def unsandboxed_execution_allowed_def\<close>)
qed

text \<open>
  C10: Denied reads are never lifted. In a turn whose file system policy denies the reading of
  something, every attempt of every tool call, the retry included, runs under the sandbox the
  policy selects, whatever the rules, the permissions the model asks for, and the answers of hooks
  and reviewers; and unless the tool forbids sandboxing, or the denied entry is one that names no
  path, a sandbox is requested.
\<close>

theorem denied_reads_keep_sandbox:
  assumes "kind (turn_fs t) = Restricted" "e \<in> set (entries (turn_fs t))" "entry_access e = Deny"
    and "Attempted att \<in> set (snd (orchestrator_run tool w t a))"
  shows "att = make_attempt tool t (turn_should_sandbox tool t) \<and>
    (tool_preference tool \<noteq> Forbid \<and> entry_path e \<noteq> Special Minimal \<and> (\<forall>x y. entry_path e \<noteq> Special (UnknownPath x y)) \<longrightarrow>
      att_sandbox_requested att)"
proof
  show att: "att = make_attempt tool t (turn_should_sandbox tool t)"
    using assms attempts_with_denied_reads [of t att tool w a] by (auto simp: has_denied_read_restrictions_def list_ex_iff)
  show "tool_preference tool \<noteq> Forbid \<and> entry_path e \<noteq> Special Minimal \<and> (\<forall>x y. entry_path e \<noteq> Special (UnknownPath x y)) \<longrightarrow>
      att_sandbox_requested att"
    using denied_read_requires_sandbox [OF assms(1-3)]
    by (auto simp: att make_attempt_def turn_should_sandbox_def should_sandbox_def split: sandbox_preference.splits)
qed

theorem denied_reads_keep_sandbox_witness:
  "sandboxed = make_attempt demo_tool denying_turn (turn_should_sandbox demo_tool denying_turn) \<and> att_sandbox_requested sandboxed"
proof -
  let ?e = "entry_of (AtPath [lit ''secret'']) Deny"
  have 1: "kind (turn_fs denying_turn) = Restricted" "?e \<in> set (entries (turn_fs denying_turn))" "entry_access ?e = Deny"
    by code_simp+
  have 2: "Attempted sandboxed \<in> set (snd (orchestrator_run demo_tool demo_world denying_turn UnlessTrusted))"
    by (simp add: denying_trace)
  have 3: "tool_preference demo_tool \<noteq> Forbid \<and> entry_path ?e \<noteq> Special Minimal \<and> (\<forall>x y. entry_path ?e \<noteq> Special (UnknownPath x y))"
    by (simp add: demo_tool_def entry_of_def)
  from denied_reads_keep_sandbox [OF 1 2] 3 show ?thesis by blast
qed

lemma attempt_needs_approval:
  assumes "snd (orchestrator_run tool w t a) = pre @ Attempted att # post"
  shows "(\<forall>x. requirement_of tool t a \<noteq> ForbiddenExec x) \<and>
    (strict_auto_review t \<or> (\<exists>x y. requirement_of tool t a = NeedsApproval x y) \<longrightarrow> approved_in tool w t False pre)"
  using assms
proof (cases rule: attempt_cases)
  case (first already)
  then show ?thesis using initial_approval_ok by metis
next
  case (retry evs asks already out payload d ctx)
  then show ?thesis
    using initial_approval_ok [of tool w t a already evs]
      approved_in_append [of tool w t False evs "[]" "Attempted (first_attempt tool t a) # asks"] by auto
qed

text \<open>
  C8: Nothing runs without the approval it needs. Whenever the trace of a tool call has an attempt, the
  requirement was not a prohibition; and if it asked for approval, or if the turn is under strict
  automatic review, then a hook allowed the call or a reviewer approved it before that attempt;
  under strict review only the guardian counts.
\<close>

theorem no_attempt_without_approval:
  assumes "snd (orchestrator_run tool w t a) = pre @ Attempted att # post"
  shows "(\<forall>x. requirement_of tool t a \<noteq> ForbiddenExec x) \<and>
    (strict_auto_review t \<or> (\<exists>x y. requirement_of tool t a = NeedsApproval x y) \<longrightarrow> approved_in tool w t False pre)"
  by (rule attempt_needs_approval [OF assms])


theorem no_attempt_without_approval_witness:
  "approved_in demo_tool demo_world demo_turn False [Asked demo_ask, Attempted sandboxed]"
proof -
  have "\<exists>x y. requirement_of demo_tool demo_turn UnlessTrusted = NeedsApproval x y"
    by (intro exI [of _ None]) code_simp
  with no_attempt_without_approval [OF demo_trace] show ?thesis by blast
qed




definition push_tool :: "(unit, nat) tool_runtime" where
  "push_tool = demo_tool\<lparr>tool_requirement :=
     create_exec_approval_requirement_for_command no_env True (\<lambda>_. None) (\<lambda>_. None) git_policy push_request\<rparr>"


end
