(* ===== verification/Network_Approval.thy ===== *)
theory Network_Approval
  imports Tool_Orchestrator Truncation
begin

text \<open>
  The service that answers blocked network requests: \<open>core/src/tools/network_approval.rs\<close> with
  \<open>denied_network_policy_message\<close> of \<open>core/src/network_policy_decision.rs\<close>.

  Requests are handled concurrently, and every lock the code takes is released before the next
  \<open>await\<close>; so a request is a task with a program counter (\<open>phase\<close>), one critical section is one
  step, and tasks interleave freely. A \<open>PendingHostApproval\<close> is a cell of a heap, named by its key
  and a serial number. What a turn, a hook and a reviewer say is input to the steps. The cancelling
  of a task in the middle of its handler and the saving of a network amendment are not modelled.
\<close>

section \<open>Keys and messages\<close>

record host_key =
  key_environment :: ustr
  key_host :: ustr
  key_protocol :: ustr
  key_port :: nat

datatype proxy_protocol = ProxyHttp | ProxyHttpsConnect | ProxySocks5Tcp | ProxySocks5Udp

record net_request =
  rq_host :: ustr
  rq_protocol :: proxy_protocol
  rq_port :: nat
  rq_environment :: "ustr option"

fun approval_protocol :: "proxy_protocol \<Rightarrow> net_protocol" where
  "approval_protocol ProxyHttp = Http"
| "approval_protocol ProxyHttpsConnect = Https"
| "approval_protocol ProxySocks5Tcp = Socks5Tcp"
| "approval_protocol ProxySocks5Udp = Socks5Udp"

fun protocol_key_label :: "net_protocol \<Rightarrow> ustr" where
  "protocol_key_label Http = lit ''http''"
| "protocol_key_label Https = lit ''https''"
| "protocol_key_label Socks5Tcp = lit ''socks5-tcp''"
| "protocol_key_label Socks5Udp = lit ''socks5-udp''"

definition from_request :: "net_request \<Rightarrow> ustr \<Rightarrow> host_key" where
  "from_request rq environment = \<lparr>key_environment = environment, key_host = to_ascii_lowercase (rq_host rq),
     key_protocol = protocol_key_label (approval_protocol (rq_protocol rq)), key_port = rq_port rq\<rparr>"

definition format_network_target :: "ustr \<Rightarrow> ustr \<Rightarrow> nat \<Rightarrow> ustr" where
  "format_network_target proto h port = proto @ lit ''://'' @ h @ lit '':'' @ decimal port"

definition approval_id_for_key :: "host_key \<Rightarrow> ustr" where
  "approval_id_for_key k = lit ''network#'' @ key_environment k @ lit ''#'' @ key_protocol k @ lit ''#'' @ key_host k @
     lit ''#'' @ decimal (key_port k)"

definition policy_denial_message :: "ustr \<Rightarrow> ustr" where
  "policy_denial_message target = lit ''Network access to '' @ [34] @ target @ [34] @ lit '' was blocked by policy.''"

record blocked_request =
  blocked_host :: ustr
  blocked_reason :: ustr
  blocked_decision :: "ustr option"

definition denied_network_policy_message :: "blocked_request \<Rightarrow> ustr option" where
  "denied_network_policy_message b =
     (if blocked_decision b \<noteq> Some (lit ''deny'') then None
      else if trim (blocked_host b) = [] then Some (lit ''Network access was blocked by policy.'')
      else Some (lit ''Network access to '' @ [34] @ trim (blocked_host b) @ [34] @ lit '' was blocked: '' @
        (if blocked_reason b = lit ''denied'' then lit ''domain is explicitly denied by policy and cannot be approved from this prompt''
         else if blocked_reason b = lit ''not_allowed'' then lit ''domain is not on the allowlist for the current sandbox mode''
         else if blocked_reason b = lit ''not_allowed_local'' then lit ''local/private network addresses are blocked by the sandbox policy''
         else if blocked_reason b = lit ''method_not_allowed'' then lit ''request method is blocked by the current network mode''
         else if blocked_reason b = lit ''proxy_disabled'' then lit ''network proxy is disabled''
         else lit ''request is blocked by network policy'') @ lit ''.''))"

section \<open>State\<close>

datatype pending_decision = AllowOnce | AllowForSession | DenyAccess

datatype network_outcome = DeniedByUser | DeniedByPolicy ustr

datatype network_answer = NetworkAllow | NetworkDeny ustr

fun to_network_decision :: "pending_decision \<Rightarrow> network_answer" where
  "to_network_decision DenyAccess = NetworkDeny (lit ''not_allowed'')"
| "to_network_decision _ = NetworkAllow"

text \<open>The turn a request finds: its primary environment, profile and policy, and who reviews.\<close>

record net_turn =
  turn_environment :: "ustr option"
  turn_profile :: permission_profile
  turn_approval :: ask_for_approval
  turn_guardian :: bool

record request_context =
  rc_key :: host_key
  rc_owner :: "ustr option"
  rc_turn :: "net_turn option"
  rc_target :: ustr

type_synonym approval_cell = "host_key \<times> nat"

text \<open>The critical sections an owner still has to go through.\<close>

datatype action =
    RecordOutcome ustr network_outcome
  | RemoveDenied
  | InsertApproved
  | RemoveApproved
  | InsertDenied
  | SetDecision pending_decision
  | RemovePending

datatype phase =
    ReadCalls net_request
  | ReadTurn net_request "ustr option" "ustr option"
  | ReadDenied request_context
  | ReadApproved request_context
  | JoinPending request_context
  | Waiting approval_cell
  | Deciding request_context approval_cell
  | Acting approval_cell "action list" network_answer
  | Finished "host_key option" network_answer

text \<open>What hooks and reviewers answer; a rejection comes with the guardian's message.\<close>

datatype consultation = HookSays hook_answer | ReviewSays review_decision ustr

text \<open>
  \<open>service_calls\<close> maps a registration to the environment of its call, in insertion order. The last
  two fields only record what happened: the answers given, and the hosts copied from another session.
\<close>

record network_service =
  service_calls :: "(ustr \<times> ustr) list"
  call_outcomes :: "ustr \<rightharpoonup> network_outcome"
  cancelled_calls :: "ustr list"
  pending_approvals :: "host_key \<rightharpoonup> approval_cell"
  cell_decision :: "approval_cell \<rightharpoonup> pending_decision"
  next_cell :: nat
  approved_hosts :: "host_key set"
  denied_hosts :: "host_key set"
  service_tasks :: "nat \<rightharpoonup> phase"
  answer_log :: "(host_key \<times> consultation) list"
  synced_hosts :: "host_key set"

definition default_service :: network_service where
  "default_service = \<lparr>service_calls = [], call_outcomes = (\<lambda>_. None), cancelled_calls = [], pending_approvals = (\<lambda>_. None),
     cell_decision = (\<lambda>_. None), next_cell = 0, approved_hosts = {}, denied_hosts = {}, service_tasks = (\<lambda>_. None),
     answer_log = [], synced_hosts = {}\<rparr>"

section \<open>Calls\<close>

definition register_call :: "ustr \<Rightarrow> ustr \<Rightarrow> network_service \<Rightarrow> network_service" where
  "register_call i environment s = s\<lparr>service_calls :=
     (if i \<in> fst ` set (service_calls s) then map (\<lambda>c. if fst c = i then (i, environment) else c) (service_calls s)
      else service_calls s @ [(i, environment)])\<rparr>"

definition record_call_outcome :: "ustr \<Rightarrow> network_outcome \<Rightarrow> network_service \<Rightarrow> network_service" where
  "record_call_outcome i out s =
     (if i \<notin> fst ` set (service_calls s) then s
      else if call_outcomes s i = Some DeniedByUser then s
      else s\<lparr>call_outcomes := (call_outcomes s)(i \<mapsto> out), cancelled_calls := i # cancelled_calls s\<rparr>)"

definition remove_call :: "ustr \<Rightarrow> network_service \<Rightarrow> network_outcome option \<times> network_service" where
  "remove_call i s = (call_outcomes s i,
     s\<lparr>service_calls := filter (\<lambda>c. fst c \<noteq> i) (service_calls s), call_outcomes := (call_outcomes s)(i := None)\<rparr>)"

definition network_approval_outcome_to_result :: "network_outcome option \<Rightarrow> ('e tool_error, unit) result" where
  "network_approval_outcome_to_result out = (case out of
       Some DeniedByUser \<Rightarrow> Err (Rejected (lit ''rejected by user''))
     | Some (DeniedByPolicy msg) \<Rightarrow> Err (Rejected msg)
     | None \<Rightarrow> Ok ())"

definition finish_call :: "ustr \<Rightarrow> network_service \<Rightarrow> ('e tool_error, unit) result \<times> network_service" where
  "finish_call i s = (case remove_call i s of (out, s') \<Rightarrow> (network_approval_outcome_to_result out, s'))"

definition resolve_single_active_call :: "network_service \<Rightarrow> ustr option" where
  "resolve_single_active_call s = (case service_calls s of [c] \<Rightarrow> Some (fst c) | _ \<Rightarrow> None)"

text \<open>
  The owner is found under one lock and the outcome recorded under the next; the step relation below
  has the second half on its own as well.
\<close>

definition record_blocked_request :: "blocked_request \<Rightarrow> network_service \<Rightarrow> network_service" where
  "record_blocked_request b s = (case denied_network_policy_message b of
       None \<Rightarrow> s
     | Some msg \<Rightarrow> (case resolve_single_active_call s of
           None \<Rightarrow> s
         | Some i \<Rightarrow> record_call_outcome i (DeniedByPolicy msg) s))"

definition sync_session_approved_hosts :: "host_key set \<Rightarrow> network_service \<Rightarrow> network_service" where
  "sync_session_approved_hosts hosts s = s\<lparr>approved_hosts := hosts, synced_hosts := synced_hosts s \<union> hosts\<rparr>"

section \<open>One request\<close>

text \<open>\<open>None\<close> where calls are ambiguous; otherwise the owning call and the environment, if known.\<close>

definition attribute_request :: "(ustr \<times> ustr) list \<Rightarrow> net_request \<Rightarrow> (ustr option \<times> ustr option) option" where
  "attribute_request calls rq = (case rq_environment rq of
       Some e \<Rightarrow> Some (case calls of [c] \<Rightarrow> if snd c = e then Some (fst c) else None | _ \<Rightarrow> None, Some e)
     | None \<Rightarrow> (case calls of
           [] \<Rightarrow> Some (None, None)
         | [c] \<Rightarrow> Some (Some (fst c), Some (snd c))
         | _ \<Rightarrow> None))"

definition allows_network_approval_flow :: "ask_for_approval \<Rightarrow> bool" where
  "allows_network_approval_flow a \<longleftrightarrow> a \<noteq> Never"

definition permission_profile_allows_network_approval_flow :: "permission_profile \<Rightarrow> bool" where
  "permission_profile_allows_network_approval_flow p = (case p of Managed _ _ \<Rightarrow> True | _ \<Rightarrow> False)"

definition may_ask :: "request_context \<Rightarrow> bool" where
  "may_ask rc = (case rc_turn rc of
       None \<Rightarrow> False
     | Some t \<Rightarrow> permission_profile_allows_network_approval_flow (turn_profile t) \<and> allows_network_approval_flow (turn_approval t))"

definition outcome_for :: "request_context \<Rightarrow> network_outcome \<Rightarrow> action list" where
  "outcome_for rc out = (case rc_owner rc of Some i \<Rightarrow> [RecordOutcome i out] | None \<Rightarrow> [])"

text \<open>The actions after a refusal without asking, and after each answer.\<close>

definition refusal_plan :: "request_context \<Rightarrow> action list" where
  "refusal_plan rc = [SetDecision DenyAccess, RemovePending] @ outcome_for rc (DeniedByPolicy (policy_denial_message (rc_target rc)))"

text \<open>
  What \<open>match approval_decision\<close> resolves to: the outcome recorded for the owner, whether a refusal
  is kept for the session, and the decision.
\<close>

definition resolve_review ::
  "bool \<Rightarrow> ustr \<Rightarrow> review_decision \<Rightarrow> ustr \<Rightarrow> network_outcome option \<times> bool \<times> pending_decision" where
  "resolve_review guardian timeout d rejection = (case d of
       Approved \<Rightarrow> (None, False, AllowOnce)
     | ApprovedExecpolicyAmendment _ \<Rightarrow> (None, False, AllowOnce)
     | ApprovedForSession \<Rightarrow> (None, False, AllowForSession)
     | NetworkPolicyAmendment NetAllow \<Rightarrow> (None, False, AllowForSession)
     | NetworkPolicyAmendment NetDeny \<Rightarrow> (Some DeniedByUser, True, DenyAccess)
     | TimedOut \<Rightarrow> (Some (DeniedByPolicy timeout), False, DenyAccess)
     | _ \<Rightarrow> (Some (if guardian then DeniedByPolicy rejection else DeniedByUser), False, DenyAccess))"

definition answer_plan :: "ustr \<Rightarrow> request_context \<Rightarrow> consultation \<Rightarrow> action list \<times> pending_decision" where
  "answer_plan timeout rc answer = (case answer of
       HookSays HookAllow \<Rightarrow> ([SetDecision AllowOnce, RemovePending], AllowOnce)
     | HookSays (HookDeny msg) \<Rightarrow>
         (outcome_for rc (DeniedByPolicy msg) @ [SetDecision DenyAccess, RemovePending], DenyAccess)
     | ReviewSays d rejection \<Rightarrow>
         (case resolve_review (case rc_turn rc of Some t \<Rightarrow> turn_guardian t | None \<Rightarrow> False) timeout d rejection of
            (out, cache_session_deny, resolved) \<Rightarrow>
              ((case out of Some x \<Rightarrow> outcome_for rc x | None \<Rightarrow> []) @
               (if resolved = AllowForSession then [RemoveDenied, InsertApproved] else []) @
               (if cache_session_deny then [RemoveApproved, InsertDenied] else []) @
               [SetDecision resolved, RemovePending], resolved)))"

definition perform :: "approval_cell \<Rightarrow> action \<Rightarrow> network_service \<Rightarrow> network_service" where
  "perform cell x s = (case x of
       RecordOutcome i out \<Rightarrow> record_call_outcome i out s
     | RemoveDenied \<Rightarrow> s\<lparr>denied_hosts := denied_hosts s - {fst cell}\<rparr>
     | InsertApproved \<Rightarrow> s\<lparr>approved_hosts := insert (fst cell) (approved_hosts s)\<rparr>
     | RemoveApproved \<Rightarrow> s\<lparr>approved_hosts := approved_hosts s - {fst cell}\<rparr>
     | InsertDenied \<Rightarrow> s\<lparr>denied_hosts := insert (fst cell) (denied_hosts s)\<rparr>
     | SetDecision d \<Rightarrow> s\<lparr>cell_decision := (cell_decision s)(cell \<mapsto> d)\<rparr>
     | RemovePending \<Rightarrow> s\<lparr>pending_approvals := (pending_approvals s)(fst cell := None)\<rparr>)"

abbreviation goto :: "nat \<Rightarrow> phase \<Rightarrow> network_service \<Rightarrow> network_service" where
  "goto t ph s \<equiv> s\<lparr>service_tasks := (service_tasks s)(t \<mapsto> ph)\<rparr>"

abbreviation denied_answer :: network_answer where
  "denied_answer \<equiv> NetworkDeny (lit ''not_allowed'')"

text \<open>
  The next critical section of task \<open>t\<close> in phase \<open>ph\<close>. The arguments \<open>turn\<close> and \<open>answer\<close> are
  what the session reports if this section asks for it; \<open>None\<close> is a wait.
\<close>

definition advance_phase ::
  "ustr \<Rightarrow> nat \<Rightarrow> net_turn option \<Rightarrow> consultation \<Rightarrow> phase \<Rightarrow> network_service \<Rightarrow> network_service option" where
  "advance_phase timeout t turn answer ph s = (case ph of
       ReadCalls rq \<Rightarrow> Some (goto t (case attribute_request (service_calls s) rq of
           None \<Rightarrow> Finished None denied_answer
         | Some (owner, environment) \<Rightarrow> ReadTurn rq owner environment) s)
     | ReadTurn rq owner environment \<Rightarrow>
         Some (goto t (case (case environment of Some e \<Rightarrow> Some e | None \<Rightarrow> Option.bind turn turn_environment) of
             None \<Rightarrow> Finished None denied_answer
           | Some e \<Rightarrow> (let k = from_request rq e in
               ReadDenied \<lparr>rc_key = k, rc_owner = owner, rc_turn = turn,
                 rc_target = format_network_target (key_protocol k) (rq_host rq) (key_port k)\<rparr>)) s)
     | ReadDenied rc \<Rightarrow>
         Some (goto t (if rc_key rc \<in> denied_hosts s then Finished (Some (rc_key rc)) denied_answer else ReadApproved rc) s)
     | ReadApproved rc \<Rightarrow>
         Some (goto t (if rc_key rc \<in> approved_hosts s then Finished (Some (rc_key rc)) NetworkAllow else JoinPending rc) s)
     | JoinPending rc \<Rightarrow>
         (case pending_approvals s (rc_key rc) of
            Some cell \<Rightarrow> Some (goto t (Waiting cell) s)
          | None \<Rightarrow> (let cell = (rc_key rc, next_cell s) in
              Some (goto t (Deciding rc cell)
                (s\<lparr>pending_approvals := (pending_approvals s)(rc_key rc \<mapsto> cell), next_cell := Suc (next_cell s)\<rparr>))))
     | Waiting cell \<Rightarrow> map_option (\<lambda>d. goto t (Finished (Some (fst cell)) (to_network_decision d)) s) (cell_decision s cell)
     | Deciding rc cell \<Rightarrow>
         if \<not> may_ask rc then Some (goto t (Acting cell (refusal_plan rc) denied_answer) s)
         else (case answer_plan timeout rc answer of (plan, d) \<Rightarrow>
           Some (goto t (Acting cell plan (to_network_decision d)) (s\<lparr>answer_log := (rc_key rc, answer) # answer_log s\<rparr>)))
     | Acting cell [] r \<Rightarrow> Some (goto t (Finished (Some (fst cell)) r) s)
     | Acting cell (x # xs) r \<Rightarrow> Some (goto t (Acting cell xs r) (perform cell x s))
     | Finished _ _ \<Rightarrow> None)"

definition advance ::
  "ustr \<Rightarrow> nat \<Rightarrow> net_turn option \<Rightarrow> consultation \<Rightarrow> network_service \<Rightarrow> network_service option" where
  "advance timeout t turn answer s = Option.bind (service_tasks s t) (\<lambda>ph. advance_phase timeout t turn answer ph s)"

section \<open>Interleaving\<close>

text \<open>The argument is the text of a review that timed out, which no invariant depends on.\<close>

inductive service_step :: "ustr \<Rightarrow> network_service \<Rightarrow> network_service \<Rightarrow> bool" for timeout where
  Request: "service_tasks s t = None \<Longrightarrow> service_step timeout s (goto t (ReadCalls rq) s)"
| Task: "advance timeout t turn answer s = Some s' \<Longrightarrow> service_step timeout s s'"
| Register: "service_step timeout s (register_call i environment s)"
| Finish: "service_step timeout s (snd (remove_call i s))"
| Blocked: "service_step timeout s (record_blocked_request b s)"
| BlockedLate: "service_step timeout s (record_call_outcome i (DeniedByPolicy msg) s)"
| Sync: "service_step timeout s (sync_session_approved_hosts hosts s)"

inductive reachable_service :: "ustr \<Rightarrow> network_service \<Rightarrow> bool" for timeout where
  Start: "reachable_service timeout default_service"
| Step: "reachable_service timeout s \<Longrightarrow> service_step timeout s s' \<Longrightarrow> reachable_service timeout s'"

end
