(* ===== verification/Network_Approval_Correct.thy ===== *)
theory Network_Approval_Correct
  imports Network_Approval Tool_Orchestrator_Correct
begin

text \<open>
  Invariants of the network approval service under every interleaving of its tasks: one owner for
  each pending approval, which every waiting task depends on; no access without consent for that very
  host; and the session's two lists of hosts.
\<close>

section \<open>Owners of pending approvals\<close>

definition owns :: "phase \<Rightarrow> approval_cell \<Rightarrow> bool" where
  "owns ph c \<longleftrightarrow> (case ph of
       Deciding _ c' \<Rightarrow> c' = c
     | Acting c' xs _ \<Rightarrow> c' = c \<and> RemovePending \<in> set xs
     | _ \<Rightarrow> False)"

text \<open>
  What is left of a plan, given whether the task still holds the pending entry and what the cell
  says: the cell is written once, before the entry is removed, and the session lists change before
  that.
\<close>

fun ok_plan :: "action list \<Rightarrow> bool \<Rightarrow> pending_decision option \<Rightarrow> network_answer \<Rightarrow> bool" where
  "ok_plan [] held dec r \<longleftrightarrow> \<not> held \<and> (\<exists>d. dec = Some d \<and> r = to_network_decision d)"
| "ok_plan (RecordOutcome i out # xs) held dec r \<longleftrightarrow> ok_plan xs held dec r"
| "ok_plan (SetDecision d # xs) held dec r \<longleftrightarrow> held \<and> dec = None \<and> ok_plan xs held (Some d) r"
| "ok_plan (RemovePending # xs) held dec r \<longleftrightarrow> held \<and> dec \<noteq> None \<and> ok_plan xs False dec r"
| "ok_plan (x # xs) held dec r \<longleftrightarrow> held \<and> dec = None \<and> ok_plan xs held dec r"

lemma ok_plan_held: "ok_plan xs held dec r \<Longrightarrow> held \<longleftrightarrow> RemovePending \<in> set xs"
  by (induction xs held dec r rule: ok_plan.induct) auto

lemma ok_plan_released: "ok_plan xs False dec r \<Longrightarrow> dec \<noteq> None"
  by (induction xs False dec r rule: ok_plan.induct) auto

definition task_ok :: "network_service \<Rightarrow> phase \<Rightarrow> bool" where
  "task_ok s ph \<longleftrightarrow> (case ph of
       Deciding rc c \<Rightarrow> fst c = rc_key rc \<and> cell_decision s c = None
     | Acting c xs r \<Rightarrow> ok_plan xs (RemovePending \<in> set xs) (cell_decision s c) r \<and> snd c < next_cell s
     | Waiting c \<Rightarrow> (cell_decision s c \<noteq> None \<or> pending_approvals s (fst c) = Some c) \<and> snd c < next_cell s
     | _ \<Rightarrow> True)"

definition cells_ok :: "network_service \<Rightarrow> bool" where
  "cells_ok s \<longleftrightarrow>
     (\<forall>k c. pending_approvals s k = Some c \<longrightarrow> fst c = k \<and> snd c < next_cell s \<and> (\<exists>t ph. service_tasks s t = Some ph \<and> owns ph c)) \<and>
     (\<forall>t ph c. service_tasks s t = Some ph \<and> owns ph c \<longrightarrow> pending_approvals s (fst c) = Some c) \<and>
     (\<forall>t t' ph ph' c. service_tasks s t = Some ph \<and> service_tasks s t' = Some ph' \<and> owns ph c \<and> owns ph' c \<longrightarrow> t = t') \<and>
     (\<forall>c. next_cell s \<le> snd c \<longrightarrow> cell_decision s c = None) \<and>
     (\<forall>t ph. service_tasks s t = Some ph \<longrightarrow> task_ok s ph)"

lemma cells_okD:
  assumes "cells_ok s"
  shows "pending_approvals s k = Some c \<Longrightarrow> fst c = k \<and> snd c < next_cell s \<and> (\<exists>t ph. service_tasks s t = Some ph \<and> owns ph c)"
    and "service_tasks s t = Some ph \<Longrightarrow> owns ph c \<Longrightarrow> pending_approvals s (fst c) = Some c"
    and "service_tasks s t = Some ph \<Longrightarrow> service_tasks s t' = Some ph' \<Longrightarrow> owns ph c \<Longrightarrow> owns ph' c \<Longrightarrow> t = t'"
    and "next_cell s \<le> snd c \<Longrightarrow> cell_decision s c = None"
    and "service_tasks s t = Some ph \<Longrightarrow> task_ok s ph"
  using assms unfolding cells_ok_def by blast+

lemma cells_okI:
  assumes "\<And>k c. pending_approvals s k = Some c \<Longrightarrow> fst c = k \<and> snd c < next_cell s \<and> (\<exists>t ph. service_tasks s t = Some ph \<and> owns ph c)"
    and "\<And>t ph c. service_tasks s t = Some ph \<Longrightarrow> owns ph c \<Longrightarrow> pending_approvals s (fst c) = Some c"
    and "\<And>t t' ph ph' c. service_tasks s t = Some ph \<Longrightarrow> service_tasks s t' = Some ph' \<Longrightarrow> owns ph c \<Longrightarrow> owns ph' c \<Longrightarrow> t = t'"
    and "\<And>c. next_cell s \<le> snd c \<Longrightarrow> cell_decision s c = None"
    and "\<And>t ph. service_tasks s t = Some ph \<Longrightarrow> task_ok s ph"
  shows "cells_ok s"
proof -
  have 3: "\<forall>t t' ph ph' c. service_tasks s t = Some ph \<and> service_tasks s t' = Some ph' \<and> owns ph c \<and> owns ph' c \<longrightarrow> t = t'"
    by (intro allI impI) (elim conjE, rule assms(3))
  have 2: "\<forall>t ph c. service_tasks s t = Some ph \<and> owns ph c \<longrightarrow> pending_approvals s (fst c) = Some c"
    by (intro allI impI) (elim conjE, rule assms(2))
  show ?thesis unfolding cells_ok_def using 2 3 assms(1,4,5) by (intro conjI) simp_all
qed

text \<open>Two owners of approvals for one key are the same task.\<close>

lemma owner_unique:
  assumes "cells_ok s" "service_tasks s t = Some ph" "owns ph c" "service_tasks s t' = Some ph'" "owns ph' c'" "fst c = fst c'"
  shows "t = t'"
proof -
  have "c = c'" using cells_okD(2) [OF assms(1,2,3)] cells_okD(2) [OF assms(1,4,5)] assms(6) by (metis option.inject)
  then show ?thesis using cells_okD(3) [OF assms(1,2,4,3)] assms(5) by simp
qed

text \<open>A state that agrees on the cells, where one task moved without changing what it owns.\<close>

lemma cells_ok_move:
  assumes "cells_ok s"
    and "pending_approvals s' = pending_approvals s" "cell_decision s' = cell_decision s" "next_cell s' = next_cell s"
    and "service_tasks s' = (service_tasks s)(t \<mapsto> ph')"
    and "\<And>c. owns ph' c \<longleftrightarrow> (\<exists>ph. service_tasks s t = Some ph \<and> owns ph c)" "task_ok s ph'"
  shows "cells_ok s'"
proof -
  have ow: "\<exists>ph0. service_tasks s u = Some ph0 \<and> owns ph0 c" if "service_tasks s' u = Some ph" "owns ph c" for u ph c
    using that assms(5,6) by (cases "u = t") auto
  have tok: "task_ok s' ph = task_ok s ph" for ph
    by (simp add: task_ok_def assms(2-4) split: phase.split)
  show ?thesis
  proof (rule cells_okI)
    fix k c assume "pending_approvals s' k = Some c"
    then have p: "fst c = k \<and> snd c < next_cell s \<and> (\<exists>t ph. service_tasks s t = Some ph \<and> owns ph c)"
      using cells_okD(1) [OF assms(1)] assms(2) by simp
    then obtain u ph where u: "service_tasks s u = Some ph" "owns ph c" by blast
    have "\<exists>u ph. service_tasks s' u = Some ph \<and> owns ph c"
      using u assms(5,6) by (cases "u = t") auto
    with p show "fst c = k \<and> snd c < next_cell s' \<and> (\<exists>t ph. service_tasks s' t = Some ph \<and> owns ph c)"
      by (simp add: assms(4))
  next
    fix u ph c assume "service_tasks s' u = Some ph" "owns ph c"
    then show "pending_approvals s' (fst c) = Some c" using ow cells_okD(2) [OF assms(1)] assms(2) by metis
  next
    fix u u' ph ph' c assume "service_tasks s' u = Some ph" "service_tasks s' u' = Some ph'" "owns ph c" "owns ph' c"
    then show "u = u'" using ow cells_okD(3) [OF assms(1)] by metis
  next
    fix c :: approval_cell assume "next_cell s' \<le> snd c"
    then show "cell_decision s' c = None" using cells_okD(4) [OF assms(1)] assms(3,4) by simp
  next
    fix u ph assume "service_tasks s' u = Some ph"
    then show "task_ok s' ph" using cells_okD(5) [OF assms(1)] assms(5,7) by (auto simp: tok split: if_splits)
  qed
qed

lemma not_owner_simps [simp]:
  "\<not> owns (ReadCalls rq) c" "\<not> owns (ReadTurn rq o' e) c" "\<not> owns (ReadDenied rc) c" "\<not> owns (ReadApproved rc) c"
  "\<not> owns (JoinPending rc) c" "\<not> owns (Waiting c') c" "\<not> owns (Finished k r) c" "\<not> owns (Acting c' [] r) c"
  "owns (Deciding rc c') c \<longleftrightarrow> c' = c" "owns (Acting c' xs r) c \<longleftrightarrow> c' = c \<and> RemovePending \<in> set xs"
  by (auto simp: owns_def)

lemma task_ok_simps [simp]:
  "task_ok s (ReadCalls rq)" "task_ok s (ReadTurn rq o' e)" "task_ok s (ReadDenied rc)" "task_ok s (ReadApproved rc)"
  "task_ok s (JoinPending rc)" "task_ok s (Finished k r)"
  "task_ok s (Deciding rc c) \<longleftrightarrow> fst c = rc_key rc \<and> cell_decision s c = None"
  "task_ok s (Acting c xs r) \<longleftrightarrow> ok_plan xs (RemovePending \<in> set xs) (cell_decision s c) r \<and> snd c < next_cell s"
  "task_ok s (Waiting c) \<longleftrightarrow> (cell_decision s c \<noteq> None \<or> pending_approvals s (fst c) = Some c) \<and> snd c < next_cell s"
  by (simp_all add: task_ok_def)

lemma answer_plan_ok: "ok_plan (fst (answer_plan timeout rc answer)) True None (to_network_decision (snd (answer_plan timeout rc answer)))"
  by (auto simp: answer_plan_def resolve_review_def outcome_for_def
      split: consultation.split hook_answer.split review_decision.split network_action.split option.split)

lemma answer_plan_holds: "RemovePending \<in> set (fst (answer_plan timeout rc answer))"
  using ok_plan_held [OF answer_plan_ok] by blast

lemma refusal_plan_ok: "ok_plan (refusal_plan rc) True None (NetworkDeny (lit ''not_allowed''))"
  by (auto simp: refusal_plan_def outcome_for_def split: option.split)

text \<open>The three kinds of step that touch the cells.\<close>

lemma cells_ok_join:
  assumes "cells_ok s" "service_tasks s t = Some (JoinPending rc)" "pending_approvals s (rc_key rc) = None"
  shows "cells_ok (goto t (Deciding rc (rc_key rc, next_cell s))
     (s\<lparr>pending_approvals := (pending_approvals s)(rc_key rc \<mapsto> (rc_key rc, next_cell s)), next_cell := Suc (next_cell s)\<rparr>))"
    (is "cells_ok ?s'")
proof -
  note D = cells_okD [OF assms(1)]
  have fresh: "fst c \<noteq> rc_key rc" if "service_tasks s u = Some ph" "owns ph c" for u ph c
    using D(2) [OF that] assms(3) by auto
  show ?thesis
  proof (rule cells_okI)
    fix k c assume p: "pending_approvals ?s' k = Some c"
    show "fst c = k \<and> snd c < next_cell ?s' \<and> (\<exists>t ph. service_tasks ?s' t = Some ph \<and> owns ph c)"
    proof (cases "k = rc_key rc")
      case True
      then show ?thesis using p by (auto intro: exI [of _ t])
    next
      case False
      then have k: "fst c = k" "snd c < next_cell s" "\<exists>u ph. service_tasks s u = Some ph \<and> owns ph c"
        using p D(1) by auto
      then obtain u ph where u: "service_tasks s u = Some ph" "owns ph c" by blast
      then have "u \<noteq> t" using assms(2) by auto
      with k u show ?thesis by (auto intro!: exI [of _ u])
    qed
  next
    fix u ph c assume "service_tasks ?s' u = Some ph" "owns ph c"
    then show "pending_approvals ?s' (fst c) = Some c" using D(2) fresh by (auto split: if_splits)
  next
    fix u u' ph ph' c assume "service_tasks ?s' u = Some ph" "service_tasks ?s' u' = Some ph'" "owns ph c" "owns ph' c"
    then show "u = u'" using D(3) fresh by (auto split: if_splits) blast+
  next
    fix c :: approval_cell assume "next_cell ?s' \<le> snd c"
    then show "cell_decision ?s' c = None" using D(4) by simp
  next
    fix u ph assume u: "service_tasks ?s' u = Some ph"
    show "task_ok ?s' ph"
    proof (cases "u = t")
      case True
      then show ?thesis using u D(4) by auto
    next
      case False
      then have "task_ok s ph" using u D(5) by simp
      then show ?thesis using assms(3) by (cases ph) auto
    qed
  qed
qed

lemma cells_ok_decide:
  assumes "cells_ok s" "service_tasks s t = Some (Acting c (SetDecision d # xs) r)"
  shows "cells_ok (goto t (Acting c xs r) (s\<lparr>cell_decision := (cell_decision s)(c \<mapsto> d)\<rparr>))" (is "cells_ok ?s'")
proof -
  note D = cells_okD [OF assms(1)]
  have plan: "RemovePending \<in> set xs" "cell_decision s c = None" "ok_plan xs True (Some d) r" "snd c < next_cell s"
    using D(5) [OF assms(2)] by auto
  have ow: "\<exists>ph0. service_tasks s u = Some ph0 \<and> owns ph0 c'" if "service_tasks ?s' u = Some ph" "owns ph c'" for u ph c'
    using that assms(2) by (auto split: if_splits)
  have other: "task_ok ?s' ph" if u: "service_tasks s u = Some ph" "u \<noteq> t" for u ph
  proof -
    have "\<not> owns ph c" using D(3) [OF u(1) assms(2), of c] u(2) plan(1) by auto
    then show ?thesis using D(5) [OF u(1)] plan(2) by (cases ph) (auto dest: ok_plan_released)
  qed
  show ?thesis
  proof (rule cells_okI)
    fix k c' assume "pending_approvals ?s' k = Some c'"
    then have p: "fst c' = k" "snd c' < next_cell s" "\<exists>u ph. service_tasks s u = Some ph \<and> owns ph c'" using D(1) by auto
    then obtain u ph where u: "service_tasks s u = Some ph" "owns ph c'" by blast
    have "\<exists>u ph. service_tasks ?s' u = Some ph \<and> owns ph c'"
      using u assms(2) plan(1) by (cases "u = t") (auto intro: exI [of _ t] exI [of _ u])
    with p show "fst c' = k \<and> snd c' < next_cell ?s' \<and> (\<exists>u ph. service_tasks ?s' u = Some ph \<and> owns ph c')" by simp
  next
    fix u ph c' assume "service_tasks ?s' u = Some ph" "owns ph c'"
    then obtain ph0 where "service_tasks s u = Some ph0" "owns ph0 c'" using ow by blast
    then show "pending_approvals ?s' (fst c') = Some c'" using D(2) by simp
  next
    fix u u' ph ph' c' assume "service_tasks ?s' u = Some ph" "service_tasks ?s' u' = Some ph'" "owns ph c'" "owns ph' c'"
    then show "u = u'" using ow D(3) by metis
  next
    fix c' :: approval_cell assume "next_cell ?s' \<le> snd c'"
    then show "cell_decision ?s' c' = None" using D(4) plan(4) by auto
  next
    fix u ph assume "service_tasks ?s' u = Some ph"
    then show "task_ok ?s' ph" using other plan by (cases "u = t") auto
  qed
qed

lemma cells_ok_release:
  assumes "cells_ok s" "service_tasks s t = Some (Acting c (RemovePending # xs) r)"
  shows "cells_ok (goto t (Acting c xs r) (s\<lparr>pending_approvals := (pending_approvals s)(fst c := None)\<rparr>))" (is "cells_ok ?s'")
proof -
  note D = cells_okD [OF assms(1)]
  have plan: "cell_decision s c \<noteq> None" "ok_plan xs False (cell_decision s c) r" "snd c < next_cell s"
    using D(5) [OF assms(2)] by auto
  have released: "RemovePending \<notin> set xs" using ok_plan_held [OF plan(2)] by simp
  have pend: "pending_approvals s (fst c) = Some c" using D(2) [OF assms(2), of c] by simp
  have ow: "service_tasks s u = Some ph \<and> u \<noteq> t" if "service_tasks ?s' u = Some ph" "owns ph c'" for u ph c'
    using that released by (auto split: if_splits)
  have apart: "fst c' \<noteq> fst c" if "service_tasks s u = Some ph" "owns ph c'" "u \<noteq> t" for u ph c'
    using owner_unique [OF assms(1) that(1,2) assms(2), of c] that(3) by auto
  show ?thesis
  proof (rule cells_okI)
    fix k c' assume p': "pending_approvals ?s' k = Some c'"
    then have p: "k \<noteq> fst c" "fst c' = k" "snd c' < next_cell s" "\<exists>u ph. service_tasks s u = Some ph \<and> owns ph c'"
      using D(1) by (auto split: if_splits)
    then obtain u ph where u: "service_tasks s u = Some ph" "owns ph c'" by blast
    then have "u \<noteq> t" using assms(2) p(1,2) by auto
    then have "\<exists>u ph. service_tasks ?s' u = Some ph \<and> owns ph c'" using u by (intro exI [of _ u] exI [of _ ph]) simp
    with p(2,3) show "fst c' = k \<and> snd c' < next_cell ?s' \<and> (\<exists>u ph. service_tasks ?s' u = Some ph \<and> owns ph c')" by simp
  next
    fix u ph c' assume u: "service_tasks ?s' u = Some ph" "owns ph c'"
    then have "fst c' \<noteq> fst c" "pending_approvals s (fst c') = Some c'" using ow [OF u] apart D(2) by blast+
    then show "pending_approvals ?s' (fst c') = Some c'" by simp
  next
    fix u u' ph ph' c' assume "service_tasks ?s' u = Some ph" "service_tasks ?s' u' = Some ph'" "owns ph c'" "owns ph' c'"
    then show "u = u'" using ow D(3) by metis
  next
    fix c' :: approval_cell assume "next_cell ?s' \<le> snd c'"
    then show "cell_decision ?s' c' = None" using D(4) by simp
  next
    fix u ph assume u: "service_tasks ?s' u = Some ph"
    show "task_ok ?s' ph"
    proof (cases "u = t")
      case True
      then show ?thesis using u plan released by auto
    next
      case False
      then have "task_ok s ph" using u D(5) by simp
      then show ?thesis using plan(1) pend by (cases ph) auto
    qed
  qed
qed

text \<open>Every other step leaves the cells alone.\<close>

lemma record_call_outcome_simps [simp]:
  "pending_approvals (record_call_outcome i x s) = pending_approvals s" "cell_decision (record_call_outcome i x s) = cell_decision s"
  "next_cell (record_call_outcome i x s) = next_cell s" "service_tasks (record_call_outcome i x s) = service_tasks s"
  "approved_hosts (record_call_outcome i x s) = approved_hosts s" "denied_hosts (record_call_outcome i x s) = denied_hosts s"
  "answer_log (record_call_outcome i x s) = answer_log s" "synced_hosts (record_call_outcome i x s) = synced_hosts s"
  by (simp_all add: record_call_outcome_def)

lemma cells_ok_same:
  assumes "cells_ok s" "pending_approvals s' = pending_approvals s" "cell_decision s' = cell_decision s"
    "next_cell s' = next_cell s" "service_tasks s' = service_tasks s"
  shows "cells_ok s'"
proof -
  have "task_ok s' ph = task_ok s ph" for ph by (cases ph) (simp_all add: assms(2-5))
  then show ?thesis using assms(1) unfolding cells_ok_def by (simp add: assms(2-5))
qed

lemma cells_ok_act:
  assumes "cells_ok s" "service_tasks s t = Some (Acting c (x # xs) r)"
  shows "cells_ok (goto t (Acting c xs r) (perform c x s))"
proof (cases x)
  case (SetDecision d)
  then show ?thesis using cells_ok_decide [of s t c d xs r] assms by (simp add: perform_def)
next
  case RemovePending
  then show ?thesis using cells_ok_release [of s t c xs r] assms by (simp add: perform_def)
qed (rule cells_ok_move [OF assms(1), where t = t and ph' = "Acting c xs r"];
     use cells_okD(5) [OF assms] assms(2) in \<open>auto simp: perform_def\<close>)+

lemma advance_cells_ok:
  assumes "cells_ok s" "advance timeout t turn answer s = Some s'"
  shows "cells_ok s'"
proof -
  obtain ph where ph: "service_tasks s t = Some ph" and a: "advance_phase timeout t turn answer ph s = Some s'"
    using assms(2) by (auto simp: advance_def bind_eq_Some_conv)
  have neutral: "cells_ok (goto t ph' s)" if "\<And>c. \<not> owns ph c" "\<And>c. \<not> owns ph' c" "task_ok s ph'" for ph'
    by (rule cells_ok_move [OF assms(1), where t = t and ph' = ph']) (use ph that in auto)
  show ?thesis
  proof (cases ph)
    case (JoinPending rc)
    show ?thesis
    proof (cases "pending_approvals s (rc_key rc)")
      case None
      then show ?thesis using a JoinPending cells_ok_join [OF assms(1)] ph by (simp add: advance_phase_def Let_def) metis
    next
      case (Some c)
      then show ?thesis using a JoinPending neutral cells_okD(1) [OF assms(1) Some] by (auto simp: advance_phase_def)
    qed
  next
    case (Deciding rc c)
    have ok: "fst c = rc_key rc" "cell_decision s c = None" "snd c < next_cell s"
      using cells_okD(5) [OF assms(1) ph] cells_okD(1) [OF assms(1) cells_okD(2) [OF assms(1) ph]] Deciding by auto
    have refusal: "RemovePending \<in> set (refusal_plan rc)" using ok_plan_held [OF refusal_plan_ok] by blast
    obtain xs r lg where s': "s' = goto t (Acting c xs r) (s\<lparr>answer_log := lg\<rparr>)"
      and plan: "ok_plan xs True None r" "RemovePending \<in> set xs"
    proof (cases "may_ask rc")
      case True
      show ?thesis
        by (rule that [where xs = "fst (answer_plan timeout rc answer)" and lg = "(rc_key rc, answer) # answer_log s"
              and r = "to_network_decision (snd (answer_plan timeout rc answer))"])
           (use a Deciding True answer_plan_ok answer_plan_holds in \<open>auto simp: advance_phase_def split: prod.splits\<close>)
    next
      case False
      show ?thesis
        by (rule that [where xs = "refusal_plan rc" and lg = "answer_log s" and r = denied_answer])
           (use a Deciding False refusal_plan_ok refusal in \<open>auto simp: advance_phase_def\<close>)
    qed
    show ?thesis
      by (rule cells_ok_move [OF assms(1), where t = t and ph' = "Acting c xs r"]) (use s' ph Deciding plan ok in auto)
  next
    case (Acting c xs r)
    show ?thesis
    proof (cases xs)
      case Nil
      then show ?thesis using a Acting neutral [of "Finished (Some (fst c)) r"] by (auto simp: advance_phase_def)
    next
      case (Cons x ys)
      then have "s' = goto t (Acting c ys r) (perform c x s)" using a Acting by (simp add: advance_phase_def)
      then show ?thesis using cells_ok_act [OF assms(1), of t c x ys r] ph Acting Cons by simp
    qed
  qed (use a neutral in \<open>auto simp: advance_phase_def Let_def split: option.splits if_splits prod.splits\<close>)
qed

lemma service_step_cells_ok: "service_step timeout s s' \<Longrightarrow> cells_ok s \<Longrightarrow> cells_ok s'"
proof (induction rule: service_step.induct)
  case (Request s t rq)
  show ?case by (rule cells_ok_move [OF Request(2), where t = t and ph' = "ReadCalls rq"]) (use Request(1) in simp_all)
next
  case (Task t turn answer s s')
  then show ?case by (rule advance_cells_ok [rotated])
next
  case (Blocked s b)
  show ?case by (rule cells_ok_same [OF Blocked]) (simp_all add: record_blocked_request_def split: option.split)
qed (erule cells_ok_same; simp add: register_call_def remove_call_def sync_session_approved_hosts_def)+

lemma reachable_cells_ok: "reachable_service timeout s \<Longrightarrow> cells_ok s"
proof (induction rule: reachable_service.induct)
  case Start
  show ?case by (simp add: cells_ok_def default_service_def)
qed (rule service_step_cells_ok)

section \<open>Consent\<close>

definition consenting :: "consultation \<Rightarrow> bool" where
  "consenting a = (case a of HookSays x \<Rightarrow> x = HookAllow | ReviewSays d _ \<Rightarrow> approving d)"

definition consented :: "(host_key \<times> consultation) list \<Rightarrow> host_key \<Rightarrow> bool" where
  "consented log k \<longleftrightarrow> (\<exists>a. (k, a) \<in> set log \<and> consenting a)"

lemma consented_Cons [simp]: "consented ((k', a) # log) k \<longleftrightarrow> k' = k \<and> consenting a \<or> consented log k"
  by (auto simp: consented_def)

text \<open>Whether what is left of a plan still grants something.\<close>

definition granting :: "action list \<Rightarrow> network_answer \<Rightarrow> bool" where
  "granting xs r \<longleftrightarrow> r = NetworkAllow \<or> InsertApproved \<in> set xs \<or> (\<exists>d. SetDecision d \<in> set xs \<and> d \<noteq> DenyAccess)"

lemma granting_Cons [simp]:
  "granting (x # xs) r \<longleftrightarrow> x = InsertApproved \<or> (\<exists>d. x = SetDecision d \<and> d \<noteq> DenyAccess) \<or> granting xs r"
  by (auto simp: granting_def)

lemma granting_outcome [simp]: "granting (outcome_for rc x @ xs) r \<longleftrightarrow> granting xs r"
  by (simp add: outcome_for_def split: option.split)

lemma answer_plan_granting:
  "granting (fst (answer_plan timeout rc answer)) (to_network_decision (snd (answer_plan timeout rc answer))) \<Longrightarrow> consenting answer"
  by (auto simp: answer_plan_def resolve_review_def consenting_def approving_def granting_def outcome_for_def
      split: consultation.splits hook_answer.splits review_decision.splits network_action.splits option.splits if_splits)

lemma refusal_plan_granting: "\<not> granting (refusal_plan rc) denied_answer"
  by (auto simp: refusal_plan_def granting_def outcome_for_def split: option.split)

fun phase_consented :: "host_key set \<Rightarrow> (host_key \<times> consultation) list \<Rightarrow> phase \<Rightarrow> bool" where
  "phase_consented synced log (Acting c xs r) \<longleftrightarrow> (granting xs r \<longrightarrow> consented log (fst c))"
| "phase_consented synced log (Finished k NetworkAllow) \<longleftrightarrow> (\<exists>h. k = Some h \<and> (h \<in> synced \<or> consented log h))"
| "phase_consented synced log _ \<longleftrightarrow> True"

lemma phase_consented_mono:
  "phase_consented sy log ph \<Longrightarrow> sy \<subseteq> sy' \<Longrightarrow> set log \<subseteq> set log' \<Longrightarrow> phase_consented sy' log' ph"
  by (induction sy log ph rule: phase_consented.induct) (auto simp: consented_def)

definition consent_ok :: "network_service \<Rightarrow> bool" where
  "consent_ok s \<longleftrightarrow>
     (\<forall>k \<in> approved_hosts s. k \<in> synced_hosts s \<or> consented (answer_log s) k) \<and>
     (\<forall>c d. cell_decision s c = Some d \<and> d \<noteq> DenyAccess \<longrightarrow> consented (answer_log s) (fst c)) \<and>
     (\<forall>t ph. service_tasks s t = Some ph \<longrightarrow> phase_consented (synced_hosts s) (answer_log s) ph)"

text \<open>What a step may do without losing the invariant.\<close>

lemma consent_ok_step:
  assumes "consent_ok s" "set (answer_log s) \<subseteq> set (answer_log s')" "synced_hosts s \<subseteq> synced_hosts s'"
    and "\<forall>k \<in> approved_hosts s'. k \<in> approved_hosts s \<or> k \<in> synced_hosts s' \<or> consented (answer_log s') k"
    and "\<forall>c d. cell_decision s' c = Some d \<longrightarrow> cell_decision s c = Some d \<or> d = DenyAccess \<or> consented (answer_log s') (fst c)"
    and "\<forall>u ph. service_tasks s' u = Some ph \<longrightarrow> service_tasks s u = Some ph \<or> phase_consented (synced_hosts s') (answer_log s') ph"
  shows "consent_ok s'"
proof -
  have mono: "consented (answer_log s) k \<Longrightarrow> consented (answer_log s') k" for k using assms(2) by (auto simp: consented_def)
  have 1: "\<forall>k \<in> approved_hosts s'. k \<in> synced_hosts s' \<or> consented (answer_log s') k"
    using assms(1,3,4) mono unfolding consent_ok_def by blast
  have 2: "\<forall>c d. cell_decision s' c = Some d \<and> d \<noteq> DenyAccess \<longrightarrow> consented (answer_log s') (fst c)"
    using assms(1,5) mono unfolding consent_ok_def by metis
  have 3: "\<forall>u ph. service_tasks s' u = Some ph \<longrightarrow> phase_consented (synced_hosts s') (answer_log s') ph"
    using assms(1,6) phase_consented_mono [OF _ assms(3,2)] unfolding consent_ok_def by metis
  from 1 2 3 show ?thesis unfolding consent_ok_def by blast
qed

lemma advance_consent_ok:
  assumes "cells_ok s" "consent_ok s" "advance timeout t turn answer s = Some s'"
  shows "consent_ok s'"
proof -
  obtain ph where ph: "service_tasks s t = Some ph" and a: "advance_phase timeout t turn answer ph s = Some s'"
    using assms(3) by (auto simp: advance_def bind_eq_Some_conv)
  have now: "phase_consented (synced_hosts s) (answer_log s) ph" using assms(2) ph by (simp add: consent_ok_def)
  have simple: "consent_ok (goto t ph' s)" if "phase_consented (synced_hosts s) (answer_log s) ph'" for ph'
    by (rule consent_ok_step [OF assms(2)]) (use that in auto)
  show ?thesis
  proof (cases ph)
    case (ReadApproved rc)
    have "rc_key rc \<in> approved_hosts s \<Longrightarrow> rc_key rc \<in> synced_hosts s \<or> consented (answer_log s) (rc_key rc)"
      using assms(2) by (simp add: consent_ok_def)
    then show ?thesis using a ReadApproved by (auto simp: advance_phase_def intro!: simple split: if_splits)
  next
    case (JoinPending rc)
    have new: "consent_ok (goto t (Deciding rc c) (s\<lparr>pending_approvals := p, next_cell := n\<rparr>))" for c p n
      by (rule consent_ok_step [OF assms(2)]) auto
    show ?thesis using a JoinPending new by (auto simp: advance_phase_def Let_def intro!: simple split: option.splits)
  next
    case (Waiting c)
    then obtain d where d: "cell_decision s c = Some d" "s' = goto t (Finished (Some (fst c)) (to_network_decision d)) s"
      using a by (auto simp: advance_phase_def)
    have "d \<noteq> DenyAccess \<Longrightarrow> consented (answer_log s) (fst c)" using d(1) assms(2) unfolding consent_ok_def by blast
    then show ?thesis using d(2) by (cases d) (auto intro!: simple)
  next
    case (Deciding rc c)
    then have k: "fst c = rc_key rc" using cells_okD(5) [OF assms(1) ph] by simp
    show ?thesis
    proof (cases "may_ask rc")
      case True
      then have s': "s' = goto t (Acting c (fst (answer_plan timeout rc answer)) (to_network_decision (snd (answer_plan timeout rc answer))))
          (s\<lparr>answer_log := (rc_key rc, answer) # answer_log s\<rparr>)"
        using a Deciding by (auto simp: advance_phase_def split: prod.splits)
      show ?thesis
        by (rule consent_ok_step [OF assms(2)]) (use s' k answer_plan_granting in auto)
    next
      case False
      then show ?thesis using a Deciding refusal_plan_granting by (auto simp: advance_phase_def intro!: simple)
    qed
  next
    case (Acting c xs r)
    have g: "granting xs r \<Longrightarrow> consented (answer_log s) (fst c)" using now Acting by simp
    show ?thesis
    proof (cases xs)
      case Nil
      then have "s' = goto t (Finished (Some (fst c)) r) s" using a Acting by (simp add: advance_phase_def)
      then show ?thesis using g by (cases r) (auto simp: granting_def intro!: simple)
    next
      case (Cons x ys)
      then have s': "s' = goto t (Acting c ys r) (perform c x s)" using a Acting by (simp add: advance_phase_def)
      have "consented (answer_log s) (fst c) \<or> x \<noteq> InsertApproved \<and> (\<forall>d. x = SetDecision d \<longrightarrow> d = DenyAccess) \<and> \<not> granting ys r"
        using g Cons by auto
      then show ?thesis
        by (intro consent_ok_step [OF assms(2)]) (use s' in \<open>auto simp: perform_def split: action.splits\<close>)
    qed
  qed (use a in \<open>auto simp: advance_phase_def Let_def split: option.splits prod.splits if_splits intro!: simple\<close>)
qed

lemma reachable_consent_ok: "reachable_service timeout s \<Longrightarrow> consent_ok s"
proof (induction rule: reachable_service.induct)
  case Start
  show ?case by (simp add: consent_ok_def default_service_def)
next
  case (Step s s')
  from Step(2) show ?case
  proof cases
    case (Task t turn answer)
    then show ?thesis using advance_consent_ok reachable_cells_ok Step by blast
  qed (rule consent_ok_step [OF Step(3)];
       auto simp: register_call_def remove_call_def sync_session_approved_hosts_def record_blocked_request_def split: option.splits if_splits)+
qed

section \<open>The session's lists\<close>

fun guarded :: "action list \<Rightarrow> bool" where
  "guarded (RemoveDenied # InsertApproved # xs) \<longleftrightarrow> guarded xs"
| "guarded (RemoveApproved # InsertDenied # xs) \<longleftrightarrow> guarded xs"
| "guarded (InsertApproved # xs) \<longleftrightarrow> False"
| "guarded (InsertDenied # xs) \<longleftrightarrow> False"
| "guarded (x # xs) \<longleftrightarrow> guarded xs"
| "guarded [] \<longleftrightarrow> True"

lemma answer_plan_guarded: "guarded (fst (answer_plan timeout rc answer))"
  by (auto simp: answer_plan_def resolve_review_def outcome_for_def
      split: consultation.split hook_answer.split review_decision.split network_action.split option.split)

lemma refusal_plan_guarded: "guarded (refusal_plan rc)"
  by (auto simp: refusal_plan_def outcome_for_def split: option.split)

definition insert_ready :: "host_key set \<Rightarrow> host_key set \<Rightarrow> host_key set \<Rightarrow> host_key \<Rightarrow> action list \<Rightarrow> bool" where
  "insert_ready appr den sy k xs \<longleftrightarrow> (case xs of
       InsertApproved # ys \<Rightarrow> guarded ys \<and> k \<notin> den
     | InsertDenied # ys \<Rightarrow> guarded ys \<and> (k \<notin> appr \<or> k \<in> sy)
     | _ \<Rightarrow> guarded xs)"

definition lists_ok :: "network_service \<Rightarrow> bool" where
  "lists_ok s \<longleftrightarrow> approved_hosts s \<inter> denied_hosts s \<subseteq> synced_hosts s \<and>
     (\<forall>t c xs r. service_tasks s t = Some (Acting c xs r) \<longrightarrow>
        insert_ready (approved_hosts s) (denied_hosts s) (synced_hosts s) (fst c) xs)"

lemma insert_ready_guarded: "guarded xs \<Longrightarrow> insert_ready a d y k xs"
  by (auto simp: insert_ready_def split: list.splits action.splits)

lemma insert_ready_other:
  assumes "insert_ready a d y k xs" "\<And>ys. xs = InsertApproved # ys \<Longrightarrow> k \<notin> d'" "\<And>ys. xs = InsertDenied # ys \<Longrightarrow> k \<notin> a' \<or> k \<in> y'"
  shows "insert_ready a' d' y' k xs"
  using assms by (auto simp: insert_ready_def split: list.splits action.splits)

lemma lists_ok_same:
  assumes "lists_ok s" "approved_hosts s' = approved_hosts s" "denied_hosts s' = denied_hosts s" "synced_hosts s' = synced_hosts s"
    and "\<And>u c xs r. service_tasks s' u = Some (Acting c xs r) \<Longrightarrow>
      service_tasks s u = Some (Acting c xs r) \<or> insert_ready (approved_hosts s) (denied_hosts s) (synced_hosts s) (fst c) xs"
  shows "lists_ok s'"
  using assms unfolding lists_ok_def by metis

lemma lists_okD:
  assumes "lists_ok s"
  shows "approved_hosts s \<inter> denied_hosts s \<subseteq> synced_hosts s"
    and "service_tasks s t = Some (Acting c xs r) \<Longrightarrow> insert_ready (approved_hosts s) (denied_hosts s) (synced_hosts s) (fst c) xs"
  using assms unfolding lists_ok_def by blast+

text \<open>A task about to write a list owns its key.\<close>

lemma writer_owns:
  assumes "cells_ok s" "service_tasks s t = Some (Acting c (x # xs) r)" "x \<in> {RemoveDenied, InsertApproved, RemoveApproved, InsertDenied}"
  shows "owns (Acting c (x # xs) r) c"
  using cells_okD(5) [OF assms(1,2)] assms(3) by auto

lemma perform_tasks [simp]: "service_tasks (perform c x s) = service_tasks s"
  by (simp add: perform_def split: action.split)

lemma lists_ok_act:
  assumes "cells_ok s" "lists_ok s" "service_tasks s t = Some (Acting c (x # xs) r)"
  shows "lists_ok (goto t (Acting c xs r) (perform c x s))"
proof (cases "x \<in> {RemoveDenied, InsertApproved, RemoveApproved, InsertDenied}")
  case False
  note lists_okD(2) [OF assms(2,3)]
  then have "guarded xs" using False by (cases x) (auto simp: insert_ready_def)
  then show ?thesis
    by (intro lists_ok_same [OF assms(2)])
       (use False in \<open>auto simp: perform_def insert_ready_guarded split: action.splits if_splits\<close>)
next
  case True
  have own: "owns (Acting c (x # xs) r) c" using writer_owns [OF assms(1,3) True] .
  note ready = lists_okD(2) [OF assms(2,3)] and sub = lists_okD(1) [OF assms(2)]
  let ?s' = "goto t (Acting c xs r) (perform c x s)"
  have mine: "insert_ready (approved_hosts ?s') (denied_hosts ?s') (synced_hosts ?s') (fst c) xs"
    using ready True by (cases xs) (auto simp: insert_ready_def perform_def split: action.splits)
  have other: "insert_ready (approved_hosts ?s') (denied_hosts ?s') (synced_hosts ?s') (fst c') ys"
    if u: "service_tasks s u = Some (Acting c' ys r')" "u \<noteq> t" for u c' ys r'
  proof (rule insert_ready_other)
    show r0: "insert_ready (approved_hosts s) (denied_hosts s) (synced_hosts s) (fst c') ys" by (rule lists_okD(2) [OF assms(2) u(1)])
    have apart: "fst c' \<noteq> fst c" if "ys = y # zs" "y \<in> {InsertApproved, InsertDenied}" for y zs
      using owner_unique [OF assms(1,3) own, of u "Acting c' ys r'" c'] writer_owns [OF assms(1), of u c' y zs r'] u that by auto
    show "fst c' \<notin> denied_hosts ?s'" if "ys = InsertApproved # zs" for zs
      using apart [OF that] r0 that True by (auto simp: insert_ready_def perform_def)
    show "fst c' \<notin> approved_hosts ?s' \<or> fst c' \<in> synced_hosts ?s'" if "ys = InsertDenied # zs" for zs
      using apart [OF that] r0 that True by (auto simp: insert_ready_def perform_def)
  qed
  have "approved_hosts ?s' \<inter> denied_hosts ?s' \<subseteq> synced_hosts ?s'"
    using sub ready True by (auto simp: perform_def insert_ready_def)
  then show ?thesis using mine other unfolding lists_ok_def by (auto split: if_splits)
qed

lemma advance_lists_ok:
  assumes "cells_ok s" "lists_ok s" "advance timeout t turn answer s = Some s'"
  shows "lists_ok s'"
proof -
  obtain ph where ph: "service_tasks s t = Some ph" and a: "advance_phase timeout t turn answer ph s = Some s'"
    using assms(3) by (auto simp: advance_def bind_eq_Some_conv)
  have simple: "lists_ok s''" if "approved_hosts s'' = approved_hosts s" "denied_hosts s'' = denied_hosts s"
      "synced_hosts s'' = synced_hosts s" "service_tasks s'' = (service_tasks s)(t \<mapsto> ph')"
      "\<And>c xs r. ph' = Acting c xs r \<Longrightarrow> guarded xs" for ph' s''
    by (rule lists_ok_same [OF assms(2) that(1-3)]) (use that(4,5) in \<open>auto simp: insert_ready_guarded split: if_splits\<close>)
  show ?thesis
  proof (cases "\<exists>c x xs r. ph = Acting c (x # xs) r")
    case True
    then obtain c x xs r where "ph = Acting c (x # xs) r" by blast
    then show ?thesis using a lists_ok_act [OF assms(1,2), of t c x xs r] ph by (simp add: advance_phase_def)
  next
    case False
    then have "\<exists>ph'. service_tasks s' = (service_tasks s)(t \<mapsto> ph') \<and> approved_hosts s' = approved_hosts s \<and>
        denied_hosts s' = denied_hosts s \<and> synced_hosts s' = synced_hosts s \<and> (\<forall>c xs r. ph' = Acting c xs r \<longrightarrow> guarded xs)"
      using a answer_plan_guarded [of timeout _ answer] refusal_plan_guarded
      by (auto simp: advance_phase_def Let_def split: phase.splits option.splits prod.splits if_splits list.splits)
         (metis fst_conv phase.inject(8))+
    then show ?thesis using simple by blast
  qed
qed

lemma reachable_lists_ok: "reachable_service timeout s \<Longrightarrow> lists_ok s"
proof (induction rule: reachable_service.induct)
  case Start
  show ?case by (simp add: lists_ok_def default_service_def)
next
  case (Step s s')
  from Step(2) show ?case
  proof cases
    case (Task t turn answer)
    then show ?thesis using advance_lists_ok reachable_cells_ok Step by blast
  next
    case (Sync hosts)
    show ?thesis unfolding lists_ok_def
    proof (intro conjI allI impI)
      fix t c xs r assume "service_tasks s' t = Some (Acting c xs r)"
      then have "insert_ready (approved_hosts s) (denied_hosts s) (synced_hosts s) (fst c) xs"
        using lists_okD(2) [OF Step(3)] Sync by (simp add: sync_session_approved_hosts_def)
      then show "insert_ready (approved_hosts s') (denied_hosts s') (synced_hosts s') (fst c) xs"
        by (rule insert_ready_other) (use Sync \<open>insert_ready _ _ _ _ _\<close> in \<open>auto simp: sync_session_approved_hosts_def insert_ready_def\<close>)
    qed (use Sync in \<open>auto simp: sync_session_approved_hosts_def\<close>)
  qed (rule lists_ok_same [OF Step(3)];
       auto simp: register_call_def remove_call_def record_blocked_request_def split: option.splits if_splits)+
qed

section \<open>Schedules\<close>

fun run_schedule :: "ustr \<Rightarrow> (nat \<times> net_turn option \<times> consultation) list \<Rightarrow> network_service \<Rightarrow> network_service option" where
  "run_schedule timeout [] s = Some s"
| "run_schedule timeout ((t, turn, answer) # rest) s = Option.bind (advance timeout t turn answer s) (run_schedule timeout rest)"

lemma run_schedule_append:
  "run_schedule timeout (xs @ ys) s = Option.bind (run_schedule timeout xs s) (run_schedule timeout ys)"
  by (induction xs arbitrary: s) (auto split: Option.bind_split)

lemma run_schedule_cells_ok: "cells_ok s \<Longrightarrow> run_schedule timeout sched s = Some s' \<Longrightarrow> cells_ok s'"
  by (induction timeout sched s rule: run_schedule.induct) (auto simp: bind_eq_Some_conv dest: advance_cells_ok)

lemma run_schedule_reachable: "reachable_service timeout s \<Longrightarrow> run_schedule timeout sched s = Some s' \<Longrightarrow> reachable_service timeout s'"
proof (induction timeout sched s rule: run_schedule.induct)
  case (2 timeout t turn answer rest s)
  then obtain s1 where s1: "advance timeout t turn answer s = Some s1" "run_schedule timeout rest s1 = Some s'"
    by (auto simp: bind_eq_Some_conv)
  then show ?case using 2 reachable_service.Step service_step.Task by metis
qed simp

text \<open>A task that has its answer can be run to its end, and leaves the answer in its cell.\<close>

lemma run_acting:
  assumes "cells_ok s" "service_tasks s t = Some (Acting c xs r)"
  shows "\<exists>sched s' d. run_schedule timeout sched s = Some s' \<and>
    service_tasks s' = (service_tasks s)(t \<mapsto> Finished (Some (fst c)) r) \<and> cell_decision s' c = Some d \<and> r = to_network_decision d"
  using assms
proof (induction xs arbitrary: s)
  case Nil
  then have "\<exists>d. cell_decision s c = Some d \<and> r = to_network_decision d" using cells_okD(5) by fastforce
  moreover have "run_schedule timeout [(t, None, HookSays HookAllow)] s = Some (goto t (Finished (Some (fst c)) r) s)"
    using Nil(2) by (simp add: advance_def advance_phase_def)
  ultimately show ?case by (intro exI [of _ "[(t, None, HookSays HookAllow)]"]) auto
next
  case (Cons x xs)
  let ?s1 = "goto t (Acting c xs r) (perform c x s)"
  have a: "advance timeout t None (HookSays HookAllow) s = Some ?s1"
    using Cons(3) by (simp add: advance_def advance_phase_def)
  have "cells_ok ?s1" using advance_cells_ok [OF Cons(2) a] .
  moreover have "service_tasks ?s1 t = Some (Acting c xs r)" by simp
  ultimately obtain sched s' d where s': "run_schedule timeout sched ?s1 = Some s'"
    "service_tasks s' = (service_tasks ?s1)(t \<mapsto> Finished (Some (fst c)) r)" "cell_decision s' c = Some d" "r = to_network_decision d"
    using Cons(1) by blast
  have "run_schedule timeout ((t, None, HookSays HookAllow) # sched) s = Some s'" using a s'(1) by simp
  then show ?case by (rule exI [where x = "(t, None, HookSays HookAllow) # sched", OF exI [where x = s', OF exI [where x = d]], OF conjI])
    (use s'(2-4) in simp)
qed

lemma run_owner:
  assumes "cells_ok s" "service_tasks s t = Some ph" "owns ph c"
  shows "\<exists>sched s' d. run_schedule timeout sched s = Some s' \<and>
    service_tasks s' = (service_tasks s)(t \<mapsto> Finished (Some (fst c)) (to_network_decision d)) \<and> cell_decision s' c = Some d"
proof (cases "\<exists>xs r. ph = Acting c xs r")
  case True
  then show ?thesis using run_acting [OF assms(1)] assms(2) by fastforce
next
  case False
  then obtain rc where rc: "ph = Deciding rc c" using assms(3) by (cases ph) auto
  have "\<exists>xs r s1. advance timeout t None (HookSays HookAllow) s = Some s1 \<and> service_tasks s1 = (service_tasks s)(t \<mapsto> Acting c xs r)"
    using rc assms(2) by (auto simp: advance_def advance_phase_def split: prod.split)
  then obtain xs r s1 where s1: "advance timeout t None (HookSays HookAllow) s = Some s1"
    "service_tasks s1 = (service_tasks s)(t \<mapsto> Acting c xs r)" by blast
  obtain sched s' d where s': "run_schedule timeout sched s1 = Some s'"
    "service_tasks s' = (service_tasks s1)(t \<mapsto> Finished (Some (fst c)) r)" "cell_decision s' c = Some d" "r = to_network_decision d"
    using run_acting [OF advance_cells_ok [OF assms(1) s1(1)], of t c xs r timeout] s1(2) by auto
  have "run_schedule timeout ((t, None, HookSays HookAllow) # sched) s = Some s'" using s1(1) s'(1) by simp
  then show ?thesis by (rule exI [where x = "(t, None, HookSays HookAllow) # sched", OF exI [where x = s', OF exI [where x = d]], OF conjI])
    (use s' s1(2) in simp)
qed

section \<open>Two requests for one host\<close>

definition site_request :: net_request where
  "site_request = \<lparr>rq_host = lit ''example.com'', rq_protocol = ProxyHttpsConnect, rq_port = 443, rq_environment = Some (lit ''local'')\<rparr>"

definition site_key :: host_key where
  "site_key = \<lparr>key_environment = lit ''local'', key_host = lit ''example.com'', key_protocol = lit ''https'', key_port = 443\<rparr>"

definition asking_turn :: net_turn where
  "asking_turn = \<lparr>turn_environment = None, turn_profile = Managed (ManagedRestricted [] None) NetRestricted,
     turn_approval = OnRequest, turn_guardian = False\<rparr>"

abbreviation step_of :: "nat \<Rightarrow> nat \<times> net_turn option \<times> consultation" where
  "step_of t \<equiv> (t, Some asking_turn, ReviewSays ApprovedForSession [])"

text \<open>Both requests arrive, the first owns the approval and the second waits for it.\<close>

definition two_requests :: network_service where
  "two_requests = goto 1 (ReadCalls site_request) (goto 0 (ReadCalls site_request) default_service)"

definition second_waits :: network_service where
  "second_waits = the (run_schedule [] (replicate 5 (step_of 0) @ replicate 5 (step_of 1)) two_requests)"

definition both_done :: network_service where
  "both_done = the (run_schedule [] (replicate 6 (step_of 0) @ [step_of 1]) second_waits)"

lemma two_requests_reachable: "reachable_service [] two_requests"
proof -
  have 1: "reachable_service [] (goto 0 (ReadCalls site_request) default_service)"
    by (rule reachable_service.Step [OF reachable_service.Start], rule service_step.Request) (simp add: default_service_def)
  show ?thesis unfolding two_requests_def
    by (rule reachable_service.Step [OF 1], rule service_step.Request) (simp add: default_service_def)
qed

lemma run_schedule_the:
  assumes "reachable_service timeout s" "\<not> Option.is_none (run_schedule timeout sched s)"
  shows "reachable_service timeout (the (run_schedule timeout sched s))"
  using assms run_schedule_reachable by (cases "run_schedule timeout sched s") auto

lemma second_waits_reachable: "reachable_service [] second_waits"
  unfolding second_waits_def by (rule run_schedule_the [OF two_requests_reachable]) code_simp

lemma both_done_reachable: "reachable_service [] both_done"
  unfolding both_done_def by (rule run_schedule_the [OF second_waits_reachable]) code_simp

lemma both_done_tasks:
  "service_tasks both_done 0 = Some (Finished (Some site_key) NetworkAllow)"
  "service_tasks both_done 1 = Some (Finished (Some site_key) NetworkAllow)"
  by code_simp+

lemma second_waits_tasks: "service_tasks second_waits 1 = Some (Waiting (site_key, 0))"
  by code_simp

section \<open>Guarantees\<close>



text \<open>
  C15: A session never both approves and denies a host. In every reachable state, a host on both lists
  was brought in by copying another session's approvals, since the two lists are changed under
  separate locks but only by the one task that owns the host's pending approval.
\<close>

theorem session_lists_disjoint:
  assumes "reachable_service timeout s"
  shows "approved_hosts s \<inter> denied_hosts s \<subseteq> synced_hosts s"
  by (rule lists_okD(1) [OF reachable_lists_ok [OF assms]])

theorem session_lists_disjoint_witness:
  "site_key \<in> approved_hosts both_done \<and> approved_hosts both_done \<inter> denied_hosts both_done \<subseteq> synced_hosts both_done"
proof
  show "site_key \<in> approved_hosts both_done" by code_simp
  show "approved_hosts both_done \<inter> denied_hosts both_done \<subseteq> synced_hosts both_done"
    by (rule session_lists_disjoint [OF both_done_reachable])
qed



end
