(* ===== verification/Stream_Parser.thy ===== *)
theory Stream_Parser
  imports Prelude
begin

text \<open>
  The incremental text parsers of \<open>utils/stream-parser/src\<close>, through which the text a model
  streams is shown: hidden inline tags (\<open>inline_hidden_tag.rs\<close>, \<open>citation.rs\<close>), tag blocks
  that stand on lines of their own (\<open>tagged_line_parser.rs\<close>, \<open>proposed_plan.rs\<close>), the two
  combined (\<open>assistant_text.rs\<close>), and the wrapper that takes bytes (\<open>utf8_stream.rs\<close>).

  Positions in a \<open>str\<close> are counted in code points here and in bytes in the source: every
  position the code computes is the start or the end of a match, so both cut the same text.
\<close>

section \<open>Chunks\<close>

record 'x stream_text_chunk =
  visible_text :: ustr
  extracted :: "'x list"

definition empty_chunk :: "'x stream_text_chunk" where
  "empty_chunk = \<lparr>visible_text = [], extracted = []\<rparr>"

definition chunk_is_empty :: "'x stream_text_chunk \<Rightarrow> bool" where
  "chunk_is_empty c \<longleftrightarrow> visible_text c = [] \<and> extracted c = []"

text \<open>What the callers do with the chunks: the text and the payloads of one after the other.\<close>

definition chunk_append :: "'x stream_text_chunk \<Rightarrow> 'x stream_text_chunk \<Rightarrow> 'x stream_text_chunk" where
  "chunk_append c d = \<lparr>visible_text = visible_text c @ visible_text d, extracted = extracted c @ extracted d\<rparr>"

section \<open>Hidden inline tags\<close>

record 'tag inline_tag_spec =
  spec_tag :: 'tag
  spec_open :: ustr
  spec_close :: ustr

record 'tag active_tag =
  active_tag_of :: 'tag
  active_close :: ustr
  active_content :: ustr

record 'tag extracted_inline_tag =
  ex_tag :: 'tag
  ex_content :: ustr

record 'tag inline_hidden_tag_parser =
  inline_specs :: "'tag inline_tag_spec list"
  inline_pending :: ustr
  inline_active :: "'tag active_tag option"

text \<open>\<open>None\<close> is a failed assertion.\<close>

definition inline_new :: "'tag inline_tag_spec list \<Rightarrow> 'tag inline_hidden_tag_parser option" where
  "inline_new specs =
     (if specs = [] then None
      else if list_ex (\<lambda>s. spec_open s = [] \<or> spec_close s = []) specs then None
      else Some \<lparr>inline_specs = specs, inline_pending = [], inline_active = None\<rparr>)"

text \<open>\<open>str::find\<close>: the first position at which the text goes on with the needle.\<close>

fun str_find :: "ustr \<Rightarrow> ustr \<Rightarrow> nat option" where
  "str_find n [] = (if n = [] then Some 0 else None)"
| "str_find n (c # s) = (if starts_with n (c # s) then Some 0 else map_option Suc (str_find n s))"

definition longest_suffix_prefix_len :: "ustr \<Rightarrow> ustr \<Rightarrow> nat" where
  "longest_suffix_prefix_len s needle =
     (case find (\<lambda>k. ends_with (take k needle) s) (rev [1..<Suc (min (length s) (length needle - 1))]) of
        Some k \<Rightarrow> k | None \<Rightarrow> 0)"

text \<open>
  The comparison of \<open>min_by\<close>: the earlier position, then the longer delimiter, then the
  earlier specification.
\<close>

fun open_before :: "nat \<times> nat \<times> nat \<Rightarrow> nat \<times> nat \<times> nat \<Rightarrow> bool" where
  "open_before (pos_a, len_a, idx_a) (pos_b, len_b, idx_b) \<longleftrightarrow>
     pos_a < pos_b \<or> pos_a = pos_b \<and> (len_b < len_a \<or> len_a = len_b \<and> idx_a < idx_b)"

fun open_candidates :: "nat \<Rightarrow> 'tag inline_tag_spec list \<Rightarrow> ustr \<Rightarrow> (nat \<times> nat \<times> nat) list" where
  "open_candidates idx [] pending = []"
| "open_candidates idx (spec # rest) pending =
     (case str_find (spec_open spec) pending of
        Some pos \<Rightarrow> (pos, utf8_len (spec_open spec), idx) # open_candidates (Suc idx) rest pending
      | None \<Rightarrow> open_candidates (Suc idx) rest pending)"

fun min_open :: "(nat \<times> nat \<times> nat) list \<Rightarrow> (nat \<times> nat \<times> nat) option" where
  "min_open [] = None"
| "min_open (c # cs) = Some (fold (\<lambda>b a. if open_before b a then b else a) cs c)"

definition find_next_open :: "'tag inline_tag_spec list \<Rightarrow> ustr \<Rightarrow> (nat \<times> nat) option" where
  "find_next_open specs pending =
     map_option (\<lambda>(pos, _, idx). (pos, idx)) (min_open (open_candidates 0 specs pending))"

definition max_open_prefix_suffix_len :: "'tag inline_tag_spec list \<Rightarrow> ustr \<Rightarrow> nat" where
  "max_open_prefix_suffix_len specs pending =
     fold max (map (\<lambda>s. longest_suffix_prefix_len pending (spec_open s)) specs) 0"

lemma str_find_bound: "str_find n s = Some i \<Longrightarrow> i + length n \<le> length s"
proof (induction n s arbitrary: i rule: str_find.induct)
  case (2 n c s)
  show ?case
  proof (cases "starts_with n (c # s)")
    case True
    then obtain r where "c # s = n @ r" by (auto simp: rust_str)
    then have "length (c # s) = length n + length r" by (metis length_append)
    with True 2(2) show ?thesis by simp
  next
    case False
    with 2 show ?thesis by auto
  qed
qed (simp split: if_splits)

lemma open_candidates_bound:
  "(pos, l, idx) \<in> set (open_candidates i specs s) \<Longrightarrow>
     i \<le> idx \<and> idx - i < length specs \<and> str_find (spec_open (specs ! (idx - i))) s = Some pos"
proof (induction i specs s rule: open_candidates.induct)
  case (2 i spec rest s)
  then show ?case by (auto split: option.splits simp: nth_Cons' Suc_le_eq)
qed simp

lemma min_open_in: "min_open cs = Some c \<Longrightarrow> c \<in> set cs"
proof (induction cs rule: min_open.induct)
  case (2 a cs)
  have "fold (\<lambda>b a. if open_before b a then b else a) cs a \<in> insert a (set cs)"
  proof (induction cs arbitrary: a)
    case (Cons b cs)
    show ?case using Cons.IH [of a] Cons.IH [of b] by auto
  qed simp
  with 2 show ?case by simp
qed simp

lemma find_next_open_at:
  "find_next_open specs s = Some (pos, idx) \<Longrightarrow> idx < length specs \<and> str_find (spec_open (specs ! idx)) s = Some pos"
  unfolding find_next_open_def using open_candidates_bound min_open_in by fastforce

text \<open>
  The loop of \<open>push_str\<close>, from the tag that is open and the text that is pending. A parser
  that \<open>inline_new\<close> returned has no empty delimiter; for one the loop would not consume
  anything, and the recursion stops there.
\<close>

function inline_loop ::
  "'tag inline_tag_spec list \<Rightarrow> 'tag active_tag option \<Rightarrow> ustr \<Rightarrow>
     'tag extracted_inline_tag stream_text_chunk \<times> 'tag active_tag option \<times> ustr" where
  "inline_loop specs (Some active) pending =
     (if active_close active = [] then (empty_chunk, Some active, pending)
      else case str_find (active_close active) pending of
        Some close_idx \<Rightarrow>
          (let tag = \<lparr>ex_tag = active_tag_of active, ex_content = active_content active @ take close_idx pending\<rparr>;
               (out, st) = inline_loop specs None (drop (close_idx + length (active_close active)) pending)
           in (chunk_append \<lparr>visible_text = [], extracted = [tag]\<rparr> out, st))
      | None \<Rightarrow>
          (let keep = longest_suffix_prefix_len pending (active_close active);
               n = length pending - keep
           in (empty_chunk, Some (active\<lparr>active_content := active_content active @ take n pending\<rparr>), drop n pending)))"
| "inline_loop specs None pending =
     (if list_ex (\<lambda>s. spec_open s = []) specs then (empty_chunk, None, pending)
      else case find_next_open specs pending of
        Some (open_idx, spec_idx) \<Rightarrow>
          (let spec = specs ! spec_idx;
               (out, st) = inline_loop specs
                  (Some \<lparr>active_tag_of = spec_tag spec, active_close = spec_close spec, active_content = []\<rparr>)
                  (drop (open_idx + length (spec_open spec)) pending)
           in (chunk_append \<lparr>visible_text = take open_idx pending, extracted = []\<rparr> out, st))
      | None \<Rightarrow>
          (let keep = max_open_prefix_suffix_len specs pending;
               n = length pending - keep
           in (\<lparr>visible_text = take n pending, extracted = []\<rparr>, None, drop n pending)))"
  by pat_completeness auto
termination
proof (relation "measure (\<lambda>(_, _, pending). length pending)")
  show "((specs, None, drop (close_idx + length (active_close active)) pending), specs, Some active, pending)
      \<in> measure (\<lambda>(_, _, pending). length pending)"
    if "active_close active \<noteq> []" "str_find (active_close active) pending = Some close_idx"
    for specs :: "'tag inline_tag_spec list" and active :: "'tag active_tag" and pending close_idx
    using str_find_bound [OF that(2)] that(1) by (cases "active_close active") auto
next
  show "((specs, Some \<lparr>active_tag_of = spec_tag s, active_close = spec_close s, active_content = []\<rparr>,
        drop (open_idx + length (spec_open s)) pending), specs, None, pending)
      \<in> measure (\<lambda>(_, _, pending). length pending)"
    if "\<not> list_ex (\<lambda>s. spec_open s = []) specs" "find_next_open specs pending = Some x" "(open_idx, spec_idx) = x" "s = specs ! spec_idx"
    for specs :: "'tag inline_tag_spec list" and pending x open_idx spec_idx s
  proof -
    have at: "spec_idx < length specs" "str_find (spec_open s) pending = Some open_idx"
      using find_next_open_at that(2-4) by auto
    then have "spec_open s \<noteq> []" using that(1,4) by (auto simp: list_ex_length)
    then show ?thesis using str_find_bound [OF at(2)] by (cases "spec_open s") auto
  qed
qed simp

declare inline_loop.simps [simp del]

definition inline_push_str ::
  "'tag inline_hidden_tag_parser \<Rightarrow> ustr \<Rightarrow>
     'tag extracted_inline_tag stream_text_chunk \<times> 'tag inline_hidden_tag_parser" where
  "inline_push_str p chunk =
     (case inline_loop (inline_specs p) (inline_active p) (inline_pending p @ chunk) of
        (out, active, pending) \<Rightarrow> (out, p\<lparr>inline_active := active, inline_pending := pending\<rparr>))"

definition inline_finish ::
  "'tag inline_hidden_tag_parser \<Rightarrow>
     'tag extracted_inline_tag stream_text_chunk \<times> 'tag inline_hidden_tag_parser" where
  "inline_finish p = (case inline_active p of
       Some active \<Rightarrow>
         (\<lparr>visible_text = [],
           extracted = [\<lparr>ex_tag = active_tag_of active, ex_content = active_content active @ inline_pending p\<rparr>]\<rparr>,
          p\<lparr>inline_active := None, inline_pending := []\<rparr>)
     | None \<Rightarrow> (\<lparr>visible_text = inline_pending p, extracted = []\<rparr>, p\<lparr>inline_pending := []\<rparr>))"

section \<open>Citations\<close>

datatype citation_tag = Citation

definition CITATION_OPEN :: ustr where "CITATION_OPEN = lit ''<oai-mem-citation>''"
definition CITATION_CLOSE :: ustr where "CITATION_CLOSE = lit ''</oai-mem-citation>''"

type_synonym citation_parser = "citation_tag inline_hidden_tag_parser"

definition citation_new :: citation_parser where
  "citation_new = \<lparr>inline_specs = [\<lparr>spec_tag = Citation, spec_open = CITATION_OPEN, spec_close = CITATION_CLOSE\<rparr>],
     inline_pending = [], inline_active = None\<rparr>"

definition contents_chunk :: "'tag extracted_inline_tag stream_text_chunk \<Rightarrow> ustr stream_text_chunk" where
  "contents_chunk c = \<lparr>visible_text = visible_text c, extracted = map ex_content (extracted c)\<rparr>"

definition citation_push_str :: "citation_parser \<Rightarrow> ustr \<Rightarrow> ustr stream_text_chunk \<times> citation_parser" where
  "citation_push_str p chunk = map_prod contents_chunk id (inline_push_str p chunk)"

definition citation_finish :: "citation_parser \<Rightarrow> ustr stream_text_chunk \<times> citation_parser" where
  "citation_finish p = map_prod contents_chunk id (inline_finish p)"

definition strip_citations :: "ustr \<Rightarrow> ustr \<times> ustr list" where
  "strip_citations t =
     (let (out, p) = citation_push_str citation_new t; (tail, _) = citation_finish p;
          c = chunk_append out tail
      in (visible_text c, extracted c))"

section \<open>Tag blocks on lines of their own\<close>

record 'tag tag_spec =
  line_open :: ustr
  line_close :: ustr
  line_tag :: 'tag

datatype 'tag tagged_line_segment =
    Normal ustr
  | TagStart 'tag
  | TagDelta 'tag ustr
  | TagEnd 'tag

record 'tag tagged_line_parser =
  line_specs :: "'tag tag_spec list"
  active_line_tag :: "'tag option"
  detect_tag :: bool
  line_buffer :: ustr

definition tagged_new :: "'tag tag_spec list \<Rightarrow> 'tag tagged_line_parser" where
  "tagged_new specs = \<lparr>line_specs = specs, active_line_tag = None, detect_tag = True, line_buffer = []\<rparr>"

text \<open>Text is joined to the last segment when that is text of the same kind.\<close>

definition push_segment ::
  "'tag tagged_line_segment list \<Rightarrow> 'tag tagged_line_segment \<Rightarrow> 'tag tagged_line_segment list" where
  "push_segment segments seg = (case seg of
       Normal delta \<Rightarrow>
         if delta = [] then segments
         else (case last_opt segments of
             Some (Normal existing) \<Rightarrow> butlast segments @ [Normal (existing @ delta)]
           | _ \<Rightarrow> segments @ [Normal delta])
     | TagDelta tag delta \<Rightarrow>
         if delta = [] then segments
         else (case last_opt segments of
             Some (TagDelta existing_tag existing) \<Rightarrow>
               if existing_tag = tag then butlast segments @ [TagDelta tag (existing @ delta)]
               else segments @ [TagDelta tag delta]
           | _ \<Rightarrow> segments @ [TagDelta tag delta])
     | TagStart tag \<Rightarrow> segments @ [TagStart tag]
     | TagEnd tag \<Rightarrow> segments @ [TagEnd tag])"

definition push_text ::
  "'tag tagged_line_parser \<Rightarrow> ustr \<Rightarrow> 'tag tagged_line_segment list \<Rightarrow> 'tag tagged_line_segment list" where
  "push_text p t segments = (case active_line_tag p of
       Some tag \<Rightarrow> push_segment segments (TagDelta tag t)
     | None \<Rightarrow> push_segment segments (Normal t))"

definition is_tag_prefix :: "'tag tag_spec list \<Rightarrow> ustr \<Rightarrow> bool" where
  "is_tag_prefix specs slug =
     list_ex (\<lambda>s. starts_with (trim_end slug) (line_open s) \<or> starts_with (trim_end slug) (line_close s)) specs"

definition match_open :: "'tag tag_spec list \<Rightarrow> ustr \<Rightarrow> 'tag option" where
  "match_open specs slug = map_option line_tag (find (\<lambda>s. line_open s = slug) specs)"

definition match_close :: "'tag tag_spec list \<Rightarrow> ustr \<Rightarrow> 'tag option" where
  "match_close specs slug = map_option line_tag (find (\<lambda>s. line_close s = slug) specs)"

definition line_slug :: "ustr \<Rightarrow> ustr" where
  "line_slug line =
     trim_end (trim_start (case strip_suffix [LF] line of Some l \<Rightarrow> l | None \<Rightarrow> line))"

definition finish_line ::
  "'tag tagged_line_parser \<Rightarrow> 'tag tagged_line_segment list \<Rightarrow>
     'tag tagged_line_parser \<times> 'tag tagged_line_segment list" where
  "finish_line p segments =
     (let line = line_buffer p; slug = line_slug line; p' = p\<lparr>line_buffer := [], detect_tag := True\<rparr>
      in if match_open (line_specs p) slug \<noteq> None \<and> active_line_tag p = None then
           (p'\<lparr>active_line_tag := match_open (line_specs p) slug\<rparr>,
            push_segment segments (TagStart (the (match_open (line_specs p) slug))))
         else if match_close (line_specs p) slug \<noteq> None \<and> active_line_tag p = match_close (line_specs p) slug then
           (p'\<lparr>active_line_tag := None\<rparr>, push_segment segments (TagEnd (the (match_close (line_specs p) slug))))
         else (p', push_text p' line segments))"

text \<open>One character of the loop of \<open>parse\<close>, with the run of text that is not yet pushed.\<close>

definition parse_char ::
  "uchar \<Rightarrow> 'tag tagged_line_parser \<times> ustr \<times> 'tag tagged_line_segment list \<Rightarrow>
     'tag tagged_line_parser \<times> ustr \<times> 'tag tagged_line_segment list" where
  "parse_char ch = (\<lambda>(p, pend, segments).
     if detect_tag p then
       let segments' = (if pend \<noteq> [] then push_text p pend segments else segments);
           p' = p\<lparr>line_buffer := line_buffer p @ [ch]\<rparr>
       in if ch = LF then (case finish_line p' segments' of (q, segs) \<Rightarrow> (q, [], segs))
          else
            let slug = trim_start (line_buffer p')
            in if slug = [] \<or> is_tag_prefix (line_specs p) slug then (p', [], segments')
               else
                 let q = p'\<lparr>line_buffer := [], detect_tag := False\<rparr>
                 in (q, [], push_text q (line_buffer p') segments')
     else if ch = LF then (p\<lparr>detect_tag := True\<rparr>, [], push_text p (pend @ [ch]) segments)
     else (p, pend @ [ch], segments))"

definition tagged_parse ::
  "'tag tagged_line_parser \<Rightarrow> ustr \<Rightarrow> 'tag tagged_line_segment list \<times> 'tag tagged_line_parser" where
  "tagged_parse p delta = (case fold parse_char delta (p, [], []) of
     (q, pend, segments) \<Rightarrow> (if pend \<noteq> [] then push_text q pend segments else segments, q))"

definition tagged_finish ::
  "'tag tagged_line_parser \<Rightarrow> 'tag tagged_line_segment list \<times> 'tag tagged_line_parser" where
  "tagged_finish p =
     (let (q, segments) =
        (if line_buffer p = [] then (p, [])
         else
           let buffered = line_buffer p; slug = line_slug buffered; p' = p\<lparr>line_buffer := []\<rparr>
           in if match_open (line_specs p) slug \<noteq> None \<and> active_line_tag p = None then
                (p'\<lparr>active_line_tag := match_open (line_specs p) slug\<rparr>,
                 push_segment [] (TagStart (the (match_open (line_specs p) slug))))
              else if match_close (line_specs p) slug \<noteq> None \<and> active_line_tag p = match_close (line_specs p) slug then
                (p'\<lparr>active_line_tag := None\<rparr>, push_segment [] (TagEnd (the (match_close (line_specs p) slug))))
              else (p', push_text p' buffered []));
          segments' = (case active_line_tag q of Some tag \<Rightarrow> push_segment segments (TagEnd tag) | None \<Rightarrow> segments)
      in (segments', q\<lparr>active_line_tag := None, detect_tag := True\<rparr>))"

section \<open>Proposed plans\<close>

datatype plan_tag = ProposedPlan

datatype proposed_plan_segment =
    PlanNormal ustr
  | ProposedPlanStart
  | ProposedPlanDelta ustr
  | ProposedPlanEnd

definition OPEN_TAG :: ustr where "OPEN_TAG = lit ''<proposed_plan>''"
definition CLOSE_TAG :: ustr where "CLOSE_TAG = lit ''</proposed_plan>''"

type_synonym plan_parser = "plan_tag tagged_line_parser"

definition plan_new :: plan_parser where
  "plan_new = tagged_new [\<lparr>line_open = OPEN_TAG, line_close = CLOSE_TAG, line_tag = ProposedPlan\<rparr>]"

fun plan_segment :: "plan_tag tagged_line_segment \<Rightarrow> proposed_plan_segment" where
  "plan_segment (Normal t) = PlanNormal t"
| "plan_segment (TagStart ProposedPlan) = ProposedPlanStart"
| "plan_segment (TagDelta ProposedPlan t) = ProposedPlanDelta t"
| "plan_segment (TagEnd ProposedPlan) = ProposedPlanEnd"

definition normal_text :: "proposed_plan_segment \<Rightarrow> ustr" where
  "normal_text s = (case s of PlanNormal t \<Rightarrow> t | _ \<Rightarrow> [])"

definition map_segments :: "plan_tag tagged_line_segment list \<Rightarrow> proposed_plan_segment stream_text_chunk" where
  "map_segments segments =
     fold (\<lambda>seg out. let mapped = plan_segment seg
                     in \<lparr>visible_text = visible_text out @ normal_text mapped, extracted = extracted out @ [mapped]\<rparr>)
       segments empty_chunk"

definition plan_push_str :: "plan_parser \<Rightarrow> ustr \<Rightarrow> proposed_plan_segment stream_text_chunk \<times> plan_parser" where
  "plan_push_str p chunk = map_prod map_segments id (tagged_parse p chunk)"

definition plan_finish :: "plan_parser \<Rightarrow> proposed_plan_segment stream_text_chunk \<times> plan_parser" where
  "plan_finish p = map_prod map_segments id (tagged_finish p)"

definition strip_proposed_plan_blocks :: "ustr \<Rightarrow> ustr" where
  "strip_proposed_plan_blocks t =
     (let (out, p) = plan_push_str plan_new t in visible_text out @ visible_text (fst (plan_finish p)))"

text \<open>The last plan wins: its text is cleared where a block starts.\<close>

fun plan_text_step :: "proposed_plan_segment \<Rightarrow> bool \<times> ustr \<Rightarrow> bool \<times> ustr" where
  "plan_text_step ProposedPlanStart (saw, plan) = (True, [])"
| "plan_text_step (ProposedPlanDelta delta) (saw, plan) = (saw, plan @ delta)"
| "plan_text_step ProposedPlanEnd st = st"
| "plan_text_step (PlanNormal t) st = st"

definition extract_proposed_plan_text :: "ustr \<Rightarrow> ustr option" where
  "extract_proposed_plan_text t =
     (let (out, p) = plan_push_str plan_new t;
          (saw, plan) = fold plan_text_step (extracted out @ extracted (fst (plan_finish p))) (False, [])
      in if saw then Some plan else None)"

section \<open>Assistant text\<close>

record assistant_text_chunk =
  at_visible :: ustr
  at_citations :: "ustr list"
  at_plan_segments :: "proposed_plan_segment list"

definition assistant_chunk_is_empty :: "assistant_text_chunk \<Rightarrow> bool" where
  "assistant_chunk_is_empty c \<longleftrightarrow> at_visible c = [] \<and> at_citations c = [] \<and> at_plan_segments c = []"

record assistant_text_parser =
  plan_mode :: bool
  at_citation_parser :: citation_parser
  at_plan_parser :: plan_parser

definition assistant_new :: "bool \<Rightarrow> assistant_text_parser" where
  "assistant_new mode = \<lparr>plan_mode = mode, at_citation_parser = citation_new, at_plan_parser = plan_new\<rparr>"

definition parse_visible_text ::
  "assistant_text_parser \<Rightarrow> ustr \<Rightarrow> assistant_text_chunk \<times> assistant_text_parser" where
  "parse_visible_text p t =
     (if \<not> plan_mode p then (\<lparr>at_visible = t, at_citations = [], at_plan_segments = []\<rparr>, p)
      else case plan_push_str (at_plan_parser p) t of
        (c, q) \<Rightarrow> (\<lparr>at_visible = visible_text c, at_citations = [], at_plan_segments = extracted c\<rparr>,
                   p\<lparr>at_plan_parser := q\<rparr>))"

definition assistant_push_str ::
  "assistant_text_parser \<Rightarrow> ustr \<Rightarrow> assistant_text_chunk \<times> assistant_text_parser" where
  "assistant_push_str p chunk =
     (let (c, q) = citation_push_str (at_citation_parser p) chunk;
          (out, p') = parse_visible_text (p\<lparr>at_citation_parser := q\<rparr>) (visible_text c)
      in (out\<lparr>at_citations := extracted c\<rparr>, p'))"

definition assistant_finish :: "assistant_text_parser \<Rightarrow> assistant_text_chunk \<times> assistant_text_parser" where
  "assistant_finish p =
     (let (c, q) = citation_finish (at_citation_parser p);
          (out, p') = parse_visible_text (p\<lparr>at_citation_parser := q\<rparr>) (visible_text c);
          (out', p'') =
            (if plan_mode p' then
               (case plan_finish (at_plan_parser p') of (tail, r) \<Rightarrow>
                  (if chunk_is_empty tail then out
                   else out\<lparr>at_visible := at_visible out @ visible_text tail,
                            at_plan_segments := at_plan_segments out @ extracted tail\<rparr>,
                   p'\<lparr>at_plan_parser := r\<rparr>))
             else (out, p'))
      in (out'\<lparr>at_citations := extracted c\<rparr>, p''))"

end
