(* ===== verification/Utf8_Stream.thy ===== *)
theory Utf8_Stream
  imports Stream_Parser
begin

text \<open>
  The byte-level wrapper \<open>Utf8StreamParser\<close> (\<open>utils/stream-parser/src/utf8_stream.rs\<close>) around a
  text parser, given by its two operations. Bytes are integers from 0 to 255. \<open>from_utf8\<close> is the
  validation of the standard library: where decoding fails, how many bytes are valid, and
  the length of the invalid sequence, or \<open>None\<close> when the bytes end inside a code point.
\<close>

section \<open>UTF-8\<close>

datatype utf8_step = Scalar uchar "int list" | Malformed nat | Truncated

definition continuation :: "int \<Rightarrow> bool" where
  "continuation b \<longleftrightarrow> 0x80 \<le> b \<and> b \<le> 0xBF"

text \<open>The bytes that may follow the first byte of a sequence of three or four bytes.\<close>

definition second_of_three :: "int \<Rightarrow> int \<Rightarrow> bool" where
  "second_of_three b0 b1 \<longleftrightarrow>
     b0 = 0xE0 \<and> 0xA0 \<le> b1 \<and> b1 \<le> 0xBF \<or>
     0xE1 \<le> b0 \<and> b0 \<le> 0xEC \<and> continuation b1 \<or>
     b0 = 0xED \<and> 0x80 \<le> b1 \<and> b1 \<le> 0x9F \<or>
     0xEE \<le> b0 \<and> b0 \<le> 0xEF \<and> continuation b1"

definition second_of_four :: "int \<Rightarrow> int \<Rightarrow> bool" where
  "second_of_four b0 b1 \<longleftrightarrow>
     b0 = 0xF0 \<and> 0x90 \<le> b1 \<and> b1 \<le> 0xBF \<or>
     0xF1 \<le> b0 \<and> b0 \<le> 0xF3 \<and> continuation b1 \<or>
     b0 = 0xF4 \<and> 0x80 \<le> b1 \<and> b1 \<le> 0x8F"

fun utf8_next :: "int list \<Rightarrow> utf8_step" where
  "utf8_next [] = Truncated"
| "utf8_next (b0 # r0) =
     (if b0 < 0x80 then Scalar b0 r0
      else if 0xC2 \<le> b0 \<and> b0 \<le> 0xDF then
        (case r0 of
           [] \<Rightarrow> Truncated
         | b1 # r1 \<Rightarrow> if continuation b1 then Scalar ((b0 - 0xC0) * 64 + (b1 - 0x80)) r1 else Malformed 1)
      else if 0xE0 \<le> b0 \<and> b0 \<le> 0xEF then
        (case r0 of
           [] \<Rightarrow> Truncated
         | b1 # r1 \<Rightarrow>
             if \<not> second_of_three b0 b1 then Malformed 1
             else (case r1 of
                 [] \<Rightarrow> Truncated
               | b2 # r2 \<Rightarrow>
                   if continuation b2 then Scalar ((b0 - 0xE0) * 4096 + (b1 - 0x80) * 64 + (b2 - 0x80)) r2
                   else Malformed 2))
      else if 0xF0 \<le> b0 \<and> b0 \<le> 0xF4 then
        (case r0 of
           [] \<Rightarrow> Truncated
         | b1 # r1 \<Rightarrow>
             if \<not> second_of_four b0 b1 then Malformed 1
             else (case r1 of
                 [] \<Rightarrow> Truncated
               | b2 # r2 \<Rightarrow>
                   if \<not> continuation b2 then Malformed 2
                   else (case r2 of
                       [] \<Rightarrow> Truncated
                     | b3 # r3 \<Rightarrow>
                         if continuation b3
                         then Scalar ((b0 - 0xF0) * 262144 + (b1 - 0x80) * 4096 + (b2 - 0x80) * 64 + (b3 - 0x80)) r3
                         else Malformed 3)))
      else Malformed 1)"

record utf8_error =
  valid_up_to :: nat
  error_len :: "nat option"

lemma utf8_next_shorter: "utf8_next bs = Scalar c r \<Longrightarrow> length r < length bs"
  by (induction bs rule: utf8_next.induct) (auto split: if_splits list.splits)

text \<open>The loop over the code points: the text that is valid, and the error that ends it.\<close>

function utf8_scan :: "int list \<Rightarrow> ustr \<times> nat \<times> nat option option" where
  "utf8_scan bs =
     (if bs = [] then ([], 0, None)
      else case utf8_next bs of
        Scalar c r \<Rightarrow> (case utf8_scan r of (t, n, e) \<Rightarrow> (c # t, (length bs - length r) + n, e))
      | Malformed k \<Rightarrow> ([], 0, Some (Some k))
      | Truncated \<Rightarrow> ([], 0, Some None))"
  by pat_completeness auto
termination by (relation "measure length") (auto dest: utf8_next_shorter)

declare utf8_scan.simps [simp del]

definition from_utf8 :: "int list \<Rightarrow> (utf8_error, ustr) result" where
  "from_utf8 bs = (case utf8_scan bs of
       (t, n, None) \<Rightarrow> Ok t
     | (t, n, Some e) \<Rightarrow> Err \<lparr>valid_up_to = n, error_len = e\<rparr>)"

section \<open>The wrapper\<close>

datatype utf8_stream_error = InvalidUtf8 nat nat | IncompleteUtf8AtEof

record 'p utf8_stream_parser =
  utf8_inner :: 'p
  pending_utf8 :: "int list"

definition utf8_new :: "'p \<Rightarrow> 'p utf8_stream_parser" where
  "utf8_new inner = \<lparr>utf8_inner = inner, pending_utf8 = []\<rparr>"

definition push_bytes ::
  "('p \<Rightarrow> ustr \<Rightarrow> 'x stream_text_chunk \<times> 'p) \<Rightarrow> 'p utf8_stream_parser \<Rightarrow> int list \<Rightarrow>
     (utf8_stream_error, 'x stream_text_chunk) result \<times> 'p utf8_stream_parser" where
  "push_bytes push p chunk =
     (let old_len = length (pending_utf8 p); pending = pending_utf8 p @ chunk
      in case from_utf8 pending of
           Inr t \<Rightarrow> (case push (utf8_inner p) t of
               (out, inner) \<Rightarrow> (Ok out, p\<lparr>utf8_inner := inner, pending_utf8 := []\<rparr>))
         | Inl err \<Rightarrow>
             (case error_len err of
                Some len \<Rightarrow> (Err (InvalidUtf8 (valid_up_to err) len), p\<lparr>pending_utf8 := take old_len pending\<rparr>)
              | None \<Rightarrow>
                  if valid_up_to err = 0 then (Ok empty_chunk, p\<lparr>pending_utf8 := pending\<rparr>)
                  else (case from_utf8 (take (valid_up_to err) pending) of
                      Inr t \<Rightarrow> (case push (utf8_inner p) t of
                          (out, inner) \<Rightarrow>
                            (Ok out, p\<lparr>utf8_inner := inner, pending_utf8 := drop (valid_up_to err) pending\<rparr>))
                    | Inl prefix_err \<Rightarrow>
                        (Err (InvalidUtf8 (valid_up_to prefix_err)
                                (case error_len prefix_err of Some l \<Rightarrow> l | None \<Rightarrow> 0)),
                         p\<lparr>pending_utf8 := take old_len pending\<rparr>))))"

definition utf8_finish ::
  "('p \<Rightarrow> ustr \<Rightarrow> 'x stream_text_chunk \<times> 'p) \<Rightarrow> ('p \<Rightarrow> 'x stream_text_chunk \<times> 'p) \<Rightarrow> 'p utf8_stream_parser \<Rightarrow>
     (utf8_stream_error, 'x stream_text_chunk) result \<times> 'p utf8_stream_parser" where
  "utf8_finish push finish p =
     (case (if pending_utf8 p = [] then Ok (empty_chunk, p)
            else case from_utf8 (pending_utf8 p) of
                Inl err \<Rightarrow> (case error_len err of
                    Some len \<Rightarrow> Err (InvalidUtf8 (valid_up_to err) len)
                  | None \<Rightarrow> Err IncompleteUtf8AtEof)
              | Inr t \<Rightarrow> (case push (utf8_inner p) t of
                  (out, inner) \<Rightarrow> Ok (out, p\<lparr>utf8_inner := inner, pending_utf8 := []\<rparr>))) of
        Inl e \<Rightarrow> (Err e, p)
      | Inr (out, q) \<Rightarrow> (case finish (utf8_inner q) of
          (tail, inner) \<Rightarrow> (Ok (chunk_append out tail), q\<lparr>utf8_inner := inner\<rparr>)))"

definition into_inner :: "'p utf8_stream_parser \<Rightarrow> (utf8_stream_error, 'p) result" where
  "into_inner p =
     (if pending_utf8 p = [] then Ok (utf8_inner p)
      else case from_utf8 (pending_utf8 p) of
          Inr _ \<Rightarrow> Ok (utf8_inner p)
        | Inl err \<Rightarrow> (case error_len err of
            Some len \<Rightarrow> Err (InvalidUtf8 (valid_up_to err) len)
          | None \<Rightarrow> Err IncompleteUtf8AtEof))"

definition into_inner_lossy :: "'p utf8_stream_parser \<Rightarrow> 'p" where
  "into_inner_lossy p = utf8_inner p"

end
