(* ===== verification/Stream_Parser_Correct.thy ===== *)
theory Stream_Parser_Correct
  imports Stream_Parser
begin

text \<open>
  What the incremental parsers promise: how the text is cut into chunks does not matter. The
  interface \<open>text_parser\<close> states it for a parser given by its operations, with what its client
  needs proved once; the parsers of the code are interpretations of it.
\<close>

section \<open>Feeding a parser\<close>

fun feed :: "('p \<Rightarrow> ustr \<Rightarrow> 'x stream_text_chunk \<times> 'p) \<Rightarrow> 'p \<Rightarrow> ustr list \<Rightarrow> 'x stream_text_chunk \<times> 'p" where
  "feed push p [] = (empty_chunk, p)"
| "feed push p (c # cs) =
     (let (out, q) = push p c; (rest, q') = feed push q cs in (chunk_append out rest, q'))"

definition feed_all ::
  "('p \<Rightarrow> ustr \<Rightarrow> 'x stream_text_chunk \<times> 'p) \<Rightarrow> ('p \<Rightarrow> 'x stream_text_chunk \<times> 'p) \<Rightarrow> 'p \<Rightarrow> ustr list \<Rightarrow>
     'x stream_text_chunk" where
  "feed_all push finish p chunks = (let (out, q) = feed push p chunks in chunk_append out (fst (finish q)))"

lemma chunk_append_simps [simp]:
  "visible_text (chunk_append c d) = visible_text c @ visible_text d"
  "extracted (chunk_append c d) = extracted c @ extracted d"
  by (simp_all add: chunk_append_def)

lemma empty_chunk_simps [simp]:
  "visible_text empty_chunk = []" "extracted empty_chunk = []"
  "chunk_append empty_chunk c = c" "chunk_append c empty_chunk = c"
  by (simp_all add: empty_chunk_def chunk_append_def)

lemma chunk_append_assoc: "chunk_append (chunk_append a b) c = chunk_append a (chunk_append b c)"
  by (simp add: chunk_append_def)

text \<open>
  A parser: its two operations, the states it reaches, and the payloads as the list of
  elementary events they stand for. Pushing two pieces of text is pushing their
  concatenation: the same visible text, the same events, the same state.
\<close>

locale text_parser =
  fixes push :: "'p \<Rightarrow> ustr \<Rightarrow> 'x stream_text_chunk \<times> 'p"
    and finish :: "'p \<Rightarrow> 'x stream_text_chunk \<times> 'p"
    and reached :: "'p \<Rightarrow> bool"
    and events :: "'x list \<Rightarrow> 'e list"
  assumes reached_push: "reached p \<Longrightarrow> reached (snd (push p t))"
    and push_Nil: "reached p \<Longrightarrow> push p [] = (empty_chunk, p)"
    and push_append:
      "reached p \<Longrightarrow> push p a = (c, q) \<Longrightarrow> push q b = (d, r) \<Longrightarrow> push p (a @ b) = (o', r') \<Longrightarrow>
         visible_text o' = visible_text c @ visible_text d \<and>
         events (extracted o') = events (extracted c) @ events (extracted d) \<and> r' = r"
    and events_append: "events (xs @ ys) = events xs @ events ys"
begin

lemma feed_concat:
  assumes "reached p" "feed push p chunks = (c, q)" "push p (concat chunks) = (d, r)"
  shows "visible_text c = visible_text d \<and> events (extracted c) = events (extracted d) \<and> q = r"
  using assms
proof (induction chunks arbitrary: p c q d r)
  case Nil
  then show ?case by (auto simp: push_Nil)
next
  case (Cons x xs)
  obtain c1 p1 where 1: "push p x = (c1, p1)" by force
  have r1: "reached p1" using reached_push [OF Cons.prems(1), of x] 1 by simp
  obtain c2 q2 where 2: "feed push p1 xs = (c2, q2)" by force
  obtain d2 r2 where 3: "push p1 (concat xs) = (d2, r2)" by force
  show ?case
    using Cons.IH [OF r1 2 3] push_append [OF Cons.prems(1) 1 3, of d r] Cons.prems(2,3) 1 2
    by (auto simp: events_append)
qed

lemma feed_all_concat:
  assumes "reached p"
  shows "visible_text (feed_all push finish p chunks) = visible_text (feed_all push finish p [concat chunks])"
    and "events (extracted (feed_all push finish p chunks)) = events (extracted (feed_all push finish p [concat chunks]))"
proof -
  obtain c q where 1: "feed push p chunks = (c, q)" by force
  obtain d r where 2: "push p (concat chunks) = (d, r)" by force
  note feed_concat [OF assms 1 2]
  then show "visible_text (feed_all push finish p chunks) = visible_text (feed_all push finish p [concat chunks])"
    "events (extracted (feed_all push finish p chunks)) = events (extracted (feed_all push finish p [concat chunks]))"
    using 1 2 by (simp_all add: feed_all_def events_append)
qed

end

section \<open>Occurrences\<close>

definition occ :: "ustr \<Rightarrow> ustr \<Rightarrow> nat \<Rightarrow> bool" where
  "occ n s i \<longleftrightarrow> i + length n \<le> length s \<and> take (length n) (drop i s) = n"

lemma starts_with_take: "starts_with n s \<longleftrightarrow> length n \<le> length s \<and> take (length n) s = n"
  by (metis append_eq_conv_conj append_take_drop_id length_take min.absorb2 min.cobounded1 starts_with_iff)

lemma ends_with_drop: "ends_with n s \<longleftrightarrow> length n \<le> length s \<and> drop (length s - length n) s = n"
proof
  assume "ends_with n s"
  then show "length n \<le> length s \<and> drop (length s - length n) s = n" by (auto simp: rust_str)
next
  assume "length n \<le> length s \<and> drop (length s - length n) s = n"
  then show "ends_with n s" by (metis append_take_drop_id ends_with_iff)
qed

lemma occ_Cons:
  "occ n (c # s) i \<longleftrightarrow> (case i of 0 \<Rightarrow> starts_with n (c # s) | Suc j \<Rightarrow> occ n s j)"
  by (cases i) (auto simp: occ_def starts_with_take)

lemma str_find_Some_iff: "str_find n s = Some i \<longleftrightarrow> occ n s i \<and> (\<forall>j<i. \<not> occ n s j)"
proof (induction n s arbitrary: i rule: str_find.induct)
  case (1 n)
  then show ?case by (auto simp: occ_def)
next
  case (2 n c s)
  show ?case
  proof (cases "starts_with n (c # s)")
    case True
    then show ?thesis by (cases i) (auto simp: occ_Cons)
  next
    case False
    then show ?thesis using 2 by (cases i) (auto simp: occ_Cons less_Suc_eq_0_disj)
  qed
qed

lemma str_find_None_iff: "str_find n s = None \<longleftrightarrow> (\<forall>i. \<not> occ n s i)"
proof
  show "\<forall>i. \<not> occ n s i" if "str_find n s = None"
  proof (rule ccontr)
    assume "\<not> (\<forall>i. \<not> occ n s i)"
    then obtain i where "occ n s i" by blast
    then have "occ n s (LEAST i. occ n s i)" "\<forall>j<(LEAST i. occ n s i). \<not> occ n s j"
      by (auto intro: LeastI dest: not_less_Least)
    then show False using str_find_Some_iff that by (metis option.distinct(1))
  qed
  show "str_find n s = None" if "\<forall>i. \<not> occ n s i"
    using that str_find_Some_iff by (metis not_None_eq)
qed

lemma occ_append: "occ n s i \<Longrightarrow> occ n (s @ r) i"
  by (auto simp: occ_def)

lemma occ_append_iff: "i + length n \<le> length s \<Longrightarrow> occ n (s @ r) i \<longleftrightarrow> occ n s i"
  by (auto simp: occ_def)

lemma occ_shift: "occ n (p @ s) (length p + i) \<longleftrightarrow> occ n s i"
  by (auto simp: occ_def)

lemma str_find_append: "str_find n s = Some i \<Longrightarrow> str_find n (s @ r) = Some i"
  unfolding str_find_Some_iff
proof (elim conjE, intro conjI allI impI)
  fix j
  assume "occ n s i" "\<forall>j<i. \<not> occ n s j" "j < i"
  then show "\<not> occ n (s @ r) j" using occ_append_iff [of j n s r] by (auto simp: occ_def)
qed (rule occ_append)

section \<open>The suffix that is kept\<close>

definition overlap :: "ustr \<Rightarrow> ustr \<Rightarrow> nat \<Rightarrow> bool" where
  "overlap s n k \<longleftrightarrow> k \<le> length s \<and> k < length n \<and> drop (length s - k) s = take k n"

lemma rev_upt_nth: "j < m \<Longrightarrow> rev [1..<Suc m] ! j = m - j"
  by (simp add: rev_nth nth_upt del: upt_Suc)

lemma longest_suffix_prefix_len_spec:
  assumes "n \<noteq> []"
  shows "overlap s n (longest_suffix_prefix_len s n)" and "overlap s n k \<Longrightarrow> k \<le> longest_suffix_prefix_len s n"
proof -
  let ?ks = "rev [1..<Suc (min (length s) (length n - 1))]"
  have ks: "ends_with (take k n) s \<longleftrightarrow> overlap s n k" if "k \<in> set ?ks" for k
  proof -
    have "k \<le> length s" "k < length n" using that assms by (cases n; auto)+
    then show ?thesis by (simp add: ends_with_drop overlap_def min_absorb2)
  qed
  have "overlap s n (longest_suffix_prefix_len s n) \<and> (\<forall>k. overlap s n k \<longrightarrow> k \<le> longest_suffix_prefix_len s n)"
  proof (cases "find (\<lambda>k. ends_with (take k n) s) ?ks")
    case None
    then have no: "\<not> overlap s n k" if "k \<in> set ?ks" for k using ks that by (auto simp: find_None_iff)
    have "k = 0" if "overlap s n k" for k
    proof (rule ccontr)
      assume "k \<noteq> 0"
      then have "k \<in> set ?ks" using that by (auto simp: overlap_def)
      then show False using no that by blast
    qed
    then show ?thesis using None assms by (auto simp: longest_suffix_prefix_len_def overlap_def)
  next
    case (Some k)
    then obtain i where i: "i < length ?ks" "?ks ! i = k" "ends_with (take k n) s"
      and before: "\<And>j. j < i \<Longrightarrow> \<not> ends_with (take (?ks ! j) n) s"
      by (auto simp: find_Some_iff)
    have "k' \<le> k" if o: "overlap s n k'" for k'
    proof (rule ccontr)
      assume "\<not> k' \<le> k"
      moreover have le: "k' \<le> min (length s) (length n - 1)" using o by (auto simp: overlap_def)
      moreover have "k = min (length s) (length n - 1) - i" "i < min (length s) (length n - 1)"
        using i(1,2) rev_upt_nth [of i "min (length s) (length n - 1)"] by (simp_all del: upt_Suc)
      ultimately have k': "0 < k'" "min (length s) (length n - 1) - k' < i" by linarith+
      have mem: "k' \<in> set ?ks" using k'(1) le by auto
      have "min (length s) (length n - 1) - k' < min (length s) (length n - 1)" using k'(1) le by linarith
      then have "?ks ! (min (length s) (length n - 1) - k') = k'"
        using rev_upt_nth le by (simp del: upt_Suc)
      then show False using before [OF k'(2)] ks [OF mem] o by simp
    qed
    moreover have "overlap s n k" using ks [of k] i by (metis nth_mem)
    ultimately show ?thesis using Some by (simp add: longest_suffix_prefix_len_def)
  qed
  then show "overlap s n (longest_suffix_prefix_len s n)" "overlap s n k \<Longrightarrow> k \<le> longest_suffix_prefix_len s n"
    by blast+
qed

text \<open>Keeping at least that suffix, nothing that is dropped belongs to a later occurrence.\<close>

lemma occ_after_drop:
  assumes "n \<noteq> []" "str_find n (p @ k) = None" "longest_suffix_prefix_len (p @ k) n \<le> length k" "occ n ((p @ k) @ r) i"
  shows "length p \<le> i"
proof (rule ccontr)
  assume "\<not> length p \<le> i"
  then have lt: "i < length p" by simp
  show False
  proof (cases "i + length n \<le> length (p @ k)")
    case True
    then show False using assms(2,4) occ_append_iff str_find_None_iff by blast
  next
    case False
    define j where "j = length (p @ k) - i"
    have "drop i (p @ k) = take j n"
    proof -
      have "take j (take (length n) (drop i ((p @ k) @ r))) = take j n" using assms(4) by (simp add: occ_def)
      moreover have "j \<le> length n" "length (drop i (p @ k)) = j" using False by (auto simp: j_def)
      ultimately show ?thesis using lt by (simp add: min_absorb1)
    qed
    then have "overlap (p @ k) n j" using lt False by (auto simp: overlap_def j_def)
    then have "j \<le> length k" using longest_suffix_prefix_len_spec(2) [OF assms(1)] assms(3) le_trans by blast
    then show False using lt by (simp add: j_def)
  qed
qed

lemma str_find_after_drop:
  assumes "n \<noteq> []" "str_find n (p @ k) = None" "longest_suffix_prefix_len (p @ k) n \<le> length k"
  shows "str_find n ((p @ k) @ r) = map_option (\<lambda>i. length p + i) (str_find n (k @ r))"
proof (cases "str_find n (k @ r)")
  case None
  then have "\<not> occ n ((p @ k) @ r) i" for i
    using occ_after_drop [OF assms, of r i] occ_shift [of n p "k @ r" "i - length p"] by (auto simp: str_find_None_iff)
  then have "str_find n ((p @ k) @ r) = None" by (simp only: str_find_None_iff) simp
  then show ?thesis using None by simp
next
  case (Some i)
  have "occ n ((p @ k) @ r) (length p + i)" using Some occ_shift [of n p "k @ r"] by (simp add: str_find_Some_iff)
  moreover have "\<not> occ n ((p @ k) @ r) j" if "j < length p + i" for j
    using that Some occ_after_drop [OF assms, of r j] occ_shift [of n p "k @ r" "j - length p"]
    by (cases "j < length p") (auto simp: str_find_Some_iff)
  ultimately have "str_find n ((p @ k) @ r) = Some (length p + i)" by (simp only: str_find_Some_iff) simp
  then show ?thesis using Some by simp
qed

lemma longest_suffix_prefix_len_after_drop:
  assumes "n \<noteq> []" "longest_suffix_prefix_len (p @ k) n \<le> length k"
  shows "longest_suffix_prefix_len ((p @ k) @ r) n = longest_suffix_prefix_len (k @ r) n"
proof -
  have "overlap ((p @ k) @ r) n j \<longleftrightarrow> overlap (k @ r) n j" for j
  proof (cases "j \<le> length (k @ r)")
    case True
    then show ?thesis by (simp add: overlap_def)
  next
    case False
    have "\<not> overlap ((p @ k) @ r) n j"
    proof
      assume o: "overlap ((p @ k) @ r) n j"
      define i where "i = j - length r"
      have eq: "drop (length (p @ k) - i) (p @ k) @ r = take j n" and j: "j = i + length r" "i \<le> length (p @ k)" "j < length n"
        using o False by (auto simp: overlap_def i_def add.assoc)
      have "take i (take j n) = drop (length (p @ k) - i) (p @ k)" unfolding eq [symmetric] using j(2) by simp
      then have "drop (length (p @ k) - i) (p @ k) = take i n" using j(1) by (simp add: min_absorb1)
      then have "overlap (p @ k) n i" using j by (simp add: overlap_def)
      then have "i \<le> length k" using longest_suffix_prefix_len_spec(2) [OF assms(1)] assms(2) le_trans by blast
      then show False using False j(1) by simp
    qed
    then show ?thesis using False by (simp add: overlap_def)
  qed
  then show ?thesis using longest_suffix_prefix_len_spec [OF assms(1)] by (metis le_antisym)
qed

section \<open>The next tag\<close>

lemma open_before_trans: "open_before a b \<Longrightarrow> open_before b c \<Longrightarrow> open_before a c"
  by (cases a; cases b; cases c) auto

lemma open_before_total: "\<not> open_before a b \<Longrightarrow> a \<noteq> b \<Longrightarrow> open_before b a"
  by (cases a; cases b) auto

lemma open_before_irrefl [simp]: "\<not> open_before a a"
  by (cases a) auto

lemma min_open_least:
  assumes "min_open cs = Some c" "d \<in> set cs"
  shows "\<not> open_before d c"
proof -
  have least: "\<not> open_before d (fold (\<lambda>b a. if open_before b a then b else a) xs x)" if "d \<in> insert x (set xs)" for d x xs
    using that
  proof (induction xs arbitrary: d x)
    case (Cons b xs)
    define y where "y = (if open_before b x then b else x)"
    have y: "d = y \<or> open_before y d \<or> d \<in> set xs"
      using Cons.prems open_before_total [of b x] open_before_total [of x b] by (auto simp: y_def)
    have no: "\<not> open_before e (fold (\<lambda>b a. if open_before b a then b else a) xs y)" if "e = y \<or> e \<in> set xs" for e
      using Cons.IH [of e y] that by blast
    have "\<not> open_before d (fold (\<lambda>b a. if open_before b a then b else a) xs y)"
      using y no open_before_trans by blast
    then show ?case by (simp add: y_def)
  qed simp
  then show ?thesis using assms by (cases cs) (simp_all del: open_before.simps split_paired_All, blast)
qed

lemma open_candidates_complete:
  "j < length specs \<Longrightarrow> str_find (spec_open (specs ! j)) s = Some pos \<Longrightarrow>
     (pos, utf8_len (spec_open (specs ! j)), i + j) \<in> set (open_candidates i specs s)"
proof (induction i specs s arbitrary: j rule: open_candidates.induct)
  case (2 i spec rest s)
  show ?case
  proof (cases j)
    case 0
    then show ?thesis using "2.prems" by simp
  next
    case (Suc k)
    then have "(pos, utf8_len (spec_open (rest ! k)), Suc i + k) \<in> set (open_candidates (Suc i) rest s)"
      using "2.prems" "2.IH" by (cases "str_find (spec_open spec) s") auto
    then show ?thesis using Suc by (auto split: option.split)
  qed
qed simp

lemma find_next_open_None_iff:
  "find_next_open specs s = None \<longleftrightarrow> (\<forall>spec\<in>set specs. str_find (spec_open spec) s = None)"
proof -
  have "open_candidates i specs s = [] \<longleftrightarrow> (\<forall>spec\<in>set specs. str_find (spec_open spec) s = None)" for i
    by (induction i specs s rule: open_candidates.induct) (auto split: option.splits)
  moreover have "min_open cs = None \<longleftrightarrow> cs = []" for cs by (cases cs) auto
  ultimately show ?thesis by (simp add: find_next_open_def)
qed

text \<open>The delimiters that open a tag do not lie inside one another.\<close>

definition opens_apart :: "'tag inline_tag_spec list \<Rightarrow> bool" where
  "opens_apart specs \<longleftrightarrow> (\<forall>i<length specs. \<forall>j<length specs. i \<noteq> j \<longrightarrow>
     str_find (spec_open (specs ! i)) (spec_open (specs ! j)) = None)"

definition specs_ok :: "'tag inline_tag_spec list \<Rightarrow> bool" where
  "specs_ok specs \<longleftrightarrow> (\<forall>s\<in>set specs. spec_open s \<noteq> [] \<and> spec_close s \<noteq> []) \<and> opens_apart specs"

lemma occ_inside:
  assumes "occ n s i" "occ m s j" "j \<le> i" "i + length n \<le> j + length m"
  shows "occ n m (i - j)"
proof -
  have "take (length n) (drop (i - j) (take (length m) (drop j s))) = take (length n) (drop i s)"
    using assms(3,4) by (simp add: take_drop drop_drop)
  then show ?thesis using assms by (auto simp: occ_def)
qed

lemma find_next_open_iff:
  assumes "specs_ok specs"
  shows "find_next_open specs s = Some (pos, idx) \<longleftrightarrow> idx < length specs \<and> str_find (spec_open (specs ! idx)) s = Some pos \<and>
     (\<forall>j<length specs. \<forall>pos'. j \<noteq> idx \<longrightarrow> str_find (spec_open (specs ! j)) s = Some pos' \<longrightarrow> pos < pos')"
    (is "?L \<longleftrightarrow> ?R")
proof
  have neq: "pos \<noteq> pos'" if "i < length specs" "j < length specs" "i \<noteq> j"
    "str_find (spec_open (specs ! i)) s = Some pos" "str_find (spec_open (specs ! j)) s = Some pos'" for i j pos pos'
  proof
    assume "pos = pos'"
    then have "occ (spec_open (specs ! i)) s pos" "occ (spec_open (specs ! j)) s pos"
      using that by (auto simp: str_find_Some_iff)
    then have "occ (spec_open (specs ! i)) (spec_open (specs ! j)) 0 \<or> occ (spec_open (specs ! j)) (spec_open (specs ! i)) 0"
      using occ_inside [of _ s pos _ pos] by (metis diff_self_eq_0 le_refl nat_add_left_cancel_le nat_le_linear)
    then show False using assms that(1-3) unfolding specs_ok_def opens_apart_def str_find_None_iff by blast
  qed
  assume ?L
  then obtain l where l: "min_open (open_candidates 0 specs s) = Some (pos, l, idx)" by (auto simp: find_next_open_def)
  have at: "idx < length specs" "str_find (spec_open (specs ! idx)) s = Some pos" using find_next_open_at \<open>?L\<close> by auto
  moreover have "pos < pos'" if "j < length specs" "j \<noteq> idx" "str_find (spec_open (specs ! j)) s = Some pos'" for j pos'
    using min_open_least [OF l open_candidates_complete [OF that(1,3)]] neq [OF at(1) that(1) that(2) [symmetric] at(2) that(3)]
    by auto
  ultimately show ?R by blast
next
  assume R: ?R
  then obtain c where "find_next_open specs s = Some c"
    using find_next_open_None_iff [of specs s] by (metis nth_mem not_None_eq option.distinct(1))
  moreover obtain pos' idx' where "c = (pos', idx')" by force
  ultimately have F: "find_next_open specs s = Some (pos', idx')" by simp
  then obtain l where l: "min_open (open_candidates 0 specs s) = Some (pos', l, idx')" by (auto simp: find_next_open_def)
  have at: "idx' < length specs" "str_find (spec_open (specs ! idx')) s = Some pos'" using find_next_open_at F by auto
  have "idx' = idx"
  proof (rule ccontr)
    assume "idx' \<noteq> idx"
    then have "pos < pos'" using R at by blast
    moreover have "(pos, utf8_len (spec_open (specs ! idx)), idx) \<in> set (open_candidates 0 specs s)"
      using open_candidates_complete [of idx specs s pos 0] R by simp
    ultimately show False using min_open_least [OF l] by fastforce
  qed
  then show ?L using F R at by simp
qed

lemma find_next_open_append:
  assumes ok: "specs_ok specs" and F: "find_next_open specs s = Some (pos, idx)"
  shows "find_next_open specs (s @ r) = Some (pos, idx)"
proof -
  note at = F [unfolded find_next_open_iff [OF ok]]
  have "pos < pos'" if j: "j < length specs" "j \<noteq> idx" and f: "str_find (spec_open (specs ! j)) (s @ r) = Some pos'" for j pos'
  proof (cases "str_find (spec_open (specs ! j)) s")
    case (Some i)
    then show ?thesis using at j f str_find_append [OF Some, of r] by auto
  next
    case None
    have o: "occ (spec_open (specs ! j)) (s @ r) pos'" "occ (spec_open (specs ! idx)) (s @ r) pos" "pos + length (spec_open (specs ! idx)) \<le> length s"
      using f at by (auto simp: str_find_Some_iff occ_append occ_def)
    have "length s < pos' + length (spec_open (specs ! j))"
      using None o(1) occ_append_iff [of pos' "spec_open (specs ! j)" s r] by (meson not_le str_find_None_iff)
    then have "\<not> pos' \<le> pos"
      using occ_inside [OF o(2,1)] o(3) ok at j unfolding specs_ok_def opens_apart_def str_find_None_iff by fastforce
    then show ?thesis by simp
  qed
  then show ?thesis using at str_find_append unfolding find_next_open_iff [OF ok] by blast
qed

lemma max_open_Max:
  "max_open_prefix_suffix_len specs p = Max (insert 0 ((\<lambda>s. longest_suffix_prefix_len p (spec_open s)) ` set specs))"
  by (simp add: max_open_prefix_suffix_len_def Max.set_eq_fold [symmetric])

lemma max_open_least:
  "s \<in> set specs \<Longrightarrow> longest_suffix_prefix_len p (spec_open s) \<le> max_open_prefix_suffix_len specs p"
  by (simp add: max_open_Max)

lemma max_open_le_length:
  assumes "specs_ok specs"
  shows "max_open_prefix_suffix_len specs p \<le> length p"
  using longest_suffix_prefix_len_spec(1) assms by (auto simp: max_open_Max specs_ok_def overlap_def)

text \<open>Without a tag in the text, what comes before the suffix that is kept does not matter any more.\<close>

lemma find_next_open_after_drop:
  assumes ok: "specs_ok specs" and none: "find_next_open specs (p @ k) = None"
    and kept: "max_open_prefix_suffix_len specs (p @ k) \<le> length k"
  shows "find_next_open specs ((p @ k) @ r) = map_option (\<lambda>(i, idx). (length p + i, idx)) (find_next_open specs (k @ r))"
proof -
  have each: "str_find (spec_open s) ((p @ k) @ r) = map_option (\<lambda>i. length p + i) (str_find (spec_open s) (k @ r))"
    if "s \<in> set specs" for s
  proof (rule str_find_after_drop)
    show "longest_suffix_prefix_len (p @ k) (spec_open s) \<le> length k" using max_open_least [OF that] kept le_trans by blast
  qed (use that ok none in \<open>auto simp: specs_ok_def find_next_open_None_iff\<close>)
  show ?thesis
  proof (cases "find_next_open specs (k @ r)")
    case None
    then have "find_next_open specs ((p @ k) @ r) = None" using each by (simp add: find_next_open_None_iff)
    then show ?thesis using None by simp
  next
    case (Some c)
    obtain pos idx where c: "c = (pos, idx)" by force
    have "find_next_open specs ((p @ k) @ r) = Some (length p + pos, idx)"
      using Some [unfolded c find_next_open_iff [OF ok]] each [OF nth_mem]
      by (auto simp add: find_next_open_iff [OF ok] simp del: append_assoc)
    then show ?thesis using Some c by simp
  qed
qed

lemma max_open_after_drop:
  assumes "specs_ok specs" "max_open_prefix_suffix_len specs (p @ k) \<le> length k"
  shows "max_open_prefix_suffix_len specs ((p @ k) @ r) = max_open_prefix_suffix_len specs (k @ r)"
proof -
  have "longest_suffix_prefix_len ((p @ k) @ r) (spec_open s) = longest_suffix_prefix_len (k @ r) (spec_open s)" if "s \<in> set specs" for s
    using longest_suffix_prefix_len_after_drop [of "spec_open s" p k r] max_open_least [OF that, of "p @ k"] assms that
    by (auto simp: specs_ok_def)
  then show ?thesis unfolding max_open_Max by (simp cong: image_cong del: append_assoc)
qed

section \<open>The loop consumes its text piece by piece\<close>

definition active_ok :: "'tag active_tag option \<Rightarrow> bool" where
  "active_ok a \<longleftrightarrow> (\<forall>t. a = Some t \<longrightarrow> active_close t \<noteq> [])"

lemma take_cut: "m \<le> length s \<Longrightarrow> k \<le> length (drop m s @ r) \<Longrightarrow>
    take (length s + length r - k) s = take m s @ take (length s + length r - (m + k)) (drop m s)"
  by (subst take_add [symmetric]) simp

lemma cut_shift:
  assumes "m \<le> length s"
  shows "take (m + i) (s @ r) = take m s @ take i (drop m s @ r)" "drop (m + i) (s @ r) = drop i (drop m s @ r)"
proof -
  have *: "s @ r = take m s @ (drop m s @ r)" by simp
  show "take (m + i) (s @ r) = take m s @ take i (drop m s @ r)" by (subst *, subst take_append) (use assms in simp)
  show "drop (m + i) (s @ r) = drop i (drop m s @ r)" by (subst *, subst drop_append) (use assms in simp)
qed

lemma inline_loop_append:
  assumes "specs_ok specs" "active_ok act"
  shows "inline_loop specs act (s @ r) =
     (case inline_loop specs act s of (c, act', s') \<Rightarrow>
       (case inline_loop specs act' (s' @ r) of (d, act'', s'') \<Rightarrow> (chunk_append c d, act'', s'')))"
  using assms
proof (induction specs act s rule: inline_loop.induct)
  case (1 specs active s)
  have ne: "active_close active \<noteq> []" using "1.prems" by (simp add: active_ok_def)
  show ?case
  proof (cases "str_find (active_close active) s")
    case (Some i)
    have b: "i + length (active_close active) \<le> length s" by (rule str_find_bound [OF Some])
    show ?thesis
      using "1.IH" [OF ne Some refl] "1.prems" Some str_find_append [OF Some, of r] b ne
      by (subst (1 2) inline_loop.simps) (simp add: active_ok_def chunk_append_assoc split: prod.split)
  next
    case None
    define m where "m = length s - longest_suffix_prefix_len s (active_close active)"
    have len: "longest_suffix_prefix_len s (active_close active) \<le> length s"
      using longest_suffix_prefix_len_spec(1) [OF ne] by (simp add: overlap_def)
    have split: "take m s @ drop m s = s" by simp
    have kept: "longest_suffix_prefix_len (take m s @ drop m s) (active_close active) \<le> length (drop m s)"
      using len by (simp add: m_def)
    have find: "str_find (active_close active) (s @ r) = map_option (\<lambda>i. m + i) (str_find (active_close active) (drop m s @ r))"
      using str_find_after_drop [OF ne _ kept, of r] None by (simp add: m_def min_absorb2)
    have keep: "longest_suffix_prefix_len (s @ r) (active_close active) = longest_suffix_prefix_len (drop m s @ r) (active_close active)"
      using longest_suffix_prefix_len_after_drop [OF ne kept, of r] by simp
    have m: "m \<le> length s" by (simp add: m_def)
    have keep_le: "longest_suffix_prefix_len (drop m s @ r) (active_close active) \<le> length (drop m s @ r)"
      using longest_suffix_prefix_len_spec(1) [OF ne, of "drop m s @ r"] unfolding overlap_def by blast
    show ?thesis
    proof (cases "str_find (active_close active) (drop m s @ r)")
      case find2: None
      show ?thesis
        using ne None find find2 keep m keep_le take_cut [OF m keep_le]
        by (simp add: inline_loop.simps Let_def m_def [symmetric])
    next
      case find2: (Some i)
      have 1: "inline_loop specs (Some active) s =
          (empty_chunk, Some (active\<lparr>active_content := active_content active @ take m s\<rparr>), drop m s)"
        by (subst inline_loop.simps) (use ne None in \<open>simp add: Let_def m_def [symmetric]\<close>)
      show ?thesis
        unfolding 1 prod.case
        by (subst (1 2) inline_loop.simps)
          (use ne find find2 cut_shift [OF m, of i r] cut_shift [OF m, of "i + length (active_close active)" r]
            in \<open>simp add: Let_def add.assoc del: take_append drop_append split: prod.split\<close>)
    qed
  qed
next
  case (2 specs s)
  have ne: "\<not> list_ex (\<lambda>s. spec_open s = []) specs" using "2.prems" by (auto simp: specs_ok_def list_ex_iff)
  show ?case
  proof (cases "find_next_open specs s")
    case (Some c)
    obtain i j where c: "c = (i, j)" by force
    have j: "j < length specs" "str_find (spec_open (specs ! j)) s = Some i" using find_next_open_at Some c by auto
    have "active_ok (Some \<lparr>active_tag_of = spec_tag (specs ! j), active_close = spec_close (specs ! j), active_content = []\<rparr>)"
      using "2.prems" j(1) by (simp add: specs_ok_def active_ok_def)
    then show ?thesis
      using "2.IH" [OF ne Some c [symmetric] refl] "2.prems" Some [unfolded c]
        find_next_open_append [OF "2.prems"(1) Some [unfolded c], of r] str_find_bound [OF j(2)] ne
      by (subst (1 2) inline_loop.simps) (simp add: chunk_append_assoc Let_def split: prod.split)
  next
    case None
    define m where "m = length s - max_open_prefix_suffix_len specs s"
    have kept: "max_open_prefix_suffix_len specs (take m s @ drop m s) \<le> length (drop m s)"
      using max_open_le_length [OF "2.prems"(1), of s] by (simp add: m_def)
    have find: "find_next_open specs (s @ r) = map_option (\<lambda>(i, idx). (m + i, idx)) (find_next_open specs (drop m s @ r))"
      using find_next_open_after_drop [OF "2.prems"(1) _ kept, of r] None by (simp add: m_def min_absorb2)
    have keep: "max_open_prefix_suffix_len specs (s @ r) = max_open_prefix_suffix_len specs (drop m s @ r)"
      using max_open_after_drop [OF "2.prems"(1) kept, of r] by simp
    have m: "m \<le> length s" by (simp add: m_def)
    have keep_le: "max_open_prefix_suffix_len specs (drop m s @ r) \<le> length (drop m s @ r)"
      by (rule max_open_le_length [OF "2.prems"(1)])
    show ?thesis
    proof (cases "find_next_open specs (drop m s @ r)")
      case find2: None
      show ?thesis
        using ne None find find2 keep m keep_le take_cut [OF m keep_le]
        by (simp add: inline_loop.simps Let_def m_def [symmetric] chunk_append_def)
    next
      case find2: (Some c)
      obtain i j where c: "c = (i, j)" by force
      have 1: "inline_loop specs None s = (\<lparr>visible_text = take m s, extracted = []\<rparr>, None, drop m s)"
        by (subst inline_loop.simps) (use ne None in \<open>simp add: Let_def m_def [symmetric]\<close>)
      show ?thesis
        unfolding 1 prod.case
        by (subst (1 2) inline_loop.simps)
          (use ne find find2 c cut_shift [OF m, of i r] cut_shift [OF m, of "i + length (spec_open (specs ! j))" r]
            in \<open>simp add: Let_def add.assoc chunk_append_def del: take_append drop_append split: prod.split\<close>)
    qed
  qed
qed

lemma inline_loop_active_ok:
  "specs_ok specs \<Longrightarrow> active_ok act \<Longrightarrow> inline_loop specs act s = (c, act', s') \<Longrightarrow> active_ok act'"
proof (induction specs act s arbitrary: c act' s' rule: inline_loop.induct)
  case (1 specs active s)
  have ne: "active_close active \<noteq> []" using "1.prems" by (simp add: active_ok_def)
  show ?case
  proof (cases "str_find (active_close active) s")
    case None
    then show ?thesis using "1.prems"(3) ne by (subst (asm) inline_loop.simps) (auto simp: active_ok_def Let_def)
  next
    case (Some i)
    obtain c1 a1 s1 where L: "inline_loop specs None (drop (i + length (active_close active)) s) = (c1, a1, s1)"
      by (metis prod_cases3)
    then have "a1 = act'" using inline_loop.simps(1) [of specs active s] "1.prems"(3) ne Some by simp
    then show ?thesis using "1.IH" [OF ne Some refl "1.prems"(1) _ L] by (simp add: active_ok_def)
  qed
next
  case (2 specs s)
  have ne: "\<not> list_ex (\<lambda>s. spec_open s = []) specs" using "2.prems" by (auto simp: specs_ok_def list_ex_iff)
  show ?case
  proof (cases "find_next_open specs s")
    case None
    then show ?thesis using "2.prems"(3) ne by (subst (asm) inline_loop.simps) (auto simp: active_ok_def Let_def)
  next
    case (Some x)
    obtain i j where x: "x = (i, j)" by force
    have "active_ok (Some \<lparr>active_tag_of = spec_tag (specs ! j), active_close = spec_close (specs ! j), active_content = []\<rparr>)"
      using "2.prems"(1) find_next_open_at [of specs s i j] Some x by (simp add: specs_ok_def active_ok_def)
    moreover obtain c1 a1 s1 where L: "inline_loop specs
        (Some \<lparr>active_tag_of = spec_tag (specs ! j), active_close = spec_close (specs ! j), active_content = []\<rparr>)
        (drop (i + length (spec_open (specs ! j))) s) = (c1, a1, s1)"
      by (metis prod_cases3)
    ultimately have "active_ok a1" using "2.IH" [OF ne Some x [symmetric] refl "2.prems"(1)] by blast
    moreover have "a1 = act'" using inline_loop.simps(2) [of specs s] "2.prems"(3) ne Some x L by (simp add: Let_def)
    ultimately show ?thesis by simp
  qed
qed

section \<open>Hidden tags are chunk independent\<close>

definition inline_reached :: "'tag inline_hidden_tag_parser \<Rightarrow> bool" where
  "inline_reached p \<longleftrightarrow> specs_ok (inline_specs p) \<and> active_ok (inline_active p) \<and>
     inline_loop (inline_specs p) (inline_active p) (inline_pending p) = (empty_chunk, inline_active p, inline_pending p)"

lemma chunk_append_eq_self: "c = chunk_append c d \<longleftrightarrow> d = empty_chunk"
  by (cases c; cases d) (auto simp: chunk_append_def empty_chunk_def)

lemma inline_loop_settles:
  assumes "specs_ok specs" "active_ok act" "inline_loop specs act s = (c, act', s')"
  shows "inline_loop specs act' s' = (empty_chunk, act', s')"
  using inline_loop_append [OF assms(1,2), of s "[]"] assms(3)
  by (auto simp: chunk_append_eq_self split: prod.splits)

lemma inline_push_append:
  assumes "inline_reached p" "inline_push_str p a = (c, q)" "inline_push_str q b = (d, r)"
  shows "inline_push_str p (a @ b) = (chunk_append c d, r)"
  using inline_loop_append [of "inline_specs p" "inline_active p" "inline_pending p @ a" b] assms
  by (auto simp: inline_push_str_def inline_reached_def split: prod.splits)

lemma inline_reached_push: "inline_reached p \<Longrightarrow> inline_reached (snd (inline_push_str p t))"
proof -
  assume p: "inline_reached p"
  obtain c a s where L: "inline_loop (inline_specs p) (inline_active p) (inline_pending p @ t) = (c, a, s)"
    by (metis prod_cases3)
  then show ?thesis
    using p inline_loop_active_ok [OF _ _ L] inline_loop_settles [OF _ _ L] by (simp add: inline_reached_def inline_push_str_def)
qed

lemma inline_push_Nil: "inline_reached p \<Longrightarrow> inline_push_str p [] = (empty_chunk, p)"
  by (simp add: inline_reached_def inline_push_str_def)

interpretation hidden: text_parser inline_push_str inline_finish inline_reached id
proof unfold_locales
  fix p :: "'a inline_hidden_tag_parser" and a b c q d r o' r'
  assume p: "inline_reached p" "inline_push_str p a = (c, q)" "inline_push_str q b = (d, r)" "inline_push_str p (a @ b) = (o', r')"
  then show "visible_text o' = visible_text c @ visible_text d \<and> id (extracted o') = id (extracted c) @ id (extracted d) \<and> r' = r"
    using inline_push_append [OF p(1-3)] by auto
qed (auto simp: inline_reached_push inline_push_Nil)

lemma contents_chunk_simps [simp]:
  "visible_text (contents_chunk c) = visible_text c" "extracted (contents_chunk c) = map ex_content (extracted c)"
  "contents_chunk empty_chunk = empty_chunk"
  by (simp_all add: contents_chunk_def empty_chunk_def)

interpretation citation: text_parser citation_push_str citation_finish inline_reached id
proof unfold_locales
  fix p :: citation_parser and a b c q d r o' r'
  assume p: "inline_reached p" "citation_push_str p a = (c, q)" "citation_push_str q b = (d, r)" "citation_push_str p (a @ b) = (o', r')"
  obtain c1 q1 d1 r1 where "inline_push_str p a = (c1, q1)" "inline_push_str q1 b = (d1, r1)" by force
  with inline_push_append [OF p(1) this] p(2-4) show
    "visible_text o' = visible_text c @ visible_text d \<and> id (extracted o') = id (extracted c) @ id (extracted d) \<and> r' = r"
    by (auto simp: citation_push_str_def)
qed (auto simp: citation_push_str_def inline_reached_push inline_push_Nil)

text \<open>The meaning of the whole text: what lies between delimiters is hidden, an open tag ends with the text.\<close>

function hide_tags :: "'tag inline_tag_spec list \<Rightarrow> ustr \<Rightarrow> 'tag extracted_inline_tag stream_text_chunk" where
  "hide_tags specs t =
     (if \<not> specs_ok specs then empty_chunk
      else case find_next_open specs t of
        None \<Rightarrow> \<lparr>visible_text = t, extracted = []\<rparr>
      | Some (i, idx) \<Rightarrow>
          (let spec = specs ! idx; body = drop (i + length (spec_open spec)) t
           in case str_find (spec_close spec) body of
                None \<Rightarrow> \<lparr>visible_text = take i t, extracted = [\<lparr>ex_tag = spec_tag spec, ex_content = body\<rparr>]\<rparr>
              | Some j \<Rightarrow> chunk_append
                  \<lparr>visible_text = take i t, extracted = [\<lparr>ex_tag = spec_tag spec, ex_content = take j body\<rparr>]\<rparr>
                  (hide_tags specs (drop (j + length (spec_close spec)) body))))"
  by pat_completeness auto
termination
proof (relation "measure (\<lambda>(_, t). length t)", simp)
  fix specs :: "'tag inline_tag_spec list" and t a i idx spec body j
  assume "\<not> \<not> specs_ok specs" "find_next_open specs t = Some a" "(i, idx) = a" "spec = specs ! idx"
    "body = drop (i + length (spec_open spec)) t" "str_find (spec_close spec) body = Some j"
  then have at: "idx < length specs" "str_find (spec_open spec) t = Some i" "specs_ok specs" "body = drop (i + length (spec_open spec)) t" "spec = specs ! idx"
    using find_next_open_at [of specs t i idx] by auto
  then have "spec_open spec \<noteq> []" by (simp add: specs_ok_def)
  then have "length body < length t" using str_find_bound [OF at(2)] at(4) by (cases "spec_open spec") auto
  then show "((specs, drop (j + length (spec_close spec)) body), specs, t) \<in> measure (\<lambda>(_, t). length t)" by simp
qed

declare hide_tags.simps [simp del]

definition inline_total :: "'tag inline_tag_spec list \<Rightarrow> 'tag active_tag option \<Rightarrow> ustr \<Rightarrow> 'tag extracted_inline_tag stream_text_chunk" where
  "inline_total specs act t = (case inline_loop specs act t of (c, act', p) \<Rightarrow>
     chunk_append c (fst (inline_finish \<lparr>inline_specs = specs, inline_pending = p, inline_active = act'\<rparr>)))"

lemma inline_total_hide_tags: "specs_ok specs \<Longrightarrow> inline_total specs None t = hide_tags specs t"
proof (induction specs t rule: hide_tags.induct)
  case (1 specs t)
  have ne: "\<not> list_ex (\<lambda>s. spec_open s = []) specs" using "1.prems" by (auto simp: specs_ok_def list_ex_iff)
  show ?case
  proof (cases "find_next_open specs t")
    case None
    then show ?thesis
      using "1.prems" ne by (simp add: inline_total_def inline_loop.simps(2) hide_tags.simps [of specs t] Let_def inline_finish_def chunk_append_def)
  next
    case (Some x)
    obtain i idx where x: "x = (i, idx)" by force
    define spec body where "spec = specs ! idx" and "body = drop (i + length (spec_open spec)) t"
    have close: "spec_close spec \<noteq> []"
      using "1.prems" find_next_open_at [of specs t i idx] Some x by (simp add: specs_ok_def spec_def)
    let ?act = "\<lparr>active_tag_of = spec_tag spec, active_close = spec_close spec, active_content = []\<rparr>"
    have step: "inline_total specs None t = chunk_append \<lparr>visible_text = take i t, extracted = []\<rparr> (inline_total specs (Some ?act) body)"
      using ne Some x
      by (simp add: inline_total_def inline_loop.simps(2) [of specs t] Let_def spec_def [symmetric] body_def [symmetric] chunk_append_assoc split: prod.split)
    show ?thesis
    proof (cases "str_find (spec_close spec) body")
      case None
      then show ?thesis
        using step "1.prems" Some x close
        by (simp add: inline_total_def inline_loop.simps(1) hide_tags.simps [of specs t] Let_def spec_def [symmetric] body_def [symmetric] inline_finish_def chunk_append_def)
    next
      case j: (Some j)
      have "inline_total specs None (drop (j + length (spec_close spec)) body) = hide_tags specs (drop (j + length (spec_close spec)) body)"
        using "1.IH" [OF _ Some x [symmetric] spec_def body_def j "1.prems"] "1.prems" by blast
      moreover have "inline_total specs (Some ?act) body =
          chunk_append \<lparr>visible_text = [], extracted = [\<lparr>ex_tag = spec_tag spec, ex_content = take j body\<rparr>]\<rparr>
            (inline_total specs None (drop (j + length (spec_close spec)) body))"
        using close j by (simp add: inline_total_def inline_loop.simps(1) [of specs ?act body] chunk_append_assoc split: prod.split)
      ultimately have "inline_total specs None t = chunk_append
          \<lparr>visible_text = take i t, extracted = [\<lparr>ex_tag = spec_tag spec, ex_content = take j body\<rparr>]\<rparr>
          (hide_tags specs (drop (j + length (spec_close spec)) body))"
        using step by (simp add: chunk_append_def)
      then show ?thesis
        using "1.prems" Some x j by (simp add: hide_tags.simps [of specs t] Let_def spec_def [symmetric] body_def [symmetric])
    qed
  qed
qed

lemma citation_specs_ok: "specs_ok (inline_specs citation_new)"
  by (simp add: specs_ok_def opens_apart_def citation_new_def CITATION_OPEN_def CITATION_CLOSE_def)

lemma inline_new_reached:
  "inline_new specs = Some p \<Longrightarrow> opens_apart specs \<Longrightarrow> inline_reached p"
proof -
  assume p: "inline_new specs = Some p" "opens_apart specs"
  then have ok: "specs_ok specs" and eq: "p = \<lparr>inline_specs = specs, inline_pending = [], inline_active = None\<rparr>"
    by (auto simp: inline_new_def specs_ok_def list_ex_iff split: if_splits)
  have "find_next_open specs [] = None" using ok by (simp add: find_next_open_None_iff specs_ok_def)
  moreover have "\<not> list_ex (\<lambda>s. spec_open s = []) specs" using ok by (auto simp: specs_ok_def list_ex_iff)
  ultimately have "inline_loop specs None [] = (empty_chunk, None, [])"
    by (simp add: inline_loop.simps(2) Let_def empty_chunk_def)
  then show ?thesis using ok by (simp add: eq inline_reached_def active_ok_def)
qed

lemma citation_new_eq: "inline_new (inline_specs citation_new) = Some citation_new"
  by (simp add: inline_new_def citation_new_def CITATION_OPEN_def CITATION_CLOSE_def)

lemma citation_new_reached: "inline_reached citation_new"
  using inline_new_reached [OF citation_new_eq] citation_specs_ok by (simp add: specs_ok_def)

definition citations_of :: "ustr \<Rightarrow> ustr stream_text_chunk" where
  "citations_of t = contents_chunk (hide_tags (inline_specs citation_new) t)"

lemma citation_whole: "feed_all citation_push_str citation_finish citation_new [t] = citations_of t"
proof -
  obtain c a p where L: "inline_loop (inline_specs citation_new) None t = (c, a, p)" by (metis prod_cases3)
  have new: "citation_new = \<lparr>inline_specs = inline_specs citation_new, inline_pending = [], inline_active = None\<rparr>"
    by (simp add: citation_new_def)
  have "inline_push_str citation_new t =
      (c, \<lparr>inline_specs = inline_specs citation_new, inline_pending = p, inline_active = a\<rparr>)"
    using L by (subst new) (simp add: inline_push_str_def)
  then have "feed_all citation_push_str citation_finish citation_new [t] = contents_chunk (inline_total (inline_specs citation_new) None t)"
    by (simp add: feed_all_def inline_total_def L citation_push_str_def citation_finish_def contents_chunk_def chunk_append_def)
  then show ?thesis using inline_total_hide_tags [OF citation_specs_ok] by (simp add: citations_of_def)
qed

lemma citation_feed_whole:
  "feed_all citation_push_str citation_finish citation_new chunks = citations_of (concat chunks)"
  using citation.feed_all_concat [OF citation_new_reached, of chunks] citation_whole [of "concat chunks"] by simp

text \<open>
  C24: Streaming does not change what is hidden. However the text of a model is cut into chunks, the
  visible text and the citations the parser has returned when it is finished are those of the
  whole text, by the reference definition: text outside the tags is visible, each tag's content up to the first closing
  delimiter is a citation, and a tag that is not closed takes the rest of the text.
\<close>

theorem citation_stream_correct:
  "feed_all citation_push_str citation_finish citation_new chunks = citations_of (concat chunks)"
  by (rule citation_feed_whole)

end
