(* ===== verification/Tagged_Lines_Correct.thy ===== *)
theory Tagged_Lines_Correct
  imports Stream_Parser_Correct
begin

text \<open>
  The line parser and the parsers over it. The segments it returns are read as events, one for
  each character; the events of any sequence of chunks are those of a reference definition that
  looks at whole lines.
\<close>

section \<open>Segments as events\<close>

datatype 'tag line_event = Plain uchar | Start 'tag | Inside 'tag uchar | Stop 'tag

definition text_events :: "'tag option \<Rightarrow> ustr \<Rightarrow> 'tag line_event list" where
  "text_events a t = (case a of None \<Rightarrow> map Plain t | Some g \<Rightarrow> map (Inside g) t)"

fun seg_events :: "'tag tagged_line_segment \<Rightarrow> 'tag line_event list" where
  "seg_events (Normal t) = text_events None t"
| "seg_events (TagStart g) = [Start g]"
| "seg_events (TagDelta g t) = text_events (Some g) t"
| "seg_events (TagEnd g) = [Stop g]"

definition segs_events :: "'tag tagged_line_segment list \<Rightarrow> 'tag line_event list" where
  "segs_events segs = concat (map seg_events segs)"

lemma text_events_simps [simp]:
  "text_events a [] = []" "text_events a (s @ t) = text_events a s @ text_events a t"
  by (auto simp: text_events_def split: option.split)

lemma segs_events_simps [simp]:
  "segs_events [] = []" "segs_events (xs @ ys) = segs_events xs @ segs_events ys" "segs_events (x # xs) = seg_events x @ segs_events xs"
  by (simp_all add: segs_events_def)

lemma push_segment_events [simp]: "segs_events (push_segment segs x) = segs_events segs @ seg_events x"
proof (cases segs rule: rev_cases)
  case Nil
  then show ?thesis by (cases x) (auto simp: push_segment_def)
next
  case (snoc ys y)
  then show ?thesis by (cases x; cases y) (auto simp: push_segment_def)
qed

lemma push_text_events [simp]: "segs_events (push_text p t segs) = segs_events segs @ text_events (active_line_tag p) t"
  by (auto simp: push_text_def split: option.split)

section \<open>One character at a time\<close>

text \<open>What a whole line does: it opens a block, closes the one that is open, or is text.\<close>

definition line_events :: "'tag tag_spec list \<Rightarrow> 'tag option \<Rightarrow> ustr \<Rightarrow> 'tag line_event list \<times> 'tag option" where
  "line_events specs a line =
     (let slug = line_slug line
      in if match_open specs slug \<noteq> None \<and> a = None then
           ([Start (the (match_open specs slug))], match_open specs slug)
         else if match_close specs slug \<noteq> None \<and> a = match_close specs slug then ([Stop (the a)], None)
         else (text_events a line, a))"

definition line_step :: "'tag tagged_line_parser \<Rightarrow> uchar \<Rightarrow> 'tag line_event list \<times> 'tag tagged_line_parser" where
  "line_step p ch =
     (if detect_tag p then
        let buf = line_buffer p @ [ch]
        in if ch = LF then
             (case line_events (line_specs p) (active_line_tag p) buf of
                (es, a) \<Rightarrow> (es, p\<lparr>line_buffer := [], active_line_tag := a\<rparr>))
           else if trim_start buf = [] \<or> is_tag_prefix (line_specs p) (trim_start buf) then ([], p\<lparr>line_buffer := buf\<rparr>)
           else (text_events (active_line_tag p) buf, p\<lparr>line_buffer := [], detect_tag := False\<rparr>)
      else (text_events (active_line_tag p) [ch], p\<lparr>detect_tag := (ch = LF)\<rparr>))"

fun line_steps :: "'tag tagged_line_parser \<Rightarrow> ustr \<Rightarrow> 'tag line_event list \<times> 'tag tagged_line_parser" where
  "line_steps p [] = ([], p)"
| "line_steps p (c # cs) =
     (let (es, q) = line_step p c; (fs, r) = line_steps q cs in (es @ fs, r))"

lemma line_steps_append:
  "line_steps p (a @ b) = (let (es, q) = line_steps p a; (fs, r) = line_steps q b in (es @ fs, r))"
  by (induction a arbitrary: p) (auto simp: Let_def split: prod.split)

lemma finish_line_events:
  assumes "detect_tag p" "finish_line p segs = (q, segs')"
  shows "(case line_events (line_specs p) (active_line_tag p) (line_buffer p) of
     (es, a) \<Rightarrow> segs_events segs' = segs_events segs @ es \<and> q = p\<lparr>line_buffer := [], active_line_tag := a\<rparr>)"
  using assms by (auto simp: finish_line_def line_events_def Let_def split: if_splits)

text \<open>The run of text that is not yet pushed is text outside the detection of tags.\<close>

lemma parse_char_events:
  assumes "parse_char ch (p, pend, segs) = (q, pend', segs')" "pend \<noteq> [] \<Longrightarrow> \<not> detect_tag p"
  shows "q = snd (line_step p ch) \<and>
     segs_events segs' @ text_events (active_line_tag q) pend' =
       segs_events segs @ text_events (active_line_tag p) pend @ fst (line_step p ch) \<and>
     (pend' \<noteq> [] \<longrightarrow> \<not> detect_tag q)"
proof (cases "detect_tag p \<and> ch = LF")
  case True
  then have [simp]: "pend = []" using assms(2) by blast
  let ?p = "p\<lparr>line_buffer := line_buffer p @ [ch]\<rparr>"
  obtain r segs2 where f: "finish_line ?p segs = (r, segs2)" by force
  then show ?thesis
    using finish_line_events [OF _ f] assms True
    by (auto simp: parse_char_def line_step_def Let_def split: prod.splits)
next
  case False
  then show ?thesis using assms by (auto simp: parse_char_def line_step_def Let_def split: if_splits)
qed

lemma fold_parse_char_events:
  assumes "fold parse_char t (p, pend, segs) = (q, pend', segs')" "pend \<noteq> [] \<Longrightarrow> \<not> detect_tag p"
  shows "q = snd (line_steps p t) \<and>
     segs_events segs' @ text_events (active_line_tag q) pend' =
       segs_events segs @ text_events (active_line_tag p) pend @ fst (line_steps p t)"
  using assms
proof (induction t arbitrary: p pend segs)
  case (Cons c t)
  obtain p1 pend1 segs1 where 1: "parse_char c (p, pend, segs) = (p1, pend1, segs1)" by (metis prod_cases3)
  note step = parse_char_events [OF 1 Cons.prems(2)]
  have "q = snd (line_steps p1 t) \<and> segs_events segs' @ text_events (active_line_tag q) pend' =
       segs_events segs1 @ text_events (active_line_tag p1) pend1 @ fst (line_steps p1 t)"
    by (rule Cons.IH) (use Cons.prems(1) 1 step in auto)
  then show ?case using step by (auto split: prod.split)
qed simp

lemma tagged_parse_events: "tagged_parse p t = (segs, q) \<Longrightarrow> segs_events segs = fst (line_steps p t) \<and> q = snd (line_steps p t)"
proof -
  assume t: "tagged_parse p t = (segs, q)"
  obtain r pend segs' where f: "fold parse_char t (p, [], []) = (r, pend, segs')" by (metis prod_cases3)
  show ?thesis
    using fold_parse_char_events [OF f] t f by (auto simp: tagged_parse_def split: if_splits)
qed

lemma tagged_parse_append:
  assumes "tagged_parse p a = (s, q)" "tagged_parse q b = (t, r)" "tagged_parse p (a @ b) = (u, r')"
  shows "segs_events u = segs_events s @ segs_events t \<and> r' = r"
  using tagged_parse_events [OF assms(1)] tagged_parse_events [OF assms(2)] tagged_parse_events [OF assms(3)]
  by (simp add: line_steps_append split: prod.splits)

lemma tagged_parse_Nil: "tagged_parse p [] = ([], p)"
  by (simp add: tagged_parse_def)

lemma tagged_finish_events:
  assumes "tagged_finish p = (segs, q)" "line_buffer p = [] \<or> detect_tag p"
  shows "segs_events segs =
    (if line_buffer p = [] then (case active_line_tag p of Some g \<Rightarrow> [Stop g] | None \<Rightarrow> [])
     else case line_events (line_specs p) (active_line_tag p) (line_buffer p) of
       (es, a) \<Rightarrow> es @ (case a of Some g \<Rightarrow> [Stop g] | None \<Rightarrow> []))"
  using assms by (auto simp: tagged_finish_def line_events_def Let_def split: if_splits option.splits)

section \<open>Whole lines\<close>

text \<open>\<open>split_inclusive\<close>: the lines of a text, each with the newline that ends it.\<close>

fun lines_incl :: "ustr \<Rightarrow> ustr list" where
  "lines_incl [] = []"
| "lines_incl (c # cs) =
     (if c = LF then [LF] # lines_incl cs
      else case lines_incl cs of [] \<Rightarrow> [[c]] | l # ls \<Rightarrow> (c # l) # ls)"

fun block_events :: "'tag tag_spec list \<Rightarrow> 'tag option \<Rightarrow> ustr list \<Rightarrow> 'tag line_event list" where
  "block_events specs a [] = (case a of Some g \<Rightarrow> [Stop g] | None \<Rightarrow> [])"
| "block_events specs a (l # ls) = (case line_events specs a l of (es, b) \<Rightarrow> es @ block_events specs b ls)"

lemma lines_incl_line: "LF \<notin> set l \<Longrightarrow> lines_incl (l @ LF # r) = (l @ [LF]) # lines_incl r"
  by (induction l) auto

lemma lines_incl_last: "LF \<notin> set l \<Longrightarrow> l \<noteq> [] \<Longrightarrow> lines_incl l = [l]"
proof (induction l)
  case (Cons c l)
  then show ?case by (cases "l = []") auto
qed simp

text \<open>A text that cannot become a tag any more does not begin a line that is one.\<close>

lemma trim_start_append: "trim_start b \<noteq> [] \<Longrightarrow> trim_start (b @ m) = trim_start b @ m"
  by (auto simp: trim_start_def dropWhile_append dropWhile_eq_Nil_conv)

lemma trim_end_append_prefix: "\<exists>r. trim_end (b @ m) = trim_end b @ r"
proof (induction m rule: rev_induct)
  case (snoc x xs)
  obtain r where "b = trim_end b @ r"
    unfolding trim_end_def by (metis rev_append rev_rev_ident takeWhile_dropWhile_id)
  then have "b @ xs @ [x] = trim_end b @ (r @ xs @ [x])" by (metis append.assoc)
  then have "\<exists>r. b @ xs @ [x] = trim_end b @ r" by blast
  then show ?case using snoc trim_end_snoc [of "b @ xs" x] by auto
qed auto

lemma not_tag_prefix:
  assumes "trim_start b \<noteq> []" "\<not> is_tag_prefix specs (trim_start b)" "LF \<notin> set b"
  shows "match_open specs (line_slug (b @ m)) = None" "match_close specs (line_slug (b @ m)) = None"
proof -
  obtain m' where slug: "line_slug (b @ m) = trim_end (trim_start b @ m')"
  proof (cases "strip_suffix [LF] (b @ m)")
    case None
    then show thesis using that [of m] trim_start_append [OF assms(1)] by (simp add: line_slug_def)
  next
    case (Some x)
    then have "b @ m = x @ [LF]" by (simp add: rust_str)
    then obtain m' where "x = b @ m'" using assms(3) by (cases m rule: rev_cases) auto
    then show thesis using that [of m'] trim_start_append [OF assms(1)] Some by (simp add: line_slug_def)
  qed
  obtain r where r: "line_slug (b @ m) = trim_end (trim_start b) @ r"
    using trim_end_append_prefix [of "trim_start b" m'] slug by auto
  have "line_open s \<noteq> line_slug (b @ m)" "line_close s \<noteq> line_slug (b @ m)" if "s \<in> set specs" for s
    using assms(2) that r by (auto simp: is_tag_prefix_def list_ex_iff starts_with_iff)
  then show "match_open specs (line_slug (b @ m)) = None" "match_close specs (line_slug (b @ m)) = None"
    by (auto simp: match_open_def match_close_def find_None_iff)
qed

text \<open>
  The parser at the start of a line, while the line may be a tag, and once it is text.
\<close>

lemma line_steps_text:
  "LF \<notin> set cs \<Longrightarrow> \<not> detect_tag p \<Longrightarrow> line_steps p cs = (text_events (active_line_tag p) cs, p)"
proof (induction cs)
  case (Cons c cs)
  have "line_step p c = (text_events (active_line_tag p) [c], p)" using Cons.prems by (cases p) (simp add: line_step_def)
  then show ?case using Cons text_events_simps(2) [of "active_line_tag p" "[c]" cs] by simp
qed simp

lemma line_steps_open:
  assumes "LF \<notin> set cs" "detect_tag p" "LF \<notin> set (line_buffer p)"
  shows "line_steps p cs = ([], p\<lparr>line_buffer := line_buffer p @ cs\<rparr>) \<or>
     line_steps p cs = (text_events (active_line_tag p) (line_buffer p @ cs), p\<lparr>line_buffer := [], detect_tag := False\<rparr>) \<and>
     (\<forall>m. line_events (line_specs p) (active_line_tag p) (line_buffer p @ cs @ m) =
        (text_events (active_line_tag p) (line_buffer p @ cs @ m), active_line_tag p))"
  using assms
proof (induction cs arbitrary: p)
  case (Cons c cs)
  let ?buf = "line_buffer p @ [c]"
  have c: "c \<noteq> LF" "LF \<notin> set ?buf" using Cons.prems by auto
  show ?case
  proof (cases "trim_start ?buf = [] \<or> is_tag_prefix (line_specs p) (trim_start ?buf)")
    case True
    then have "line_step p c = ([], p\<lparr>line_buffer := ?buf\<rparr>)" using Cons.prems c by (simp add: line_step_def)
    then show ?thesis using Cons.IH [of "p\<lparr>line_buffer := ?buf\<rparr>"] Cons.prems c by simp
  next
    case False
    then have "line_step p c = (text_events (active_line_tag p) ?buf, p\<lparr>line_buffer := [], detect_tag := False\<rparr>)"
      using Cons.prems c by (simp add: line_step_def)
    moreover have "line_events (line_specs p) (active_line_tag p) (line_buffer p @ (c # cs) @ m) =
        (text_events (active_line_tag p) (line_buffer p @ (c # cs) @ m), active_line_tag p)" for m
      using not_tag_prefix [of ?buf "line_specs p" "cs @ m"] False c by (simp add: line_events_def Let_def)
    ultimately show ?thesis
      using Cons.prems line_steps_text [of cs "p\<lparr>line_buffer := [], detect_tag := False\<rparr>"]
        text_events_simps(2) [of "active_line_tag p" ?buf cs] by simp
  qed
qed simp

lemma line_steps_line:
  assumes "LF \<notin> set l" "detect_tag p" "line_buffer p = []"
  shows "line_steps p (l @ [LF]) = (case line_events (line_specs p) (active_line_tag p) (l @ [LF]) of
     (es, a) \<Rightarrow> (es, p\<lparr>active_line_tag := a\<rparr>))"
proof -
  have buf: "p\<lparr>line_buffer := []\<rparr> = p" using assms(3) by (cases p) simp
  have "LF \<notin> set (line_buffer p)" using assms(3) by simp
  from line_steps_open [OF assms(1,2) this] show ?thesis
  proof (elim disjE conjE)
    assume "line_steps p l = ([], p\<lparr>line_buffer := line_buffer p @ l\<rparr>)"
    then show ?thesis using assms buf by (auto simp: line_steps_append line_step_def split: prod.split)
  next
    assume t: "line_steps p l = (text_events (active_line_tag p) (line_buffer p @ l), p\<lparr>line_buffer := [], detect_tag := False\<rparr>)"
      and a: "\<forall>m. line_events (line_specs p) (active_line_tag p) (line_buffer p @ l @ m) =
        (text_events (active_line_tag p) (line_buffer p @ l @ m), active_line_tag p)"
    then show ?thesis
      using assms a [rule_format, of "[LF]"] by (cases p) (auto simp: line_steps_append line_step_def)
  qed
qed

lemma block_events_correct:
  assumes "detect_tag p" "line_buffer p = []"
  shows "fst (line_steps p t) @ segs_events (fst (tagged_finish (snd (line_steps p t)))) =
     block_events (line_specs p) (active_line_tag p) (lines_incl t)"
  using assms
proof (induction "length t" arbitrary: t p rule: less_induct)
  case less
  show ?case
  proof (cases "LF \<in> set t")
    case True
    then obtain l r where t: "t = l @ LF # r" "LF \<notin> set l" by (meson split_list_first)
    obtain es a where e: "line_events (line_specs p) (active_line_tag p) (l @ [LF]) = (es, a)" by force
    let ?q = "p\<lparr>active_line_tag := a\<rparr>"
    have "t = (l @ [LF]) @ r" using t by simp
    then have "line_steps p t = (es @ fst (line_steps ?q r), snd (line_steps ?q r))"
      using line_steps_line [OF t(2) less.prems] e by (simp only: line_steps_append) (simp split: prod.split)
    then show ?thesis using less.hyps [of r ?q] less.prems t e lines_incl_line by simp
  next
    case False
    obtain segs q where f: "tagged_finish (snd (line_steps p t)) = (segs, q)" by force
    have "LF \<notin> set (line_buffer p)" using less.prems(2) by simp
    from line_steps_open [OF False less.prems(1) this] show ?thesis
    proof (elim disjE conjE)
      assume "line_steps p t = ([], p\<lparr>line_buffer := line_buffer p @ t\<rparr>)"
      then show ?thesis
        using tagged_finish_events [OF f] f less.prems lines_incl_last [OF False]
        by (cases "t = []") (auto split: prod.split)
    next
      assume s: "line_steps p t = (text_events (active_line_tag p) (line_buffer p @ t), p\<lparr>line_buffer := [], detect_tag := False\<rparr>)"
        and a: "\<forall>m. line_events (line_specs p) (active_line_tag p) (line_buffer p @ t @ m) =
          (text_events (active_line_tag p) (line_buffer p @ t @ m), active_line_tag p)"
      then show ?thesis
        using tagged_finish_events [OF f] f less.prems lines_incl_last [OF False] a [rule_format, of "[]"]
        by (cases "t = []") auto
    qed
  qed
qed

section \<open>Proposed plans\<close>

fun plan_segment_events :: "proposed_plan_segment \<Rightarrow> plan_tag line_event list" where
  "plan_segment_events (PlanNormal t) = text_events None t"
| "plan_segment_events ProposedPlanStart = [Start ProposedPlan]"
| "plan_segment_events (ProposedPlanDelta t) = text_events (Some ProposedPlan) t"
| "plan_segment_events ProposedPlanEnd = [Stop ProposedPlan]"

definition plan_events :: "proposed_plan_segment list \<Rightarrow> plan_tag line_event list" where
  "plan_events segs = concat (map plan_segment_events segs)"

text \<open>The text outside the blocks.\<close>

definition plain_text :: "'tag line_event list \<Rightarrow> ustr" where
  "plain_text es = concat (map (\<lambda>e. case e of Plain c \<Rightarrow> [c] | _ \<Rightarrow> []) es)"

lemma plain_text_simps [simp]:
  "plain_text [] = []" "plain_text (xs @ ys) = plain_text xs @ plain_text ys"
  "plain_text (text_events None t) = t" "plain_text (text_events (Some g) t) = []"
  by (simp_all add: plain_text_def text_events_def o_def)

lemma map_segments_eq: "map_segments segs = \<lparr>visible_text = concat (map (normal_text \<circ> plan_segment) segs), extracted = map plan_segment segs\<rparr>"
proof -
  have "fold (\<lambda>seg out. let mapped = plan_segment seg
            in \<lparr>visible_text = visible_text out @ normal_text mapped, extracted = extracted out @ [mapped]\<rparr>) segs c =
      \<lparr>visible_text = visible_text c @ concat (map (normal_text \<circ> plan_segment) segs), extracted = extracted c @ map plan_segment segs\<rparr>" for c
    by (induction segs arbitrary: c) (auto simp: Let_def)
  then show ?thesis by (simp add: map_segments_def)
qed

lemma plan_segment_events_eq: "plan_segment_events (plan_segment s) = seg_events s"
  by (cases s rule: plan_segment.cases) simp_all

lemma map_segments_events [simp]:
  "plan_events (extracted (map_segments segs)) = segs_events segs"
  "visible_text (map_segments segs) = plain_text (segs_events segs)"
proof -
  show "plan_events (extracted (map_segments segs)) = segs_events segs"
    by (simp add: map_segments_eq plan_events_def segs_events_def plan_segment_events_eq o_def)
  have "normal_text (plan_segment s) = plain_text (seg_events s)" for s
    by (cases s rule: plan_segment.cases) (simp_all add: normal_text_def, simp_all add: plain_text_def)
  then show "visible_text (map_segments segs) = plain_text (segs_events segs)"
    by (induction segs) (simp_all add: map_segments_eq)
qed

interpretation plan: text_parser plan_push_str plan_finish "\<lambda>_. True" plan_events
proof unfold_locales
  fix p a b c q d r o' r'
  assume "plan_push_str p a = (c, q)" "plan_push_str q b = (d, r)" "plan_push_str p (a @ b) = (o', r')"
  then obtain s t u where "tagged_parse p a = (s, q)" "tagged_parse q b = (t, r)" "tagged_parse p (a @ b) = (u, r')"
    and [simp]: "c = map_segments s" "d = map_segments t" "o' = map_segments u"
    by (cases "tagged_parse p a"; cases "tagged_parse q b"; cases "tagged_parse p (a @ b)") (auto simp: plan_push_str_def)
  from tagged_parse_append [OF this(1-3)] show
    "visible_text o' = visible_text c @ visible_text d \<and>
      plan_events (extracted o') = plan_events (extracted c) @ plan_events (extracted d) \<and> r' = r"
    by simp
qed (simp_all add: plan_push_str_def tagged_parse_Nil plan_events_def map_segments_def)

definition plan_blocks :: "ustr \<Rightarrow> plan_tag line_event list" where
  "plan_blocks t = block_events (line_specs plan_new) None (lines_incl t)"

lemma plan_feed_all:
  "plan_events (extracted (feed_all plan_push_str plan_finish plan_new chunks)) = plan_blocks (concat chunks)"
  "visible_text (feed_all plan_push_str plan_finish plan_new chunks) = plain_text (plan_blocks (concat chunks))"
proof -
  let ?t = "concat chunks"
  obtain segs q where 1: "tagged_parse plan_new ?t = (segs, q)" by force
  have "segs_events segs @ segs_events (fst (tagged_finish q)) = plan_blocks ?t"
    using block_events_correct [of plan_new ?t] tagged_parse_events [OF 1]
    by (simp add: plan_blocks_def) (simp add: plan_new_def tagged_new_def)
  then have "plan_events (extracted (feed_all plan_push_str plan_finish plan_new [?t])) = plan_blocks ?t"
    "visible_text (feed_all plan_push_str plan_finish plan_new [?t]) = plain_text (plan_blocks ?t)"
    using 1 plan.events_append
    by (auto simp: feed_all_def plan_push_str_def plan_finish_def split: prod.split) (metis plain_text_simps(2))
  then show "plan_events (extracted (feed_all plan_push_str plan_finish plan_new chunks)) = plan_blocks ?t"
    "visible_text (feed_all plan_push_str plan_finish plan_new chunks) = plain_text (plan_blocks ?t)"
    using plan.feed_all_concat [of plan_new chunks] by simp_all
qed

section \<open>Assistant text\<close>

fun assistant_feed :: "assistant_text_parser \<Rightarrow> ustr list \<Rightarrow> assistant_text_chunk list \<times> assistant_text_parser" where
  "assistant_feed p [] = ([], p)"
| "assistant_feed p (c # cs) =
     (let (out, q) = assistant_push_str p c; (rest, r) = assistant_feed q cs in (out # rest, r))"

definition assistant_feed_all :: "assistant_text_parser \<Rightarrow> ustr list \<Rightarrow> assistant_text_chunk list" where
  "assistant_feed_all p chunks = (let (outs, q) = assistant_feed p chunks in outs @ [fst (assistant_finish q)])"

lemma assistant_feed_stages:
  assumes "assistant_feed p chunks = (outs, p')" "feed citation_push_str (at_citation_parser p) chunks = (c, q)"
  shows "\<exists>vs. concat vs = visible_text c \<and> concat (map at_citations outs) = extracted c \<and>
    (if plan_mode p then
       (case feed plan_push_str (at_plan_parser p) vs of (d, r) \<Rightarrow>
          concat (map at_visible outs) = visible_text d \<and> concat (map at_plan_segments outs) = extracted d \<and>
          p' = p\<lparr>at_citation_parser := q, at_plan_parser := r\<rparr>)
     else concat (map at_visible outs) = visible_text c \<and> concat (map at_plan_segments outs) = [] \<and>
          p' = p\<lparr>at_citation_parser := q\<rparr>)"
  using assms
proof (induction chunks arbitrary: p outs p' c q)
  case Nil
  then show ?case by (cases p) (auto intro: exI [of _ "[]"])
next
  case (Cons x xs)
  obtain c1 q1 where 1: "citation_push_str (at_citation_parser p) x = (c1, q1)" by force
  obtain o1 p1 where 2: "assistant_push_str p x = (o1, p1)" by force
  obtain c2 q2 where 3: "feed citation_push_str q1 xs = (c2, q2)" by force
  obtain os p2 where 4: "assistant_feed p1 xs = (os, p2)" by force
  have eqs: "outs = o1 # os" "p' = p2" "c = chunk_append c1 c2" "q = q2" using Cons.prems 1 2 3 4 by auto
  show ?case
  proof (cases "plan_mode p")
    case False
    then have o1: "at_visible o1 = visible_text c1" "at_citations o1 = extracted c1" "at_plan_segments o1 = []"
      "p1 = p\<lparr>at_citation_parser := q1\<rparr>"
      using 1 2 by (auto simp: assistant_push_str_def parse_visible_text_def)
    then obtain vs where "concat vs = visible_text c2" using Cons.IH [OF 4, of c2 q2] 3 by auto
    then show ?thesis
      using Cons.IH [OF 4, of c2 q2] 3 eqs o1 False by (intro exI [of _ "visible_text c1 # vs"]) auto
  next
    case True
    obtain d1 r1 where 5: "plan_push_str (at_plan_parser p) (visible_text c1) = (d1, r1)" by force
    have o1: "at_visible o1 = visible_text d1" "at_citations o1 = extracted c1" "at_plan_segments o1 = extracted d1"
      "p1 = p\<lparr>at_citation_parser := q1, at_plan_parser := r1\<rparr>"
      using 1 2 5 True by (auto simp: assistant_push_str_def parse_visible_text_def)
    then obtain vs where "concat vs = visible_text c2" "concat (map at_citations os) = extracted c2"
      "case feed plan_push_str r1 vs of (d, r) \<Rightarrow>
          concat (map at_visible os) = visible_text d \<and> concat (map at_plan_segments os) = extracted d \<and>
          p2 = p1\<lparr>at_citation_parser := q2, at_plan_parser := r\<rparr>"
      using Cons.IH [OF 4, of c2 q2] 3 True by auto
    then show ?thesis
      using 5 eqs o1 True by (intro exI [of _ "visible_text c1 # vs"]) (auto split: prod.splits)
  qed
qed

lemma plan_feed_snoc:
  "feed plan_push_str p (vs @ [v]) =
     (case feed plan_push_str p vs of (d, r) \<Rightarrow> case plan_push_str r v of (e, s) \<Rightarrow> (chunk_append d e, s))"
  by (induction vs arbitrary: p) (auto simp: chunk_append_assoc split: prod.split)

text \<open>
  C23: The two stages of the assistant parser compose. However the text is cut into chunks, the citations are those of the whole text;
  without plan mode what is shown is the text without citations; in plan mode
  what is shown is that text without its plan blocks, and the plan segments are the blocks of that text, read line by line.
\<close>

theorem assistant_stream_correct:
  "let outs = assistant_feed_all (assistant_new mode) chunks; whole = citations_of (concat chunks)
   in concat (map at_citations outs) = extracted whole \<and>
      concat (map at_visible outs) =
        (if mode then plain_text (plan_blocks (visible_text whole)) else visible_text whole) \<and>
      plan_events (concat (map at_plan_segments outs)) = (if mode then plan_blocks (visible_text whole) else [])"
proof -
  let ?p = "assistant_new mode"
  obtain outs p' where 1: "assistant_feed ?p chunks = (outs, p')" by force
  obtain c q where 2: "feed citation_push_str citation_new chunks = (c, q)" by force
  obtain t q' where 3: "citation_finish q = (t, q')" by force
  have whole: "citations_of (concat chunks) = chunk_append c t"
    using citation_feed_whole [of chunks] 2 3 by (simp add: feed_all_def)
  obtain vs where vs: "concat vs = visible_text c" "concat (map at_citations outs) = extracted c"
    "if mode then
       (case feed plan_push_str plan_new vs of (d, r) \<Rightarrow>
          concat (map at_visible outs) = visible_text d \<and> concat (map at_plan_segments outs) = extracted d \<and>
          p' = ?p\<lparr>at_citation_parser := q, at_plan_parser := r\<rparr>)
     else concat (map at_visible outs) = visible_text c \<and> concat (map at_plan_segments outs) = [] \<and>
          p' = ?p\<lparr>at_citation_parser := q\<rparr>"
  proof -
    have p: "at_citation_parser ?p = citation_new" "at_plan_parser ?p = plan_new" "plan_mode ?p = mode"
      by (simp_all add: assistant_new_def)
    show thesis using assistant_feed_stages [OF 1, of c q, unfolded p] 2 that by blast
  qed
  show ?thesis
  proof (cases mode)
    case False
    then show ?thesis
      using 1 3 vs whole by (auto simp: assistant_feed_all_def assistant_finish_def parse_visible_text_def assistant_new_def plan_events_def)
  next
    case True
    obtain d r where d: "feed plan_push_str plan_new vs = (d, r)" by force
    obtain e s where e: "plan_push_str r (visible_text t) = (e, s)" by force
    obtain u s' where u: "plan_finish s = (u, s')" by force
    have all: "feed_all plan_push_str plan_finish plan_new (vs @ [visible_text t]) = chunk_append (chunk_append d e) u"
      using d e u by (simp add: feed_all_def plan_feed_snoc)
    have outs: "concat (map at_visible outs) = visible_text d" "concat (map at_plan_segments outs) = extracted d"
      "p' = ?p\<lparr>at_citation_parser := q, at_plan_parser := r\<rparr>" using vs(3) d True by auto
    have f: "at_visible (fst (assistant_finish p')) = visible_text e @ visible_text u"
      "at_plan_segments (fst (assistant_finish p')) = extracted e @ extracted u" "at_citations (fst (assistant_finish p')) = extracted t"
      using 3 e u True unfolding outs(3)
      by (auto simp: assistant_finish_def parse_visible_text_def assistant_new_def chunk_is_empty_def)
    show ?thesis
      using 1 vs(1,2) whole outs f True plan_feed_all [of "vs @ [visible_text t]"] all by (simp add: assistant_feed_all_def)
  qed
qed

end
