(* ===== verification/Utf8_Stream_Correct.thy ===== *)
theory Utf8_Stream_Correct
  imports Utf8_Stream Tagged_Lines_Correct
begin

text \<open>
  The byte-level wrapper over any text parser: bytes that encode a text give what the parser gives
  for the text, wherever the bytes are cut, and bytes are refused, without a trace in the
  parser, only if no text begins with them.
\<close>

section \<open>Encoding\<close>

definition scalar :: "uchar \<Rightarrow> bool" where
  "scalar c \<longleftrightarrow> 0 \<le> c \<and> c < 0x110000 \<and> \<not> (0xD800 \<le> c \<and> c < 0xE000)"

definition encode_char :: "uchar \<Rightarrow> int list" where
  "encode_char c =
     (if c < 0x80 then [c]
      else if c < 0x800 then [0xC0 + c div 64, 0x80 + c mod 64]
      else if c < 0x10000 then [0xE0 + c div 4096, 0x80 + c div 64 mod 64, 0x80 + c mod 64]
      else [0xF0 + c div 262144, 0x80 + c div 4096 mod 64, 0x80 + c div 64 mod 64, 0x80 + c mod 64])"

definition encode :: "ustr \<Rightarrow> int list" where
  "encode t = concat (map encode_char t)"

lemma encode_simps [simp]: "encode [] = []" "encode (c # t) = encode_char c @ encode t" "encode (s @ t) = encode s @ encode t"
  by (simp_all add: encode_def)

lemma encode_char_not_Nil [simp]: "encode_char c \<noteq> []"
  by (simp add: encode_char_def)

lemma encode_Nil_iff [simp]: "encode t = [] \<longleftrightarrow> t = []"
  by (cases t) simp_all

lemma digits:
  fixes c :: int
  shows "c = 64 * (c div 64) + c mod 64" "c div 64 = 64 * (c div 4096) + c div 64 mod 64"
    "c div 4096 = 64 * (c div 262144) + c div 4096 mod 64"
    "0 \<le> c mod 64 \<and> c mod 64 < 64" "0 \<le> c div 64 mod 64 \<and> c div 64 mod 64 < 64"
    "0 \<le> c div 4096 mod 64 \<and> c div 4096 mod 64 < 64"
proof -
  have "c div 4096 = c div 64 div 64" "c div 262144 = c div 4096 div 64"
    using zdiv_zmult2_eq [of 64 c 64] zdiv_zmult2_eq [of 64 c 4096] by simp_all
  then show "c = 64 * (c div 64) + c mod 64" "c div 64 = 64 * (c div 4096) + c div 64 mod 64"
    "c div 4096 = 64 * (c div 262144) + c div 4096 mod 64"
    by simp_all
qed simp_all

lemma utf8_next_bytes:
  "2 \<le> h \<Longrightarrow> h \<le> 31 \<Longrightarrow> 0 \<le> l \<Longrightarrow> l \<le> 63 \<Longrightarrow> utf8_next ((0xC0 + h) # (0x80 + l) # r) = Scalar (h * 64 + l) r"
  "0 \<le> h \<Longrightarrow> h \<le> 15 \<Longrightarrow> second_of_three (0xE0 + h) (0x80 + m) \<Longrightarrow> 0 \<le> l \<Longrightarrow> l \<le> 63 \<Longrightarrow>
     utf8_next ((0xE0 + h) # (0x80 + m) # (0x80 + l) # r) = Scalar (h * 4096 + m * 64 + l) r"
  "0 \<le> h \<Longrightarrow> h \<le> 4 \<Longrightarrow> second_of_four (0xF0 + h) (0x80 + k) \<Longrightarrow> 0 \<le> m \<Longrightarrow> m \<le> 63 \<Longrightarrow> 0 \<le> l \<Longrightarrow> l \<le> 63 \<Longrightarrow>
     utf8_next ((0xF0 + h) # (0x80 + k) # (0x80 + m) # (0x80 + l) # r) = Scalar (h * 262144 + k * 4096 + m * 64 + l) r"
  by (simp_all add: continuation_def)

lemma second_of_three_digits:
  assumes "c = 4096 * h + 64 * m + l" "0 \<le> m" "m < 64" "0 \<le> l" "l < 64" "0x800 \<le> c" "c < 0x10000" "\<not> (0xD800 \<le> c \<and> c < 0xE000)"
  shows "second_of_three (0xE0 + h) (0x80 + m)"
proof -
  have "0 \<le> h" "h \<le> 15" using assms by linarith+
  then consider "h = 0" | "1 \<le> h" "h \<le> 12" | "h = 13" | "14 \<le> h" "h \<le> 15" by linarith
  then show ?thesis
  proof cases
    case 1
    then have "32 \<le> m" using assms by linarith
    then show ?thesis using 1 assms(3) by (simp add: second_of_three_def)
  next
    case 3
    then have "m < 32" using assms by linarith
    then show ?thesis using 3 assms(2) by (simp add: second_of_three_def)
  qed (use assms(2,3) in \<open>simp_all add: second_of_three_def continuation_def\<close>)
qed

lemma second_of_four_digits:
  assumes "c = 262144 * h + 4096 * k + 64 * m + l" "0 \<le> k" "k < 64" "0 \<le> m" "m < 64" "0 \<le> l" "l < 64" "0x10000 \<le> c" "c < 0x110000"
  shows "second_of_four (0xF0 + h) (0x80 + k)"
proof -
  have "0 \<le> h" "h \<le> 4" using assms by linarith+
  then consider "h = 0" | "1 \<le> h" "h \<le> 3" | "h = 4" by linarith
  then show ?thesis
  proof cases
    case 1
    then have "16 \<le> k" using assms by linarith
    then show ?thesis using 1 assms(3) by (simp add: second_of_four_def)
  next
    case 3
    then have "k < 16" using assms by linarith
    then show ?thesis using 3 assms(2) by (simp add: second_of_four_def)
  qed (use assms(2,3) in \<open>simp_all add: second_of_four_def continuation_def\<close>)
qed

lemma utf8_next_encode:
  assumes "scalar c"
  shows "utf8_next (encode_char c @ r) = Scalar c r"
proof -
  note d = digits [of c]
  have low: "0 \<le> c mod 64" "c mod 64 \<le> 63" "0 \<le> c div 64 mod 64" "c div 64 mod 64 \<le> 63" using d(4,5) by linarith+
  consider "c < 0x80" | "0x80 \<le> c" "c < 0x800" | "0x800 \<le> c" "c < 0x10000" | "0x10000 \<le> c" by linarith
  then show ?thesis
  proof cases
    case 1
    then show ?thesis by (simp add: encode_char_def)
  next
    case 2
    have h: "2 \<le> c div 64" "c div 64 \<le> 31" using 2 d(1,4) by linarith+
    have "encode_char c @ r = (0xC0 + c div 64) # (0x80 + c mod 64) # r" using 2 by (simp add: encode_char_def)
    moreover have "c div 64 * 64 + c mod 64 = c" using d(1) by linarith
    ultimately show ?thesis using utf8_next_bytes(1) [OF h low(1,2)] by metis
  next
    case 3
    have h: "0 \<le> c div 4096" "c div 4096 \<le> 15" using 3 d by linarith+
    have s: "second_of_three (0xE0 + c div 4096) (0x80 + c div 64 mod 64)"
    proof (rule second_of_three_digits)
      show "c = 4096 * (c div 4096) + 64 * (c div 64 mod 64) + c mod 64" using d(1,2) by linarith
    qed (use 3 d(4,5) assms in \<open>simp_all add: scalar_def\<close>)
    have "encode_char c @ r = (0xE0 + c div 4096) # (0x80 + c div 64 mod 64) # (0x80 + c mod 64) # r"
      using 3 by (simp add: encode_char_def)
    moreover have "c div 4096 * 4096 + c div 64 mod 64 * 64 + c mod 64 = c" using d(1,2) by linarith
    ultimately show ?thesis using utf8_next_bytes(2) [OF h s low(1,2)] by metis
  next
    case 4
    have h: "0 \<le> c div 262144" "c div 262144 \<le> 4" using 4 d assms unfolding scalar_def by linarith+
    have s: "second_of_four (0xF0 + c div 262144) (0x80 + c div 4096 mod 64)"
    proof (rule second_of_four_digits)
      show "c = 262144 * (c div 262144) + 4096 * (c div 4096 mod 64) + 64 * (c div 64 mod 64) + c mod 64" using d(1-3) by linarith
    qed (use 4 d(4-6) assms in \<open>simp_all add: scalar_def\<close>)
    have "encode_char c @ r = (0xF0 + c div 262144) # (0x80 + c div 4096 mod 64) # (0x80 + c div 64 mod 64) # (0x80 + c mod 64) # r"
      using 4 by (simp add: encode_char_def)
    moreover have "c div 262144 * 262144 + c div 4096 mod 64 * 4096 + c div 64 mod 64 * 64 + c mod 64 = c" using d(1-3) by linarith
    ultimately show ?thesis using utf8_next_bytes(3) [OF h s low(3,4,1,2)] by metis
  qed
qed

text \<open>The bytes of a code point that has not arrived in full.\<close>

definition partial_char :: "int list \<Rightarrow> bool" where
  "partial_char bs \<longleftrightarrow> bs \<noteq> [] \<and> (\<exists>c u. scalar c \<and> u \<noteq> [] \<and> encode_char c = bs @ u)"

lemma utf8_next_prefix: "utf8_next (bs @ u) = Scalar c [] \<Longrightarrow> u \<noteq> [] \<Longrightarrow> utf8_next bs = Truncated"
  by (cases bs rule: utf8_next.cases) (auto split: if_splits list.splits simp: Cons_eq_append_conv)

lemma utf8_next_partial: "partial_char bs \<Longrightarrow> utf8_next bs = Truncated"
  unfolding partial_char_def using utf8_next_prefix utf8_next_encode [of _ "[]"] by fastforce

lemma utf8_scan_encode:
  assumes "list_all scalar t" "tail = [] \<or> partial_char tail"
  shows "utf8_scan (encode t @ tail) = (t, length (encode t), if tail = [] then None else Some None)"
  using assms(1)
proof (induction t)
  case Nil
  then show ?case using assms(2) utf8_next_partial by (subst utf8_scan.simps) auto
next
  case (Cons c t)
  then show ?case
    using utf8_next_encode [of c "encode t @ tail"] by (subst utf8_scan.simps) simp
qed

lemma from_utf8_encode:
  assumes "list_all scalar t" "tail = [] \<or> partial_char tail"
  shows "from_utf8 (encode t @ tail) = (if tail = [] then Ok t else Err \<lparr>valid_up_to = length (encode t), error_len = None\<rparr>)"
  using utf8_scan_encode [OF assms] by (simp add: from_utf8_def)

lemma encode_prefix:
  assumes "bs @ rest = encode t" "list_all scalar t"
  obtains s u tail where "t = s @ u" "bs = encode s @ tail" "tail @ rest = encode u" "tail = [] \<or> partial_char tail"
  using assms
proof (induction t arbitrary: bs thesis)
  case Nil
  then show ?case by simp
next
  case (Cons c t)
  from Cons.prems(2) consider us where "bs = encode_char c @ us" "us @ rest = encode t"
    | us where "encode_char c = bs @ us" "rest = us @ encode t"
    by (auto simp: append_eq_append_conv2) metis+
  then show ?case
  proof cases
    case (1 us)
    from Cons.IH [OF _ 1(2)] Cons.prems(3) obtain s u tail where
      "t = s @ u" "us = encode s @ tail" "tail @ rest = encode u" "tail = [] \<or> partial_char tail" by auto
    then show ?thesis using Cons.prems(1) [of "c # s" u tail] 1 by simp
  next
    case (2 us)
    show ?thesis
    proof (cases "us = []")
      case True
      then show ?thesis using Cons.prems(1) [of "[c]" t "[]"] 2 by simp
    next
      case False
      have "bs = [] \<or> partial_char bs" using 2 False Cons.prems(3) by (auto simp: partial_char_def)
      then show ?thesis using Cons.prems(1) [of "[]" "c # t" bs] 2 by auto
    qed
  qed
qed

lemma partial_not_encode: "partial_char (encode t) \<Longrightarrow> list_all scalar t \<Longrightarrow> t = []"
  using utf8_next_partial [of "encode t"] utf8_next_encode by (cases t) auto

section \<open>The wrapper\<close>

fun feed_bytes ::
  "('p \<Rightarrow> ustr \<Rightarrow> 'x stream_text_chunk \<times> 'p) \<Rightarrow> 'p utf8_stream_parser \<Rightarrow> int list list \<Rightarrow>
     (utf8_stream_error, 'x stream_text_chunk) result \<times> 'p utf8_stream_parser" where
  "feed_bytes push p [] = (Ok empty_chunk, p)"
| "feed_bytes push p (c # cs) = (case push_bytes push p c of
       (Inl e, q) \<Rightarrow> (Err e, q)
     | (Inr out, q) \<Rightarrow> (case feed_bytes push q cs of
         (Inl e, r) \<Rightarrow> (Err e, r)
       | (Inr rest, r) \<Rightarrow> (Ok (chunk_append out rest), r)))"

definition feed_bytes_all ::
  "('p \<Rightarrow> ustr \<Rightarrow> 'x stream_text_chunk \<times> 'p) \<Rightarrow> ('p \<Rightarrow> 'x stream_text_chunk \<times> 'p) \<Rightarrow> 'p utf8_stream_parser \<Rightarrow>
     int list list \<Rightarrow> (utf8_stream_error, 'x stream_text_chunk) result" where
  "feed_bytes_all push finish p chunks = (case feed_bytes push p chunks of
       (Inl e, q) \<Rightarrow> Err e
     | (Inr out, q) \<Rightarrow> and_then (fst (utf8_finish push finish q)) (\<lambda>tail. Ok (chunk_append out tail)))"

context text_parser
begin

lemma push_bytes_prefix:
  assumes "list_all scalar s" "tail = [] \<or> partial_char tail" "pending_utf8 p @ chunk = encode s @ tail" "reached (utf8_inner p)"
  shows "push_bytes push p chunk = (case push (utf8_inner p) s of
     (out, q) \<Rightarrow> (Ok out, p\<lparr>utf8_inner := q, pending_utf8 := tail\<rparr>))"
proof (cases "tail = []")
  case True
  then show ?thesis using from_utf8_encode [OF assms(1,2)] assms(3) by (simp add: push_bytes_def Let_def)
next
  case False
  then have e: "from_utf8 (pending_utf8 p @ chunk) = Err \<lparr>valid_up_to = length (encode s), error_len = None\<rparr>"
    using from_utf8_encode [OF assms(1,2)] assms(3) by simp
  show ?thesis
  proof (cases "s = []")
    case True
    then show ?thesis using e assms(3) push_Nil [OF assms(4)] by (cases p) (simp add: push_bytes_def Let_def)
  next
    case s: False
    have "from_utf8 (take (length (encode s)) (pending_utf8 p @ chunk)) = Ok s"
      using from_utf8_encode [OF assms(1), of "[]"] assms(3) by simp
    then show ?thesis using e assms(3) s by (simp add: push_bytes_def Let_def)
  qed
qed

lemma feed_bytes_encode:
  assumes "list_all scalar t" "pending_utf8 p @ concat chunks = encode t" "reached (utf8_inner p)"
    "pending_utf8 p = [] \<or> partial_char (pending_utf8 p)"
  shows "\<exists>ts. concat ts = t \<and> feed_bytes push p chunks = (case feed push (utf8_inner p) ts of
     (out, q) \<Rightarrow> (Ok out, p\<lparr>utf8_inner := q, pending_utf8 := []\<rparr>))"
  using assms
proof (induction chunks arbitrary: p t)
  case Nil
  then have "t = []" using partial_not_encode by force
  then show ?case using Nil by (intro exI [of _ "[]"]) (cases p, simp)
next
  case (Cons b bs)
  from Cons.prems(2) have "(pending_utf8 p @ b) @ concat bs = encode t" by simp
  from encode_prefix [OF this Cons.prems(1)] obtain s u tail where
    su: "t = s @ u" "pending_utf8 p @ b = encode s @ tail" "tail @ concat bs = encode u" "tail = [] \<or> partial_char tail" by metis
  obtain c q where c: "push (utf8_inner p) s = (c, q)" by force
  let ?q = "p\<lparr>utf8_inner := q, pending_utf8 := tail\<rparr>"
  have push: "push_bytes push p b = (Ok c, ?q)"
    using push_bytes_prefix [OF _ su(4,2) Cons.prems(3)] Cons.prems(1) su(1) c by simp
  have "reached q" using reached_push [OF Cons.prems(3), of s] c by simp
  then obtain ts where ts: "concat ts = u"
    "feed_bytes push ?q bs = (case feed push q ts of (out, q') \<Rightarrow> (Ok out, ?q\<lparr>utf8_inner := q', pending_utf8 := []\<rparr>))"
    using Cons.IH [of u ?q] Cons.prems(1) su by auto
  then show ?case using push c su(1) by (intro exI [of _ "s # ts"]) (auto split: prod.split)
qed

lemma feed_bytes_all_encode:
  assumes "list_all scalar t" "concat chunks = encode t" "reached p"
  shows "\<exists>ts. concat ts = t \<and> feed_bytes_all push finish (utf8_new p) chunks = Ok (feed_all push finish p ts)"
proof -
  obtain ts where "concat ts = t" "feed_bytes push (utf8_new p) chunks = (case feed push p ts of
     (out, q) \<Rightarrow> (Ok out, utf8_new q))"
    using feed_bytes_encode [of t "utf8_new p" chunks] assms by (auto simp: utf8_new_def)
  then show ?thesis
    by (intro exI [of _ ts]) (auto simp: feed_bytes_all_def feed_all_def utf8_finish_def utf8_new_def split: prod.split)
qed

lemma push_bytes_Err:
  assumes "push_bytes push p chunk = (Err e, q)" "reached (utf8_inner p)"
  shows "q = p \<and> (\<forall>t rest. list_all scalar t \<longrightarrow> pending_utf8 p @ chunk @ rest \<noteq> encode t)"
proof
  show "q = p" using assms(1) by (cases p) (auto simp: push_bytes_def Let_def split: sum.splits option.splits prod.splits if_splits)
  show "\<forall>t rest. list_all scalar t \<longrightarrow> pending_utf8 p @ chunk @ rest \<noteq> encode t"
  proof (intro allI impI notI)
    fix t rest
    assume t: "list_all scalar t" "pending_utf8 p @ chunk @ rest = encode t"
    then obtain s u tail where "t = s @ u" "pending_utf8 p @ chunk = encode s @ tail" "tail = [] \<or> partial_char tail"
      using encode_prefix [of "pending_utf8 p @ chunk" rest t] by (metis append.assoc)
    then show False using push_bytes_prefix [of s tail p chunk] t(1) assms by (auto split: prod.splits)
  qed
qed

end

section \<open>Citations from bytes\<close>

text \<open>
  C25: Bytes may be cut anywhere, also inside a code point: if the chunks together are the UTF-8
  encoding of a text, every push succeeds and what the wrapped citation parser returns is what the
  whole text stands for.
\<close>

theorem utf8_stream_correct:
  assumes "list_all scalar t" "concat chunks = encode t"
  shows "feed_bytes_all citation_push_str citation_finish (utf8_new citation_new) chunks = Ok (citations_of t)"
  using citation.feed_bytes_all_encode [OF assms citation_new_reached] citation_feed_whole by auto

text \<open>The chunks cut the second and the third character.\<close>

theorem utf8_stream_correct_witness:
  "feed_bytes_all citation_push_str citation_finish (utf8_new citation_new)
     [[65, 0xC3], 0xA9 # lit ''<oai-mem-citation>'' @ [0xE4], [0xB8, 0xAD] @ lit ''</oai-mem-citation>'' @ [90]] =
   Ok (citations_of ([65, 0xE9] @ lit ''<oai-mem-citation>'' @ [0x4E2D] @ lit ''</oai-mem-citation>'' @ [90]))"
  by (rule utf8_stream_correct) code_simp+

text \<open>
  C26: A push that is refused leaves no trace: the parser is as it was, so that a caller can go on,
  and it is refused only if no text has an encoding that begins with the bytes that are pending and the
  bytes that were pushed.
\<close>

theorem utf8_error_rolls_back:
  assumes "push_bytes citation_push_str p chunk = (Err e, q)" "inline_reached (utf8_inner p)"
  shows "q = p \<and> (\<forall>t rest. list_all scalar t \<longrightarrow> pending_utf8 p @ chunk @ rest \<noteq> encode t)"
  by (rule citation.push_bytes_Err [OF assms])

theorem utf8_error_rolls_back_witness:
  "push_bytes citation_push_str (utf8_new citation_new) [97, 0xE2, 0x28] = (Err (InvalidUtf8 1 1), utf8_new citation_new) \<and>
     pending_utf8 (utf8_new citation_new) @ [97, 0xE2, 0x28] @ [0x28] \<noteq> encode [97, 0x2028]"
proof (rule conjI)
  show push: "push_bytes citation_push_str (utf8_new citation_new) [97, 0xE2, 0x28] = (Err (InvalidUtf8 1 1), utf8_new citation_new)"
    by code_simp
  have "inline_reached (utf8_inner (utf8_new citation_new))" using citation_new_reached by (simp add: utf8_new_def)
  moreover have "list_all scalar [97, 0x2028]" by code_simp
  ultimately show "pending_utf8 (utf8_new citation_new) @ [97, 0xE2, 0x28] @ [0x28] \<noteq> encode [97, 0x2028]"
    using utf8_error_rolls_back [OF push] by blast
qed

end
