(* ===== verification/Compaction.thy ===== *)
theory Compaction
  imports Context_Correct Stream_Parser
begin

text \<open>
  Compaction of a conversation (\<open>core/src/compact.rs\<close>): which items of the history are messages of
  the user (\<open>core/src/event_mapping.rs\<close>, \<open>core/src/context/contextual_user_message.rs\<close>), the
  loop that asks the model for a summary, the history that replaces the old one, and
  the window it starts (\<open>core/src/state/auto_compact_window.rs\<close>).

  Whether a text is a hook prompt (an XML fragment, read by a third-party parser) and whether it
  carries the markers of a contextual fragment are parameters of the environment. The
  metadata of a message is its turn id, the only field it has.
\<close>

section \<open>User messages\<close>

record event_env = history_env +
  hook_prompt_text :: "ustr \<Rightarrow> bool"
  standard_contextual_text :: "ustr \<Rightarrow> bool"

definition is_contextual_user_fragment :: "event_env \<Rightarrow> content_item \<Rightarrow> bool" where
  "is_contextual_user_fragment env c = (case c of
       InputText t \<Rightarrow> hook_prompt_text env t \<or> standard_contextual_text env t
     | _ \<Rightarrow> False)"

text \<open>The history's notion of a contextual fragment is that of the event mapping.\<close>

definition event_env_ok :: "event_env \<Rightarrow> bool" where
  "event_env_ok env \<longleftrightarrow> contextual_user_fragment env = is_contextual_user_fragment env"

text \<open>\<open>None\<close> when the message is not a hook prompt, else the texts of its fragments.\<close>

fun hook_prompt_fragments :: "event_env \<Rightarrow> content_item list \<Rightarrow> ustr list option" where
  "hook_prompt_fragments env [] = Some []"
| "hook_prompt_fragments env (InputText t # rest) =
     (if hook_prompt_text env t then map_option ((#) t) (hook_prompt_fragments env rest)
      else if standard_contextual_text env t then hook_prompt_fragments env rest
      else None)"
| "hook_prompt_fragments env (c # rest) = None"

definition parse_visible_hook_prompt_message :: "event_env \<Rightarrow> content_item list \<Rightarrow> ustr list option" where
  "parse_visible_hook_prompt_message env content = (case hook_prompt_fragments env content of
       Some fragments \<Rightarrow> if fragments = [] then None else Some fragments
     | None \<Rightarrow> None)"

datatype user_input = UserText ustr | UserImage ustr "image_detail option"

definition IMAGE_OPEN_TAG :: ustr where "IMAGE_OPEN_TAG = lit ''<image>''"
definition IMAGE_CLOSE_TAG :: ustr where "IMAGE_CLOSE_TAG = lit ''</image>''"
definition LOCAL_IMAGE_OPEN_TAG_PREFIX :: ustr where "LOCAL_IMAGE_OPEN_TAG_PREFIX = lit ''<image name=''"

definition is_local_image_open_tag_text :: "ustr \<Rightarrow> bool" where
  "is_local_image_open_tag_text t = (case strip_prefix LOCAL_IMAGE_OPEN_TAG_PREFIX t of
       Some rest \<Rightarrow> ends_with (lit ''>'') rest | None \<Rightarrow> False)"

definition is_image_item :: "content_item list \<Rightarrow> nat \<Rightarrow> bool" where
  "is_image_item message i = (i < length message \<and> (case message ! i of InputImage _ _ \<Rightarrow> True | _ \<Rightarrow> False))"

text \<open>A label around an image: the tag that opens it before the image, or the tag that closes it after.\<close>

definition is_image_label :: "content_item list \<Rightarrow> nat \<Rightarrow> ustr \<Rightarrow> bool" where
  "is_image_label message idx t \<longleftrightarrow>
     (is_local_image_open_tag_text t \<or> t = IMAGE_OPEN_TAG) \<and> is_image_item message (idx + 1) \<or>
     idx > 0 \<and> t = IMAGE_CLOSE_TAG \<and> is_image_item message (idx - 1)"

definition parse_user_content :: "content_item list \<Rightarrow> user_input list" where
  "parse_user_content message = concat (map (\<lambda>idx. case message ! idx of
       InputText t \<Rightarrow> if is_image_label message idx t then [] else [UserText t]
     | InputImage url detail \<Rightarrow> [UserImage url detail]
     | OutputText t \<Rightarrow> []) [0..<length message])"

definition parse_user_message :: "event_env \<Rightarrow> content_item list \<Rightarrow> user_input list option" where
  "parse_user_message env message =
     (if list_ex (contextual_user_fragment env) message then None
      else Some (parse_user_content message))"

definition user_input_message :: "user_input list \<Rightarrow> ustr" where
  "user_input_message content = concat (map (\<lambda>c. case c of UserText t \<Rightarrow> t | UserImage _ _ \<Rightarrow> []) content)"

text \<open>The user message \<open>parse_turn_item\<close> makes of an item, if it makes one.\<close>

definition turn_user_message :: "event_env \<Rightarrow> response_item \<Rightarrow> user_input list option" where
  "turn_user_message env item = (case item of
       Message _ role content _ _ \<Rightarrow>
         if role = lit ''user'' then
           (case parse_visible_hook_prompt_message env content of
              Some _ \<Rightarrow> None
            | None \<Rightarrow> parse_user_message env content)
         else None
     | _ \<Rightarrow> None)"

section \<open>The pure steps\<close>

definition SUMMARY_PREFIX :: ustr where
  "SUMMARY_PREFIX = lit ''Another language model started to solve this problem and produced a summary of its thinking process. You also have access to the state of the tools that were used by that language model. Use this to build on the work that has already been done and avoid duplicating work. Here is the summary produced by the other language model, use the information in this summary to assist with your own analysis:''"

definition COMPACT_USER_MESSAGE_MAX_TOKENS :: nat where "COMPACT_USER_MESSAGE_MAX_TOKENS = 20000"

definition content_items_to_text :: "content_item list \<Rightarrow> ustr option" where
  "content_items_to_text content =
     (let pieces = concat (map (\<lambda>c. case c of
           InputText t \<Rightarrow> if t = [] then [] else [t]
         | OutputText t \<Rightarrow> if t = [] then [] else [t]
         | InputImage _ _ \<Rightarrow> []) content)
      in if pieces = [] then None else Some (join_with [LF] pieces))"

record compacted_user_message =
  cm_message :: ustr
  cm_metadata :: passthrough

definition is_summary_message :: "ustr \<Rightarrow> bool" where
  "is_summary_message message = starts_with (SUMMARY_PREFIX @ [LF]) message"

definition item_metadata :: "response_item \<Rightarrow> passthrough" where
  "item_metadata item = (case item of Message _ _ _ _ md \<Rightarrow> md | _ \<Rightarrow> None)"

definition collect_user_messages :: "event_env \<Rightarrow> response_item list \<Rightarrow> compacted_user_message list" where
  "collect_user_messages env its = List.map_filter (\<lambda>item. case turn_user_message env item of
       Some user \<Rightarrow>
         if is_summary_message (user_input_message user) then None
         else Some \<lparr>cm_message = user_input_message user, cm_metadata = item_metadata item\<rparr>
     | None \<Rightarrow> None) its"

text \<open>
  The scan from the end: the last user message or summary, and the last real user message, at
  which the scan stops. The list is reversed, with the index of its head.
\<close>

fun scan_user_messages :: "event_env \<Rightarrow> response_item list \<Rightarrow> nat option \<Rightarrow> nat option \<times> nat option" where
  "scan_user_messages env [] found = (found, None)"
| "scan_user_messages env (item # rest) found = (case turn_user_message env item of
       None \<Rightarrow> scan_user_messages env rest found
     | Some user \<Rightarrow>
         (let i = length rest; found' = (case found of None \<Rightarrow> Some i | Some j \<Rightarrow> Some j)
          in if \<not> is_summary_message (user_input_message user) then (found', Some i)
             else scan_user_messages env rest found'))"

definition is_compaction_item :: "response_item \<Rightarrow> bool" where
  "is_compaction_item item = (case item of Compaction _ _ _ \<Rightarrow> True | ContextCompaction _ _ _ \<Rightarrow> True | _ \<Rightarrow> False)"

definition insert_initial_context_before_last_real_user_or_summary ::
  "event_env \<Rightarrow> response_item list \<Rightarrow> response_item list \<Rightarrow> response_item list" where
  "insert_initial_context_before_last_real_user_or_summary env compacted_history initial_context =
     (let (last_user_or_summary, last_real_user) = scan_user_messages env (rev compacted_history) None;
          last_compaction = rposition is_compaction_item compacted_history;
          insertion = (case last_real_user of Some i \<Rightarrow> Some i
             | None \<Rightarrow> (case last_user_or_summary of Some i \<Rightarrow> Some i | None \<Rightarrow> last_compaction))
      in case insertion of
           Some i \<Rightarrow> take i compacted_history @ initial_context @ drop i compacted_history
         | None \<Rightarrow> compacted_history @ initial_context)"

text \<open>The loop over the messages from the newest; the result is in that order.\<close>

fun select_messages :: "nat \<Rightarrow> compacted_user_message list \<Rightarrow> compacted_user_message list option" where
  "select_messages remaining [] = Some []"
| "select_messages remaining (message # rest) =
     (if remaining = 0 then Some []
      else
        let tokens = approx_token_count (cm_message message)
        in if tokens \<le> remaining then map_option ((#) message) (select_messages (remaining - tokens) rest)
           else map_option (\<lambda>t. [message\<lparr>cm_message := t\<rparr>]) (truncate_text (cm_message message) (Tokens remaining)))"

definition user_message_item :: "ustr \<Rightarrow> passthrough \<Rightarrow> response_item" where
  "user_message_item t md = Message None (lit ''user'') [InputText t] None md"

definition build_compacted_history_with_limit ::
  "response_item list \<Rightarrow> compacted_user_message list \<Rightarrow> ustr \<Rightarrow> nat \<Rightarrow> response_item list option" where
  "build_compacted_history_with_limit history user_messages summary_text max_tokens =
     map_option (\<lambda>selected.
       history @ map (\<lambda>m. user_message_item (cm_message m) (cm_metadata m)) (rev selected) @
       [user_message_item (if summary_text = [] then lit ''(no summary available)'' else summary_text) None])
     (if max_tokens > 0 then select_messages max_tokens (rev user_messages) else Some [])"

definition build_compacted_history ::
  "response_item list \<Rightarrow> compacted_user_message list \<Rightarrow> ustr \<Rightarrow> response_item list option" where
  "build_compacted_history initial_context user_messages summary_text =
     build_compacted_history_with_limit initial_context user_messages summary_text COMPACT_USER_MESSAGE_MAX_TOKENS"

section \<open>The summary\<close>

definition raw_assistant_output_text_from_item :: "response_item \<Rightarrow> ustr option" where
  "raw_assistant_output_text_from_item item = (case item of
       Message _ role content _ _ \<Rightarrow>
         if role = lit ''assistant'' then Some (concat (map (\<lambda>c. case c of OutputText t \<Rightarrow> t | _ \<Rightarrow> []) content))
         else None
     | _ \<Rightarrow> None)"

definition strip_hidden_assistant_markup :: "ustr \<Rightarrow> bool \<Rightarrow> ustr" where
  "strip_hidden_assistant_markup t mode =
     (let without_citations = fst (strip_citations t)
      in if mode then strip_proposed_plan_blocks without_citations else without_citations)"

definition last_assistant_message_from_item :: "response_item \<Rightarrow> bool \<Rightarrow> ustr option" where
  "last_assistant_message_from_item item mode = (case raw_assistant_output_text_from_item item of
       Some combined \<Rightarrow>
         if combined = [] then None
         else
           let stripped = strip_hidden_assistant_markup combined mode
           in if trim stripped = [] then None else Some stripped
     | None \<Rightarrow> None)"

fun first_some :: "('a \<Rightarrow> 'b option) \<Rightarrow> 'a list \<Rightarrow> 'b option" where
  "first_some f [] = None"
| "first_some f (x # xs) = (case f x of Some y \<Rightarrow> Some y | None \<Rightarrow> first_some f xs)"

definition get_last_assistant_message_from_turn :: "response_item list \<Rightarrow> ustr option" where
  "get_last_assistant_message_from_turn responses =
     first_some (\<lambda>item. last_assistant_message_from_item item False) (rev responses)"

definition set_turn_id_if_missing :: "ustr \<Rightarrow> passthrough \<Rightarrow> passthrough" where
  "set_turn_id_if_missing turn_id md =
     (if turn_id = [] \<or> (case md of Some t \<Rightarrow> t \<noteq> [] | None \<Rightarrow> False) then md else Some turn_id)"

definition set_last_turn_id :: "ustr \<Rightarrow> response_item list \<Rightarrow> response_item list" where
  "set_last_turn_id turn_id its = (case last_opt its of
       Some (Message i r c p md) \<Rightarrow> butlast its @ [Message i r c p (set_turn_id_if_missing turn_id md)]
     | _ \<Rightarrow> its)"

text \<open>
  The history that replaces the old one, and the summary text; the initial context is empty
  unless the compaction happens in the middle of a turn.
\<close>

definition compacted_replacement ::
  "event_env \<Rightarrow> ustr \<Rightarrow> response_item list \<Rightarrow> response_item list \<Rightarrow> (ustr \<times> response_item list) option" where
  "compacted_replacement env turn_id history_items initial_context =
     (let summary_suffix = (case get_last_assistant_message_from_turn history_items of Some s \<Rightarrow> s | None \<Rightarrow> []);
          summary_text = SUMMARY_PREFIX @ [LF] @ summary_suffix
      in case build_compacted_history [] (collect_user_messages env history_items) summary_text of
           None \<Rightarrow> None
         | Some built \<Rightarrow>
             let new_history = set_last_turn_id turn_id built
             in Some (summary_text,
                  if initial_context = [] then new_history
                  else insert_initial_context_before_last_real_user_or_summary env new_history initial_context))"

section \<open>Asking for the summary\<close>

text \<open>The outcome of one stream.\<close>

datatype stream_outcome =
    StreamCompleted
  | StreamInterrupted
  | StreamTurnAborted
  | StreamBudgetExceeded
  | StreamContextWindowExceeded
  | StreamFailed

lemma remove_first_matching_length: "length (remove_first_matching P xs) \<le> length xs"
  by (induction xs) auto

lemma remove_corresponding_length: "length (remove_corresponding_for xs x) \<le> length xs"
  using remove_first_matching_length
  by (cases x) (auto simp: remove_corresponding_for_def split: option.split intro: le_trans)

lemma for_prompt_Nil: "items m = [] \<Longrightarrow> for_prompt env modalities m = []"
  by (simp add: for_prompt_def normalize_history_def normalize_items_def ensure_call_outputs_present_eq remove_orphan_outputs_eq
      strip_images_when_unsupported_def)

lemma remove_first_item_shorter: "items m \<noteq> [] \<Longrightarrow> length (items (remove_first_item m)) < length (items m)"
  using remove_corresponding_length by (cases "items m") (auto simp: remove_first_item_def less_Suc_eq_le)

text \<open>
  The loop of \<open>run_compact_task_inner_impl\<close>. \<open>stream\<close> is the outcome of the \<open>n\<close>-th request for
  its input. The result is the inputs that were sent and the outcome that ended the loop.
\<close>

function compact_attempts ::
  "event_env \<Rightarrow> input_modality list \<Rightarrow> nat \<Rightarrow> (nat \<Rightarrow> response_item list \<Rightarrow> stream_outcome) \<Rightarrow> nat \<Rightarrow> nat \<Rightarrow>
     ('r, 'w) context_manager \<Rightarrow> response_item list list \<times> stream_outcome" where
  "compact_attempts env modalities max_retries stream n retries history =
     (let input = for_prompt (history_env.truncate env) modalities history
      in case stream n input of
           StreamContextWindowExceeded \<Rightarrow>
             if length input > 1 then
               map_prod ((#) input) id
                 (compact_attempts env modalities max_retries stream (Suc n) 0 (remove_first_item history))
             else ([input], StreamContextWindowExceeded)
         | StreamFailed \<Rightarrow>
             if retries < max_retries then
               map_prod ((#) input) id
                 (compact_attempts env modalities max_retries stream (Suc n) (retries + 1) history)
             else ([input], StreamFailed)
         | outcome \<Rightarrow> ([input], outcome))"
  by pat_completeness auto
termination
proof (relation "measures [\<lambda>(_, _, _, _, _, _, m). length (items m), \<lambda>(_, _, max_retries, _, _, retries, _). max_retries - retries]",
    goal_cases)
  case (2 env modalities max_retries stream n retries history x)
  then have "items history \<noteq> []" using for_prompt_Nil [of history "history_env.truncate env" modalities] by auto
  then show ?case using remove_first_item_shorter by auto
qed auto

declare compact_attempts.simps [simp del]

section \<open>The compaction window\<close>

record 'id window_ids =
  first_window_id :: 'id
  previous_window_id :: "'id option"
  window_id :: 'id

datatype window_prefill = ServerObserved int | Estimated int

record 'id auto_compact_window =
  window_number :: nat
  aw_ids :: "'id window_ids"
  new_context_window_requested :: bool
  prefill_input_tokens :: "window_prefill option"
  token_budget_reminder_delivered :: bool

definition new_initial_ids :: "'id \<Rightarrow> 'id window_ids" where
  "new_initial_ids fresh = \<lparr>first_window_id = fresh, previous_window_id = None, window_id = fresh\<rparr>"

definition new_with_ids :: "'id window_ids \<Rightarrow> 'id auto_compact_window" where
  "new_with_ids i = \<lparr>window_number = 0, aw_ids = i, new_context_window_requested = False,
     prefill_input_tokens = None, token_budget_reminder_delivered = False\<rparr>"

definition clear_prefill :: "'id auto_compact_window \<Rightarrow> 'id auto_compact_window" where
  "clear_prefill w = w\<lparr>prefill_input_tokens := None\<rparr>"

definition restore_window :: "nat \<Rightarrow> 'id window_ids \<Rightarrow> 'id auto_compact_window \<Rightarrow> 'id auto_compact_window" where
  "restore_window number i w = w\<lparr>window_number := number, aw_ids := i\<rparr>"

text \<open>\<open>fresh\<close> is the new version-7 UUID.\<close>

definition advance_window :: "'id \<Rightarrow> 'id auto_compact_window \<Rightarrow> (nat \<times> 'id window_ids) \<times> 'id auto_compact_window" where
  "advance_window fresh w =
     (let number = bump_version (window_number w);
          i = (aw_ids w)\<lparr>previous_window_id := Some (window_id (aw_ids w)), window_id := fresh\<rparr>
      in ((number, i), w\<lparr>window_number := number, aw_ids := i, new_context_window_requested := False,
                         token_budget_reminder_delivered := False\<rparr>))"

definition claim_token_budget_reminder :: "'id auto_compact_window \<Rightarrow> bool \<times> 'id auto_compact_window" where
  "claim_token_budget_reminder w =
     (\<not> token_budget_reminder_delivered w, w\<lparr>token_budget_reminder_delivered := True\<rparr>)"

definition request_new_context_window :: "'id auto_compact_window \<Rightarrow> 'id auto_compact_window" where
  "request_new_context_window w = w\<lparr>new_context_window_requested := True\<rparr>"

definition take_new_context_window_request :: "'id auto_compact_window \<Rightarrow> bool \<times> 'id auto_compact_window" where
  "take_new_context_window_request w =
     (new_context_window_requested w, w\<lparr>new_context_window_requested := False\<rparr>)"

definition ensure_server_observed_prefill_from_usage :: "token_usage \<Rightarrow> 'id auto_compact_window \<Rightarrow> 'id auto_compact_window" where
  "ensure_server_observed_prefill_from_usage usage w = (case prefill_input_tokens w of
       Some (ServerObserved _) \<Rightarrow> w
     | _ \<Rightarrow> w\<lparr>prefill_input_tokens := Some (ServerObserved (max (input_tokens usage) 0))\<rparr>)"

definition set_estimated_prefill :: "int \<Rightarrow> 'id auto_compact_window \<Rightarrow> 'id auto_compact_window" where
  "set_estimated_prefill tokens w = (case prefill_input_tokens w of
       Some (ServerObserved _) \<Rightarrow> w
     | _ \<Rightarrow> w\<lparr>prefill_input_tokens := Some (Estimated (max tokens 0))\<rparr>)"

definition window_snapshot :: "'id auto_compact_window \<Rightarrow> int option" where
  "window_snapshot w = (case prefill_input_tokens w of
       Some (ServerObserved t) \<Rightarrow> Some t | Some (Estimated t) \<Rightarrow> Some t | None \<Rightarrow> None)"

end
