(* ===== verification/World_State.thy ===== *)
theory World_State
  imports Anthropic_Wire
begin

text \<open>
  The state the model has been told about: \<open>core/src/context/world_state/mod.rs\<close>, its snapshots
  and the merge patches (RFC 7386) that are persisted between them. The binary is built with
  order-preserving JSON objects whose equality ignores the order; an object is an association list,
  and \<open>json_value\<close> below is what it denotes. Typed sections are the record \<open>world_section\<close>.
\<close>

section \<open>Equality of JSON values\<close>

fun json_eq :: "json \<Rightarrow> json \<Rightarrow> bool" and json_eq_list :: "json list \<Rightarrow> json list \<Rightarrow> bool"
  and json_eq_fields :: "(ustr \<times> json) list \<Rightarrow> (ustr \<times> json) list \<Rightarrow> bool" where
  "json_eq (JObj xs) y = (case y of JObj ys \<Rightarrow> length xs = length ys \<and> json_eq_fields xs ys | _ \<Rightarrow> False)"
| "json_eq (JArr xs) y = (case y of JArr ys \<Rightarrow> json_eq_list xs ys | _ \<Rightarrow> False)"
| "json_eq x y = (x = y)"
| "json_eq_list [] ys = (ys = [])"
| "json_eq_list (x # xs) ys = (case ys of [] \<Rightarrow> False | y # ys' \<Rightarrow> json_eq x y \<and> json_eq_list xs ys')"
| "json_eq_fields [] ys = True"
| "json_eq_fields ((k, x) # xs) ys = ((case map_of ys k of None \<Rightarrow> False | Some y \<Rightarrow> json_eq x y) \<and> json_eq_fields xs ys)"

section \<open>Merge patches\<close>

definition fields_of :: "json \<Rightarrow> (ustr \<times> json) list option" where
  "fields_of v = (case v of JObj kvs \<Rightarrow> Some kvs | _ \<Rightarrow> None)"

definition fields_insert :: "ustr \<Rightarrow> json \<Rightarrow> (ustr \<times> json) list \<Rightarrow> (ustr \<times> json) list" where
  "fields_insert k v kvs =
     (if k \<in> fst ` set kvs then map (\<lambda>(k', v'). if k' = k then (k, v) else (k', v')) kvs else kvs @ [(k, v)])"

definition fields_remove :: "ustr \<Rightarrow> (ustr \<times> json) list \<Rightarrow> (ustr \<times> json) list" where
  "fields_remove k kvs = filter (\<lambda>e. fst e \<noteq> k) kvs"

fun remove_null_object_fields :: "json \<Rightarrow> json" and remove_null_fields :: "(ustr \<times> json) list \<Rightarrow> (ustr \<times> json) list" where
  "remove_null_object_fields (JObj kvs) = JObj (remove_null_fields kvs)"
| "remove_null_object_fields v = v"
| "remove_null_fields [] = []"
| "remove_null_fields ((k, v) # kvs) =
     (if v = JNull then remove_null_fields kvs else (k, remove_null_object_fields v) # remove_null_fields kvs)"

text \<open>The loop over the fields of the current object; the deleted keys come first.\<close>

fun create_merge_patch :: "json \<Rightarrow> json \<Rightarrow> json option"
  and create_field_patches :: "(ustr \<times> json) list option \<Rightarrow> (ustr \<times> json) list \<Rightarrow> (ustr \<times> json) list \<Rightarrow> (ustr \<times> json) list" where
  "create_merge_patch previous (JObj current) =
     (if json_eq previous (JObj current) then None
      else Some (JObj (create_field_patches (fields_of previous) current
        (case fields_of previous of
           None \<Rightarrow> []
         | Some kvs \<Rightarrow> fold (\<lambda>k. fields_insert k JNull) (filter (\<lambda>k. k \<notin> fst ` set current) (map fst kvs)) []))))"
| "create_merge_patch previous current = (if json_eq previous current then None else Some current)"
| "create_field_patches previous [] patch = patch"
| "create_field_patches previous ((k, v) # current) patch = create_field_patches previous current
     (case Option.bind previous (\<lambda>kvs. map_of kvs k) of
        None \<Rightarrow> fields_insert k v patch
      | Some p \<Rightarrow> (case create_merge_patch p v of None \<Rightarrow> patch | Some q \<Rightarrow> fields_insert k q patch))"

fun apply_merge_patch_value :: "json \<Rightarrow> json \<Rightarrow> json"
  and apply_fields :: "(ustr \<times> json) list \<Rightarrow> (ustr \<times> json) list \<Rightarrow> (ustr \<times> json) list" where
  "apply_merge_patch_value target (JObj patch) =
     JObj (apply_fields (case fields_of target of Some kvs \<Rightarrow> kvs | None \<Rightarrow> []) patch)"
| "apply_merge_patch_value target patch = patch"
| "apply_fields target [] = target"
| "apply_fields target ((k, v) # patch) = apply_fields
     (if v = JNull then fields_remove k target
      else fields_insert k (apply_merge_patch_value (case map_of target k of Some t \<Rightarrow> t | None \<Rightarrow> JNull) v) target) patch"

section \<open>Snapshots\<close>

text \<open>\<open>BTreeMap<String, Value>\<close>; \<open>from_value\<close> accepts objects only.\<close>

type_synonym world_snapshot = "(ustr \<times> json) list"

definition into_value :: "world_snapshot \<Rightarrow> json" where
  "into_value s = JObj s"

definition snapshot_from_value :: "json \<Rightarrow> world_snapshot option" where
  "snapshot_from_value v = fields_of v"

definition merge_patch_from :: "world_snapshot \<Rightarrow> world_snapshot \<Rightarrow> json option" where
  "merge_patch_from current previous = create_merge_patch (into_value previous) (into_value current)"

definition apply_merge_patch :: "world_snapshot \<Rightarrow> json \<Rightarrow> world_snapshot option" where
  "apply_merge_patch s patch = snapshot_from_value (apply_merge_patch_value (into_value s) patch)"

datatype previous_section = AbsentSection | UnknownSection | KnownSection json

text \<open>A section: its serialised snapshot, unless that fails, and how it renders and is recognised.\<close>

record 'f world_section =
  section_id :: ustr
  section_value :: "json option"
  legacy_fragment :: "ustr \<Rightarrow> ustr \<Rightarrow> bool"
  retained_matcher :: bool
  retained_fragment :: "ustr \<Rightarrow> ustr \<Rightarrow> bool"
  section_render :: "previous_section \<Rightarrow> 'f option"

definition section_snapshot :: "'f world_section \<Rightarrow> json option" where
  "section_snapshot s = (case map_option remove_null_object_fields (section_value s) of
       None \<Rightarrow> None
     | Some v \<Rightarrow> if v = JNull then None else Some v)"

text \<open>\<open>None\<close> is the assertion that fails for a section id that is already there.\<close>

definition add_section :: "'f world_section \<Rightarrow> 'f world_section list \<Rightarrow> 'f world_section list option" where
  "add_section s sections = (if section_id s \<in> section_id ` set sections then None else Some (sections @ [s]))"

definition world_snapshot_of :: "'f world_section list \<Rightarrow> world_snapshot" where
  "world_snapshot_of sections = List.map_filter (\<lambda>s. map_option (\<lambda>v. (section_id s, v)) (section_snapshot s)) sections"

definition has_fragment :: "(ustr \<Rightarrow> ustr \<Rightarrow> bool) \<Rightarrow> response_item list \<Rightarrow> bool" where
  "has_fragment matches xs = list_ex (\<lambda>i. case i of
       Message _ role content _ _ \<Rightarrow> list_ex (\<lambda>c. case c of InputText t \<Rightarrow> matches role t | _ \<Rightarrow> False) content
     | _ \<Rightarrow> False) xs"

definition render_with :: "('f world_section \<Rightarrow> previous_section) \<Rightarrow> 'f world_section list \<Rightarrow> 'f list" where
  "render_with previous sections = List.map_filter (\<lambda>s. section_render s (previous s)) sections"

definition render_full :: "'f world_section list \<Rightarrow> 'f list" where
  "render_full sections = render_with (\<lambda>_. AbsentSection) sections"

definition render_diff :: "'f world_section list \<Rightarrow> world_snapshot \<Rightarrow> 'f list" where
  "render_diff sections previous = render_with (\<lambda>s. case map_of previous (section_id s) of
       Some v \<Rightarrow> KnownSection v | None \<Rightarrow> AbsentSection) sections"

definition render_history_diff :: "'f world_section list \<Rightarrow> world_snapshot option \<Rightarrow> response_item list \<Rightarrow> 'f list" where
  "render_history_diff sections previous xs = render_with (\<lambda>s.
       case Option.bind previous (\<lambda>p. map_of p (section_id s)) of
         Some v \<Rightarrow> if retained_matcher s \<and> \<not> has_fragment (retained_fragment s) xs then AbsentSection else KnownSection v
       | None \<Rightarrow> if has_fragment (legacy_fragment s) xs then UnknownSection else AbsentSection) sections"

end
