(* ===== verification/Rollout_Reconstruction.thy ===== *)
theory Rollout_Reconstruction
  imports Compaction World_State
begin

text \<open>
  Rebuilding a session from its rollout, the log of what happened in a thread
  (\<open>core/src/session/rollout_reconstruction.rs\<close>): a scan from the newest item for the last history
  that replaced the conversation and for the settings to resume with, then a replay of the items after
  it. The items are those of \<open>protocol/src/protocol.rs\<close>, with the fields the scan reads; the
  rest of a turn context is opaque (\<open>'x\<close>). \<open>parse_uuid_v7\<close> (the \<open>uuid\<close> crate) is a parameter.
\<close>

section \<open>Rollout items\<close>

record 'x turn_context_item =
  tc_turn_id :: "ustr option"
  tc_model :: ustr
  tc_comp_hash :: "ustr option"
  tc_realtime_active :: "bool option"
  tc_other :: 'x

record previous_turn_settings =
  pts_model :: ustr
  pts_comp_hash :: "ustr option"
  pts_realtime_active :: "bool option"

record compacted_item =
  ci_message :: ustr
  ci_replacement_history :: "response_item list option"
  ci_window_number :: "nat option"
  ci_first_window_id :: "ustr option"
  ci_previous_window_id :: "ustr option"
  ci_window_id :: "ustr option"

record inter_agent_communication =
  iac_id :: item_id
  iac_author :: ustr
  iac_recipient :: ustr
  iac_content :: ustr
  iac_encrypted_content :: "ustr option"
  iac_metadata :: passthrough
  iac_trigger_turn :: bool

text \<open>The contents of an agent message are strings, encrypted or not.\<close>

definition to_model_input_item :: "inter_agent_communication \<Rightarrow> response_item" where
  "to_model_input_item c =
     AgentMessage (iac_id c) (iac_author c) (iac_recipient c)
       (case iac_encrypted_content c of
          Some encrypted \<Rightarrow>
            [lit ''Message Type: '' @ (if iac_trigger_turn c then lit ''NEW_TASK'' else lit ''MESSAGE'') @
             [LF] @ lit ''Task name: '' @ iac_recipient c @ [LF] @ lit ''Sender: '' @ iac_author c @ [LF] @ lit ''Payload:'' @ [LF],
             encrypted]
        | None \<Rightarrow> [iac_content c])
       (iac_metadata c)"

datatype event_msg =
    ThreadRolledBack nat
  | TurnComplete ustr
  | TurnAborted "ustr option"
  | TurnStarted ustr
  | UserMessageEvent
  | OtherEvent

text \<open>A session meta line has the window id of its context window, if it has one.\<close>

datatype 'x rollout_item =
    SessionMeta "ustr option"
  | ResponseItem response_item
  | InterAgent inter_agent_communication
  | InterAgentMetadata bool
  | Compacted compacted_item
  | TurnContext "'x turn_context_item"
  | WorldState bool json
  | EventMsg event_msg

section \<open>Segments\<close>

record 'u reconstructed_window =
  rw_number :: nat
  rw_first_id :: "'u option"
  rw_previous_id :: "'u option"
  rw_id :: "'u option"

datatype 'x turn_reference = NeverSet | Cleared | Latest "'x turn_context_item"

record ('x, 'u) replay_segment =
  seg_turn_id :: "ustr option"
  seg_counts_as_user_turn :: bool
  seg_previous_turn_settings :: "previous_turn_settings option"
  seg_reference :: "'x turn_reference"
  seg_world_state :: "'x rollout_item list"
  seg_base :: "response_item list option"
  seg_window :: "'u reconstructed_window option"

definition default_segment :: "('x, 'u) replay_segment" where
  "default_segment = \<lparr>seg_turn_id = None, seg_counts_as_user_turn = False, seg_previous_turn_settings = None,
     seg_reference = NeverSet, seg_world_state = [], seg_base = None, seg_window = None\<rparr>"

definition turn_ids_are_compatible :: "ustr option \<Rightarrow> ustr option \<Rightarrow> bool" where
  "turn_ids_are_compatible active item = (case active of
       None \<Rightarrow> True
     | Some turn_id \<Rightarrow> (case item of None \<Rightarrow> True | Some item_turn_id \<Rightarrow> item_turn_id = turn_id))"

text \<open>The variables of the scan; \<open>rs_world_state\<close> is newest first.\<close>

record ('x, 'u) replay_state =
  rs_base :: "response_item list option"
  rs_previous :: "previous_turn_settings option"
  rs_reference :: "'x turn_reference"
  rs_world_state :: "'x rollout_item list"
  rs_window :: "'u reconstructed_window option"
  rs_pending_rollback :: nat
  rs_suffix :: "'x rollout_item list"
  rs_active :: "('x, 'u) replay_segment option"

definition finalize_active_segment :: "('x, 'u) replay_segment \<Rightarrow> ('x, 'u) replay_state \<Rightarrow> ('x, 'u) replay_state" where
  "finalize_active_segment seg st =
     (if rs_pending_rollback st > 0 then
        (if seg_counts_as_user_turn seg then st\<lparr>rs_pending_rollback := rs_pending_rollback st - 1\<rparr> else st)
      else st\<lparr>
        rs_world_state := rs_world_state st @ seg_world_state seg,
        rs_base := (case rs_base st of None \<Rightarrow> seg_base seg | Some b \<Rightarrow> Some b),
        rs_window := (case rs_window st of None \<Rightarrow> seg_window seg | Some w \<Rightarrow> Some w),
        rs_previous := (if rs_previous st = None \<and> seg_counts_as_user_turn seg
                        then seg_previous_turn_settings seg else rs_previous st),
        rs_reference := (if rs_reference st = NeverSet \<and> (seg_counts_as_user_turn seg \<or> seg_reference seg = Cleared)
                         then seg_reference seg else rs_reference st)\<rparr>)"

section \<open>The scan\<close>

definition active_or_default :: "('x, 'u) replay_state \<Rightarrow> ('x, 'u) replay_segment" where
  "active_or_default st = (case rs_active st of Some seg \<Rightarrow> seg | None \<Rightarrow> default_segment)"

definition compacted_window :: "(ustr \<Rightarrow> 'u option) \<Rightarrow> compacted_item \<Rightarrow> 'u reconstructed_window option" where
  "compacted_window parse_uuid c = map_option (\<lambda>number.
     \<lparr>rw_number = number,
      rw_first_id = Option.bind (ci_first_window_id c) parse_uuid,
      rw_previous_id = Option.bind (ci_previous_window_id c) parse_uuid,
      rw_id = Option.bind (ci_window_id c) parse_uuid\<rparr>) (ci_window_number c)"

definition scan_compacted ::
  "(ustr \<Rightarrow> 'u option) \<Rightarrow> 'x rollout_item list \<Rightarrow> compacted_item \<Rightarrow> ('x, 'u) replay_state \<Rightarrow> ('x, 'u) replay_state" where
  "scan_compacted parse_uuid newer c st =
     (let seg = active_or_default st;
          seg1 = seg\<lparr>seg_world_state := seg_world_state seg @ [Compacted c],
                     seg_window := (case seg_window seg of None \<Rightarrow> compacted_window parse_uuid c | Some w \<Rightarrow> Some w),
                     seg_reference := (if seg_reference seg = NeverSet then Cleared else seg_reference seg)\<rparr>
      in if seg_base seg = None \<and> ci_replacement_history c \<noteq> None
         then st\<lparr>rs_active := Some (seg1\<lparr>seg_base := ci_replacement_history c\<rparr>), rs_suffix := newer\<rparr>
         else st\<lparr>rs_active := Some seg1\<rparr>)"

definition scan_turn_context :: "'x turn_context_item \<Rightarrow> ('x, 'u) replay_segment \<Rightarrow> ('x, 'u) replay_segment" where
  "scan_turn_context ctx seg =
     (let turn_id = (case seg_turn_id seg of None \<Rightarrow> tc_turn_id ctx | Some t \<Rightarrow> Some t);
          seg1 = seg\<lparr>seg_turn_id := turn_id\<rparr>
      in if turn_ids_are_compatible turn_id (tc_turn_id ctx)
         then seg1\<lparr>
           seg_previous_turn_settings := Some \<lparr>pts_model = tc_model ctx, pts_comp_hash = tc_comp_hash ctx,
                                               pts_realtime_active = tc_realtime_active ctx\<rparr>,
           seg_reference := (if seg_reference seg = NeverSet then Latest ctx else seg_reference seg)\<rparr>
         else seg1)"

definition scan_event :: "event_msg \<Rightarrow> ('x, 'u) replay_state \<Rightarrow> ('x, 'u) replay_state" where
  "scan_event e st = (case e of
       ThreadRolledBack num_turns \<Rightarrow> st\<lparr>rs_pending_rollback := saturating_usize_add (rs_pending_rollback st) num_turns\<rparr>
     | TurnComplete turn_id \<Rightarrow>
         (let seg = active_or_default st
          in st\<lparr>rs_active := Some (seg\<lparr>seg_turn_id := (case seg_turn_id seg of None \<Rightarrow> Some turn_id | Some t \<Rightarrow> Some t)\<rparr>)\<rparr>)
     | TurnAborted turn_id \<Rightarrow>
         (case rs_active st of
            Some seg \<Rightarrow> st\<lparr>rs_active := Some (seg\<lparr>seg_turn_id := (case seg_turn_id seg of None \<Rightarrow> turn_id | Some t \<Rightarrow> Some t)\<rparr>)\<rparr>
          | None \<Rightarrow> (case turn_id of
              Some t \<Rightarrow> st\<lparr>rs_active := Some (default_segment\<lparr>seg_turn_id := Some t\<rparr>)\<rparr>
            | None \<Rightarrow> st))
     | UserMessageEvent \<Rightarrow> st\<lparr>rs_active := Some ((active_or_default st)\<lparr>seg_counts_as_user_turn := True\<rparr>)\<rparr>
     | TurnStarted turn_id \<Rightarrow>
         (case rs_active st of
            Some seg \<Rightarrow>
              if turn_ids_are_compatible (seg_turn_id seg) (Some turn_id)
              then finalize_active_segment seg (st\<lparr>rs_active := None\<rparr>) else st
          | None \<Rightarrow> st)
     | OtherEvent \<Rightarrow> st)"

definition scan_item ::
  "event_env \<Rightarrow> (ustr \<Rightarrow> 'u option) \<Rightarrow> 'x rollout_item list \<Rightarrow> 'x rollout_item \<Rightarrow> ('x, 'u) replay_state \<Rightarrow>
     ('x, 'u) replay_state" where
  "scan_item env parse_uuid newer item st = (case item of
       Compacted c \<Rightarrow> scan_compacted parse_uuid newer c st
     | EventMsg e \<Rightarrow> scan_event e st
     | TurnContext ctx \<Rightarrow> st\<lparr>rs_active := Some (scan_turn_context ctx (active_or_default st))\<rparr>
     | WorldState full state \<Rightarrow>
         (let seg = active_or_default st
          in st\<lparr>rs_active := Some (seg\<lparr>seg_world_state := seg_world_state seg @ [item]\<rparr>)\<rparr>)
     | ResponseItem r \<Rightarrow>
         (let seg = active_or_default st
          in st\<lparr>rs_active := Some (seg\<lparr>seg_counts_as_user_turn :=
                 seg_counts_as_user_turn seg \<or> is_user_turn_boundary (history_env.truncate env) r\<rparr>)\<rparr>)
     | InterAgent c \<Rightarrow> st\<lparr>rs_active := Some ((active_or_default st)\<lparr>seg_counts_as_user_turn := True\<rparr>)\<rparr>
     | SessionMeta w \<Rightarrow> st
     | InterAgentMetadata t \<Rightarrow> st)"

definition scan_done :: "('x, 'u) replay_state \<Rightarrow> bool" where
  "scan_done st \<longleftrightarrow> rs_base st \<noteq> None \<and> rs_previous st \<noteq> None \<and> rs_reference st \<noteq> NeverSet"

text \<open>The loop over the items below an index, from the newest, with its early exit.\<close>

fun scan_loop ::
  "event_env \<Rightarrow> (ustr \<Rightarrow> 'u option) \<Rightarrow> 'x rollout_item list \<Rightarrow> nat \<Rightarrow> ('x, 'u) replay_state \<Rightarrow> ('x, 'u) replay_state" where
  "scan_loop env parse_uuid rollout 0 st = st"
| "scan_loop env parse_uuid rollout (Suc index) st =
     (let st' = scan_item env parse_uuid (drop (Suc index) rollout) (rollout ! index) st
      in if scan_done st' then st' else scan_loop env parse_uuid rollout index st')"

definition scan_start :: "'x rollout_item list \<Rightarrow> ('x, 'u) replay_state" where
  "scan_start rollout = \<lparr>rs_base = None, rs_previous = None, rs_reference = NeverSet, rs_world_state = [], rs_window = None,
     rs_pending_rollback = 0, rs_suffix = rollout, rs_active = None\<rparr>"

definition scan_rollout :: "event_env \<Rightarrow> (ustr \<Rightarrow> 'u option) \<Rightarrow> 'x rollout_item list \<Rightarrow> ('x, 'u) replay_state" where
  "scan_rollout env parse_uuid rollout =
     (let st = scan_loop env parse_uuid rollout (length rollout) (scan_start rollout)
      in case rs_active st of
           Some seg \<Rightarrow> finalize_active_segment seg (st\<lparr>rs_active := None\<rparr>)
         | None \<Rightarrow> st)"

section \<open>The replay\<close>

text \<open>One item of the replay: the manager, and whether a legacy compaction was seen; \<open>None\<close> is a panic.\<close>

definition replay_item ::
  "event_env \<Rightarrow> truncation_policy \<Rightarrow> 'x rollout_item \<Rightarrow> ('r, 'w) context_manager \<times> bool \<Rightarrow>
     (('r, 'w) context_manager \<times> bool) option" where
  "replay_item env policy item = (\<lambda>(history, saw_legacy).
     case item of
       ResponseItem r \<Rightarrow> map_option (\<lambda>h. (h, saw_legacy)) (record_items (history_env.truncate env) policy [r] history)
     | InterAgent c \<Rightarrow>
         map_option (\<lambda>h. (h, saw_legacy)) (record_items (history_env.truncate env) policy [to_model_input_item c] history)
     | Compacted c \<Rightarrow>
         (case ci_replacement_history c of
            Some replacement \<Rightarrow> Some (replace_items replacement history, saw_legacy)
          | None \<Rightarrow>
              map_option (\<lambda>rebuilt. (replace_items rebuilt history, True))
                (build_compacted_history [] (collect_user_messages env (items history)) (ci_message c)))
     | EventMsg (ThreadRolledBack num_turns) \<Rightarrow>
         Some (drop_last_n_user_turns (history_env.truncate env) num_turns history, saw_legacy)
     | _ \<Rightarrow> Some (history, saw_legacy))"

fun replay_items ::
  "event_env \<Rightarrow> truncation_policy \<Rightarrow> 'x rollout_item list \<Rightarrow> ('r, 'w) context_manager \<times> bool \<Rightarrow>
     (('r, 'w) context_manager \<times> bool) option" where
  "replay_items env policy [] st = Some st"
| "replay_items env policy (item # rest) st = Option.bind (replay_item env policy item st) (replay_items env policy rest)"

text \<open>The world state from the surviving records, oldest first.\<close>

definition replay_world_state_item :: "'x rollout_item \<Rightarrow> world_snapshot option \<Rightarrow> world_snapshot option" where
  "replay_world_state_item item baseline = (case item of
       Compacted _ \<Rightarrow> None
     | WorldState full state \<Rightarrow>
         if full then snapshot_from_value state
         else (case baseline of None \<Rightarrow> None | Some b \<Rightarrow> apply_merge_patch b state)
     | _ \<Rightarrow> baseline)"

definition replay_world_state :: "'x rollout_item list \<Rightarrow> world_snapshot option" where
  "replay_world_state records = fold replay_world_state_item records None"

section \<open>The reconstruction\<close>

record ('x, 'u) rollout_reconstruction =
  rr_history :: "response_item list"
  rr_previous_turn_settings :: "previous_turn_settings option"
  rr_reference_context_item :: "'x turn_context_item option"
  rr_world_state_baseline :: "world_snapshot option"
  rr_window_number :: nat
  rr_first_window_id :: "'u option"
  rr_previous_window_id :: "'u option"
  rr_window_id :: "'u option"

definition is_compacted :: "'x rollout_item \<Rightarrow> bool" where
  "is_compacted item = (case item of Compacted _ \<Rightarrow> True | _ \<Rightarrow> False)"

definition initial_window :: "(ustr \<Rightarrow> 'u option) \<Rightarrow> 'x rollout_item list \<Rightarrow> 'u reconstructed_window option" where
  "initial_window parse_uuid rollout =
     (if list_ex (\<lambda>item. case item of Compacted c \<Rightarrow> ci_window_number c = None | _ \<Rightarrow> False) rollout then None
      else first_some (\<lambda>item. case item of
          SessionMeta (Some w) \<Rightarrow> map_option (\<lambda>u. \<lparr>rw_number = 0, rw_first_id = Some u, rw_previous_id = None, rw_id = Some u\<rparr>) (parse_uuid w)
        | _ \<Rightarrow> None) rollout)"

definition reconstruct_history_from_rollout ::
  "event_env \<Rightarrow> (ustr \<Rightarrow> 'u option) \<Rightarrow> truncation_policy \<Rightarrow> 'x rollout_item list \<Rightarrow> ('x, 'u) rollout_reconstruction option" where
  "reconstruct_history_from_rollout env parse_uuid policy rollout =
     (let st = scan_rollout env parse_uuid rollout;
          history = (new_manager :: (unit, unit) context_manager);
          history' = (case rs_base st of Some base \<Rightarrow> replace_items base history | None \<Rightarrow> history)
      in map_option (\<lambda>(h, saw_legacy).
           let window = (case rs_window st of Some w \<Rightarrow> w
               | None \<Rightarrow> (case initial_window parse_uuid rollout of Some w \<Rightarrow> w
                   | None \<Rightarrow> \<lparr>rw_number = length (filter is_compacted rollout),
                              rw_first_id = None, rw_previous_id = None, rw_id = None\<rparr>))
           in \<lparr>rr_history = items h,
               rr_previous_turn_settings = rs_previous st,
               rr_reference_context_item =
                 (if saw_legacy then None else case rs_reference st of Latest ctx \<Rightarrow> Some ctx | _ \<Rightarrow> None),
               rr_world_state_baseline = replay_world_state (rev (rs_world_state st)),
               rr_window_number = rw_number window, rr_first_window_id = rw_first_id window,
               rr_previous_window_id = rw_previous_id window, rr_window_id = rw_id window\<rparr>)
         (replay_items env policy (rs_suffix st) (history', False)))"

end
