(* ===== verification/Session_Log.thy ===== *)
theory Session_Log
  imports Rollout_Reconstruction
begin

text \<open>
  The part of a session that a rollout can rebuild, and the operations that change it together with
  the log (\<open>core/src/session/mod.rs\<close>, \<open>core/src/state/session.rs\<close>,
  \<open>core/src/session/handlers.rs\<close>, \<open>core/src/context_manager/history.rs\<close>), with what of an append is written
  (\<open>rollout/src/policy.rs\<close>).

  What the operations are given by code outside this part are arguments: the items rendered for the model, the
  world-state snapshot of the step, the items prepared for the history (images resized, ids
  assigned), the fresh window id. Appending to the log succeeds. Every other field of the session
  state is left out.
\<close>

section \<open>What is written\<close>

definition should_persist_response_item :: "response_item \<Rightarrow> bool" where
  "should_persist_response_item item = (case item of
       AdditionalTools _ _ _ \<Rightarrow> False
     | CompactionTrigger \<Rightarrow> False
     | OtherItem \<Rightarrow> False
     | _ \<Rightarrow> True)"

text \<open>\<open>OtherEvent\<close> stands for the other events that are written.\<close>

definition is_persisted_rollout_item :: "'x rollout_item \<Rightarrow> bool" where
  "is_persisted_rollout_item item = (case item of
       ResponseItem r \<Rightarrow> should_persist_response_item r
     | _ \<Rightarrow> True)"

definition persisted_rollout_items :: "'x rollout_item list \<Rightarrow> 'x rollout_item list" where
  "persisted_rollout_items its = filter is_persisted_rollout_item its"

section \<open>The session\<close>

datatype session_start_source = Startup | Resume | Clear | Compact

record ('x, 'u) session_state =
  ss_history :: "('x turn_context_item, world_snapshot) context_manager"
  ss_previous_turn_settings :: "previous_turn_settings option"
  ss_window :: "'u auto_compact_window"
  ss_start_sources :: "session_start_source list"
  ss_rollout :: "'x rollout_item list"

definition persist_rollout_items :: "'x rollout_item list \<Rightarrow> ('x, 'u) session_state \<Rightarrow> ('x, 'u) session_state" where
  "persist_rollout_items its s = s\<lparr>ss_rollout := ss_rollout s @ persisted_rollout_items its\<rparr>"

text \<open>\<open>its\<close> are the items as \<open>prepare_conversation_items_for_history\<close> returns them.\<close>

definition record_conversation_items ::
  "event_env \<Rightarrow> truncation_policy \<Rightarrow> response_item list \<Rightarrow> ('x, 'u) session_state \<Rightarrow> ('x, 'u) session_state option" where
  "record_conversation_items env policy its s =
     map_option (\<lambda>h. persist_rollout_items (map ResponseItem its) (s\<lparr>ss_history := h\<rparr>))
       (record_items (history_env.truncate env) policy its (ss_history s))"

definition replace_history ::
  "response_item list \<Rightarrow> 'x turn_context_item option \<Rightarrow> ('x, 'u) session_state \<Rightarrow> ('x, 'u) session_state" where
  "replace_history its reference s =
     s\<lparr>ss_history := (replace_items its (ss_history s))\<lparr>reference_context_item := reference\<rparr>,
       ss_window := clear_prefill (ss_window s)\<rparr>"

definition set_world_state_baseline :: "world_snapshot \<Rightarrow> ('x, 'u) session_state \<Rightarrow> ('x, 'u) session_state" where
  "set_world_state_baseline snapshot s = s\<lparr>ss_history := (ss_history s)\<lparr>world_state_baseline := Some snapshot\<rparr>\<rparr>"

text \<open>\<open>its\<close> are the items after the ids that are missing have been assigned.\<close>

definition replace_compacted_history ::
  "response_item list \<Rightarrow> 'x turn_context_item option \<Rightarrow> world_snapshot option \<Rightarrow> compacted_item \<Rightarrow>
     ('x, 'u) session_state \<Rightarrow> ('x, 'u) session_state" where
  "replace_compacted_history its reference world compacted s =
     (let s1 = replace_history its reference s;
          s2 = (case world of Some snapshot \<Rightarrow> set_world_state_baseline snapshot s1 | None \<Rightarrow> s1);
          s3 = persist_rollout_items [Compacted (compacted\<lparr>ci_replacement_history := Some its\<rparr>)] s2;
          s4 = (case world of Some snapshot \<Rightarrow> persist_rollout_items [WorldState True (into_value snapshot)] s3 | None \<Rightarrow> s3);
          s5 = (case reference of Some ctx \<Rightarrow> persist_rollout_items [TurnContext ctx] s4 | None \<Rightarrow> s4)
      in s5\<lparr>ss_start_sources := ss_start_sources s5 @ [Compact]\<rparr>)"

definition window_compacted_item :: "('u \<Rightarrow> ustr) \<Rightarrow> ustr \<Rightarrow> nat \<times> 'u window_ids \<Rightarrow> compacted_item" where
  "window_compacted_item show_id message = (\<lambda>(number, ids).
     \<lparr>ci_message = message, ci_replacement_history = None, ci_window_number = Some number,
      ci_first_window_id = Some (show_id (first_window_id ids)),
      ci_previous_window_id = map_option show_id (previous_window_id ids),
      ci_window_id = Some (show_id (window_id ids))\<rparr>)"

definition start_new_context_window ::
  "('u \<Rightarrow> ustr) \<Rightarrow> 'u \<Rightarrow> response_item list \<Rightarrow> 'x turn_context_item \<Rightarrow> world_snapshot \<Rightarrow>
     ('x, 'u) session_state \<Rightarrow> ('x, 'u) session_state" where
  "start_new_context_window show_id fresh context_its ctx snapshot s =
     (let (window, w) = advance_window fresh (ss_window s)
      in replace_compacted_history context_its (Some ctx) (Some snapshot) (window_compacted_item show_id [] window)
           (s\<lparr>ss_window := clear_prefill w\<rparr>))"

text \<open>The end of \<open>run_compact_task_inner_impl\<close>; in the middle of a turn with the initial context, its reference and its world state.\<close>

definition finish_compaction ::
  "event_env \<Rightarrow> ('u \<Rightarrow> ustr) \<Rightarrow> 'u \<Rightarrow> ustr \<Rightarrow> (response_item list \<times> 'x turn_context_item \<times> world_snapshot) option \<Rightarrow>
     ('x, 'u) session_state \<Rightarrow> ('x, 'u) session_state option" where
  "finish_compaction env show_id fresh turn_id injection s =
     map_option (\<lambda>(summary, new_history).
       let (window, w) = advance_window fresh (ss_window s)
       in replace_compacted_history new_history (map_option (fst \<circ> snd) injection) (map_option (snd \<circ> snd) injection)
            (window_compacted_item show_id summary window) (s\<lparr>ss_window := w\<rparr>))
     (compacted_replacement env turn_id (items (ss_history s)) (case injection of Some (its, _) \<Rightarrow> its | None \<Rightarrow> []))"

definition update_world_state ::
  "world_snapshot \<Rightarrow> ('r, world_snapshot) context_manager \<Rightarrow> 'x rollout_item option \<times> ('r, world_snapshot) context_manager" where
  "update_world_state snapshot h =
     (case world_state_baseline h of
        None \<Rightarrow> Some (WorldState True (into_value snapshot))
      | Some previous \<Rightarrow> map_option (WorldState False) (merge_patch_from snapshot previous),
      h\<lparr>world_state_baseline := Some snapshot\<rparr>)"

definition persist_option :: "'x rollout_item option \<Rightarrow> ('x, 'u) session_state \<Rightarrow> ('x, 'u) session_state" where
  "persist_option item s = (case item of Some i \<Rightarrow> persist_rollout_items [i] s | None \<Rightarrow> s)"

definition record_if_any ::
  "event_env \<Rightarrow> truncation_policy \<Rightarrow> response_item list \<Rightarrow> ('x, 'u) session_state \<Rightarrow> ('x, 'u) session_state option" where
  "record_if_any env policy its s = (if its = [] then Some s else record_conversation_items env policy its s)"

definition record_step_world_state_if_changed ::
  "event_env \<Rightarrow> truncation_policy \<Rightarrow> world_snapshot \<Rightarrow> world_snapshot \<Rightarrow> response_item list \<Rightarrow>
     ('x, 'u) session_state \<Rightarrow> ('x, 'u) session_state option" where
  "record_step_world_state_if_changed env policy previous snapshot its s =
     map_option (\<lambda>s'. persist_option (map_option (WorldState False) (merge_patch_from snapshot previous))
                        (set_world_state_baseline snapshot s'))
       (record_if_any env policy its s)"

text \<open>
  The items: the initial context in full, the items of changed settings, those of the world
  state, and the contributions to a turn whose context changed.
\<close>

definition record_context_updates_and_set_reference_context_item ::
  "event_env \<Rightarrow> truncation_policy \<Rightarrow> 'x turn_context_item \<Rightarrow> world_snapshot \<Rightarrow> response_item list \<Rightarrow> response_item list \<Rightarrow>
     response_item list \<Rightarrow> response_item list \<Rightarrow> ('x, 'u) session_state \<Rightarrow> ('x, 'u) session_state option" where
  "record_context_updates_and_set_reference_context_item env policy ctx snapshot full_its settings_its world_its contribution_its s =
     (let reference = reference_context_item (ss_history s);
          turn_context_changed = (reference \<noteq> Some ctx);
          full = (reference = None);
          (context_its, world_item, s1) =
            (if full then (full_its, Some (WorldState True (into_value snapshot)), set_world_state_baseline snapshot s)
             else (case update_world_state snapshot (ss_history s) of
                 (world_item, h) \<Rightarrow> (settings_its @ world_its, world_item, s\<lparr>ss_history := h\<rparr>)));
          context_its' = (if \<not> full \<and> turn_context_changed then context_its @ contribution_its else context_its);
          only_world_state_changed = (\<not> turn_context_changed \<and> context_its' = [])
      in if only_world_state_changed \<and> world_item = None then Some s1
         else
           map_option (\<lambda>s2.
             let s3 = persist_option world_item s2
             in if only_world_state_changed then s3
                else
                  let s4 = persist_rollout_items [TurnContext ctx] s3
                  in s4\<lparr>ss_history := (ss_history s4)\<lparr>reference_context_item := Some ctx\<rparr>\<rparr>)
           (record_if_any env policy context_its' s1))"

section \<open>Resuming and rolling back\<close>

text \<open>\<open>prepare\<close> is \<open>prepare_response_items\<close>; the prefill is recomputed by the caller.\<close>

definition apply_rollout_reconstruction ::
  "event_env \<Rightarrow> (ustr \<Rightarrow> 'u option) \<Rightarrow> truncation_policy \<Rightarrow> (response_item list \<Rightarrow> response_item list) \<Rightarrow>
     'x rollout_item list \<Rightarrow> ('x, 'u) session_state \<Rightarrow> ('x, 'u) session_state option" where
  "apply_rollout_reconstruction env parse_uuid policy prepare rollout s =
     map_option (\<lambda>r.
       let s1 = replace_history (prepare (rr_history r)) (rr_reference_context_item r) s;
           s2 = (case rr_world_state_baseline r of Some w \<Rightarrow> set_world_state_baseline w s1 | None \<Rightarrow> s1);
           wid = (case rr_window_id r of Some i \<Rightarrow> i | None \<Rightarrow> window_id (aw_ids (ss_window s2)))
       in s2\<lparr>ss_window := restore_window (rr_window_number r)
               \<lparr>first_window_id = (case rr_first_window_id r of Some i \<Rightarrow> i | None \<Rightarrow> wid),
                previous_window_id = rr_previous_window_id r, window_id = wid\<rparr> (ss_window s2),
             ss_previous_turn_settings := rr_previous_turn_settings r\<rparr>)
     (reconstruct_history_from_rollout env parse_uuid policy rollout)"

datatype rollback_error = ZeroTurns | TurnInProgress | NoPersistedHistory

text \<open>Flushing and loading the persisted history succeed.\<close>

definition thread_rollback ::
  "event_env \<Rightarrow> (ustr \<Rightarrow> 'u option) \<Rightarrow> truncation_policy \<Rightarrow> (response_item list \<Rightarrow> response_item list) \<Rightarrow> nat \<Rightarrow> bool \<Rightarrow> bool \<Rightarrow>
     ('x, 'u) session_state \<Rightarrow> (rollback_error, ('x, 'u) session_state option) result" where
  "thread_rollback env parse_uuid policy prepare num_turns has_active_turn persisted s =
     (if num_turns = 0 then Err ZeroTurns
      else if has_active_turn then Err TurnInProgress
      else if \<not> persisted then Err NoPersistedHistory
      else
        let marker = EventMsg (ThreadRolledBack num_turns)
        in Ok (map_option (persist_rollout_items [marker])
             (apply_rollout_reconstruction env parse_uuid policy prepare (ss_rollout s @ [marker]) s)))"

end
