(* ===== verification/Compaction_Correct.thy ===== *)
theory Compaction_Correct
  imports Compaction
begin

text \<open>
  Compaction: the loop that asks for the summary ends and never drops the request itself; the
  messages that are kept are the newest ones that fit; compacting again finds the same
  messages; the initial context goes where the model expects it.
\<close>

section \<open>The loop ends\<close>

lemma compact_attempts_bound:
  "length (fst (compact_attempts env ms max_retries stream n retries m)) \<le>
     length (items m) * (max_retries + 1) + (max_retries - retries) + 1"
proof (induction env ms max_retries stream n retries m rule: compact_attempts.induct)
  case (1 env ms max_retries stream n retries m)
  define input where "input = for_prompt (history_env.truncate env) ms m"
  show ?case
  proof (cases "stream n input = StreamContextWindowExceeded \<and> length input > 1")
    case True
    then have "items m \<noteq> []" using for_prompt_Nil [of m "history_env.truncate env" ms] by (auto simp: input_def)
    then obtain k where "length (items m) = Suc k" "length (items (remove_first_item m)) \<le> k"
      using remove_first_item_shorter [of m] by (cases "length (items m)") auto
    then have "length (items (remove_first_item m)) * (max_retries + 1) + max_retries + 2 \<le> length (items m) * (max_retries + 1) + 1"
      by (simp add: add_mono mult_le_mono1)
    then show ?thesis
      using "1.IH"(1) [OF input_def] True by (subst compact_attempts.simps) (auto simp: Let_def input_def [symmetric])
  next
    case False
    then show ?thesis
      using "1.IH"(2) [OF input_def]
      by (subst compact_attempts.simps) (auto simp: Let_def input_def [symmetric] split: stream_outcome.split)
  qed
qed

text \<open>
  C27: Asking for a summary ends, whatever the streams return: there are at most \<open>max_retries + 1\<close> requests for
  each number of items the history can shrink to.
\<close>

theorem compaction_requests_bounded:
  "length (fst (compact_attempts env modalities max_retries stream n 0 history)) \<le>
     (length (items history) + 1) * (max_retries + 1)"
  using compact_attempts_bound [of env modalities max_retries stream n 0 history] by simp

section \<open>The request stays in the history\<close>

definition plain_message :: "response_item \<Rightarrow> bool" where
  "plain_message x \<longleftrightarrow> (\<exists>t md. x = user_message_item t md)"

lemma plain_message_keys:
  assumes "plain_message x"
  shows "call_key x = None" "output_key x = None" "strip_item_images x = x" "keeps its x"
  using assms by (auto simp: plain_message_def user_message_item_def keeps_def)

lemma for_prompt_last:
  assumes "items m = h @ [x]" "plain_message x"
  shows "\<exists>h'. for_prompt env ms m = h' @ [x]"
proof -
  note k = plain_message_keys [OF assms(2)]
  have "with_missing (missing_for env (h @ [x])) x = [x]"
    using missing_for_None_iff [of env "h @ [x]" x] k(1) by (simp add: with_missing_def)
  then show ?thesis
    using k by (auto simp: for_prompt_def normalize_history_def normalize_items_def assms(1) ensure_call_outputs_present_eq
        remove_orphan_outputs_eq strip_images_when_unsupported_def)
qed

lemma remove_first_matching_snoc: "\<not> P x \<Longrightarrow> remove_first_matching P (xs @ [x]) = remove_first_matching P xs @ [x]"
  by (induction xs) auto

lemma remove_corresponding_snoc:
  assumes "plain_message x"
  shows "\<exists>h'. remove_corresponding_for (h @ [x]) y = h' @ [x]"
  using assms
  by (cases y) (auto simp: remove_corresponding_for_def plain_message_def user_message_item_def remove_first_matching_snoc
      split: option.split)

lemma for_prompt_single:
  assumes "items m = [x]" "plain_message x"
  shows "for_prompt env ms m = [x]"
proof -
  note k = plain_message_keys [OF assms(2)]
  have "with_missing (missing_for env [x]) x = [x]"
    using missing_for_None_iff [of env "[x]" x] k(1) by (simp add: with_missing_def)
  then show ?thesis
    using k by (auto simp: for_prompt_def normalize_history_def normalize_items_def assms(1) ensure_call_outputs_present_eq
        remove_orphan_outputs_eq strip_images_when_unsupported_def)
qed

lemma compact_attempts_last:
  assumes "items m = h @ [x]" "plain_message x" "p \<in> set (fst (compact_attempts env ms max_retries stream n retries m))"
  shows "p \<noteq> [] \<and> last p = x"
  using assms
proof (induction env ms max_retries stream n retries m arbitrary: h rule: compact_attempts.induct)
  case (1 env ms max_retries stream n retries m)
  define input where "input = for_prompt (history_env.truncate env) ms m"
  have inp: "input \<noteq> [] \<and> last input = x" using for_prompt_last [OF "1.prems"(1,2), of "history_env.truncate env" ms] by (auto simp: input_def)
  show ?case
  proof (cases "stream n input = StreamContextWindowExceeded \<and> length input > 1")
    case True
    then have "h \<noteq> []" using for_prompt_single [of m x] "1.prems"(1,2) by (auto simp: input_def)
    then obtain y h1 where h: "items m = y # h1 @ [x]" using "1.prems"(1) by (cases h) auto
    then obtain h2 where "items (remove_first_item m) = h2 @ [x]"
      using remove_corresponding_snoc [OF "1.prems"(2), of h1 y] by (auto simp: remove_first_item_def)
    then have "p \<in> set (fst (compact_attempts env ms max_retries stream (Suc n) 0 (remove_first_item m))) \<Longrightarrow> p \<noteq> [] \<and> last p = x"
      using "1.IH"(1) [OF input_def] True "1.prems"(2) by auto
    then show ?thesis
      using "1.prems"(3) True inp by (subst (asm) compact_attempts.simps) (auto simp: Let_def input_def [symmetric])
  next
    case False
    have "p = input \<or> stream n input = StreamFailed \<and> retries < max_retries \<and>
        p \<in> set (fst (compact_attempts env ms max_retries stream (Suc n) (retries + 1) m))"
      using False "1.prems"(3) compact_attempts.simps [of env ms max_retries stream n retries m]
      by (auto simp: Let_def input_def [symmetric] split: stream_outcome.splits if_splits)
    then show ?thesis using "1.IH"(2) [OF input_def _ _ "1.prems"(1,2)] inp by blast
  qed
qed

text \<open>
  C30: The request for the summary is never trimmed away: if it is the last item of the history, every
  input that is sent ends with it, however many items are removed to fit the context window.
\<close>

theorem compaction_request_kept:
  assumes "items history = h @ [user_message_item request md]"
  shows "\<forall>input\<in>set (fst (compact_attempts env modalities max_retries stream n retries history)).
     input \<noteq> [] \<and> last input = user_message_item request md"
proof -
  have "plain_message (user_message_item request md)" by (auto simp: plain_message_def)
  then show ?thesis using compact_attempts_last [OF assms] by blast
qed

text \<open>An environment without contextual texts.\<close>

definition plain_events :: event_env where
  "plain_events = \<lparr>contextual_user_fragment = (\<lambda>_. False), contextual_dev_fragment = (\<lambda>_. False), inter_agent_text = (\<lambda>_. False),
     serialized_len = (\<lambda>_. 0), uuid_v5 = (\<lambda>s. s), image_size = (\<lambda>_. None), scale_budget = (\<lambda>n. n),
     hook_prompt_text = (\<lambda>_. False), standard_contextual_text = (\<lambda>_. False)\<rparr>"

lemma plain_events_ok: "event_env_ok plain_events"
  by (auto simp: event_env_ok_def plain_events_def is_contextual_user_fragment_def fun_eq_iff split: content_item.split)

definition sample_request :: "(unit, unit) context_manager" where
  "sample_request = new_manager\<lparr>items := [user_message_item (lit ''hi'') None, user_message_item (lit ''summarize'') None]\<rparr>"

theorem compaction_request_kept_witness:
  "fst (compact_attempts plain_events [] 1 (\<lambda>n _. if n = 0 then StreamContextWindowExceeded else StreamCompleted) 0 0 sample_request) \<noteq> [] \<and>
   last (last (fst (compact_attempts plain_events [] 1 (\<lambda>n _. if n = 0 then StreamContextWindowExceeded else StreamCompleted) 0 0 sample_request))) =
     user_message_item (lit ''summarize'') None"
  (is "fst ?r \<noteq> [] \<and> _")
proof -
  have "items sample_request = [user_message_item (lit ''hi'') None] @ [user_message_item (lit ''summarize'') None]"
    by (simp add: sample_request_def)
  note kept = compaction_request_kept [OF this, of plain_events "[]" 1 "\<lambda>n _. if n = 0 then StreamContextWindowExceeded else StreamCompleted" 0 0]
  have "fst ?r \<noteq> []" by code_simp
  moreover from this have "last (fst ?r) \<in> set (fst ?r)" by simp
  ultimately show ?thesis using kept by blast
qed

section \<open>The messages that are kept\<close>

definition tokens_of :: "compacted_user_message list \<Rightarrow> nat" where
  "tokens_of ms = sum_list (map (\<lambda>m. approx_token_count (cm_message m)) ms)"

text \<open>All of the newest messages that fit, and what fits of the next one.\<close>

lemma select_messages_spec:
  assumes "select_messages limit ms = Some sel"
  shows "\<exists>k \<le> length ms. tokens_of (take k ms) \<le> limit \<and>
     (sel = take k ms \<and> (k = length ms \<or> tokens_of (take k ms) = limit) \<or>
      k < length ms \<and> tokens_of (take k ms) < limit \<and> limit < tokens_of (take (Suc k) ms) \<and>
      (\<exists>t. truncate_text (cm_message (ms ! k)) (Tokens (limit - tokens_of (take k ms))) = Some t \<and>
           sel = take k ms @ [(ms ! k)\<lparr>cm_message := t\<rparr>]))"
  using assms
proof (induction limit ms arbitrary: sel rule: select_messages.induct)
  case (1 limit)
  then show ?case by (simp add: tokens_of_def)
next
  case (2 limit m rest)
  define n where "n = approx_token_count (cm_message m)"
  consider "limit = 0" | "limit \<noteq> 0" "n \<le> limit" | "limit \<noteq> 0" "\<not> n \<le> limit" by blast
  then show ?case
  proof cases
    case 1
    then show ?thesis using "2.prems" by (auto simp: tokens_of_def intro: exI [of _ 0])
  next
    case fits: 2
    then obtain sel' where sel: "select_messages (limit - n) rest = Some sel'" "sel = m # sel'"
      using "2.prems" by (auto simp: n_def Let_def)
    from "2.IH" [OF fits(1) n_def fits(2) sel(1)] obtain k where k: "k \<le> length rest" "tokens_of (take k rest) \<le> limit - n"
      "sel' = take k rest \<and> (k = length rest \<or> tokens_of (take k rest) = limit - n) \<or>
       k < length rest \<and> tokens_of (take k rest) < limit - n \<and> limit - n < tokens_of (take (Suc k) rest) \<and>
       (\<exists>t. truncate_text (cm_message (rest ! k)) (Tokens (limit - n - tokens_of (take k rest))) = Some t \<and>
          sel' = take k rest @ [(rest ! k)\<lparr>cm_message := t\<rparr>])" by blast
    have "tokens_of (take (Suc j) (m # rest)) = n + tokens_of (take j rest)" for j by (simp add: tokens_of_def n_def)
    then show ?thesis using k fits(2) sel(2) by (intro exI [of _ "Suc k"]) (auto simp: diff_diff_eq)
  next
    case 3
    then show ?thesis using "2.prems" by (auto simp: tokens_of_def n_def Let_def intro: exI [of _ 0])
  qed
qed

lemma select_messages_total: "\<exists>sel. select_messages limit ms = Some sel"
proof (induction limit ms rule: select_messages.induct)
  case (2 limit m rest)
  obtain t where "truncate_text (cm_message m) (Tokens limit) = Some t" using truncate_text_Some by blast
  then show ?case using 2 by (auto simp: Let_def)
qed simp

lemma select_messages_all: "tokens_of ms < limit \<Longrightarrow> select_messages limit ms = Some ms"
  by (induction limit ms rule: select_messages.induct) (auto simp: tokens_of_def Let_def)

lemma tokens_of_rev: "tokens_of (rev ms) = tokens_of ms"
  by (simp add: tokens_of_def rev_map [symmetric] sum_list_rev)

text \<open>
  C28: The user messages of a compacted history are the newest ones: a suffix of the messages whose
  sizes add up to at most the limit, preceded by the middle-truncated text of the next older message if the limit was not
  reached and that message does not fit; after them comes the summary.
\<close>

theorem compacted_history_messages:
  "\<exists>k \<le> length ms. \<exists>cut. build_compacted_history_with_limit [] ms summary limit =
      Some (map (\<lambda>m. user_message_item (cm_message m) (cm_metadata m)) (cut @ drop (length ms - k) ms) @
        [user_message_item (if summary = [] then lit ''(no summary available)'' else summary) None]) \<and>
     tokens_of (drop (length ms - k) ms) \<le> limit \<and>
     (cut = [] \<and> (k = length ms \<or> tokens_of (drop (length ms - k) ms) = limit) \<or>
      k < length ms \<and> tokens_of (drop (length ms - k) ms) < limit \<and> limit < tokens_of (drop (length ms - Suc k) ms) \<and>
      (\<exists>t. truncate_text (cm_message (ms ! (length ms - Suc k))) (Tokens (limit - tokens_of (drop (length ms - k) ms))) = Some t \<and>
         cut = [(ms ! (length ms - Suc k))\<lparr>cm_message := t\<rparr>]))"
proof -
  obtain sel where sel: "select_messages limit (rev ms) = Some sel" using select_messages_total by blast
  have eq: "build_compacted_history_with_limit [] ms summary limit =
      Some (map (\<lambda>m. user_message_item (cm_message m) (cm_metadata m)) (rev sel) @
        [user_message_item (if summary = [] then lit ''(no summary available)'' else summary) None])"
    using sel by (cases "limit = 0"; cases "rev ms") (auto simp: build_compacted_history_with_limit_def)
  from select_messages_spec [OF sel] obtain k where k: "k \<le> length ms" "tokens_of (take k (rev ms)) \<le> limit"
    "sel = take k (rev ms) \<and> (k = length ms \<or> tokens_of (take k (rev ms)) = limit) \<or>
      k < length ms \<and> tokens_of (take k (rev ms)) < limit \<and> limit < tokens_of (take (Suc k) (rev ms)) \<and>
      (\<exists>t. truncate_text (cm_message (rev ms ! k)) (Tokens (limit - tokens_of (take k (rev ms)))) = Some t \<and>
           sel = take k (rev ms) @ [(rev ms ! k)\<lparr>cm_message := t\<rparr>])"
    by auto
  have "tokens_of (take j (rev ms)) = tokens_of (drop (length ms - j) ms)" "rev (take j (rev ms)) = drop (length ms - j) ms" for j
    by (simp_all add: take_rev tokens_of_rev)
  then show ?thesis using k eq by (intro exI [of _ k]) (auto simp: rev_nth)
qed

section \<open>Compacting again\<close>

lemma turn_user_message_item:
  assumes "event_env_ok env"
  shows "turn_user_message env (user_message_item t md) =
    (if contextual_user_fragment env (InputText t) then None else Some [UserText t])"
  using assms
  by (auto simp: turn_user_message_def user_message_item_def parse_visible_hook_prompt_message_def parse_user_message_def
      parse_user_content_def is_image_label_def is_image_item_def event_env_ok_def is_contextual_user_fragment_def)

lemma user_input_message_text [simp]: "user_input_message [UserText t] = t"
  by (simp add: user_input_message_def)

text \<open>A summary is never taken for a message of the user.\<close>

lemma collect_summary: "event_env_ok env \<Longrightarrow> collect_user_messages env [user_message_item (SUMMARY_PREFIX @ LF # t) md] = []"
  by (simp add: collect_user_messages_def turn_user_message_item is_summary_message_def rust_str List.map_filter_simps)

lemma collect_append: "collect_user_messages env (xs @ ys) = collect_user_messages env xs @ collect_user_messages env ys"
  by (simp add: collect_user_messages_def List.map_filter_def)

lemma collect_messages:
  assumes "event_env_ok env"
    "\<forall>m\<in>set ms. \<not> contextual_user_fragment env (InputText (cm_message m)) \<and> \<not> is_summary_message (cm_message m)"
  shows "collect_user_messages env (map (\<lambda>m. user_message_item (cm_message m) (cm_metadata m)) ms) = ms"
  using assms(2)
proof (induction ms)
  case (Cons m ms)
  have "item_metadata (user_message_item t md) = md" for t md by (simp add: user_message_item_def item_metadata_def)
  then have "collect_user_messages env [user_message_item (cm_message m) (cm_metadata m)] = [m]"
    using Cons.prems assms(1) by (simp add: collect_user_messages_def turn_user_message_item List.map_filter_simps)
  then show ?case using Cons collect_append [of env "[user_message_item (cm_message m) (cm_metadata m)]"] by simp
qed (simp add: collect_user_messages_def List.map_filter_simps)

lemma collected_not_summary: "m \<in> set (collect_user_messages env its) \<Longrightarrow> \<not> is_summary_message (cm_message m)"
  by (auto simp: collect_user_messages_def List.map_filter_def split: option.splits if_splits)


definition sample_turn :: "response_item list" where
  "sample_turn = [user_message_item (lit ''fix it'') (Some (lit ''t1'')),
     Message None (lit ''assistant'') [OutputText (lit ''done'')] None None]"


section \<open>The place of the initial context\<close>

definition user_like :: "event_env \<Rightarrow> response_item \<Rightarrow> bool" where
  "user_like env x \<longleftrightarrow> turn_user_message env x \<noteq> None"

definition real_user :: "event_env \<Rightarrow> response_item \<Rightarrow> bool" where
  "real_user env x \<longleftrightarrow> (\<exists>u. turn_user_message env x = Some u \<and> \<not> is_summary_message (user_input_message u))"

text \<open>The list splits at its last element with a property.\<close>

definition last_split :: "('a \<Rightarrow> bool) \<Rightarrow> 'a list \<Rightarrow> nat \<Rightarrow> bool" where
  "last_split P xs i \<longleftrightarrow> i < length xs \<and> P (xs ! i) \<and> (\<forall>x\<in>set (drop (Suc i) xs). \<not> P x)"

lemma scan_real: "snd (scan_user_messages env (rev xs) found) = Some i \<longleftrightarrow> last_split (real_user env) xs i"
proof (induction xs arbitrary: found rule: rev_induct)
  case (snoc x xs)
  show ?case
  proof (cases "real_user env x")
    case True
    then show ?thesis
      by (auto simp: real_user_def Let_def last_split_def nth_append less_Suc_eq)
  next
    case False
    then have "snd (scan_user_messages env (rev (xs @ [x])) found) = Some i \<longleftrightarrow> last_split (real_user env) xs i"
      using snoc.IH by (auto simp: real_user_def [of env x] Let_def split: option.split)
    then show ?thesis using False by (auto simp: last_split_def nth_append less_Suc_eq)
  qed
qed (simp add: last_split_def)

lemma last_split_ex: "(\<exists>i. last_split P xs i) \<longleftrightarrow> (\<exists>x\<in>set xs. P x)"
proof (induction xs rule: rev_induct)
  case (snoc x xs)
  show ?case
  proof (cases "P x")
    case True
    then have "last_split P (xs @ [x]) (length xs)" by (simp add: last_split_def)
    then show ?thesis using True by auto
  next
    case False
    then have "last_split P (xs @ [x]) i \<longleftrightarrow> last_split P xs i" for i by (auto simp: last_split_def nth_append less_Suc_eq)
    then show ?thesis using snoc False by simp
  qed
qed (simp add: last_split_def)

lemma scan_found: "\<not> (\<exists>x\<in>set xs. real_user env x) \<Longrightarrow> fst (scan_user_messages env (rev xs) (Some j)) = Some j"
  by (induction xs rule: rev_induct) (auto simp: real_user_def Let_def split: option.splits)

lemma scan_like:
  "\<not> (\<exists>x\<in>set xs. real_user env x) \<Longrightarrow> fst (scan_user_messages env (rev xs) None) = Some i \<longleftrightarrow> last_split (user_like env) xs i"
proof (induction xs rule: rev_induct)
  case (snoc x xs)
  show ?case
  proof (cases "user_like env x")
    case True
    then have "fst (scan_user_messages env (rev (xs @ [x])) None) = Some (length xs)"
      using snoc.prems scan_found [of xs env] by (auto simp: user_like_def real_user_def Let_def)
    then show ?thesis using True by (auto simp: last_split_def nth_append less_Suc_eq)
  next
    case False
    then have "fst (scan_user_messages env (rev (xs @ [x])) None) = Some i \<longleftrightarrow> last_split (user_like env) xs i"
      using snoc by (simp add: user_like_def [of env x])
    then show ?thesis using False by (auto simp: last_split_def nth_append less_Suc_eq)
  qed
qed (simp add: last_split_def)

lemma rposition_last_split: "rposition P xs = Some i \<longleftrightarrow> last_split P xs i"
proof (induction xs rule: rev_induct)
  case (snoc x xs)
  have "filter (\<lambda>i. P ((xs @ [x]) ! i)) [0..<length xs] = filter (\<lambda>i. P (xs ! i)) [0..<length xs]"
    by (rule filter_cong) (auto simp: nth_append)
  then have "rposition P (xs @ [x]) = (if P x then Some (length xs) else rposition P xs)"
    by (simp add: rposition_def last_opt_def)
  then show ?case using snoc by (auto simp: last_split_def nth_append less_Suc_eq)
qed (simp add: rposition_def last_split_def)

text \<open>
  The initial context is placed as documented: right before the last real message of the user; if
  there is none, before the last summary; if there is none either, before the last
  compaction item; and at the end of a history with none of them. Nothing else changes.
\<close>

theorem initial_context_placement:
  "\<exists>i. insert_initial_context_before_last_real_user_or_summary env h context_items = take i h @ context_items @ drop i h \<and>
    (if \<exists>x. x \<in> set h \<and> real_user env x then last_split (real_user env) h i
     else if \<exists>x. x \<in> set h \<and> user_like env x then last_split (user_like env) h i
     else if \<exists>x. x \<in> set h \<and> is_compaction_item x then last_split is_compaction_item h i
     else i = length h)"
proof -
  obtain like real where scan: "scan_user_messages env (rev h) None = (like, real)" by force
  have real: "real = Some i \<longleftrightarrow> last_split (real_user env) h i" for i
    using scan_real [of env h None] scan by simp
  have like: "like = Some i \<longleftrightarrow> last_split (user_like env) h i" if "\<not> (\<exists>x\<in>set h. real_user env x)" for i
    using scan_like [OF that] scan by simp
  define at where "at = (case real of Some i \<Rightarrow> Some i | None \<Rightarrow> (case like of Some i \<Rightarrow> Some i | None \<Rightarrow> rposition is_compaction_item h))"
  have ins: "insert_initial_context_before_last_real_user_or_summary env h context_items =
      (case at of Some i \<Rightarrow> take i h @ context_items @ drop i h | None \<Rightarrow> h @ context_items)"
    by (simp add: insert_initial_context_before_last_real_user_or_summary_def scan at_def)
  have "(case at of Some i \<Rightarrow>
      (if \<exists>x\<in>set h. real_user env x then last_split (real_user env) h i
       else if \<exists>x\<in>set h. user_like env x then last_split (user_like env) h i
       else last_split is_compaction_item h i)
    | None \<Rightarrow> \<not> (\<exists>x\<in>set h. real_user env x) \<and> \<not> (\<exists>x\<in>set h. user_like env x) \<and> \<not> (\<exists>x\<in>set h. is_compaction_item x))"
  proof (cases "\<exists>x\<in>set h. real_user env x")
    case True
    then show ?thesis using real last_split_ex [of "real_user env" h] by (auto simp: at_def split: option.split)
  next
    case no_real: False
    then have "real = None" using real last_split_ex [of "real_user env" h] by (metis not_None_eq)
    then show ?thesis
      using no_real like [OF no_real] last_split_ex [of "user_like env" h] rposition_last_split [of is_compaction_item h]
        last_split_ex [of is_compaction_item h]
      by (auto simp: at_def split: option.split)
  qed
  then show ?thesis
    using ins last_split_ex [of is_compaction_item h]
    by (cases at) (auto simp: Bex_def [symmetric] intro: exI [of _ "length h"] split: if_splits)
qed

end
