(* ===== verification/World_State_Correct.thy ===== *)
theory World_State_Correct
  imports World_State
begin

text \<open>
  Merge patches are exact: a patch created between two snapshots and applied to the first gives the
  second, as JSON values. Values are compared through \<open>json_value\<close>, where an object is a finite map.
\<close>

section \<open>Values\<close>

datatype jvalue =
    VNull
  | VBool bool
  | VInt int
  | VFloat ustr
  | VStr ustr
  | VArr "jvalue list"
  | VObj "ustr \<Rightarrow> jvalue option"

primrec json_value :: "json \<Rightarrow> jvalue" where
  "json_value JNull = VNull"
| "json_value (JBool b) = VBool b"
| "json_value (JInt i) = VInt i"
| "json_value (JFloat f) = VFloat f"
| "json_value (JStr s) = VStr s"
| "json_value (JArr xs) = VArr (map json_value xs)"
| "json_value (JObj kvs) = VObj (map_of (map (map_prod id json_value) kvs))"

text \<open>Objects name every key once.\<close>

primrec wf_json :: "json \<Rightarrow> bool" where
  "wf_json JNull \<longleftrightarrow> True"
| "wf_json (JBool b) \<longleftrightarrow> True"
| "wf_json (JInt i) \<longleftrightarrow> True"
| "wf_json (JFloat f) \<longleftrightarrow> True"
| "wf_json (JStr s) \<longleftrightarrow> True"
| "wf_json (JArr xs) \<longleftrightarrow> list_all id (map wf_json xs)"
| "wf_json (JObj kvs) \<longleftrightarrow> distinct (map fst kvs) \<and> list_all snd (map (map_prod id wf_json) kvs)"

text \<open>No field of an object is null, outside arrays.\<close>

primrec null_free :: "json \<Rightarrow> bool" where
  "null_free JNull \<longleftrightarrow> True"
| "null_free (JBool b) \<longleftrightarrow> True"
| "null_free (JInt i) \<longleftrightarrow> True"
| "null_free (JFloat f) \<longleftrightarrow> True"
| "null_free (JStr s) \<longleftrightarrow> True"
| "null_free (JArr xs) \<longleftrightarrow> True"
| "null_free (JObj kvs) \<longleftrightarrow> JNull \<notin> snd ` set kvs \<and> list_all snd (map (map_prod id null_free) kvs)"

lemma map_of_json_value: "map_of (map (map_prod id json_value) kvs) k = map_option json_value (map_of kvs k)"
  by (induction kvs) auto

lemma wf_fieldD: "wf_json (JObj kvs) \<Longrightarrow> map_of kvs k = Some v \<Longrightarrow> wf_json v"
  by (auto simp: list_all_iff dest!: map_of_SomeD)

lemma wf_obj_iff: "wf_json (JObj kvs) \<longleftrightarrow> distinct (map fst kvs) \<and> (\<forall>(k, v) \<in> set kvs. wf_json v)"
  by (auto simp: list_all_iff)

lemma null_free_obj_iff: "null_free (JObj kvs) \<longleftrightarrow> (\<forall>(k, v) \<in> set kvs. v \<noteq> JNull \<and> null_free v)"
  by (force simp: list_all_iff)

lemma null_free_fieldD: "null_free (JObj kvs) \<Longrightarrow> map_of kvs k = Some v \<Longrightarrow> null_free v \<and> v \<noteq> JNull"
  unfolding null_free_obj_iff by (auto dest!: map_of_SomeD)

lemma map_of_fields_insert [simp]: "map_of (fields_insert k v kvs) = (map_of kvs)(k \<mapsto> v)"
proof (cases "k \<in> fst ` set kvs")
  case True
  have "map_of (map (\<lambda>(k', v'). if k' = k then (k, v) else (k', v')) kvs) x =
      (if x = k then (if k \<in> fst ` set kvs then Some v else None) else map_of kvs x)" for x
  proof (induction kvs)
    case (Cons e kvs)
    then show ?case by (cases e; cases "x = k") simp_all
  qed simp
  with True show ?thesis by (intro ext) (simp add: fields_insert_def)
next
  case False
  have "map_of (kvs @ [(k, v)]) x = (if x = k \<and> k \<notin> fst ` set kvs then Some v else map_of kvs x)" for x
    by (induction kvs) auto
  with False show ?thesis by (intro ext) (simp add: fields_insert_def del: map_of_append)
qed

lemma map_of_fields_remove [simp]: "map_of (fields_remove k kvs) = (map_of kvs)(k := None)"
  unfolding fields_remove_def by (induction kvs) (auto simp: fun_eq_iff)

lemma fields_insert_keys: "map fst (fields_insert k v kvs) = (if k \<in> fst ` set kvs then map fst kvs else map fst kvs @ [k])"
  by (auto simp: fields_insert_def)

lemma distinct_fields_insert: "distinct (map fst kvs) \<Longrightarrow> distinct (map fst (fields_insert k v kvs))"
  by (auto simp: fields_insert_keys)

section \<open>Equality\<close>

lemma json_eq_fields_iff:
  assumes "\<And>k x y. (k, x) \<in> set xs \<Longrightarrow> map_of ys k = Some y \<Longrightarrow> json_eq x y \<longleftrightarrow> json_value x = json_value y"
  shows "json_eq_fields xs ys \<longleftrightarrow> (\<forall>(k, x) \<in> set xs. \<exists>y. map_of ys k = Some y \<and> json_value x = json_value y)"
  using assms
proof (induction xs)
  case (Cons e xs)
  then show ?case by (cases e) (auto split: option.splits)
qed simp

lemma map_of_eq_via_fields:
  assumes "distinct (map fst xs)" "distinct (map fst ys)"
  shows "(length xs = length ys \<and> (\<forall>(k, x) \<in> set xs. \<exists>y. map_of ys k = Some y \<and> f x = f y)) \<longleftrightarrow>
    map_of (map (map_prod id f) xs) = map_of (map (map_prod id f) ys)" (is "?l \<longleftrightarrow> ?r")
proof
  have len: "length zs = card (fst ` set zs)" if "distinct (map fst zs)" for zs :: "('a \<times> 'b) list"
    using distinct_card [OF that] by simp
  have mo: "map_of (map (map_prod id f) zs) k = map_option f (map_of zs k)" for zs k by (induction zs) auto
  assume l: ?l
  then have "fst ` set xs \<subseteq> fst ` set ys" by (force dest: map_of_SomeD)
  then have keys: "fst ` set xs = fst ` set ys"
    using l len [OF assms(1)] len [OF assms(2)] by (intro card_subset_eq) auto
  show ?r
  proof
    fix k
    show "map_of (map (map_prod id f) xs) k = map_of (map (map_prod id f) ys) k"
    proof (cases "map_of xs k")
      case None
      then have "map_of ys k = None" using keys by (simp add: map_of_eq_None_iff)
      with None show ?thesis by (simp add: mo)
    next
      case (Some x)
      then have "(k, x) \<in> set xs" by (rule map_of_SomeD)
      with l Some show ?thesis by (auto simp: mo)
    qed
  qed
next
  have mo: "map_of (map (map_prod id f) zs) k = map_option f (map_of zs k)" for zs :: "('a \<times> 'b) list" and k by (induction zs) auto
  have len: "length zs = card (fst ` set zs)" if "distinct (map fst zs)" for zs :: "('a \<times> 'b) list"
    using distinct_card [OF that] by simp
  assume r: ?r
  then have eq: "map_option f (map_of xs k) = map_option f (map_of ys k)" for k by (metis mo)
  then have "map_of xs k = None \<longleftrightarrow> map_of ys k = None" for k by (metis option.map_disc_iff)
  then have "k \<in> fst ` set xs \<longleftrightarrow> k \<in> fst ` set ys" for k by (metis map_of_eq_None_iff)
  then have "fst ` set xs = fst ` set ys" by blast
  then have "length xs = length ys" using len assms by metis
  moreover have "\<exists>y. map_of ys k = Some y \<and> f x = f y" if "(k, x) \<in> set xs" for k x
    using eq [of k] map_of_is_SomeI [OF assms(1) that] by (cases "map_of ys k") auto
  ultimately show ?l by auto
qed

lemma json_eq_iff: "wf_json x \<Longrightarrow> wf_json y \<Longrightarrow> json_eq x y \<longleftrightarrow> json_value x = json_value y"
proof (induction x arbitrary: y)
  case (JArr xs)
  have "json_eq_list xs ys \<longleftrightarrow> map json_value xs = map json_value ys"
    if "\<forall>x \<in> set xs. wf_json x" "\<forall>y \<in> set ys. wf_json y" for ys
    using that JArr.IH
  proof (induction xs arbitrary: ys)
    case (Cons x xs)
    then show ?case by (cases ys) auto
  qed auto
  with JArr.prems show ?case by (cases y) (auto simp: list_all_iff)
next
  case (JObj xs)
  show ?case
  proof (cases y)
    case [simp]: (JObj ys)
    have "json_eq_fields xs ys \<longleftrightarrow> (\<forall>(k, x) \<in> set xs. \<exists>y. map_of ys k = Some y \<and> json_value x = json_value y)"
    proof (rule json_eq_fields_iff)
      fix k x y' assume a: "(k, x) \<in> set xs" "map_of ys k = Some y'"
      show "json_eq x y' \<longleftrightarrow> json_value x = json_value y'"
        by (rule JObj.IH) (use a JObj.prems in \<open>auto simp: list_all_iff snds.simps dest: map_of_SomeD\<close>)
    qed
    then show ?thesis
      using map_of_eq_via_fields [of xs ys json_value] JObj.prems by (simp add: wf_obj_iff del: wf_json.simps)
  qed simp_all
next
  case JNull
  then show ?case by (cases y) simp_all
next
  case (JBool b)
  then show ?case by (cases y) simp_all
next
  case (JInt i)
  then show ?case by (cases y) simp_all
next
  case (JFloat f)
  then show ?case by (cases y) simp_all
next
  case (JStr t)
  then show ?case by (cases y) simp_all
qed

section \<open>Patches\<close>

lemma map_of_apply_fields:
  assumes "distinct (map fst patch)"
  shows "map_of (apply_fields target patch) k = (case map_of patch k of
       None \<Rightarrow> map_of target k
     | Some v \<Rightarrow> if v = JNull then None
         else Some (apply_merge_patch_value (case map_of target k of Some t \<Rightarrow> t | None \<Rightarrow> JNull) v))"
  using assms
proof (induction patch arbitrary: target)
  case (Cons e patch)
  obtain k' v where e: "e = (k', v)" by (cases e)
  have "map_of patch k' = None" using Cons.prems e by (simp add: map_of_eq_None_iff)
  then show ?case using Cons e by (auto split: option.splits)
qed simp

lemma create_field_patches_keys:
  assumes "distinct (map fst patch)"
  shows "distinct (map fst (create_field_patches previous current patch))"
  using assms
proof (induction current arbitrary: patch)
  case (Cons e current)
  then show ?case by (cases e) (auto split: option.split intro!: distinct_fields_insert)
qed simp

lemma map_of_create_field_patches:
  assumes "distinct (map fst current)" "\<forall>k \<in> fst ` set current. map_of patch k = None"
  shows "map_of (create_field_patches previous current patch) k = (case map_of current k of
       None \<Rightarrow> map_of patch k
     | Some v \<Rightarrow> (case Option.bind previous (\<lambda>kvs. map_of kvs k) of None \<Rightarrow> Some v | Some p \<Rightarrow> create_merge_patch p v))"
  using assms
proof (induction current arbitrary: patch)
  case (Cons e current)
  obtain k' v where e: "e = (k', v)" by (cases e)
  let ?patch' = "case Option.bind previous (\<lambda>kvs. map_of kvs k') of
        None \<Rightarrow> fields_insert k' v patch
      | Some p \<Rightarrow> (case create_merge_patch p v of None \<Rightarrow> patch | Some q \<Rightarrow> fields_insert k' q patch)"
  have none: "map_of current k' = None" using Cons.prems(1) e by (simp add: map_of_eq_None_iff)
  have "\<forall>x \<in> fst ` set current. map_of ?patch' x = None"
    using Cons.prems e by (auto split: option.split)
  with Cons e have "map_of (create_field_patches previous (e # current) patch) k = (case map_of current k of
       None \<Rightarrow> map_of ?patch' k
     | Some v \<Rightarrow> (case Option.bind previous (\<lambda>kvs. map_of kvs k) of None \<Rightarrow> Some v | Some p \<Rightarrow> create_merge_patch p v))"
    by simp
  then show ?case using e none Cons.prems(2) by (auto split: option.split)
qed simp

lemma map_of_null_fields:
  "map_of (fold (\<lambda>k. fields_insert k JNull) ks patch) k = (if k \<in> set ks then Some JNull else map_of patch k)"
  by (induction ks arbitrary: patch) auto

lemma distinct_null_fields: "distinct (map fst patch) \<Longrightarrow> distinct (map fst (fold (\<lambda>k. fields_insert k JNull) ks patch))"
  by (induction ks arbitrary: patch) (auto intro: distinct_fields_insert)

text \<open>The fields of the patch between two objects; a value that is not an object has none.\<close>

lemma create_merge_patch_object:
  assumes "create_merge_patch p (JObj cur) = Some patch" "distinct (map fst cur)"
  defines "prev \<equiv> (case fields_of p of Some kvs \<Rightarrow> kvs | None \<Rightarrow> [])"
  shows "\<exists>pat. patch = JObj pat \<and> distinct (map fst pat) \<and>
    (\<forall>k. map_of pat k = (case map_of cur k of
        None \<Rightarrow> if map_of prev k = None then None else Some JNull
      | Some v \<Rightarrow> (case map_of prev k of None \<Rightarrow> Some v | Some q \<Rightarrow> create_merge_patch q v)))"
proof -
  define del where "del = (case fields_of p of None \<Rightarrow> []
    | Some kvs \<Rightarrow> fold (\<lambda>k. fields_insert k JNull) (filter (\<lambda>k. k \<notin> fst ` set cur) (map fst kvs)) [])"
  have patch: "patch = JObj (create_field_patches (fields_of p) cur del)"
    using assms(1) by (simp add: del_def split: if_splits)
  have del: "map_of del k = (if k \<in> fst ` set prev \<and> k \<notin> fst ` set cur then Some JNull else None)" for k
    by (auto simp: del_def prev_def map_of_null_fields split: option.split)
  have "distinct (map fst del)" by (auto simp: del_def distinct_null_fields split: option.split)
  then have "distinct (map fst (create_field_patches (fields_of p) cur del))" by (rule create_field_patches_keys)
  moreover have "Option.bind (fields_of p) (\<lambda>kvs. map_of kvs k) = map_of prev k" for k
    by (simp add: prev_def split: option.split)
  moreover have "k \<in> fst ` set prev \<longleftrightarrow> map_of prev k \<noteq> None" for k by (simp add: map_of_eq_None_iff)
  moreover have "k \<notin> fst ` set cur \<longleftrightarrow> map_of cur k = None" for k by (simp add: map_of_eq_None_iff)
  ultimately show ?thesis
    unfolding patch using map_of_create_field_patches [OF assms(2), of del "fields_of p"] del
    by (intro exI [of _ "create_field_patches (fields_of p) cur del"]) (auto split: option.split)
qed

lemma json_value_fields: "json_value (JObj kvs) = VObj (\<lambda>k. map_option json_value (map_of kvs k))"
  by (simp add: map_of_json_value fun_eq_iff)

text \<open>Applied to nothing, a value without nulls is itself.\<close>

lemma apply_to_null:
  assumes "wf_json v" "null_free v"
  shows "json_value (apply_merge_patch_value JNull v) = json_value v"
  using assms
proof (induction v)
  case (JObj kvs)
  have "map_option json_value (map_of (apply_fields [] kvs) k) = map_option json_value (map_of kvs k)" for k
  proof (cases "map_of kvs k")
    case None
    then show ?thesis using JObj.prems(1) by (simp add: map_of_apply_fields)
  next
    case (Some v)
    then have "(k, v) \<in> set kvs" by (rule map_of_SomeD)
    then have "json_value (apply_merge_patch_value JNull v) = json_value v"
      using JObj.IH [of "(k, v)" v] wf_fieldD [OF JObj.prems(1) Some] null_free_fieldD [OF JObj.prems(2) Some] by (simp add: snds.simps)
    then show ?thesis using Some JObj.prems(1) null_free_fieldD [OF JObj.prems(2) Some] by (simp add: map_of_apply_fields)
  qed
  then show ?case by (simp add: json_value_fields fields_of_def del: json_value.simps)
qed simp_all

lemma create_not_null: "create_merge_patch p c = Some q \<Longrightarrow> c \<noteq> JNull \<Longrightarrow> q \<noteq> JNull"
  by (cases c) (auto split: if_splits)

lemma create_None: "wf_json p \<Longrightarrow> wf_json c \<Longrightarrow> create_merge_patch p c = None \<Longrightarrow> json_value p = json_value c"
proof -
  assume wf: "wf_json p" "wf_json c" and "create_merge_patch p c = None"
  then have "json_eq p c" by (cases c) (auto split: if_splits)
  then show ?thesis using json_eq_iff wf by blast
qed

lemma apply_created:
  assumes "wf_json p" "wf_json c" "null_free c" "create_merge_patch p c = Some patch"
  shows "json_value (apply_merge_patch_value p patch) = json_value c"
  using assms
proof (induction c arbitrary: p patch)
  case (JObj cur)
  define prev where "prev = (case fields_of p of Some kvs \<Rightarrow> kvs | None \<Rightarrow> [])"
  have wfp: "wf_json v" if "map_of prev k = Some v" for k v
    using that JObj.prems(1) wf_fieldD by (cases p) (auto simp: prev_def fields_of_def)
  obtain pat where pat: "patch = JObj pat" "distinct (map fst pat)"
    and fields: "\<And>k. map_of pat k = (case map_of cur k of
        None \<Rightarrow> if map_of prev k = None then None else Some JNull
      | Some v \<Rightarrow> (case map_of prev k of None \<Rightarrow> Some v | Some q \<Rightarrow> create_merge_patch q v))"
    using create_merge_patch_object [OF JObj.prems(4)] JObj.prems(2) unfolding prev_def by auto
  have "map_option json_value (map_of (apply_fields prev pat) k) = map_option json_value (map_of cur k)" for k
  proof (cases "map_of cur k")
    case None
    then show ?thesis by (simp add: map_of_apply_fields [OF pat(2)] fields)
  next
    case (Some v)
    have v: "wf_json v" "null_free v" "v \<noteq> JNull"
      using wf_fieldD [OF JObj.prems(2) Some] null_free_fieldD [OF JObj.prems(3) Some] by auto
    show ?thesis
    proof (cases "map_of prev k")
      case None
      then show ?thesis using Some v apply_to_null by (simp add: map_of_apply_fields [OF pat(2)] fields)
    next
      case [simp]: (Some q)
      have IH: "json_value (apply_merge_patch_value q r) = json_value v" if "create_merge_patch q v = Some r" for r
        by (rule JObj.IH [of "(k, v)" v q]) (use \<open>map_of cur k = Some v\<close> v that wfp [OF Some] in \<open>auto simp: snds.simps dest: map_of_SomeD\<close>)
      show ?thesis
      proof (cases "create_merge_patch q v")
        case None
        then have "json_value q = json_value v" using create_None [OF wfp [OF Some] v(1)] by simp
        then show ?thesis using \<open>map_of cur k = Some v\<close> None by (simp add: map_of_apply_fields [OF pat(2)] fields)
      next
        case (Some r)
        then show ?thesis
          using \<open>map_of cur k = Some v\<close> IH create_not_null [OF Some v(3)] by (simp add: map_of_apply_fields [OF pat(2)] fields)
      qed
    qed
  qed
  then show ?case using pat(1) by (simp add: json_value_fields prev_def del: json_value.simps)
qed (auto split: if_splits)

lemma snapshot_patch_exact:
  assumes "wf_json (into_value previous)" "wf_json (into_value current)" "null_free (into_value current)"
  shows "(case merge_patch_from current previous of
       None \<Rightarrow> json_value (into_value previous) = json_value (into_value current)
     | Some patch \<Rightarrow> \<exists>s. apply_merge_patch previous patch = Some s \<and> json_value (into_value s) = json_value (into_value current))"
proof (cases "merge_patch_from current previous")
  case None
  then show ?thesis using create_None assms by (simp add: merge_patch_from_def)
next
  case (Some patch)
  then obtain pat where "patch = JObj pat" by (auto simp: merge_patch_from_def into_value_def split: if_splits)
  moreover have "json_value (apply_merge_patch_value (into_value previous) patch) = json_value (into_value current)"
    using apply_created [OF assms] Some by (simp add: merge_patch_from_def)
  ultimately show ?thesis
    using Some by (simp add: apply_merge_patch_def snapshot_from_value_def into_value_def fields_of_def)
qed

text \<open>
  C31: Merge patches between snapshots are exact. For two snapshots whose objects name every key once,
  the later one without null fields (which is how snapshots are taken), applying the patch that is
  persisted to the earlier snapshot gives the later one, as a JSON value; and if no patch is
  persisted the two are the same value.
\<close>

theorem merge_patch_roundtrip:
  assumes "wf_json (into_value previous)" "wf_json (into_value current)" "null_free (into_value current)"
  shows "(case merge_patch_from current previous of
       None \<Rightarrow> json_value (into_value previous) = json_value (into_value current)
     | Some patch \<Rightarrow> \<exists>s. apply_merge_patch previous patch = Some s \<and> json_value (into_value s) = json_value (into_value current))"
  by (rule snapshot_patch_exact [OF assms])

definition old_snapshot :: world_snapshot where
  "old_snapshot = [(lit ''env'', JObj [(lit ''cwd'', JStr (lit ''a'')), (lit ''net'', JBool True)]), (lit ''md'', JStr (lit ''x''))]"

definition new_snapshot :: world_snapshot where
  "new_snapshot = [(lit ''env'', JObj [(lit ''cwd'', JStr (lit ''b''))]), (lit ''md'', JStr (lit ''x''))]"

theorem merge_patch_roundtrip_witness:
  "\<exists>s. apply_merge_patch old_snapshot (JObj [(lit ''env'', JObj [(lit ''net'', JNull), (lit ''cwd'', JStr (lit ''b''))])]) = Some s \<and>
     json_value (into_value s) = json_value (into_value new_snapshot)"
proof -
  have 1: "wf_json (into_value old_snapshot)" "wf_json (into_value new_snapshot)" "null_free (into_value new_snapshot)" by code_simp+
  have "merge_patch_from new_snapshot old_snapshot =
      Some (JObj [(lit ''env'', JObj [(lit ''net'', JNull), (lit ''cwd'', JStr (lit ''b''))])])" by code_simp
  with merge_patch_roundtrip [OF 1] show ?thesis by (simp only: option.case)
qed

text \<open>A snapshot that is taken has no null fields.\<close>

lemma remove_null_not_null: "remove_null_object_fields v = JNull \<longleftrightarrow> v = JNull"
  by (cases v) simp_all

lemma remove_null_object_fields_free: "null_free (remove_null_object_fields v)"
  and remove_null_fields_free: "null_free (JObj (remove_null_fields kvs))"
proof (induction v and kvs rule: remove_null_object_fields_remove_null_fields.induct)
qed (auto simp: remove_null_not_null dest: sym [of JNull])

end
