(* ===== verification/Rollout_Correct.thy ===== *)
theory Rollout_Correct
  imports Rollout_Reconstruction Compaction_Correct World_State_Correct
begin

text \<open>
  The scan from the newest item is an optimisation of the plain replay of the whole rollout from the
  oldest. The two agree when nothing was rolled back, and when no item replaces the
  history; a turn that is rolled back together with the compaction it contains is where they
  differ.
\<close>

section \<open>The replay reads the items only\<close>

definition replay_out :: "(('r, 'w) context_manager \<times> bool) option \<Rightarrow> response_item list option" where
  "replay_out r = map_option (items \<circ> fst) r"

lemma record_items_items:
  "items m = items m' \<Longrightarrow> map_option items (record_items env p its m) = map_option items (record_items env p its m')"
proof (induction its arbitrary: m m')
  case (Cons i its)
  show ?case
  proof (cases "is_api_message i")
    case False
    then show ?thesis using Cons.IH [OF Cons.prems] by simp
  next
    case True
    obtain i' where "process_item env i p = Some i'" using process_item_total by blast
    then show ?thesis using True Cons.IH [of "m\<lparr>items := items m @ [i']\<rparr>" "m'\<lparr>items := items m' @ [i']\<rparr>"] Cons.prems by simp
  qed
qed simp

lemma drop_last_items: "items m = items m' \<Longrightarrow> items (drop_last_n_user_turns env n m) = items (drop_last_n_user_turns env n m')"
  by (simp add: drop_last_n_user_turns_def replace_items_def Let_def split: list.split prod.split)

lemma replay_out_record: "replay_out (map_option (\<lambda>h. (h, c)) r) = map_option items r"
  by (cases r) (simp_all add: replay_out_def)

lemma replay_item_cong:
  assumes "items m = items m'"
  shows "replay_out (replay_item env p i (m, b)) = replay_out (replay_item env p i (m', b'))"
proof (cases i)
  case (ResponseItem r)
  then show ?thesis using record_items_items [OF assms] by (simp add: replay_item_def replay_out_record del: record_items.simps)
next
  case (InterAgent c)
  then show ?thesis using record_items_items [OF assms] by (simp add: replay_item_def replay_out_record del: record_items.simps)
next
  case (Compacted c)
  then show ?thesis using assms
    by (cases "build_compacted_history [] (collect_user_messages env (items m')) (ci_message c)")
      (simp_all add: replay_item_def replay_out_def replace_items_def split: option.split)
next
  case (EventMsg e)
  then show ?thesis using drop_last_items [OF assms] assms by (cases e) (simp_all add: replay_item_def replay_out_def)
qed (simp_all add: replay_item_def replay_out_def assms)

lemma replay_items_cong:
  "items m = items m' \<Longrightarrow> replay_out (replay_items env p its (m, b)) = replay_out (replay_items env p its (m', b'))"
proof (induction its arbitrary: m m' b b')
  case Nil
  then show ?case by (simp add: replay_out_def)
next
  case (Cons i its)
  note step = replay_item_cong [OF Cons.prems, of env p i b b']
  show ?case
  proof (cases "replay_item env p i (m, b)")
    case None
    then show ?thesis using step by (cases "replay_item env p i (m', b')") (simp_all add: replay_out_def)
  next
    case (Some st)
    then obtain st' where "replay_item env p i (m', b') = Some st'" "items (fst st) = items (fst st')"
      using step by (cases "replay_item env p i (m', b')") (auto simp: replay_out_def)
    then show ?thesis using Some Cons.IH [of "fst st" "fst st'" "snd st" "snd st'"] by simp
  qed
qed

lemma record_items_total: "\<exists>m'. record_items env p its m = Some m'"
proof (induction its arbitrary: m)
  case (Cons i its)
  obtain i' where "process_item env i p = Some i'" using process_item_total by blast
  then show ?case using Cons.IH by simp
qed simp

lemma replay_item_total: "\<exists>st'. replay_item env p i st = Some st'"
proof -
  have b: "\<exists>h. build_compacted_history [] ms t = Some h" for ms t
    using select_messages_total [of COMPACT_USER_MESSAGE_MAX_TOKENS "rev ms"]
    by (auto simp: build_compacted_history_def build_compacted_history_with_limit_def COMPACT_USER_MESSAGE_MAX_TOKENS_def)
  obtain m c where st: "st = (m, c)" by force
  have r: "\<exists>m'. record_items (history_env.truncate env) p [x] m = Some m'" for x
    using record_items_total by blast
  show ?thesis
  proof (cases i)
    case (EventMsg e)
    then show ?thesis by (cases e) (simp_all add: replay_item_def st)
  next
    case (Compacted ci)
    then show ?thesis
      using b [of "collect_user_messages env (items m)" "ci_message ci"] by (auto simp: replay_item_def st split: option.split)
  next
    case (ResponseItem x)
    then show ?thesis using r [of x] by (auto simp: replay_item_def st simp del: record_items.simps)
  next
    case (InterAgent x)
    then show ?thesis using r [of "to_model_input_item x"] by (auto simp: replay_item_def st simp del: record_items.simps)
  qed (simp_all add: replay_item_def st)
qed

lemma replay_items_total: "\<exists>st'. replay_items env p its st = Some st'"
proof (induction its arbitrary: st)
  case (Cons i its)
  obtain st1 where "replay_item env p i st = Some st1" using replay_item_total by blast
  then show ?case using Cons.IH by simp
qed simp

lemma replay_items_append: "replay_items env p (xs @ ys) st = Option.bind (replay_items env p xs st) (replay_items env p ys)"
proof (induction xs arbitrary: st)
  case (Cons x xs)
  then show ?case by (cases "replay_item env p x st") simp_all
qed simp

text \<open>A history that replaces the conversation makes what came before irrelevant.\<close>

definition replacement :: "'x rollout_item \<Rightarrow> response_item list option" where
  "replacement item = (case item of Compacted c \<Rightarrow> ci_replacement_history c | _ \<Rightarrow> None)"

lemma replay_reset:
  fixes st :: "('r, 'w) context_manager \<times> bool"
  assumes "replacement i = Some h"
  shows "replay_out (replay_items env p (pre @ i # post) st) = replay_out (replay_items env p post (replace_items h (new_manager :: ('r, 'w) context_manager), False))"
proof -
  obtain m b where pre: "replay_items env p pre st = Some (m, b)" using replay_items_total by (metis surj_pair)
  obtain c where "i = Compacted c" "ci_replacement_history c = Some h" using assms by (cases i) (auto simp: replacement_def)
  then have "replay_items env p (pre @ i # post) st = replay_items env p post (replace_items h m, b)"
    using pre by (simp add: replay_items_append replay_item_def)
  then show ?thesis using replay_items_cong [of "replace_items h m" "replace_items h new_manager"] by (simp add: replace_items_def)
qed

section \<open>The scan without rollbacks\<close>

definition is_rollback :: "'x rollout_item \<Rightarrow> bool" where
  "is_rollback item = (case item of EventMsg (ThreadRolledBack _) \<Rightarrow> True | _ \<Rightarrow> False)"

definition world_record :: "'x rollout_item \<Rightarrow> bool" where
  "world_record item = (case item of Compacted _ \<Rightarrow> True | WorldState _ _ \<Rightarrow> True | _ \<Rightarrow> False)"

abbreviation open_base :: "('x, 'u) replay_state \<Rightarrow> response_item list option" where
  "open_base st \<equiv> seg_base (active_or_default st)"

abbreviation all_world :: "('x, 'u) replay_state \<Rightarrow> 'x rollout_item list" where
  "all_world st \<equiv> rs_world_state st @ seg_world_state (active_or_default st)"

lemma first_some_snoc: "first_some f (xs @ [x]) = (case first_some f xs of Some y \<Rightarrow> Some y | None \<Rightarrow> f x)"
  by (induction xs) (auto split: option.split)

lemma first_some_append: "first_some f (xs @ ys) = (case first_some f xs of Some y \<Rightarrow> Some y | None \<Rightarrow> first_some f ys)"
  by (induction xs) (auto split: option.split)

lemma first_some_None: "first_some f xs = None \<longleftrightarrow> (\<forall>x\<in>set xs. f x = None)"
  by (induction xs) (auto split: option.split)

text \<open>
  After the items from index \<open>k\<close> on: the newest history that replaces the conversation is the
  base, or it waits in the open segment; the suffix begins after such an item; the world-state
  records are those of the items.
\<close>

definition scan_inv :: "'x rollout_item list \<Rightarrow> nat \<Rightarrow> ('x, 'u) replay_state \<Rightarrow> bool" where
  "scan_inv rollout k st \<longleftrightarrow>
     rs_pending_rollback st = 0 \<and>
     all_world st = rev (filter world_record (drop k rollout)) \<and>
     (case first_some replacement (rev (drop k rollout)) of
        None \<Rightarrow> rs_suffix st = rollout \<and> rs_base st = None \<and> open_base st = None
      | Some h \<Rightarrow>
          (\<exists>i<length rollout. k \<le> i \<and> replacement (rollout ! i) \<noteq> None \<and> rs_suffix st = drop (Suc i) rollout) \<and>
          (rs_base st = Some h \<or> rs_base st = None \<and> open_base st = Some h))"

text \<open>What an item other than a compaction or a rollback does to these variables.\<close>

lemma finalize_keeps:
  assumes "rs_pending_rollback st = 0" "rs_active st = Some seg" "st' = finalize_active_segment seg (st\<lparr>rs_active := None\<rparr>)"
  shows "rs_pending_rollback st' = 0" "rs_suffix st' = rs_suffix st" "all_world st' = all_world st" "open_base st' = None"
    "rs_base st' = (case rs_base st of None \<Rightarrow> open_base st | Some b \<Rightarrow> Some b)"
  using assms by (auto simp: finalize_active_segment_def active_or_default_def default_segment_def split: option.split)

lemma scan_other:
  assumes "\<not> is_rollback item" "replacement item = None" "\<not> is_compacted item" "rs_pending_rollback st = 0"
    "st' = scan_item env parse_uuid newer item st"
  shows "rs_pending_rollback st' = 0 \<and> rs_suffix st' = rs_suffix st \<and>
    all_world st' = all_world st @ (if world_record item then [item] else []) \<and>
    (rs_base st' = rs_base st \<and> open_base st' = open_base st \<or>
     rs_base st' = (case rs_base st of None \<Rightarrow> open_base st | Some b \<Rightarrow> Some b) \<and> open_base st' = None)"
proof (cases item)
  case (EventMsg e)
  show ?thesis
  proof (cases e)
    case (TurnStarted t)
    show ?thesis
    proof (cases "rs_active st")
      case (Some seg)
      then show ?thesis
        using assms EventMsg TurnStarted finalize_keeps [OF assms(4) Some refl]
        by (simp add: scan_item_def scan_event_def world_record_def)
    qed (use assms EventMsg TurnStarted in \<open>simp add: scan_item_def scan_event_def world_record_def\<close>)
  next
    case (ThreadRolledBack n)
    then show ?thesis using assms(1) EventMsg by (simp add: is_rollback_def)
  qed (use assms EventMsg in \<open>auto simp: scan_item_def scan_event_def world_record_def active_or_default_def default_segment_def Let_def split: option.split\<close>)
next
  case (TurnContext c)
  then show ?thesis
    using assms by (auto simp: scan_item_def scan_turn_context_def world_record_def active_or_default_def default_segment_def Let_def)
qed (use assms in \<open>auto simp: scan_item_def world_record_def is_compacted_def active_or_default_def default_segment_def Let_def\<close>)

lemma scan_inv_step:
  assumes inv: "scan_inv rollout (Suc k) st" and k: "k < length rollout" "\<not> is_rollback (rollout ! k)"
  shows "scan_inv rollout k (scan_item env parse_uuid (drop (Suc k) rollout) (rollout ! k) st)" (is "scan_inv _ _ ?st")
proof -
  have d: "drop k rollout = rollout ! k # drop (Suc k) rollout" using k(1) by (simp add: Cons_nth_drop_Suc)
  have p: "rs_pending_rollback st = 0" and w: "all_world st = rev (filter world_record (drop (Suc k) rollout))"
    using inv by (simp_all add: scan_inv_def)
  show ?thesis
  proof (cases "is_compacted (rollout ! k)")
    case False
    then have r: "replacement (rollout ! k) = None" by (cases "rollout ! k") (simp_all add: is_compacted_def replacement_def)
    note other = scan_other [OF k(2) r False p refl, of env parse_uuid "drop (Suc k) rollout"]
    have "first_some replacement (rev (drop k rollout)) = first_some replacement (rev (drop (Suc k) rollout))"
      by (simp add: d first_some_snoc r split: option.split)
    then show ?thesis
      using inv other w unfolding scan_inv_def d by (auto split: option.splits)
  next
    case True
    then obtain c where c: "rollout ! k = Compacted c" by (cases "rollout ! k") (auto simp: is_compacted_def)
    have st: "?st = scan_compacted parse_uuid (drop (Suc k) rollout) c st" using c by (simp add: scan_item_def)
    have "rs_pending_rollback ?st = 0" "all_world ?st = rev (filter world_record (drop k rollout))" "rs_base ?st = rs_base st"
      unfolding st using p w by (simp_all add: scan_compacted_def Let_def active_or_default_def d c world_record_def)
    moreover have "open_base ?st = (case open_base st of None \<Rightarrow> ci_replacement_history c | Some b \<Rightarrow> Some b)"
      "rs_suffix ?st = (if open_base st = None \<and> ci_replacement_history c \<noteq> None then drop (Suc k) rollout else rs_suffix st)"
      by (auto simp: st scan_compacted_def Let_def active_or_default_def split: option.split)
    moreover have "first_some replacement (rev (drop k rollout)) =
        (case first_some replacement (rev (drop (Suc k) rollout)) of Some y \<Rightarrow> Some y | None \<Rightarrow> ci_replacement_history c)"
      by (simp add: d first_some_snoc c replacement_def [of "Compacted c"] split: option.split)
    moreover have "replacement (rollout ! k) = ci_replacement_history c" by (simp add: c replacement_def)
    ultimately show ?thesis
      using inv k(1) unfolding scan_inv_def by (auto split: option.splits)
  qed
qed

lemma scan_loop_inv:
  assumes "\<forall>i\<in>set rollout. \<not> is_rollback i" "k \<le> length rollout" "scan_inv rollout k st"
  shows "\<exists>k'\<le>k. scan_inv rollout k' (scan_loop env parse_uuid rollout k st) \<and>
     (k' = 0 \<or> scan_done (scan_loop env parse_uuid rollout k st))"
  using assms(2,3)
proof (induction k arbitrary: st)
  case (Suc k)
  let ?st = "scan_item env parse_uuid (drop (Suc k) rollout) (rollout ! k) st"
  have inv: "scan_inv rollout k ?st" using scan_inv_step [OF Suc.prems(2)] Suc.prems(1) assms(1) by simp
  show ?case
  proof (cases "scan_done ?st")
    case True
    then show ?thesis using inv by (intro exI [of _ k]) simp
  next
    case False
    then show ?thesis using Suc.IH [OF _ inv] Suc.prems(1) by (auto intro: le_SucI)
  qed
qed auto

lemma scan_start_inv: "scan_inv rollout (length rollout) (scan_start rollout)"
  by (simp add: scan_inv_def scan_start_def active_or_default_def default_segment_def)

text \<open>Fold over the world-state records: what comes before a compaction does not matter.\<close>

lemma replay_world_records: "replay_world_state (filter world_record its) = replay_world_state its"
proof -
  have "fold replay_world_state_item (filter world_record its) b = fold replay_world_state_item its b" for b
    by (induction its arbitrary: b) (auto simp: world_record_def replay_world_state_item_def split: rollout_item.splits)
  then show ?thesis by (simp add: replay_world_state_def)
qed

lemma replay_world_reset: "is_compacted i \<Longrightarrow> replay_world_state (pre @ i # post) = replay_world_state (i # post)"
  by (cases i) (simp_all add: replay_world_state_def replay_world_state_item_def is_compacted_def)

lemma newest_replacement:
  assumes "first_some f (rev xs) = Some h"
  obtains pre x post where "xs = pre @ x # post" "f x = Some h" "\<forall>y\<in>set post. f y = None"
  using assms
proof (induction xs arbitrary: thesis rule: rev_induct)
  case (snoc y ys)
  show ?case
  proof (cases "f y")
    case None
    then obtain pre x post where "ys = pre @ x # post" "f x = Some h" "\<forall>y\<in>set post. f y = None"
      using snoc.IH snoc.prems(2) by auto
    then show ?thesis using snoc.prems(1) [of pre x "post @ [y]"] None by simp
  next
    case (Some z)
    then show ?thesis using snoc.prems(1) [of ys y "[]"] snoc.prems(2) by simp
  qed
qed simp

lemma scan_rollout_result:
  assumes "\<forall>i\<in>set rollout. \<not> is_rollback i" and st_def: "st = scan_rollout env parse_uuid rollout"
  shows "(case first_some replacement (rev rollout) of
      None \<Rightarrow> rs_suffix st = rollout \<and> rs_base st = None
    | Some h \<Rightarrow> rs_base st = Some h \<and> (\<exists>i<length rollout. replacement (rollout ! i) \<noteq> None \<and> rs_suffix st = drop (Suc i) rollout))"
    and "replay_world_state (rev (rs_world_state st)) = replay_world_state rollout"
proof -
  define st1 where "st1 = scan_loop env parse_uuid rollout (length rollout) (scan_start rollout)"
  obtain k where k: "k \<le> length rollout" "scan_inv rollout k st1" "k = 0 \<or> scan_done st1"
    using scan_loop_inv [OF assms(1) order_refl scan_start_inv] unfolding st1_def by blast
  have p: "rs_pending_rollback st1 = 0" and w: "all_world st1 = rev (filter world_record (drop k rollout))"
    using k(2) by (simp_all add: scan_inv_def)
  have eqs: "rs_suffix st = rs_suffix st1" "rs_base st = (case rs_base st1 of None \<Rightarrow> open_base st1 | Some b \<Rightarrow> Some b)"
    "rs_world_state st = all_world st1"
  proof -
    have none: "rs_active st1 = None \<Longrightarrow> st = st1" by (simp add: st_def scan_rollout_def st1_def [symmetric] Let_def)
    have some: "rs_active st1 = Some seg \<Longrightarrow> st = finalize_active_segment seg (st1\<lparr>rs_active := None\<rparr>)" for seg
      by (simp add: st_def scan_rollout_def st1_def [symmetric] Let_def)
    show "rs_suffix st = rs_suffix st1" "rs_base st = (case rs_base st1 of None \<Rightarrow> open_base st1 | Some b \<Rightarrow> Some b)"
      "rs_world_state st = all_world st1"
      using none some finalize_keeps [OF p _ refl] p
      by (cases "rs_active st1"; auto simp: active_or_default_def default_segment_def finalize_active_segment_def split: option.split)+
  qed
  have newest: "first_some replacement (rev rollout) = first_some replacement (rev (drop k rollout))"
  proof (cases "k = 0")
    case False
    then have "rs_base st1 \<noteq> None" using k(3) by (simp add: scan_done_def)
    then have "first_some replacement (rev (drop k rollout)) \<noteq> None" using k(2) by (auto simp: scan_inv_def split: option.splits)
    moreover have "rev rollout = rev (drop k rollout) @ rev (take k rollout)" by (metis append_take_drop_id rev_append)
    ultimately show ?thesis by (auto simp: first_some_append split: option.split)
  qed simp
  show "(case first_some replacement (rev rollout) of
      None \<Rightarrow> rs_suffix st = rollout \<and> rs_base st = None
    | Some h \<Rightarrow> rs_base st = Some h \<and> (\<exists>i<length rollout. replacement (rollout ! i) \<noteq> None \<and> rs_suffix st = drop (Suc i) rollout))"
    using k(2) unfolding newest eqs scan_inv_def by (auto split: option.splits)
  have "replay_world_state (drop k rollout) = replay_world_state rollout"
  proof (cases "k = 0")
    case False
    then have "rs_base st1 \<noteq> None" using k(3) by (simp add: scan_done_def)
    then obtain h where "first_some replacement (rev (drop k rollout)) = Some h" using k(2) by (auto simp: scan_inv_def split: option.splits)
    then obtain i where "i \<in> set (drop k rollout)" "replacement i \<noteq> None"
      using first_some_None [of replacement "rev (drop k rollout)"] by auto
    have "is_compacted i" using \<open>replacement i \<noteq> None\<close> by (cases i) (simp_all add: replacement_def is_compacted_def)
    then obtain a b where ab: "drop k rollout = a @ i # b" "is_compacted i"
      using split_list [OF \<open>i \<in> set (drop k rollout)\<close>] by blast
    then have "rollout = (take k rollout @ a) @ i # b" by (metis append.assoc append_take_drop_id)
    then show ?thesis using replay_world_reset [OF ab(2)] ab(1) by metis
  qed simp
  then show "replay_world_state (rev (rs_world_state st)) = replay_world_state rollout"
    using w eqs(3) by (simp add: replay_world_records)
qed

section \<open>Reconstruction is replay\<close>

definition replayed_history :: "event_env \<Rightarrow> truncation_policy \<Rightarrow> 'x rollout_item list \<Rightarrow> response_item list option" where
  "replayed_history env policy rollout = replay_out (replay_items env policy rollout (new_manager :: (unit, unit) context_manager, False))"

lemma reconstruct_fields:
  "map_option rr_history (reconstruct_history_from_rollout env parse_uuid policy rollout) =
     (let st = scan_rollout env parse_uuid rollout
      in replay_out (replay_items env policy (rs_suffix st)
           (case rs_base st of Some b \<Rightarrow> replace_items b (new_manager :: (unit, unit) context_manager) | None \<Rightarrow> new_manager, False)))"
  "map_option rr_world_state_baseline (reconstruct_history_from_rollout env parse_uuid policy rollout) =
     Some (replay_world_state (rev (rs_world_state (scan_rollout env parse_uuid rollout))))"
proof -
  let ?st = "scan_rollout env parse_uuid rollout"
  obtain h b where r: "replay_items env policy (rs_suffix ?st)
      (case rs_base ?st of Some b \<Rightarrow> replace_items b (new_manager :: (unit, unit) context_manager) | None \<Rightarrow> new_manager, False) = Some (h, b)"
    using replay_items_total by (metis surj_pair)
  show "map_option rr_history (reconstruct_history_from_rollout env parse_uuid policy rollout) =
     (let st = scan_rollout env parse_uuid rollout
      in replay_out (replay_items env policy (rs_suffix st)
           (case rs_base st of Some b \<Rightarrow> replace_items b (new_manager :: (unit, unit) context_manager) | None \<Rightarrow> new_manager, False)))"
    "map_option rr_world_state_baseline (reconstruct_history_from_rollout env parse_uuid policy rollout) =
     Some (replay_world_state (rev (rs_world_state ?st)))"
    using r by (simp_all add: reconstruct_history_from_rollout_def replay_out_def Let_def)
qed

lemma reconstruct_without_rollback:
  assumes "\<forall>i\<in>set rollout. \<not> is_rollback i"
  shows "map_option rr_history (reconstruct_history_from_rollout env parse_uuid policy rollout) = replayed_history env policy rollout"
proof (cases "first_some replacement (rev rollout)")
  case None
  then show ?thesis
    using scan_rollout_result(1) [OF assms refl, of env parse_uuid] by (simp add: reconstruct_fields replayed_history_def Let_def)
next
  case (Some h)
  then obtain i where i: "i < length rollout" "replacement (rollout ! i) \<noteq> None"
    "rs_suffix (scan_rollout env parse_uuid rollout) = drop (Suc i) rollout" "rs_base (scan_rollout env parse_uuid rollout) = Some h"
    using scan_rollout_result(1) [OF assms refl, of env parse_uuid] by auto
  obtain pre x post where x: "rollout = pre @ x # post" "replacement x = Some h" "\<forall>y\<in>set post. replacement y = None"
    using newest_replacement [OF Some] by blast
  have le: "i \<le> length pre"
  proof (rule ccontr)
    assume "\<not> i \<le> length pre"
    then obtain j where "i = Suc (length pre) + j" by (metis add_Suc le_Suc_ex not_less_eq_eq)
    then have "rollout ! i = post ! j" "j < length post" using i(1) x(1) by (auto simp: nth_append)
    then show False using i(2) x(3) by (metis nth_mem)
  qed
  let ?new = "new_manager :: (unit, unit) context_manager"
  have "replay_out (replay_items env policy (drop (Suc i) rollout) (replace_items h ?new, False)) =
      replay_out (replay_items env policy post (replace_items h ?new, False))"
  proof (cases "i = length pre")
    case True
    then show ?thesis using x(1) by simp
  next
    case False
    then have "drop (Suc i) rollout = drop (Suc i) pre @ x # post" using x(1) le by simp
    then show ?thesis using replay_reset [OF x(2)] by simp
  qed
  then show ?thesis
    using i replay_reset [OF x(2), of env policy pre post "(?new, False)"] x(1) by (simp add: reconstruct_fields replayed_history_def Let_def)
qed

text \<open>The reconstruction without items that replace the history: the scan keeps the whole rollout.\<close>

lemma scan_keeps_suffix:
  assumes "\<forall>i\<in>set rollout. replacement i = None" "k \<le> length rollout" "rs_base st = None" "open_base st = None" "rs_suffix st = rollout"
  shows "rs_base (scan_loop env parse_uuid rollout k st) = None \<and> open_base (scan_loop env parse_uuid rollout k st) = None \<and>
     rs_suffix (scan_loop env parse_uuid rollout k st) = rollout"
  using assms(2-5)
proof (induction k arbitrary: st)
  case (Suc k)
  let ?i = "rollout ! k" and ?st = "scan_item env parse_uuid (drop (Suc k) rollout) (rollout ! k) st"
  have r: "replacement ?i = None" using assms(1) Suc.prems(1) by simp
  have "rs_base ?st = None \<and> open_base ?st = None \<and> rs_suffix ?st = rollout"
  proof (cases ?i)
    case (Compacted c)
    then show ?thesis using r Suc.prems by (simp add: scan_item_def scan_compacted_def replacement_def active_or_default_def Let_def)
  next
    case (EventMsg e)
    then show ?thesis
      using Suc.prems by (cases e)
        (auto simp: scan_item_def scan_event_def finalize_active_segment_def active_or_default_def default_segment_def Let_def split: option.splits)
  next
    case (TurnContext c)
    then show ?thesis using Suc.prems by (auto simp: scan_item_def scan_turn_context_def active_or_default_def Let_def)
  qed (use Suc.prems in \<open>auto simp: scan_item_def active_or_default_def Let_def\<close>)
  then show ?case using Suc.IH [of ?st] Suc.prems(1) by (auto simp: Let_def)
qed simp

lemma reconstruct_without_replacement:
  assumes "\<forall>i\<in>set rollout. replacement i = None"
  shows "map_option rr_history (reconstruct_history_from_rollout env parse_uuid policy rollout) = replayed_history env policy rollout"
proof -
  let ?st = "scan_loop env parse_uuid rollout (length rollout) (scan_start rollout)"
  have "rs_base ?st = None" "open_base ?st = None" "rs_suffix ?st = rollout"
    using scan_keeps_suffix [OF assms order_refl, of "scan_start rollout" env parse_uuid]
    by (auto simp: scan_start_def active_or_default_def default_segment_def)
  then have "rs_base (scan_rollout env parse_uuid rollout) = None" "rs_suffix (scan_rollout env parse_uuid rollout) = rollout"
    by (auto simp: scan_rollout_def finalize_active_segment_def active_or_default_def Let_def split: option.splits)
  then show ?thesis by (simp add: reconstruct_fields replayed_history_def Let_def)
qed

text \<open>
  C6: The reconstruction of a thread is the replay of its log. If the log has no rollback, or no
  compaction with a replacement history, the history that the scan from the newest item rebuilds is
  the one the items give when they are replayed from the oldest; and without a rollback the
  world state it resumes with is that of all the records, too.
\<close>

theorem reconstruction_is_replay:
  assumes "(\<forall>i\<in>set rollout. \<not> is_rollback i) \<or> (\<forall>i\<in>set rollout. replacement i = None)"
  shows "map_option rr_history (reconstruct_history_from_rollout env parse_uuid policy rollout) = replayed_history env policy rollout \<and>
    ((\<forall>i\<in>set rollout. \<not> is_rollback i) \<longrightarrow>
      map_option rr_world_state_baseline (reconstruct_history_from_rollout env parse_uuid policy rollout) =
        Some (replay_world_state rollout))"
  using assms reconstruct_without_rollback reconstruct_without_replacement scan_rollout_result(2) [OF _ refl]
  by (auto simp: reconstruct_fields(2))

definition sample_log :: "unit rollout_item list" where
  "sample_log =
     [EventMsg (TurnStarted (lit ''1'')), EventMsg UserMessageEvent, ResponseItem (user_message_item (lit ''a'') None),
      EventMsg (TurnComplete (lit ''1'')), EventMsg (TurnStarted (lit ''2'')),
      Compacted \<lparr>ci_message = [], ci_replacement_history = Some [user_message_item (lit ''s'') None], ci_window_number = Some 1,
        ci_first_window_id = None, ci_previous_window_id = None, ci_window_id = None\<rparr>,
      EventMsg UserMessageEvent, ResponseItem (user_message_item (lit ''b'') None), EventMsg (TurnComplete (lit ''2''))]"

theorem reconstruction_is_replay_witness:
  "map_option rr_history (reconstruct_history_from_rollout plain_events (\<lambda>_. None :: unit option) (Bytes 100) sample_log) =
     replayed_history plain_events (Bytes 100) sample_log"
proof -
  have "(\<forall>i\<in>set sample_log. \<not> is_rollback i) \<or> (\<forall>i\<in>set sample_log. replacement i = None)" by code_simp
  from reconstruction_is_replay [OF this, of plain_events "\<lambda>_. None :: unit option" "Bytes 100"] show ?thesis by blast
qed


end
