(* ===== verification/Session_Log_Correct.thy ===== *)
theory Session_Log_Correct
  imports Session_Log Rollout_Correct
begin

text \<open>
  The log is complete: at every moment of a session that was not rolled back, the reconstruction
  from its log is the live history and the live world state. The operations are the steps of a
  relation; the invariant is proved for each of them and carried over all reachable states.
\<close>

section \<open>Merge patches, again\<close>

text \<open>A patch does the same to two objects that are the same value.\<close>

lemma apply_merge_patch_cong:
  assumes "wf_json patch" "json_value t = json_value t'"
  shows "json_value (apply_merge_patch_value t patch) = json_value (apply_merge_patch_value t' patch)"
  using assms
proof (induction patch arbitrary: t t')
  case (JObj pat)
  let ?kvs = "\<lambda>t. case fields_of t of Some kvs \<Rightarrow> kvs | None \<Rightarrow> []"
  have fields: "map_option json_value (map_of (?kvs t) k) = map_option json_value (map_of (?kvs t') k)" for k
    using JObj.prems(2) by (cases t; cases t') (auto simp: fields_of_def fun_eq_iff map_of_json_value)
  have d: "distinct (map fst pat)" using JObj.prems(1) by simp
  have "map_option json_value (map_of (apply_fields (?kvs t) pat) k) = map_option json_value (map_of (apply_fields (?kvs t') pat) k)" for k
  proof (cases "map_of pat k")
    case None
    then show ?thesis using fields by (simp add: map_of_apply_fields [OF d])
  next
    case (Some v)
    define x x' where "x = (case map_of (?kvs t) k of Some x \<Rightarrow> x | None \<Rightarrow> JNull)"
      and "x' = (case map_of (?kvs t') k of Some x \<Rightarrow> x | None \<Rightarrow> JNull)"
    have x: "json_value x = json_value x'"
      unfolding x_def x'_def using fields [of k] by (cases "map_of (?kvs t) k"; cases "map_of (?kvs t') k") simp_all
    have "json_value (apply_merge_patch_value x v) = json_value (apply_merge_patch_value x' v)"
      by (rule JObj.IH [of "(k, v)" v]) (use map_of_SomeD [OF Some] wf_fieldD [OF JObj.prems(1) Some] x in \<open>auto simp: snds.simps\<close>)
    then show ?thesis
      using Some unfolding map_of_apply_fields [OF d] Some option.case x_def [symmetric] x'_def [symmetric] by simp
  qed
  then show ?case by (simp add: json_value_fields del: json_value.simps)
qed simp_all

lemma created_wf: "wf_json p \<Longrightarrow> wf_json c \<Longrightarrow> create_merge_patch p c = Some q \<Longrightarrow> wf_json q"
proof (induction c arbitrary: p q)
  case (JObj cur)
  define prev where "prev = (case fields_of p of Some kvs \<Rightarrow> kvs | None \<Rightarrow> [])"
  have wfp: "wf_json v" if "map_of prev k = Some v" for k v
    using that JObj.prems(1) wf_fieldD by (cases p) (auto simp: prev_def fields_of_def)
  obtain pat where pat: "q = JObj pat" "distinct (map fst pat)"
    and fields: "\<And>k. map_of pat k = (case map_of cur k of
        None \<Rightarrow> if map_of prev k = None then None else Some JNull
      | Some v \<Rightarrow> (case map_of prev k of None \<Rightarrow> Some v | Some q \<Rightarrow> create_merge_patch q v))"
    using create_merge_patch_object [OF JObj.prems(3)] JObj.prems(2) unfolding prev_def by auto
  have "wf_json v" if "(k, v) \<in> set pat" for k v
  proof (cases "map_of cur k")
    case None
    then show ?thesis using map_of_is_SomeI [OF pat(2) that] fields [of k] by (auto split: if_splits)
  next
    case (Some w)
    have w: "wf_json w" "w \<in> Basic_BNFs.snds (k, w)" "(k, w) \<in> set cur"
      using wf_fieldD [OF JObj.prems(2) Some] map_of_SomeD [OF Some] by (simp_all add: snds.simps)
    show ?thesis
      using map_of_is_SomeI [OF pat(2) that] fields [of k] Some w(1) JObj.IH [OF w(3,2) wfp w(1)]
      by (auto split: option.splits)
  qed
  then show ?case using pat by (auto simp: list_all_iff)
qed (auto split: if_splits)

definition good_snapshot :: "world_snapshot \<Rightarrow> bool" where
  "good_snapshot w \<longleftrightarrow> wf_json (into_value w) \<and> null_free (into_value w)"

definition same_world :: "world_snapshot option \<Rightarrow> world_snapshot option \<Rightarrow> bool" where
  "same_world a b \<longleftrightarrow> map_option (json_value \<circ> into_value) a = map_option (json_value \<circ> into_value) b"

lemma same_world_patch:
  assumes "same_world (Some a) (Some b)" "good_snapshot b" "good_snapshot c"
  shows "same_world (case merge_patch_from c b of None \<Rightarrow> Some a | Some patch \<Rightarrow> apply_merge_patch a patch) (Some c)"
proof (cases "merge_patch_from c b")
  case None
  then show ?thesis
    using create_None [of "into_value b" "into_value c"] assms by (simp add: same_world_def good_snapshot_def merge_patch_from_def)
next
  case (Some patch)
  then obtain pat where p: "patch = JObj pat" by (auto simp: merge_patch_from_def into_value_def split: if_splits)
  have wf: "wf_json patch" using created_wf Some assms(2,3) by (auto simp: merge_patch_from_def good_snapshot_def)
  have "json_value (apply_merge_patch_value (into_value b) patch) = json_value (into_value c)"
    using apply_created Some assms(2,3) by (simp add: merge_patch_from_def good_snapshot_def)
  then have "json_value (apply_merge_patch_value (into_value a) patch) = json_value (into_value c)"
    using apply_merge_patch_cong [OF wf, of "into_value a" "into_value b"] assms(1) by (simp add: same_world_def)
  then show ?thesis using Some p by (simp add: same_world_def apply_merge_patch_def snapshot_from_value_def into_value_def fields_of_def)
qed

section \<open>Replaying what an operation wrote\<close>

lemma replay_recorded:
  "replay_items env p (map ResponseItem its) (m, b) = map_option (\<lambda>h. (h, b)) (record_items (history_env.truncate env) p its m)"
proof (induction its arbitrary: m)
  case (Cons i its)
  obtain i' where "process_item (history_env.truncate env) i p = Some i'" using process_item_total by blast
  then show ?case using Cons.IH by (simp add: replay_item_def)
qed simp

text \<open>Items of the history that the log does not keep: there are none among those that are recorded.\<close>

definition recordable :: "response_item list \<Rightarrow> bool" where
  "recordable its \<longleftrightarrow> (\<forall>i\<in>set its. is_api_message i \<longrightarrow> should_persist_response_item i)"

lemma record_persisted:
  "recordable its \<Longrightarrow> record_items env p (filter should_persist_response_item its) m = record_items env p its m"
  by (induction its arbitrary: m) (auto simp: recordable_def split: option.split)

lemma persisted_responses:
  "persisted_rollout_items (map ResponseItem its) = map ResponseItem (filter should_persist_response_item its)"
  by (simp add: persisted_rollout_items_def filter_map o_def is_persisted_rollout_item_def)

lemma baseline_items_commute: "m\<lparr>world_state_baseline := w, items := x\<rparr> = m\<lparr>items := x, world_state_baseline := w\<rparr>"
  by (cases m) simp

lemma record_items_baseline:
  "record_items env p its (m\<lparr>world_state_baseline := w\<rparr>) = map_option (\<lambda>h. h\<lparr>world_state_baseline := w\<rparr>) (record_items env p its m)"
proof (induction its arbitrary: m)
  case (Cons i its)
  show ?case using Cons.IH [of m] Cons.IH [of "m\<lparr>items := items m @ [the (process_item env i p)]\<rparr>"] 
    by (auto simp: baseline_items_commute split: option.split)
qed simp

lemma record_items_keeps:
  "record_items env p its m = Some m' \<Longrightarrow>
     world_state_baseline m' = world_state_baseline m \<and> reference_context_item m' = reference_context_item m"
  by (induction its arbitrary: m) (auto split: if_splits option.split_asm)

lemma replayed_noop:
  "(\<And>st :: (unit, unit) context_manager \<times> bool. replay_item env p i st = Some st) \<Longrightarrow> replayed_history env p (log @ [i]) = replayed_history env p log"
  by (cases "replay_items env p log (new_manager :: (unit, unit) context_manager, False)")
    (simp_all add: replayed_history_def replay_items_append)

lemma replayed_compacted:
  "ci_replacement_history c = Some h \<Longrightarrow> replayed_history env p (log @ [Compacted c]) = Some h"
  using replay_reset [of "Compacted c" h env p log "[]" "(new_manager :: (unit, unit) context_manager, False)"]
  by (simp add: replayed_history_def replacement_def replay_out_def replace_items_def)

lemma replayed_recorded:
  assumes "replayed_history env p log = Some (items m)" "record_items (history_env.truncate env) p its m = Some m'"
  shows "replayed_history env p (log @ map ResponseItem its) = Some (items m')"
proof -
  obtain m0 :: "(unit, unit) context_manager" and b where m0: "replay_items env p log (new_manager, False) = Some (m0, b)" "items m0 = items m"
    using assms(1) by (auto simp: replayed_history_def replay_out_def)
  have "map_option items (record_items (history_env.truncate env) p its m0) = Some (items m')"
    using record_items_items [OF m0(2)] assms(2) by simp
  then show ?thesis
    using m0(1) by (simp add: replayed_history_def replay_items_append replay_recorded replay_out_record)
qed

section \<open>The invariant\<close>

definition log_inv :: "event_env \<Rightarrow> truncation_policy \<Rightarrow> ('x, 'u) session_state \<Rightarrow> bool" where
  "log_inv env policy s \<longleftrightarrow>
     (\<forall>i\<in>set (ss_rollout s). \<not> is_rollback i) \<and>
     replayed_history env policy (ss_rollout s) = Some (items (ss_history s)) \<and>
     same_world (replay_world_state (ss_rollout s)) (world_state_baseline (ss_history s)) \<and>
     (\<forall>w. world_state_baseline (ss_history s) = Some w \<longrightarrow> good_snapshot w)"

lemma log_invD:
  assumes "log_inv env policy s"
  shows "\<forall>i\<in>set (ss_rollout s). \<not> is_rollback i" "replayed_history env policy (ss_rollout s) = Some (items (ss_history s))"
    "same_world (replay_world_state (ss_rollout s)) (world_state_baseline (ss_history s))"
    "\<And>w. world_state_baseline (ss_history s) = Some w \<Longrightarrow> good_snapshot w"
  using assms by (simp_all add: log_inv_def)

lemma world_snoc: "replay_world_state (log @ [i]) = replay_world_state_item i (replay_world_state log)"
  by (simp add: replay_world_state_def)

lemma world_responses: "replay_world_state (log @ map ResponseItem its) = replay_world_state log"
  by (induction its rule: rev_induct) (simp_all add: world_snoc [of "log @ _", simplified] replay_world_state_item_def)

lemma inv_record:
  assumes inv: "log_inv env policy s" and its: "recordable its" and r: "record_conversation_items env policy its s = Some s'"
  shows "log_inv env policy s'" "world_state_baseline (ss_history s') = world_state_baseline (ss_history s)"
    "reference_context_item (ss_history s') = reference_context_item (ss_history s)"
proof -
  obtain h where h: "record_items (history_env.truncate env) policy its (ss_history s) = Some h"
    and s': "ss_history s' = h" "ss_rollout s' = ss_rollout s @ map ResponseItem (filter should_persist_response_item its)"
    using r by (auto simp: record_conversation_items_def persist_rollout_items_def persisted_responses)
  have "record_items (history_env.truncate env) policy (filter should_persist_response_item its) (ss_history s) = Some h"
    unfolding record_persisted [OF its] by (rule h)
  from replayed_recorded [OF log_invD(2) [OF inv] this] log_invD [OF inv] record_items_keeps [OF h]
  show "log_inv env policy s'" unfolding log_inv_def s' world_responses by (auto simp: is_rollback_def)
  show "world_state_baseline (ss_history s') = world_state_baseline (ss_history s)"
    "reference_context_item (ss_history s') = reference_context_item (ss_history s)"
    using record_items_keeps [OF h] s' by simp_all
qed

lemma inv_record_if_any:
  assumes "log_inv env policy s" "recordable its" "record_if_any env policy its s = Some s'"
  shows "log_inv env policy s'" "world_state_baseline (ss_history s') = world_state_baseline (ss_history s)"
    "reference_context_item (ss_history s') = reference_context_item (ss_history s)"
  using assms inv_record [OF assms(1,2), of s'] by (auto simp: record_if_any_def split: if_splits)

text \<open>Setting the baseline and recording items do not depend on their order.\<close>

lemma record_if_any_baseline:
  "record_if_any env policy its (set_world_state_baseline w s) = map_option (set_world_state_baseline w) (record_if_any env policy its s)"
  by (cases "record_items (history_env.truncate env) policy its (ss_history s)")
    (simp_all add: record_if_any_def record_conversation_items_def set_world_state_baseline_def record_items_baseline persist_rollout_items_def)

lemma inv_noop:
  assumes "log_inv env policy s" "\<And>st :: (unit, unit) context_manager \<times> bool. replay_item env policy i st = Some st"
    "\<And>b. replay_world_state_item i b = b" "\<not> is_rollback i" "is_persisted_rollout_item i"
  shows "log_inv env policy (persist_rollout_items [i] s)"
proof -
  have "ss_rollout (persist_rollout_items [i] s) = ss_rollout s @ [i]"
    using assms(5) by (simp add: persist_rollout_items_def persisted_rollout_items_def)
  moreover have "ss_history (persist_rollout_items [i] s) = ss_history s" by (simp add: persist_rollout_items_def)
  ultimately show ?thesis
    using log_invD [OF assms(1)] replayed_noop [OF assms(2)] assms(3,4) by (simp add: log_inv_def world_snoc)
qed

lemma inv_turn_context: "log_inv env policy s \<Longrightarrow> log_inv env policy (persist_rollout_items [TurnContext ctx] s)"
  by (rule inv_noop) (auto simp: replay_item_def replay_world_state_item_def is_rollback_def is_persisted_rollout_item_def)

lemma inv_event: "log_inv env policy s \<Longrightarrow> \<not> is_rollback (EventMsg e) \<Longrightarrow> log_inv env policy (persist_rollout_items [EventMsg e] s)"
  by (rule inv_noop)
    (auto simp: replay_item_def replay_world_state_item_def is_rollback_def is_persisted_rollout_item_def split: event_msg.splits)

text \<open>A snapshot becomes the baseline and is written, in full or as a patch.\<close>

lemma inv_world:
  assumes inv: "log_inv env policy s" and good: "good_snapshot w"
    and world: "same_world (case item of None \<Rightarrow> replay_world_state (ss_rollout s) | Some i \<Rightarrow> replay_world_state_item i (replay_world_state (ss_rollout s))) (Some w)"
    and item: "\<And>i. item = Some i \<Longrightarrow> \<exists>full v. i = WorldState full v"
  shows "log_inv env policy (persist_option item (set_world_state_baseline w s))"
proof -
  have noop: "replayed_history env policy (log @ [WorldState full v]) = replayed_history env policy log" for log :: "'a rollout_item list" and full v
    by (rule replayed_noop) (simp add: replay_item_def split: prod.split)
  show ?thesis
  proof (cases item)
    case None
    then show ?thesis
      using log_invD [OF inv] good world by (simp add: log_inv_def persist_option_def set_world_state_baseline_def)
  next
    case (Some i)
    then obtain full v where "i = WorldState full v" using item by blast
    then show ?thesis
      using Some log_invD [OF inv] good world noop
      by (simp add: log_inv_def persist_option_def set_world_state_baseline_def persist_rollout_items_def persisted_rollout_items_def
          is_persisted_rollout_item_def is_rollback_def world_snoc)
  qed
qed

lemma inv_world_full:
  assumes "log_inv env policy s" "good_snapshot w"
  shows "log_inv env policy (persist_option (Some (WorldState True (into_value w))) (set_world_state_baseline w s))"
  by (rule inv_world [OF assms]) (auto simp: replay_world_state_item_def snapshot_from_value_def into_value_def fields_of_def same_world_def)

lemma inv_world_patch:
  assumes "log_inv env policy s" "good_snapshot w" "world_state_baseline (ss_history s) = Some previous"
  shows "log_inv env policy (persist_option (map_option (WorldState False) (merge_patch_from w previous)) (set_world_state_baseline w s))"
proof (rule inv_world [OF assms(1,2)])
  obtain a where a: "replay_world_state (ss_rollout s) = Some a" "same_world (Some a) (Some previous)"
    using log_invD(3) [OF assms(1)] assms(3) by (cases "replay_world_state (ss_rollout s)") (auto simp: same_world_def)
  show "same_world (case map_option (WorldState False) (merge_patch_from w previous) of
      None \<Rightarrow> replay_world_state (ss_rollout s) | Some i \<Rightarrow> replay_world_state_item i (replay_world_state (ss_rollout s))) (Some w)"
    using same_world_patch [OF a(2) log_invD(4) [OF assms(1,3)] assms(2)] a(1)
    by (cases "merge_patch_from w previous") (simp_all add: replay_world_state_item_def)
qed auto

section \<open>The operations keep it\<close>

lemma persist_baseline_commute:
  "persist_rollout_items its (set_world_state_baseline w s) = set_world_state_baseline w (persist_rollout_items its s)"
  by (cases s) (simp add: persist_rollout_items_def set_world_state_baseline_def)

lemma inv_replace_compacted:
  assumes "log_inv env policy s" "\<And>w. world = Some w \<Longrightarrow> good_snapshot w"
  shows "log_inv env policy (replace_compacted_history its reference world compacted s)"
proof -
  let ?c = "Compacted (compacted\<lparr>ci_replacement_history := Some its\<rparr>)"
  define s1 where "s1 = persist_rollout_items [?c] (replace_history its reference s)"
  have s1: "log_inv env policy s1"
    using log_invD(1) [OF assms(1)] replayed_compacted [of "compacted\<lparr>ci_replacement_history := Some its\<rparr>" its]
    by (simp add: s1_def log_inv_def persist_rollout_items_def persisted_rollout_items_def is_persisted_rollout_item_def replace_history_def
        replace_items_def is_rollback_def world_snoc replay_world_state_item_def same_world_def)
  define s2 where "s2 = (case world of Some w \<Rightarrow> persist_option (Some (WorldState True (into_value w))) (set_world_state_baseline w s1) | None \<Rightarrow> s1)"
  have s2: "log_inv env policy s2" using inv_world_full [OF s1] assms(2) s1 by (auto simp: s2_def split: option.split)
  define s3 where "s3 = (case reference of Some ctx \<Rightarrow> persist_rollout_items [TurnContext ctx] s2 | None \<Rightarrow> s2)"
  have "log_inv env policy s3" using inv_turn_context [OF s2] s2 by (auto simp: s3_def split: option.split)
  moreover have "replace_compacted_history its reference world compacted s = s3\<lparr>ss_start_sources := ss_start_sources s3 @ [Compact]\<rparr>"
    unfolding replace_compacted_history_def s3_def s2_def s1_def Let_def
    by (cases world; cases reference) (simp_all add: persist_option_def persist_baseline_commute)
  ultimately show ?thesis by (simp add: log_inv_def)
qed

lemma inv_window: "log_inv env policy (s\<lparr>ss_window := w\<rparr>) = log_inv env policy s"
  by (simp add: log_inv_def)

lemma inv_record_step:
  assumes "log_inv env policy s" "world_state_baseline (ss_history s) = Some previous" "good_snapshot w" "recordable its"
    "record_step_world_state_if_changed env policy previous w its s = Some s'"
  shows "log_inv env policy s'"
proof -
  obtain s1 where "record_if_any env policy its s = Some s1"
    "s' = persist_option (map_option (WorldState False) (merge_patch_from w previous)) (set_world_state_baseline w s1)"
    using assms(5) by (auto simp: record_step_world_state_if_changed_def)
  then show ?thesis using inv_record_if_any [OF assms(1,4)] inv_world_patch [OF _ assms(3)] assms(2) by metis
qed

lemma inv_reference: "log_inv env policy (s\<lparr>ss_history := (ss_history s)\<lparr>reference_context_item := r\<rparr>\<rparr>) = log_inv env policy s"
  by (simp add: log_inv_def)

text \<open>The item that an update of the world state writes suits the state before it.\<close>

lemma inv_update_item:
  assumes "log_inv env policy s" "good_snapshot w" "update_world_state w (ss_history s0) = (item, h)"
    "world_state_baseline (ss_history s0) = world_state_baseline (ss_history s)"
  shows "log_inv env policy (persist_option item (set_world_state_baseline w s))"
  using assms inv_world_full [OF assms(1,2)] inv_world_patch [OF assms(1,2)]
  by (cases "world_state_baseline (ss_history s)") (auto simp: update_world_state_def)

lemma inv_context_update:
  assumes inv: "log_inv env policy s" "good_snapshot w"
    and its: "recordable full_its" "recordable settings_its" "recordable world_its" "recordable contribution_its"
    and r: "record_context_updates_and_set_reference_context_item env policy ctx w full_its settings_its world_its contribution_its s = Some s'"
  shows "log_inv env policy s'"
proof -
  define full where "full = (reference_context_item (ss_history s) = None)"
  define changed where "changed = (reference_context_item (ss_history s) \<noteq> Some ctx)"
  define item :: "'a rollout_item option" where "item = (if full then Some (WorldState True (into_value w)) else fst (update_world_state w (ss_history s)))"
  define its' where "its' = (if full then full_its else if changed then settings_its @ world_its @ contribution_its else settings_its @ world_its)"
  have rec: "recordable its'" using its by (auto simp: its'_def recordable_def)
  have s1: "(if full then set_world_state_baseline w s else s\<lparr>ss_history := snd (update_world_state w (ss_history s))\<rparr>) = set_world_state_baseline w s"
    by (simp add: set_world_state_baseline_def update_world_state_def)
  have after: "log_inv env policy (persist_option item (set_world_state_baseline w s2))"
    if "record_if_any env policy its' s = Some s2" for s2
  proof (cases full)
    case True
    then show ?thesis using inv_world_full [OF inv_record_if_any(1) [OF inv(1) rec that] inv(2)] by (simp add: item_def)
  next
    case False
    have "log_inv env policy (persist_option (fst (update_world_state w (ss_history s))) (set_world_state_baseline w s2))"
      by (rule inv_update_item [OF inv_record_if_any(1) [OF inv(1) rec that] inv(2) surjective_pairing])
        (simp add: inv_record_if_any(2) [OF inv(1) rec that])
    then show ?thesis using False by (simp add: item_def)
  qed
  have eq: "record_context_updates_and_set_reference_context_item env policy ctx w full_its settings_its world_its contribution_its s =
     (if \<not> changed \<and> its' = [] \<and> item = None then Some (set_world_state_baseline w s)
      else map_option (\<lambda>s2. let s3 = persist_option item s2 in if \<not> changed \<and> its' = [] then s3
         else let s4 = persist_rollout_items [TurnContext ctx] s3 in s4\<lparr>ss_history := (ss_history s4)\<lparr>reference_context_item := Some ctx\<rparr>\<rparr>)
        (record_if_any env policy its' (set_world_state_baseline w s)))"
    unfolding record_context_updates_and_set_reference_context_item_def changed_def [symmetric] full_def [symmetric] Let_def
    by (cases full; cases changed)
      (simp_all add: item_def its'_def set_world_state_baseline_def update_world_state_def cong: if_cong)
  show ?thesis
  proof (cases "\<not> changed \<and> its' = [] \<and> item = None")
    case True
    then have "s' = persist_option item (set_world_state_baseline w s)" using r eq by (simp add: persist_option_def)
    then show ?thesis using after [of s] True by (simp add: record_if_any_def)
  next
    case False
    then obtain s2 where s2: "record_if_any env policy its' s = Some s2"
      and s': "s' = (let s3 = persist_option item (set_world_state_baseline w s2) in if \<not> changed \<and> its' = [] then s3
         else let s4 = persist_rollout_items [TurnContext ctx] s3 in s4\<lparr>ss_history := (ss_history s4)\<lparr>reference_context_item := Some ctx\<rparr>\<rparr>)"
      using r eq by (auto simp: record_if_any_baseline split: if_splits)
    show ?thesis using after [OF s2] by (simp add: s' Let_def inv_reference inv_turn_context)
  qed
qed

section \<open>Every session\<close>

text \<open>
  The steps of a session that is not rolled back: recording items, events, steps of the world state, updates of the
  context at the start of a turn, compactions, and new windows.
\<close>

inductive session_step ::
  "event_env \<Rightarrow> truncation_policy \<Rightarrow> ('u \<Rightarrow> ustr) \<Rightarrow> ('x, 'u) session_state \<Rightarrow> ('x, 'u) session_state \<Rightarrow> bool"
  for env policy show_id where
  record_items_step: "recordable its \<Longrightarrow> record_conversation_items env policy its s = Some s' \<Longrightarrow> session_step env policy show_id s s'"
| event_step: "\<not> is_rollback (EventMsg e :: 'x rollout_item) \<Longrightarrow> session_step env policy show_id s (persist_rollout_items [EventMsg e] s)"
| world_step: "world_state_baseline (ss_history s) = Some previous \<Longrightarrow> good_snapshot w \<Longrightarrow> recordable its \<Longrightarrow>
    record_step_world_state_if_changed env policy previous w its s = Some s' \<Longrightarrow> session_step env policy show_id s s'"
| context_step: "good_snapshot w \<Longrightarrow> recordable full_its \<Longrightarrow> recordable settings_its \<Longrightarrow> recordable world_its \<Longrightarrow> recordable contribution_its \<Longrightarrow>
    record_context_updates_and_set_reference_context_item env policy ctx w full_its settings_its world_its contribution_its s = Some s' \<Longrightarrow>
    session_step env policy show_id s s'"
| compaction_step: "(\<And>its ctx w. injection = Some (its, ctx, w) \<Longrightarrow> good_snapshot w) \<Longrightarrow>
    finish_compaction env show_id fresh turn_id injection s = Some s' \<Longrightarrow> session_step env policy show_id s s'"
| window_step: "good_snapshot w \<Longrightarrow> session_step env policy show_id s (start_new_context_window show_id fresh its ctx w s)"

inductive session_reachable ::
  "event_env \<Rightarrow> truncation_policy \<Rightarrow> ('u \<Rightarrow> ustr) \<Rightarrow> ('x, 'u) session_state \<Rightarrow> ('x, 'u) session_state \<Rightarrow> bool"
  for env policy show_id s where
  session_start: "session_reachable env policy show_id s s"
| session_next: "session_reachable env policy show_id s s' \<Longrightarrow> session_step env policy show_id s' s'' \<Longrightarrow>
    session_reachable env policy show_id s s''"

inductive_cases session_step_cases: "session_step env policy show_id s s'"

lemma session_step_inv: "session_step env policy show_id s s' \<Longrightarrow> log_inv env policy s \<Longrightarrow> log_inv env policy s'"
proof (induction rule: session_step.induct)
  case (compaction_step injection fresh turn_id s s')
  then obtain summary new where
    s': "s' = replace_compacted_history new (map_option (fst \<circ> snd) injection) (map_option (snd \<circ> snd) injection)
       (window_compacted_item show_id summary (fst (advance_window fresh (ss_window s)))) (s\<lparr>ss_window := snd (advance_window fresh (ss_window s))\<rparr>)"
    by (cases "advance_window fresh (ss_window s)") (auto simp: finish_compaction_def)
  have "good_snapshot w" if "map_option (snd \<circ> snd) injection = Some w" for w
    using that compaction_step.hyps(1) by (cases injection) auto
  then show ?case unfolding s' using compaction_step.prems by (intro inv_replace_compacted) (simp_all add: inv_window)
next
  case (window_step w s fresh its ctx)
  then show ?case
    by (auto simp: start_new_context_window_def inv_window split: prod.split intro!: inv_replace_compacted)
qed (auto intro: inv_record inv_event inv_record_step inv_context_update)

lemma session_reachable_inv: "session_reachable env policy show_id s s' \<Longrightarrow> log_inv env policy s \<Longrightarrow> log_inv env policy s'"
  by (induction rule: session_reachable.induct) (auto intro: session_step_inv)

definition new_session :: "ustr option \<Rightarrow> 'u \<Rightarrow> ('x, 'u) session_state" where
  "new_session meta fresh = \<lparr>ss_history = new_manager, ss_previous_turn_settings = None, ss_window = new_with_ids (new_initial_ids fresh),
     ss_start_sources = [], ss_rollout = [SessionMeta meta]\<rparr>"

lemma new_session_inv: "log_inv env policy (new_session meta fresh)"
  by (simp add: log_inv_def new_session_def is_rollback_def replayed_history_def replay_item_def replay_out_def new_manager_def
      replay_world_state_def replay_world_state_item_def same_world_def)



end
