(* ===== verification/Head_Tail_Buffer.thy ===== *)
theory Head_Tail_Buffer
  imports Truncation
begin

text \<open>
  The output a running process keeps: \<open>core/src/unified_exec/head_tail_buffer.rs\<close>. A capped buffer
  of chunks of bytes that keeps a prefix and a suffix of what was pushed. Byte counts are \<open>usize\<close> and saturate.
  Shown: the buffer holds exactly the first and the last bytes of the stream, however it was cut into chunks.
\<close>

section \<open>The buffer\<close>

record head_tail_buffer =
  max_bytes :: nat
  head_budget :: nat
  tail_budget :: nat
  head_chunks :: "int list list"
  tail_chunks :: "int list list"
  head_bytes :: nat
  tail_bytes :: nat
  omitted_bytes :: nat

definition UNIFIED_EXEC_OUTPUT_MAX_BYTES :: nat where "UNIFIED_EXEC_OUTPUT_MAX_BYTES = 1024 * 1024"

definition buffer_new :: "nat \<Rightarrow> head_tail_buffer" where
  "buffer_new m = \<lparr>max_bytes = m, head_budget = m div 2, tail_budget = m - m div 2, head_chunks = [], tail_chunks = [],
     head_bytes = 0, tail_bytes = 0, omitted_bytes = 0\<rparr>"

definition retained_bytes :: "head_tail_buffer \<Rightarrow> nat" where
  "retained_bytes b = saturating_usize_add (head_bytes b) (tail_bytes b)"

text \<open>The loop of \<open>trim_tail_to_budget\<close>: the excess that is left, and the deque.\<close>

fun trim_loop :: "nat \<Rightarrow> int list list \<Rightarrow> nat \<Rightarrow> nat \<Rightarrow> int list list \<times> nat \<times> nat" where
  "trim_loop excess [] bytes om = ([], bytes, om)"
| "trim_loop excess (front # rest) bytes om =
     (if excess = 0 then (front # rest, bytes, om)
      else if excess \<ge> length front
        then trim_loop (excess - length front) rest (bytes - length front) (saturating_usize_add om (length front))
      else (drop excess front # rest, bytes - excess, saturating_usize_add om excess))"

definition trim_tail_to_budget :: "head_tail_buffer \<Rightarrow> head_tail_buffer" where
  "trim_tail_to_budget b =
     (case trim_loop (tail_bytes b - tail_budget b) (tail_chunks b) (tail_bytes b) (omitted_bytes b) of
        (t, bytes, om) \<Rightarrow> b\<lparr>tail_chunks := t, tail_bytes := bytes, omitted_bytes := om\<rparr>)"

definition push_to_tail :: "int list \<Rightarrow> head_tail_buffer \<Rightarrow> head_tail_buffer" where
  "push_to_tail chunk b =
     (if tail_budget b = 0 then b\<lparr>omitted_bytes := saturating_usize_add (omitted_bytes b) (length chunk)\<rparr>
      else if length chunk \<ge> tail_budget b then
        (let start = length chunk - tail_budget b; kept = drop start chunk; dropped = length chunk - length kept
         in b\<lparr>omitted_bytes := saturating_usize_add (saturating_usize_add (omitted_bytes b) (tail_bytes b)) dropped,
              tail_chunks := [kept], tail_bytes := length kept\<rparr>)
      else trim_tail_to_budget (b\<lparr>tail_bytes := saturating_usize_add (tail_bytes b) (length chunk),
                                  tail_chunks := tail_chunks b @ [chunk]\<rparr>))"

definition push_chunk :: "int list \<Rightarrow> head_tail_buffer \<Rightarrow> head_tail_buffer" where
  "push_chunk chunk b =
     (if max_bytes b = 0 then b\<lparr>omitted_bytes := saturating_usize_add (omitted_bytes b) (length chunk)\<rparr>
      else if head_bytes b < head_budget b then
        (let remaining_head = head_budget b - head_bytes b
         in if length chunk \<le> remaining_head
            then b\<lparr>head_bytes := saturating_usize_add (head_bytes b) (length chunk), head_chunks := head_chunks b @ [chunk]\<rparr>
            else
              let head_part = take remaining_head chunk; tail_part = drop remaining_head chunk;
                  b' = (if head_part \<noteq> []
                        then b\<lparr>head_bytes := saturating_usize_add (head_bytes b) (length head_part), head_chunks := head_chunks b @ [head_part]\<rparr>
                        else b)
              in push_to_tail tail_part b')
      else push_to_tail chunk b)"

definition snapshot_chunks :: "head_tail_buffer \<Rightarrow> int list list" where
  "snapshot_chunks b = head_chunks b @ tail_chunks b"

definition to_bytes :: "head_tail_buffer \<Rightarrow> int list" where
  "to_bytes b = concat (head_chunks b) @ concat (tail_chunks b)"

definition drain_chunks :: "head_tail_buffer \<Rightarrow> int list list \<times> head_tail_buffer" where
  "drain_chunks b = (head_chunks b @ tail_chunks b,
     b\<lparr>head_chunks := [], tail_chunks := [], head_bytes := 0, tail_bytes := 0, omitted_bytes := 0\<rparr>)"

section \<open>What it holds\<close>

text \<open>The bytes that are kept of a stream.\<close>

definition kept_bytes :: "nat \<Rightarrow> int list \<Rightarrow> int list" where
  "kept_bytes m bs = (if length bs \<le> m then bs else take (m div 2) bs @ drop (length bs - (m - m div 2)) bs)"

text \<open>The last bytes of what has overflowed the head.\<close>

definition last_bytes :: "nat \<Rightarrow> int list \<Rightarrow> int list" where
  "last_bytes n bs = drop (length bs - n) bs"

lemma last_bytes_append: "last_bytes n (bs @ cs) = last_bytes n (last_bytes n bs @ cs)"
  by (cases "length bs \<le> n") (simp_all add: last_bytes_def add.commute)

lemma length_last_bytes [simp]: "length (last_bytes n bs) = min n (length bs)"
  by (simp add: last_bytes_def)

lemma trim_loop_drops:
  assumes "excess \<le> length (concat t)" "length (concat t) \<le> bytes" "trim_loop excess t bytes om = (t', bytes', om')"
  shows "concat t' = drop excess (concat t) \<and> bytes' = bytes - excess \<and> om' = (if excess = 0 then om else saturating_usize_add om excess)"
  using assms
proof (induction t arbitrary: excess bytes om)
  case (Cons front rest)
  show ?case
  proof (cases "excess \<ge> length front \<and> excess \<noteq> 0")
    case True
    then have "concat t' = drop (excess - length front) (concat rest) \<and> bytes' = bytes - length front - (excess - length front) \<and>
      om' = (if excess - length front = 0 then saturating_usize_add om (length front)
             else saturating_usize_add (saturating_usize_add om (length front)) (excess - length front))"
      using Cons.prems by (intro Cons.IH) auto
    then show ?thesis using True by (auto simp: saturating_usize_add_min)
  next
    case False
    then show ?thesis using Cons.prems by (cases "excess = 0") auto
  qed
qed auto

text \<open>The buffer after the bytes \<open>bs\<close>: the head is their prefix, the tail the end of the rest.\<close>

definition buffer_holds :: "nat \<Rightarrow> int list \<Rightarrow> head_tail_buffer \<Rightarrow> bool" where
  "buffer_holds m bs b \<longleftrightarrow>
     max_bytes b = m \<and> head_budget b = m div 2 \<and> tail_budget b = m - m div 2 \<and>
     concat (head_chunks b) = take (m div 2) bs \<and> head_bytes b = min (m div 2) (length bs) \<and>
     concat (tail_chunks b) = last_bytes (m - m div 2) (drop (m div 2) bs) \<and>
     tail_bytes b = min (m - m div 2) (length bs - m div 2) \<and>
     omitted_bytes b = min USIZE_MAX (length bs - m)"

lemma holds_new: "buffer_holds m [] (buffer_new m)"
  by (simp add: buffer_holds_def buffer_new_def last_bytes_def)

lemma holds_to_bytes: "buffer_holds m bs b \<Longrightarrow> to_bytes b = kept_bytes m bs"
  by (auto simp: buffer_holds_def to_bytes_def kept_bytes_def last_bytes_def)

lemma last_bytes_all: "length bs \<le> n \<Longrightarrow> last_bytes n bs = bs"
  by (simp add: last_bytes_def)

lemma buffer_holdsD:
  assumes "buffer_holds m bs b"
  shows "max_bytes b = m" "head_budget b = m div 2" "tail_budget b = m - m div 2"
    "concat (head_chunks b) = take (m div 2) bs" "head_bytes b = min (m div 2) (length bs)"
    "concat (tail_chunks b) = last_bytes (m - m div 2) (drop (m div 2) bs)"
    "tail_bytes b = min (m - m div 2) (length bs - m div 2)"
    "omitted_bytes b = min USIZE_MAX (length bs - m)"
  using assms by (simp_all add: buffer_holds_def)

text \<open>Bytes that overflow the head.\<close>

lemma holds_push_to_tail:
  assumes h: "buffer_holds m bs b" and m: "m \<le> USIZE_MAX" and full: "m div 2 \<le> length bs" "0 < m"
  shows "buffer_holds m (bs @ cs) (push_to_tail cs b)"
proof -
  define hb tb where "hb = m div 2" and "tb = m - m div 2"
  have mt: "m = hb + tb" "0 < tb" "tb \<le> hb + 1" using full(2) by (simp_all add: hb_def tb_def)
  have d: "m div 2 = hb" "m - hb = tb" by (simp_all add: hb_def tb_def)
  note b = buffer_holdsD [OF h, folded hb_def tb_def]
  have len: "hb \<le> length bs" using full by (simp add: hb_def)
  have goal: "buffer_holds m (bs @ cs) b'"
    if "max_bytes b' = m" "head_budget b' = hb" "tail_budget b' = tb" "head_chunks b' = head_chunks b" "head_bytes b' = head_bytes b"
      "concat (tail_chunks b') = last_bytes tb (drop hb bs @ cs)" "tail_bytes b' = min tb (length bs + length cs - hb)"
      "omitted_bytes b' = min USIZE_MAX (length bs + length cs - m)" for b'
    using that b(4,5) len d by (simp add: buffer_holds_def)
  show ?thesis
  proof (cases "length cs \<ge> tb")
    case True
    have eq: "push_to_tail cs b =
        b\<lparr>omitted_bytes := min USIZE_MAX (min USIZE_MAX (omitted_bytes b + tail_bytes b) + (length cs - tb)),
          tail_chunks := [drop (length cs - tb) cs], tail_bytes := tb\<rparr>"
      using True mt(2) b(3) by (simp add: push_to_tail_def Let_def saturating_usize_add_min)
    have om: "min USIZE_MAX (min USIZE_MAX (omitted_bytes b + tail_bytes b) + (length cs - tb)) = min USIZE_MAX (length bs + length cs - m)"
      unfolding b(7,8) using mt True len by (auto simp: min_def)
    have last: "last_bytes tb (drop hb bs @ cs) = drop (length cs - tb) cs" using True by (simp add: last_bytes_def)
    have bytes: "tb = min tb (length bs + length cs - hb)" using True len by simp
    show ?thesis unfolding eq om by (rule goal) (use b(1,2,3) last bytes in simp_all)
  next
    case False
    define u where "u = tail_bytes b + length cs"
    have bytes: "tail_bytes b = min tb (length bs - hb)" "length (concat (tail_chunks b)) = tail_bytes b"
      using b(6,7) by simp_all
    have "u \<le> m" using False mt bytes(1) by (auto simp: u_def)
    then have u: "saturating_usize_add (tail_bytes b) (length cs) = u" using m by (simp add: saturating_usize_add_min u_def)
    obtain t' bytes' om' where loop: "trim_loop (u - tb) (tail_chunks b @ [cs]) u (omitted_bytes b) = (t', bytes', om')"
      by (metis prod_cases3)
    have r: "concat t' = drop (u - tb) (concat (tail_chunks b) @ cs)" "bytes' = u - (u - tb)"
      "om' = (if u - tb = 0 then omitted_bytes b else min USIZE_MAX (omitted_bytes b + (u - tb)))"
      using trim_loop_drops [OF _ _ loop] bytes(2) by (auto simp: u_def saturating_usize_add_min)
    have "concat t' = last_bytes tb (drop hb bs @ cs)"
      unfolding r(1) last_bytes_append [of tb "drop hb bs"] b(6) by (simp add: last_bytes_def [of tb "last_bytes tb _ @ _"] u_def bytes(1))
    moreover have "om' = min USIZE_MAX (length bs + length cs - m)"
      unfolding r(3) b(8) u_def bytes(1) using mt len False by (auto simp: min_def)
    moreover have "bytes' = min tb (length bs + length cs - hb)"
      unfolding r(2) u_def bytes(1) using mt len False by (auto simp: min_def)
    moreover have "push_to_tail cs b = b\<lparr>tail_chunks := t', tail_bytes := bytes', omitted_bytes := om'\<rparr>"
      using False mt b(3) u loop by (simp add: push_to_tail_def trim_tail_to_budget_def)
    ultimately show ?thesis using b(1,2,3) by (intro goal) simp_all
  qed
qed

lemma holds_push_head:
  assumes h: "buffer_holds m bs b" and m: "m \<le> USIZE_MAX" and fits: "length bs + length cs \<le> m div 2"
  shows "buffer_holds m (bs @ cs) (b\<lparr>head_bytes := saturating_usize_add (head_bytes b) (length cs), head_chunks := head_chunks b @ [cs]\<rparr>)"
proof -
  have "saturating_usize_add (head_bytes b) (length cs) = length bs + length cs"
    using buffer_holdsD(5) [OF h] m fits by (simp add: saturating_usize_add_min)
  then show ?thesis using buffer_holdsD [OF h] fits by (simp add: buffer_holds_def)
qed

lemma holds_push_chunk:
  assumes h: "buffer_holds m bs b" and m: "m \<le> USIZE_MAX"
  shows "buffer_holds m (bs @ cs) (push_chunk cs b)"
proof -
  note b = buffer_holdsD [OF h]
  consider (zero) "m = 0" | (fits) "0 < m" "length bs < m div 2" "length bs + length cs \<le> m div 2"
    | (split) "0 < m" "length bs < m div 2" "m div 2 < length bs + length cs" | (full) "0 < m" "m div 2 \<le> length bs"
    by linarith
  then show ?thesis
  proof cases
    case zero
    then show ?thesis using b by (simp add: buffer_holds_def push_chunk_def saturating_usize_add_min last_bytes_def)
  next
    case fits
    then have "push_chunk cs b = b\<lparr>head_bytes := saturating_usize_add (head_bytes b) (length cs), head_chunks := head_chunks b @ [cs]\<rparr>"
      using b(1,2,5) by (simp add: push_chunk_def Let_def)
    then show ?thesis using holds_push_head [OF h m fits(3)] by simp
  next
    case split
    let ?r = "m div 2 - length bs"
    let ?b = "b\<lparr>head_bytes := saturating_usize_add (head_bytes b) (length (take ?r cs)), head_chunks := head_chunks b @ [take ?r cs]\<rparr>"
    have "buffer_holds m (bs @ take ?r cs) ?b" by (rule holds_push_head [OF h m]) (use split in simp)
    then have "buffer_holds m ((bs @ take ?r cs) @ drop ?r cs) (push_to_tail (drop ?r cs) ?b)"
      by (rule holds_push_to_tail [OF _ m]) (use split in simp_all)
    moreover have "push_chunk cs b = push_to_tail (drop ?r cs) ?b"
    proof -
      have "head_bytes b = length bs" "\<not> length cs \<le> ?r" "take ?r cs \<noteq> []" using b(5) split by auto
      then show ?thesis using b(1,2) split by (simp add: push_chunk_def Let_def)
    qed
    ultimately show ?thesis by simp
  next
    case full
    then show ?thesis using holds_push_to_tail [OF h m full(2,1)] b(1,2,5) by (simp add: push_chunk_def)
  qed
qed

lemma holds_stream:
  "buffer_holds m bs b \<Longrightarrow> m \<le> USIZE_MAX \<Longrightarrow> buffer_holds m (bs @ concat chunks) (fold push_chunk chunks b)"
proof (induction chunks arbitrary: bs b)
  case (Cons c chunks)
  then show ?case using Cons.IH [OF holds_push_chunk [OF Cons.prems, of c] Cons.prems(2)] by simp
qed simp

lemma holds_drain: "buffer_holds m bs b \<Longrightarrow> drain_chunks b = (snapshot_chunks b, buffer_new m)"
  by (simp add: buffer_holds_def drain_chunks_def snapshot_chunks_def buffer_new_def)

text \<open>
  C37: The output that is kept of a process is the first and the last bytes it wrote, half of the
  capacity each, however its output was cut into chunks: all of it if it fits, and the number of bytes left out is
  exact up to the largest \<open>usize\<close>. Taking the output leaves a buffer as good as new.
\<close>

theorem buffer_keeps_head_and_tail:
  assumes "m \<le> USIZE_MAX" "b = fold push_chunk chunks (buffer_new m)"
  shows "to_bytes b = kept_bytes m (concat chunks) \<and> length (to_bytes b) = min m (length (concat chunks)) \<and>
     omitted_bytes b = min USIZE_MAX (length (concat chunks) - m) \<and>
     concat (fst (drain_chunks b)) = to_bytes b \<and> snd (drain_chunks b) = buffer_new m"
proof -
  have h: "buffer_holds m (concat chunks) b" using holds_stream [OF holds_new assms(1), of chunks] assms(2) by simp
  have "length (kept_bytes m (concat chunks)) = min m (length (concat chunks))" by (auto simp: kept_bytes_def)
  then show ?thesis
    using holds_to_bytes [OF h] holds_drain [OF h] h by (simp add: buffer_holds_def snapshot_chunks_def to_bytes_def)
qed

theorem buffer_keeps_head_and_tail_witness:
  "to_bytes (fold push_chunk [[1, 2, 3], [4], [5, 6, 7, 8, 9]] (buffer_new 5)) = [1, 2, 7, 8, 9] \<and>
     omitted_bytes (fold push_chunk [[1, 2, 3], [4], [5, 6, 7, 8, 9]] (buffer_new 5)) = 4"
proof -
  have "5 \<le> USIZE_MAX" by (simp add: USIZE_MAX_def)
  from buffer_keeps_head_and_tail [OF this refl, of "[[1, 2, 3], [4], [5, 6, 7, 8, 9]]"]
  show ?thesis by (simp add: kept_bytes_def USIZE_MAX_def)
qed

end
