(* ===== verification/Agent_Registry.thy ===== *)
theory Agent_Registry
  imports Truncation "HOL-Library.AList"
begin

text \<open>
  The agents of a session: their paths (\<open>protocol/src/agent_path.rs\<close>) and the shared registry that
  limits how many there are (\<open>core/src/agent/registry.rs\<close>), with the part of \<open>core/src/agent/control.rs\<close>
  that prepares a spawn. A thread id is its text. The map of agents is an association list, its order
  that of the iteration. Random choices are an argument. The counter is a \<open>usize\<close> that wraps around.
\<close>

section \<open>Agent paths\<close>

type_synonym agent_path = ustr

definition ROOT :: agent_path where "ROOT = lit ''/root''"
definition MORPHEUS :: agent_path where "MORPHEUS = lit ''/morpheus''"
definition ROOT_SEGMENT :: ustr where "ROOT_SEGMENT = lit ''root''"

abbreviation SLASH :: uchar where "SLASH \<equiv> 47"

definition is_name_char :: "uchar \<Rightarrow> bool" where
  "is_name_char c \<longleftrightarrow> 97 \<le> c \<and> c \<le> 122 \<or> 48 \<le> c \<and> c \<le> 57 \<or> c = 95"

definition validate_agent_name :: "ustr \<Rightarrow> (ustr, unit) result" where
  "validate_agent_name agent_name =
     (if agent_name = [] then Err (lit ''agent_name must not be empty'')
      else if agent_name = ROOT_SEGMENT then Err (lit ''agent_name `root` is reserved'')
      else if agent_name = lit ''.'' \<or> agent_name = lit ''..'' then Err (lit ''agent_name `'' @ agent_name @ lit ''` is reserved'')
      else if SLASH \<in> set agent_name then Err (lit ''agent_name must not contain `/`'')
      else if \<not> list_all is_name_char agent_name
        then Err (lit ''agent_name must use only lowercase letters, digits, and underscores'')
      else Ok ())"

fun validate_segments :: "ustr list \<Rightarrow> (ustr, unit) result" where
  "validate_segments [] = Ok ()"
| "validate_segments (s # rest) = and_then (validate_agent_name s) (\<lambda>_. validate_segments rest)"

definition validate_absolute_path :: "ustr \<Rightarrow> (ustr, unit) result" where
  "validate_absolute_path path =
     (if path = MORPHEUS then Ok ()
      else case strip_prefix [SLASH] path of
        None \<Rightarrow> Err (lit ''absolute agent paths must start with `/root` or be `/morpheus`'')
      | Some stripped \<Rightarrow> (case split_on SLASH stripped of
          [] \<Rightarrow> Err (lit ''absolute agent path must not be empty'')
        | root # segments \<Rightarrow>
            if root \<noteq> ROOT_SEGMENT then Err (lit ''absolute agent paths must start with `/root` or be `/morpheus`'')
            else if ends_with [SLASH] stripped then Err (lit ''absolute agent path must not end with `/`'')
            else validate_segments segments))"

definition validate_relative_reference :: "ustr \<Rightarrow> (ustr, unit) result" where
  "validate_relative_reference reference =
     (if ends_with [SLASH] reference then Err (lit ''relative agent path must not end with `/`'')
      else validate_segments (split_on SLASH reference))"

definition from_string :: "ustr \<Rightarrow> (ustr, agent_path) result" where
  "from_string path = and_then (validate_absolute_path path) (\<lambda>_. Ok path)"

definition is_root :: "agent_path \<Rightarrow> bool" where
  "is_root p \<longleftrightarrow> p = ROOT"

definition agent_name :: "agent_path \<Rightarrow> ustr" where
  "agent_name p =
     (if is_root p then ROOT_SEGMENT
      else (let segment = last (split_on SLASH p) in if segment = [] then ROOT_SEGMENT else segment))"

definition agent_join :: "agent_path \<Rightarrow> ustr \<Rightarrow> (ustr, agent_path) result" where
  "agent_join p name = and_then (validate_agent_name name) (\<lambda>_. from_string (p @ [SLASH] @ name))"

definition agent_resolve :: "agent_path \<Rightarrow> ustr \<Rightarrow> (ustr, agent_path) result" where
  "agent_resolve p reference =
     (if reference = [] then Err (lit ''agent path must not be empty'')
      else if reference = ROOT then Ok ROOT
      else if starts_with [SLASH] reference then from_string reference
      else and_then (validate_relative_reference reference) (\<lambda>_. from_string (p @ [SLASH] @ reference)))"

section \<open>The registry\<close>

record agent_metadata =
  agent_id :: "ustr option"
  agent_path :: "agent_path option"
  agent_nickname :: "ustr option"
  agent_role :: "ustr option"
  last_task_message :: "ustr option"

definition default_metadata :: agent_metadata where
  "default_metadata = \<lparr>agent_id = None, agent_path = None, agent_nickname = None, agent_role = None, last_task_message = None\<rparr>"

record active_agents =
  agent_tree :: "(ustr \<times> agent_metadata) list"
  used_agent_nicknames :: "ustr list"
  nickname_reset_count :: nat

record agent_registry =
  active :: active_agents
  total_count :: nat

definition default_registry :: agent_registry where
  "default_registry = \<lparr>active = \<lparr>agent_tree = [], used_agent_nicknames = [], nickname_reset_count = 0\<rparr>, total_count = 0\<rparr>"

record spawn_reservation =
  reserved_agent_nickname :: "ustr option"
  reserved_agent_path :: "agent_path option"

datatype registry_error = AgentLimitReached nat | UnsupportedOperation ustr

definition format_agent_nickname :: "ustr \<Rightarrow> nat \<Rightarrow> ustr" where
  "format_agent_nickname name reset_count =
     (if reset_count = 0 then name
      else
        let value = reset_count + 1;
            suffix = (if value mod 100 \<in> {11, 12, 13} then lit ''th''
                      else if value mod 10 = 1 then lit ''st''
                      else if value mod 10 = 2 then lit ''nd''
                      else if value mod 10 = 3 then lit ''rd''
                      else lit ''th'')
        in name @ lit '' the '' @ decimal value @ suffix)"

text \<open>Depths are \<open>i32\<close>; \<open>None\<close> is a session that no thread spawned.\<close>

definition next_thread_spawn_depth :: "int option \<Rightarrow> int" where
  "next_thread_spawn_depth spawn_depth = min (2 ^ 31 - 1) ((case spawn_depth of Some d \<Rightarrow> d | None \<Rightarrow> 0) + 1)"

definition exceeds_thread_spawn_depth_limit :: "int \<Rightarrow> int \<Rightarrow> bool" where
  "exceeds_thread_spawn_depth_limit depth max_depth \<longleftrightarrow> depth > max_depth"

text \<open>The counter: \<open>fetch_add\<close> and \<open>fetch_sub\<close> wrap around; the exchange is one atomic step.\<close>

definition count_up :: "agent_registry \<Rightarrow> agent_registry" where
  "count_up g = g\<lparr>total_count := (total_count g + 1) mod 2 ^ 64\<rparr>"

definition count_down :: "agent_registry \<Rightarrow> agent_registry" where
  "count_down g = g\<lparr>total_count := (total_count g + (2 ^ 64 - 1)) mod 2 ^ 64\<rparr>"

definition try_increment_spawned :: "nat \<Rightarrow> agent_registry \<Rightarrow> agent_registry option" where
  "try_increment_spawned max_threads g =
     (if total_count g \<ge> max_threads then None else Some (g\<lparr>total_count := total_count g + 1\<rparr>))"

definition reserve_spawn_slot :: "nat option \<Rightarrow> agent_registry \<Rightarrow> (registry_error, spawn_reservation \<times> agent_registry) result" where
  "reserve_spawn_slot max_threads g =
     (let fresh = \<lparr>reserved_agent_nickname = None, reserved_agent_path = None\<rparr>
      in case max_threads of
           Some m \<Rightarrow> (case try_increment_spawned m g of
               None \<Rightarrow> Err (AgentLimitReached m)
             | Some g' \<Rightarrow> Ok (fresh, g'))
         | None \<Rightarrow> Ok (fresh, count_up g))"

definition with_tree :: "((ustr \<times> agent_metadata) list \<Rightarrow> (ustr \<times> agent_metadata) list) \<Rightarrow> agent_registry \<Rightarrow> agent_registry" where
  "with_tree f g = g\<lparr>active := (active g)\<lparr>agent_tree := f (agent_tree (active g))\<rparr>\<rparr>"

definition is_counted :: "agent_metadata \<Rightarrow> bool" where
  "is_counted md \<longleftrightarrow> \<not> (case agent_path md of Some p \<Rightarrow> is_root p | None \<Rightarrow> False)"

text \<open>
  \<open>release_spawned_thread\<close>: the section under the lock, and whether the counter goes down after it.
\<close>

definition release_spawned_thread :: "ustr \<Rightarrow> agent_registry \<Rightarrow> bool \<times> agent_registry" where
  "release_spawned_thread thread_id g =
     (case find (\<lambda>e. agent_id (snd e) = Some thread_id) (agent_tree (active g)) of
        None \<Rightarrow> (False, g)
      | Some (key, md) \<Rightarrow> (is_counted md, with_tree (AList.delete key) g))"

definition register_root_thread :: "ustr \<Rightarrow> agent_registry \<Rightarrow> agent_registry" where
  "register_root_thread thread_id g =
     (if map_of (agent_tree (active g)) ROOT \<noteq> None then g
      else with_tree (AList.update ROOT (default_metadata\<lparr>agent_id := Some thread_id, agent_path := Some ROOT\<rparr>)) g)"

definition agent_id_for_path :: "agent_path \<Rightarrow> agent_registry \<Rightarrow> ustr option" where
  "agent_id_for_path p g = Option.bind (map_of (agent_tree (active g)) p) agent_id"

definition agent_metadata_for_thread :: "ustr \<Rightarrow> agent_registry \<Rightarrow> agent_metadata option" where
  "agent_metadata_for_thread thread_id g = find (\<lambda>md. agent_id md = Some thread_id) (map snd (agent_tree (active g)))"

definition live_agents :: "agent_registry \<Rightarrow> agent_metadata list" where
  "live_agents g = filter (\<lambda>md. agent_id md \<noteq> None \<and> is_counted md) (map snd (agent_tree (active g)))"

fun set_first_message :: "ustr \<Rightarrow> ustr option \<Rightarrow> (ustr \<times> agent_metadata) list \<Rightarrow> (ustr \<times> agent_metadata) list" where
  "set_first_message thread_id message [] = []"
| "set_first_message thread_id message ((key, md) # rest) =
     (if agent_id md = Some thread_id then (key, md\<lparr>last_task_message := message\<rparr>) # rest
      else (key, md) # set_first_message thread_id message rest)"

definition update_last_task_message :: "ustr \<Rightarrow> ustr \<Rightarrow> agent_registry \<Rightarrow> agent_registry" where
  "update_last_task_message thread_id message g = with_tree (set_first_message thread_id (Some message)) g"

definition clear_last_task_message :: "ustr \<Rightarrow> agent_registry \<Rightarrow> agent_registry" where
  "clear_last_task_message thread_id g = with_tree (set_first_message thread_id None) g"

definition agent_key :: "ustr \<Rightarrow> agent_path option \<Rightarrow> ustr" where
  "agent_key thread_id path = (case path of Some p \<Rightarrow> p | None \<Rightarrow> lit ''thread:'' @ thread_id)"

definition register_spawned_thread :: "agent_metadata \<Rightarrow> agent_registry \<Rightarrow> agent_registry" where
  "register_spawned_thread md g = (case agent_id md of
       None \<Rightarrow> g
     | Some thread_id \<Rightarrow>
         let g1 = (case agent_nickname md of
               Some n \<Rightarrow> g\<lparr>active := (active g)\<lparr>used_agent_nicknames := List.insert n (used_agent_nicknames (active g))\<rparr>\<rparr>
             | None \<Rightarrow> g)
         in with_tree (AList.update (agent_key thread_id (agent_path md)) md) g1)"

definition pick_one :: "nat \<Rightarrow> 'a list \<Rightarrow> 'a option" where
  "pick_one pick xs = (if xs = [] then None else Some (xs ! (pick mod length xs)))"

text \<open>The name, with the names that are used and the number of resets after it.\<close>

definition nickname_choice :: "nat \<Rightarrow> ustr list \<Rightarrow> ustr option \<Rightarrow> active_agents \<Rightarrow> (ustr \<times> active_agents) option" where
  "nickname_choice pick names preferred a = (case preferred of
       Some p \<Rightarrow> Some (p, a)
     | None \<Rightarrow>
         if names = [] then None
         else
           let available = filter (\<lambda>n. n \<notin> set (used_agent_nicknames a))
                 (map (\<lambda>n. format_agent_nickname n (nickname_reset_count a)) names)
           in case pick_one pick available of
                Some n \<Rightarrow> Some (n, a)
              | None \<Rightarrow>
                  let a' = a\<lparr>used_agent_nicknames := [], nickname_reset_count := nickname_reset_count a + 1\<rparr>
                  in map_option (\<lambda>n. (format_agent_nickname n (nickname_reset_count a'), a')) (pick_one pick names))"

definition reserve_agent_nickname :: "nat \<Rightarrow> ustr list \<Rightarrow> ustr option \<Rightarrow> agent_registry \<Rightarrow> (ustr \<times> agent_registry) option" where
  "reserve_agent_nickname pick names preferred g =
     map_option (\<lambda>(n, a). (n, g\<lparr>active := a\<lparr>used_agent_nicknames := List.insert n (used_agent_nicknames a)\<rparr>\<rparr>))
       (nickname_choice pick names preferred (active g))"

definition reserve_agent_path :: "agent_path \<Rightarrow> agent_registry \<Rightarrow> (registry_error, agent_registry) result" where
  "reserve_agent_path p g =
     (if map_of (agent_tree (active g)) p \<noteq> None
      then Err (UnsupportedOperation (lit ''agent path `'' @ p @ lit ''` already exists''))
      else Ok (with_tree (AList.update p (default_metadata\<lparr>agent_path := Some p\<rparr>)) g))"

definition release_reserved_agent_path :: "agent_path \<Rightarrow> agent_registry \<Rightarrow> agent_registry" where
  "release_reserved_agent_path p g = (case map_of (agent_tree (active g)) p of
       Some md \<Rightarrow> if agent_id md = None then with_tree (AList.delete p) g else g
     | None \<Rightarrow> g)"

section \<open>Reservations\<close>

definition reserve_nickname_with_preference ::
  "nat \<Rightarrow> ustr list \<Rightarrow> ustr option \<Rightarrow> spawn_reservation \<times> agent_registry \<Rightarrow>
     (registry_error, ustr \<times> spawn_reservation \<times> agent_registry) result" where
  "reserve_nickname_with_preference pick names preferred = (\<lambda>(r, g). case reserve_agent_nickname pick names preferred g of
       None \<Rightarrow> Err (UnsupportedOperation (lit ''no available agent nicknames''))
     | Some (n, g') \<Rightarrow> Ok (n, r\<lparr>reserved_agent_nickname := Some n\<rparr>, g'))"

definition reservation_reserve_path ::
  "agent_path \<Rightarrow> spawn_reservation \<times> agent_registry \<Rightarrow> (registry_error, spawn_reservation \<times> agent_registry) result" where
  "reservation_reserve_path p = (\<lambda>(r, g).
     and_then (reserve_agent_path p g) (\<lambda>g'. Ok (r\<lparr>reserved_agent_path := Some p\<rparr>, g')))"

text \<open>A commit gives the reservation up without touching the counter.\<close>

definition reservation_commit :: "agent_metadata \<Rightarrow> agent_registry \<Rightarrow> agent_registry" where
  "reservation_commit md g = register_spawned_thread md g"

text \<open>Dropping a reservation that was not committed: the section under the lock; the counter goes down after it.\<close>

definition reservation_drop :: "spawn_reservation \<Rightarrow> agent_registry \<Rightarrow> agent_registry" where
  "reservation_drop r g = (case reserved_agent_path r of Some p \<Rightarrow> release_reserved_agent_path p g | None \<Rightarrow> g)"

end
