(* ===== verification/Agent_Registry_Correct.thy ===== *)
theory Agent_Registry_Correct
  imports Agent_Registry
begin

text \<open>
  The registry counts right. Spawns, failures and closings of agents interleave freely, one section under the lock
  or one access to the counter at a time; in every reachable state the counter is the number of agents
  that live or are being spawned, and the paths that are taken without an agent are those of open reservations.
\<close>

section \<open>Paths\<close>

lemma validate_agent_name_Ok:
  "validate_agent_name n = Ok () \<longleftrightarrow> n \<noteq> [] \<and> n \<noteq> ROOT_SEGMENT \<and> list_all is_name_char n"
  by (auto simp: validate_agent_name_def list_all_iff is_name_char_def lit_def)

lemma name_no_slash: "list_all is_name_char n \<Longrightarrow> SLASH \<notin> set n"
  by (auto simp: list_all_iff is_name_char_def)

lemma from_string_slash: "from_string p = Ok q \<Longrightarrow> q = p \<and> (\<exists>r. p = SLASH # r)"
  by (auto simp: from_string_def validate_absolute_path_def MORPHEUS_def strip_prefix_Some_iff split: if_splits option.splits)

text \<open>A joined path is a valid path with that name, and never the root.\<close>

lemma join_ok:
  assumes "agent_join p n = Ok q"
  shows "from_string q = Ok q" "agent_name q = n" "\<not> is_root q"
proof -
  have n: "n \<noteq> []" "n \<noteq> ROOT_SEGMENT" "list_all is_name_char n" and q: "from_string (p @ [SLASH] @ n) = Ok q"
    using assms by (auto simp: agent_join_def validate_agent_name_Ok)
  then show "from_string q = Ok q" using from_string_slash by metis
  have q': "q = p @ SLASH # n" using from_string_slash [OF q] by simp
  have "last (split_on SLASH (p @ SLASH # n)) = n"
    using split_on_no_sep [OF name_no_slash [OF n(3)]] split_on_append_sep [of SLASH p n] by simp
  moreover have "p @ SLASH # n \<noteq> ROOT"
  proof
    assume "p @ SLASH # n = ROOT"
    then have "split_on SLASH (p @ SLASH # n) = [[], ROOT_SEGMENT]" by (simp add: ROOT_def ROOT_SEGMENT_def)
    then show False using \<open>last (split_on SLASH (p @ SLASH # n)) = n\<close> n(2) by simp
  qed
  ultimately show "agent_name q = n" "\<not> is_root q" using n(1) q' by (simp_all add: agent_name_def is_root_def)
qed

section \<open>The map of agents\<close>

lemma count_update:
  assumes "distinct (map fst t)" "\<And>w. map_of t k = Some w \<Longrightarrow> \<not> P w"
  shows "length (filter P (map snd (AList.update k v t))) = length (filter P (map snd t)) + (if P v then 1 else 0)"
  using assms by (induction t) (auto split: if_splits)

lemma count_delete:
  assumes "distinct (map fst t)" "map_of t k = Some w"
  shows "length (filter P (map snd t)) = length (filter P (map snd (AList.delete k t))) + (if P w then 1 else 0)"
  using assms by (induction t) (auto simp: AList.delete_idem split: if_splits)

section \<open>Spawns that interleave\<close>

text \<open>
  The registry, the reservations that are open, and how many calls have left the lock and not yet
  counted down.
\<close>

record agent_system =
  reg :: agent_registry
  opens :: "spawn_reservation list"
  pending :: nat

definition remove_nth :: "nat \<Rightarrow> 'a list \<Rightarrow> 'a list" where
  "remove_nth i xs = take i xs @ drop (Suc i) xs"

abbreviation tree :: "agent_system \<Rightarrow> (ustr \<times> agent_metadata) list" where
  "tree s \<equiv> agent_tree (active (reg s))"

text \<open>
  The steps, with the limit of the session. A spawn reserves at most one path, and what it commits is a new thread under the path
  it reserved, as \<open>prepare_thread_spawn\<close> and its callers have it.
\<close>

inductive agent_step :: "nat option \<Rightarrow> agent_system \<Rightarrow> agent_system \<Rightarrow> bool" for limit where
  reserve_step: "reserve_spawn_slot limit (reg s) = Ok (r, g) \<Longrightarrow> agent_step limit s (s\<lparr>reg := g, opens := opens s @ [r]\<rparr>)"
| path_step: "i < length (opens s) \<Longrightarrow> reserved_agent_path (opens s ! i) = None \<Longrightarrow> from_string p = Ok p \<Longrightarrow> \<not> is_root p \<Longrightarrow>
    reservation_reserve_path p (opens s ! i, reg s) = Ok (r, g) \<Longrightarrow> agent_step limit s (s\<lparr>reg := g, opens := (opens s)[i := r]\<rparr>)"
| nickname_step: "i < length (opens s) \<Longrightarrow> reserve_nickname_with_preference pick names preferred (opens s ! i, reg s) = Ok (n, r, g) \<Longrightarrow>
    agent_step limit s (s\<lparr>reg := g, opens := (opens s)[i := r]\<rparr>)"
| commit_step: "i < length (opens s) \<Longrightarrow> agent_id md = Some t \<Longrightarrow> agent_path md = reserved_agent_path (opens s ! i) \<Longrightarrow>
    agent_metadata_for_thread t (reg s) = None \<Longrightarrow>
    agent_step limit s (s\<lparr>reg := reservation_commit md (reg s), opens := remove_nth i (opens s)\<rparr>)"
| drop_step: "i < length (opens s) \<Longrightarrow>
    agent_step limit s (s\<lparr>reg := reservation_drop (opens s ! i) (reg s), opens := remove_nth i (opens s), pending := pending s + 1\<rparr>)"
| release_step: "release_spawned_thread t (reg s) = (counted, g) \<Longrightarrow>
    agent_step limit s (s\<lparr>reg := g, pending := pending s + (if counted then 1 else 0)\<rparr>)"
| count_step: "0 < pending s \<Longrightarrow> agent_step limit s (s\<lparr>reg := count_down (reg s), pending := pending s - 1\<rparr>)"
| root_step: "agent_step limit s (s\<lparr>reg := register_root_thread t (reg s)\<rparr>)"
| update_message_step: "agent_step limit s (s\<lparr>reg := update_last_task_message t m (reg s)\<rparr>)"
| clear_message_step: "agent_step limit s (s\<lparr>reg := clear_last_task_message t (reg s)\<rparr>)"

definition start_system :: agent_system where
  "start_system = \<lparr>reg = default_registry, opens = [], pending = 0\<rparr>"

inductive agent_reachable :: "nat option \<Rightarrow> agent_system \<Rightarrow> bool" for limit where
  reachable_start: "agent_reachable limit start_system"
| reachable_step: "agent_reachable limit s \<Longrightarrow> agent_step limit s s' \<Longrightarrow> agent_reachable limit s'"

section \<open>The invariant\<close>

definition entry_ok :: "ustr \<Rightarrow> agent_metadata \<Rightarrow> bool" where
  "entry_ok k md \<longleftrightarrow>
     (\<forall>p. agent_path md = Some p \<longrightarrow> (\<exists>r. p = SLASH # r)) \<and>
     (case agent_id md of None \<Rightarrow> agent_path md = Some k \<and> k \<noteq> ROOT | Some t \<Rightarrow> k = agent_key t (agent_path md))"

definition tree_ok :: "(ustr \<times> agent_metadata) list \<Rightarrow> bool" where
  "tree_ok t \<longleftrightarrow> distinct (map fst t) \<and> (\<forall>k md. map_of t k = Some md \<longrightarrow> entry_ok k md)"

definition reserved_keys :: "(ustr \<times> agent_metadata) list \<Rightarrow> ustr set" where
  "reserved_keys t = {k. \<exists>md. map_of t k = Some md \<and> agent_id md = None}"

definition paths_of :: "spawn_reservation list \<Rightarrow> ustr list" where
  "paths_of rs = List.map_filter reserved_agent_path rs"

definition agents_in_use :: "agent_system \<Rightarrow> nat" where
  "agents_in_use s = length (opens s) + length (live_agents (reg s)) + pending s"

definition agents_inv :: "nat option \<Rightarrow> agent_system \<Rightarrow> bool" where
  "agents_inv limit s \<longleftrightarrow>
     tree_ok (tree s) \<and> reserved_keys (tree s) = set (paths_of (opens s)) \<and> distinct (paths_of (opens s)) \<and>
     total_count (reg s) = agents_in_use s mod 2 ^ 64 \<and>
     (\<forall>n. limit = Some n \<longrightarrow> agents_in_use s \<le> n)"

lemma live_agents_tree: "live_agents (with_tree f g) = filter (\<lambda>md. agent_id md \<noteq> None \<and> is_counted md) (map snd (f (agent_tree (active g))))"
  by (simp add: live_agents_def with_tree_def)

lemma with_tree_simps [simp]: "agent_tree (active (with_tree f g)) = f (agent_tree (active g))" "total_count (with_tree f g) = total_count g"
  by (simp_all add: with_tree_def)

lemma tree_ok_update: "tree_ok t \<Longrightarrow> entry_ok k md \<Longrightarrow> tree_ok (AList.update k md t)"
  by (auto simp: tree_ok_def update_conv' distinct_update split: if_splits)

lemma tree_ok_delete: "tree_ok t \<Longrightarrow> tree_ok (AList.delete k t)"
  by (auto simp: tree_ok_def delete_conv' distinct_delete split: if_splits)

lemma reserved_keys_update:
  "reserved_keys (AList.update k md t) = (if agent_id md = None then insert k (reserved_keys t) else reserved_keys t - {k})"
  by (auto simp: reserved_keys_def update_conv' split: if_splits)

lemma reserved_keys_delete: "reserved_keys (AList.delete k t) = reserved_keys t - {k}"
  by (auto simp: reserved_keys_def delete_conv' split: if_splits)

lemma paths_of_simps:
  "paths_of [] = []" "paths_of (xs @ ys) = paths_of xs @ paths_of ys"
  "paths_of (r # rs) = (case reserved_agent_path r of Some p \<Rightarrow> p # paths_of rs | None \<Rightarrow> paths_of rs)"
  by (simp_all add: paths_of_def List.map_filter_def split: option.split)

lemma paths_of_remove:
  assumes "i < length rs" "distinct (paths_of rs)"
  shows "distinct (paths_of (remove_nth i rs)) \<and>
    set (paths_of (remove_nth i rs)) = set (paths_of rs) - (case reserved_agent_path (rs ! i) of Some p \<Rightarrow> {p} | None \<Rightarrow> {})"
proof -
  have "rs = take i rs @ rs ! i # drop (Suc i) rs" using assms(1) by (rule id_take_nth_drop)
  then have "paths_of rs = paths_of (take i rs @ rs ! i # drop (Suc i) rs)" by simp
  then show ?thesis using assms(2) unfolding remove_nth_def paths_of_simps by (auto split: option.splits)
qed

lemma paths_of_set:
  assumes "i < length rs"
  shows "set (paths_of (rs[i := r])) = set (paths_of (remove_nth i rs)) \<union> set_option (reserved_agent_path r)"
    "distinct (paths_of (rs[i := r])) \<longleftrightarrow>
       distinct (paths_of (remove_nth i rs)) \<and> (\<forall>p. reserved_agent_path r = Some p \<longrightarrow> p \<notin> set (paths_of (remove_nth i rs)))"
  using assms unfolding upd_conv_take_nth_drop [OF assms] remove_nth_def paths_of_simps by (auto split: option.splits)

lemma length_remove_nth: "i < length xs \<Longrightarrow> Suc (length (remove_nth i xs)) = length xs"
  by (simp add: remove_nth_def)

lemma agents_invD:
  assumes "agents_inv limit s"
  shows "tree_ok (tree s)" "reserved_keys (tree s) = set (paths_of (opens s))" "distinct (paths_of (opens s))"
    "total_count (reg s) = agents_in_use s mod 2 ^ 64" "limit = Some n \<Longrightarrow> agents_in_use s \<le> n"
  using assms by (simp_all add: agents_inv_def)

lemma agents_inv_same:
  assumes "agents_inv limit s" "tree_ok (tree s')" "reserved_keys (tree s') = set (paths_of (opens s'))" "distinct (paths_of (opens s'))"
    "total_count (reg s') = total_count (reg s)" "agents_in_use s' = agents_in_use s"
  shows "agents_inv limit s'"
  using assms by (auto simp: agents_inv_def)

lemma inv_reserve:
  assumes inv: "agents_inv limit s" and limit: "\<And>n. limit = Some n \<Longrightarrow> n < 2 ^ 64" and r: "reserve_spawn_slot limit (reg s) = Ok (r, g)"
  shows "agents_inv limit (s\<lparr>reg := g, opens := opens s @ [r]\<rparr>)"
proof -
  have g: "active g = active (reg s)" "reserved_agent_path r = None"
    using r by (auto simp: reserve_spawn_slot_def try_increment_spawned_def count_up_def Let_def split: option.splits if_splits)
  have use: "agents_in_use (s\<lparr>reg := g, opens := opens s @ [r]\<rparr>) = agents_in_use s + 1"
    using g(1) by (simp add: agents_in_use_def live_agents_def)
  have count: "total_count g = (agents_in_use s + 1) mod 2 ^ 64 \<and> (\<forall>n. limit = Some n \<longrightarrow> agents_in_use s + 1 \<le> n)"
  proof (cases limit)
    case None
    then show ?thesis using r agents_invD(4) [OF inv] by (auto simp: reserve_spawn_slot_def count_up_def mod_Suc_eq)
  next
    case (Some n)
    have "total_count (reg s) < n" "total_count g = total_count (reg s) + 1"
      using r Some by (auto simp: reserve_spawn_slot_def try_increment_spawned_def Let_def split: if_splits)
    moreover have "total_count (reg s) = agents_in_use s"
      using agents_invD(4,5) [OF inv] limit Some by simp
    ultimately show ?thesis using limit [OF Some] Some by simp
  qed
  then show ?thesis using agents_invD(1,2,3) [OF inv] g use by (simp add: agents_inv_def paths_of_simps)
qed

lemma inv_path:
  assumes inv: "agents_inv limit s" and i: "i < length (opens s)" "reserved_agent_path (opens s ! i) = None" and p: "from_string p = Ok p" "\<not> is_root p"
    and r: "reservation_reserve_path p (opens s ! i, reg s) = Ok (r, g)"
  shows "agents_inv limit (s\<lparr>reg := g, opens := (opens s)[i := r]\<rparr>)"
proof -
  have free: "map_of (tree s) p = None" and rg: "r = (opens s ! i)\<lparr>reserved_agent_path := Some p\<rparr>"
    "g = with_tree (AList.update p (default_metadata\<lparr>agent_path := Some p\<rparr>)) (reg s)"
    using r by (auto simp: reservation_reserve_path_def reserve_agent_path_def split: if_splits)
  have set: "set (paths_of (remove_nth i (opens s))) = set (paths_of (opens s))" "distinct (paths_of (remove_nth i (opens s)))"
    using paths_of_remove [OF i(1) agents_invD(3) [OF inv]] i(2) by simp_all
  have new: "p \<notin> set (paths_of (opens s))"
    using free unfolding agents_invD(2) [OF inv, symmetric] by (simp add: reserved_keys_def)
  let ?md = "default_metadata\<lparr>agent_path := Some p\<rparr>"
  have entry: "entry_ok p ?md"
    using from_string_slash [OF p(1)] p(2) by (simp add: entry_ok_def default_metadata_def is_root_def)
  have live: "length (live_agents g) = length (live_agents (reg s))"
    using count_update [of "tree s" p "\<lambda>md. agent_id md \<noteq> None \<and> is_counted md" ?md] free agents_invD(1) [OF inv]
    by (simp add: rg(2) live_agents_tree live_agents_def tree_ok_def default_metadata_def)
  have keys: "reserved_keys (agent_tree (active g)) = insert p (set (paths_of (opens s)))"
    using agents_invD(2) [OF inv] by (simp add: rg(2) reserved_keys_update default_metadata_def)
  have "tree_ok (agent_tree (active g))" using tree_ok_update [OF agents_invD(1) [OF inv] entry] by (simp add: rg(2))
  moreover have "set (paths_of ((opens s)[i := r])) = insert p (set (paths_of (opens s)))" "distinct (paths_of ((opens s)[i := r]))"
    using set new paths_of_set [OF i(1), of r] by (auto simp: rg(1))
  ultimately show ?thesis
    using live keys by (intro agents_inv_same [OF inv]) (simp_all add: agents_in_use_def rg(2))
qed

lemma inv_nickname:
  assumes inv: "agents_inv limit s" and i: "i < length (opens s)"
    and r: "reserve_nickname_with_preference pick names preferred (opens s ! i, reg s) = Ok (n, r, g)"
  shows "agents_inv limit (s\<lparr>reg := g, opens := (opens s)[i := r]\<rparr>)"
proof -
  have g: "agent_tree (active g) = tree s" "total_count g = total_count (reg s)" "reserved_agent_path r = reserved_agent_path (opens s ! i)"
    using r by (auto simp: reserve_nickname_with_preference_def reserve_agent_nickname_def nickname_choice_def Let_def
        split: option.splits if_splits)
  have "set (paths_of ((opens s)[i := r])) = set (paths_of (opens s))" "distinct (paths_of ((opens s)[i := r]))"
    using paths_of_remove [OF i agents_invD(3) [OF inv]] paths_of_set [OF i, of r] paths_of_set(1) [OF i, of "opens s ! i"] g(3)
    by (auto split: option.splits)
  then show ?thesis
    using agents_invD(1,2) [OF inv] g by (intro agents_inv_same [OF inv]) (simp_all add: agents_in_use_def live_agents_def)
qed

text \<open>The key of a new agent holds no other agent.\<close>

lemma commit_key_free:
  assumes inv: "agents_inv limit s" and i: "i < length (opens s)" and path: "path = reserved_agent_path (opens s ! i)"
    and new: "agent_metadata_for_thread t (reg s) = None" and old: "map_of (tree s) (agent_key t path) = Some md"
  shows "agent_id md = None"
proof (cases path)
  case None
  have key: "agent_key t path = lit ''thread:'' @ t" using None by (simp add: agent_key_def)
  have ok: "entry_ok (lit ''thread:'' @ t) md" using agents_invD(1) [OF inv] old key by (auto simp: tree_ok_def)
  show ?thesis
  proof (rule ccontr)
    assume "agent_id md \<noteq> None"
    then obtain t' where t': "agent_id md = Some t'" by blast
    then have "t' = t" using ok by (auto simp: entry_ok_def agent_key_def lit_def split: option.splits)
    moreover have "md \<in> set (map snd (tree s))" using map_of_SomeD [OF old] by force
    ultimately show False using new t' by (auto simp: agent_metadata_for_thread_def find_None_iff)
  qed
next
  case (Some p)
  have "p \<in> reserved_keys (tree s)"
    unfolding agents_invD(2) [OF inv] using paths_of_set(1) [OF i, of "opens s ! i"] path Some by simp
  then show ?thesis using old Some by (auto simp: reserved_keys_def agent_key_def)
qed

lemma inv_commit:
  assumes inv: "agents_inv limit s" and i: "i < length (opens s)" and md: "agent_id md = Some t" "agent_path md = reserved_agent_path (opens s ! i)"
    and new: "agent_metadata_for_thread t (reg s) = None"
  shows "agents_inv limit (s\<lparr>reg := reservation_commit md (reg s), opens := remove_nth i (opens s)\<rparr>)"
proof -
  let ?k = "agent_key t (agent_path md)"
  have paths: "\<forall>p\<in>set (paths_of (opens s)). p \<noteq> ROOT \<and> (\<exists>r. p = SLASH # r)"
    unfolding agents_invD(2) [OF inv, symmetric] using agents_invD(1) [OF inv] by (fastforce simp: reserved_keys_def tree_ok_def entry_ok_def)
  have in_paths: "p \<in> set (paths_of (opens s))" if "agent_path md = Some p" for p
    using paths_of_set(1) [OF i, of "opens s ! i"] md(2) that by simp
  have entry: "entry_ok ?k md" using in_paths paths md(1) by (auto simp: entry_ok_def)
  have counted: "is_counted md" using in_paths paths by (auto simp: is_counted_def is_root_def split: option.split)
  have tr: "agent_tree (active (reservation_commit md (reg s))) = AList.update ?k md (tree s)"
    "total_count (reservation_commit md (reg s)) = total_count (reg s)"
    using md(1) by (simp_all add: reservation_commit_def register_spawned_thread_def Let_def split: option.split)
  have live: "length (live_agents (reservation_commit md (reg s))) = length (live_agents (reg s)) + 1"
    using count_update [of "tree s" ?k "\<lambda>md. agent_id md \<noteq> None \<and> is_counted md" md] commit_key_free [OF inv i md(2) new]
      agents_invD(1) [OF inv] md(1) counted
    by (simp add: live_agents_def tr tree_ok_def)
  have "reserved_keys (tree s) - {?k} = set (paths_of (remove_nth i (opens s)))" "distinct (paths_of (remove_nth i (opens s)))"
  proof -
    have "lit ''thread:'' @ t \<notin> set (paths_of (opens s))" using paths by (auto simp: lit_def)
    then show "reserved_keys (tree s) - {?k} = set (paths_of (remove_nth i (opens s)))" "distinct (paths_of (remove_nth i (opens s)))"
      using paths_of_remove [OF i agents_invD(3) [OF inv]] agents_invD(2) [OF inv] md(2)
      by (auto simp: agent_key_def split: option.splits)
  qed
  then show ?thesis
    using tree_ok_update [OF agents_invD(1) [OF inv] entry] tr live length_remove_nth [OF i] md(1)
    by (intro agents_inv_same [OF inv]) (simp_all add: reserved_keys_update agents_in_use_def)
qed

lemma inv_drop:
  assumes inv: "agents_inv limit s" and i: "i < length (opens s)"
  shows "agents_inv limit (s\<lparr>reg := reservation_drop (opens s ! i) (reg s), opens := remove_nth i (opens s), pending := pending s + 1\<rparr>)"
proof (cases "reserved_agent_path (opens s ! i)")
  case None
  then show ?thesis
    using paths_of_remove [OF i agents_invD(3) [OF inv]] agents_invD(1,2) [OF inv] length_remove_nth [OF i]
    by (intro agents_inv_same [OF inv]) (simp_all add: reservation_drop_def agents_in_use_def)
next
  case (Some p)
  have "p \<in> reserved_keys (tree s)"
    using paths_of_set(1) [OF i, of "opens s ! i"] Some agents_invD(2) [OF inv] by simp
  then obtain md where md: "map_of (tree s) p = Some md" "agent_id md = None" by (auto simp: reserved_keys_def)
  have eq: "reservation_drop (opens s ! i) (reg s) = with_tree (AList.delete p) (reg s)"
    using Some md by (simp add: reservation_drop_def release_reserved_agent_path_def)
  have "length (live_agents (with_tree (AList.delete p) (reg s))) = length (live_agents (reg s))"
    using count_delete [OF _ md(1), of "\<lambda>md. agent_id md \<noteq> None \<and> is_counted md"] md(2) agents_invD(1) [OF inv]
    by (simp add: live_agents_tree live_agents_def tree_ok_def)
  then show ?thesis
    using paths_of_remove [OF i agents_invD(3) [OF inv]] agents_invD(1,2) [OF inv] length_remove_nth [OF i] Some
    by (intro agents_inv_same [OF inv]) (simp_all add: eq tree_ok_delete reserved_keys_delete agents_in_use_def)
qed

lemma find_SomeD: "find P xs = Some x \<Longrightarrow> x \<in> set xs" "find P xs = Some x \<Longrightarrow> P x"
  by (induction xs) (auto split: if_splits)

lemma inv_release:
  assumes inv: "agents_inv limit s" and r: "release_spawned_thread t (reg s) = (counted, g)"
  shows "agents_inv limit (s\<lparr>reg := g, pending := pending s + (if counted then 1 else 0)\<rparr>)"
proof (cases "find (\<lambda>e. agent_id (snd e) = Some t) (tree s)")
  case None
  then have "g = reg s" "\<not> counted" using r by (auto simp: release_spawned_thread_def)
  then show ?thesis using inv by simp
next
  case (Some e)
  obtain key md where e: "e = (key, md)" by (cases e)
  have md: "map_of (tree s) key = Some md" "agent_id md = Some t"
    using find_SomeD [OF Some] e agents_invD(1) [OF inv] by (simp_all add: tree_ok_def)
  have g: "g = with_tree (AList.delete key) (reg s)" "counted = is_counted md"
    using r Some e by (auto simp: release_spawned_thread_def)
  have live: "length (live_agents (reg s)) = length (live_agents g) + (if counted then 1 else 0)"
    using count_delete [OF _ md(1), of "\<lambda>md. agent_id md \<noteq> None \<and> is_counted md"] md(2) agents_invD(1) [OF inv]
    by (simp add: g live_agents_tree live_agents_def tree_ok_def)
  have "key \<notin> reserved_keys (tree s)" using md by (simp add: reserved_keys_def)
  then show ?thesis
    using live agents_invD(1,2,3) [OF inv]
    by (intro agents_inv_same [OF inv]) (simp_all add: g(1) tree_ok_delete reserved_keys_delete agents_in_use_def)
qed

lemma inv_count:
  assumes inv: "agents_inv limit s" and p: "0 < pending s"
  shows "agents_inv limit (s\<lparr>reg := count_down (reg s), pending := pending s - 1\<rparr>)"
proof -
  obtain u where u: "agents_in_use s = Suc u" using p by (cases "agents_in_use s") (auto simp: agents_in_use_def)
  have use: "agents_in_use (s\<lparr>reg := count_down (reg s), pending := pending s - 1\<rparr>) = u"
    using u p by (simp add: agents_in_use_def count_down_def live_agents_def)
  have "total_count (count_down (reg s)) = (Suc u + (2 ^ 64 - 1)) mod 2 ^ 64"
    using agents_invD(4) [OF inv] u by (simp add: count_down_def mod_add_left_eq)
  also have "\<dots> = u mod 2 ^ 64" by simp
  finally show ?thesis
    using agents_invD(1,2,3,5) [OF inv] use u by (fastforce simp: agents_inv_def count_down_def)
qed

lemma inv_root:
  assumes inv: "agents_inv limit s"
  shows "agents_inv limit (s\<lparr>reg := register_root_thread t (reg s)\<rparr>)"
proof (cases "map_of (tree s) ROOT")
  case None
  let ?md = "default_metadata\<lparr>agent_id := Some t, agent_path := Some ROOT\<rparr>"
  have eq: "register_root_thread t (reg s) = with_tree (AList.update ROOT ?md) (reg s)" using None by (simp add: register_root_thread_def)
  have entry: "entry_ok ROOT ?md" by (simp add: entry_ok_def agent_key_def ROOT_def)
  have live: "length (live_agents (with_tree (AList.update ROOT ?md) (reg s))) = length (live_agents (reg s))"
    using count_update [of "tree s" ROOT "\<lambda>md. agent_id md \<noteq> None \<and> is_counted md" ?md] None agents_invD(1) [OF inv]
    by (simp add: live_agents_tree live_agents_def tree_ok_def is_counted_def is_root_def)
  have "ROOT \<notin> reserved_keys (tree s)" using None by (simp add: reserved_keys_def)
  then show ?thesis
    using live agents_invD(1,2,3) [OF inv] tree_ok_update [OF _ entry]
    by (intro agents_inv_same [OF inv]) (simp_all add: eq reserved_keys_update agents_in_use_def)
next
  case (Some md)
  then show ?thesis using inv by (simp add: register_root_thread_def)
qed

text \<open>The task message of an agent is in no part of the invariant.\<close>

lemma message_keeps:
  "map fst (set_first_message t m xs) = map fst xs"
  "map_option (\<lambda>md. (agent_id md, agent_path md)) (map_of (set_first_message t m xs) k) =
     map_option (\<lambda>md. (agent_id md, agent_path md)) (map_of xs k)"
  "length (filter (\<lambda>md. agent_id md \<noteq> None \<and> is_counted md) (map snd (set_first_message t m xs))) =
     length (filter (\<lambda>md. agent_id md \<noteq> None \<and> is_counted md) (map snd xs))"
  by (induction t m xs rule: set_first_message.induct) (auto simp: is_counted_def)

lemma inv_message:
  assumes inv: "agents_inv limit s"
  shows "agents_inv limit (s\<lparr>reg := with_tree (set_first_message t m) (reg s)\<rparr>)"
proof -
  have "reserved_keys (set_first_message t m (tree s)) = reserved_keys (tree s)"
  proof -
    have "(\<exists>md. map_of (set_first_message t m (tree s)) k = Some md \<and> agent_id md = None) \<longleftrightarrow>
        (\<exists>md. map_of (tree s) k = Some md \<and> agent_id md = None)" for k
      using message_keeps(2) [of t m "tree s" k]
      by (cases "map_of (tree s) k"; cases "map_of (set_first_message t m (tree s)) k") auto
    then show ?thesis by (simp add: reserved_keys_def)
  qed
  moreover have "tree_ok (set_first_message t m (tree s))"
    unfolding tree_ok_def
  proof (intro conjI allI impI)
    show "distinct (map fst (set_first_message t m (tree s)))" using agents_invD(1) [OF inv] by (simp add: message_keeps(1) tree_ok_def)
    fix k md assume "map_of (set_first_message t m (tree s)) k = Some md"
    then obtain md' where "map_of (tree s) k = Some md'" "agent_id md = agent_id md'" "agent_path md = agent_path md'"
      using message_keeps(2) [of t m "tree s" k] by (cases "map_of (tree s) k") auto
    moreover from this(1) have "entry_ok k md'" using agents_invD(1) [OF inv] by (simp add: tree_ok_def)
    ultimately show "entry_ok k md" by (cases "agent_id md'") (simp_all add: entry_ok_def)
  qed
  ultimately show ?thesis
    using agents_invD(2,3) [OF inv] message_keeps(3)
    by (intro agents_inv_same [OF inv]) (simp_all add: agents_in_use_def live_agents_tree live_agents_def)
qed

lemma agent_step_inv:
  assumes "agent_step limit s s'" "agents_inv limit s" "\<And>n. limit = Some n \<Longrightarrow> n < 2 ^ 64"
  shows "agents_inv limit s'"
  using assms
proof (induction rule: agent_step.induct)
  case (release_step t s counted g)
  show ?case by (rule inv_release [OF release_step.prems(1) release_step.hyps])
next
  case (count_step s)
  show ?case by (rule inv_count [OF count_step.prems(1) count_step.hyps])
next
  case (drop_step i s)
  show ?case by (rule inv_drop [OF drop_step.prems(1) drop_step.hyps])
qed (simp_all add: inv_reserve inv_path inv_nickname inv_commit inv_root inv_message update_last_task_message_def clear_last_task_message_def)

lemma agent_reachable_inv:
  "agent_reachable limit s \<Longrightarrow> (\<And>n. limit = Some n \<Longrightarrow> n < 2 ^ 64) \<Longrightarrow> agents_inv limit s"
proof (induction rule: agent_reachable.induct)
  case reachable_start
  show ?case
    by (simp add: agents_inv_def start_system_def default_registry_def tree_ok_def reserved_keys_def paths_of_simps agents_in_use_def live_agents_def)
next
  case (reachable_step s s')
  then show ?case using agent_step_inv by blast
qed

text \<open>
  The limit on agents is kept and no slot is lost. Under a limit of \<open>n\<close>, in every state that spawns, failed spawns and
  closings of agents reach, however they interleave, the counter is the number of open
  reservations, registered agents other than the root, and agents about to be counted down; it is
  at most \<open>n\<close>, a spawn is refused only when there are \<open>n\<close>, and a path without an agent is held by an open reservation.
\<close>

theorem agent_limit_exact:
  assumes "agent_reachable (Some n) s" "n < 2 ^ 64"
  shows "total_count (reg s) = length (opens s) + length (live_agents (reg s)) + pending s \<and> total_count (reg s) \<le> n \<and>
    (reserve_spawn_slot (Some n) (reg s) = Err (AgentLimitReached n) \<longleftrightarrow> length (opens s) + length (live_agents (reg s)) + pending s = n) \<and>
    {p. \<exists>md. map_of (agent_tree (active (reg s))) p = Some md \<and> agent_id md = None} = {p. Some p \<in> reserved_agent_path ` set (opens s)}"
proof -
  have inv: "agents_inv (Some n) s" using agent_reachable_inv [OF assms(1)] assms(2) by simp
  have le: "agents_in_use s \<le> n" using agents_invD(5) [OF inv] by simp
  then have count: "total_count (reg s) = agents_in_use s" using agents_invD(4) [OF inv] assms(2) by simp
  have "reserved_keys (tree s) = {p. Some p \<in> reserved_agent_path ` set (opens s)}"
    unfolding agents_invD(2) [OF inv] by (auto simp: paths_of_def List.map_filter_def image_iff) (metis option.sel)+
  then show ?thesis
    using count le unfolding reserved_keys_def agents_in_use_def
    by (auto simp: reserve_spawn_slot_def try_increment_spawned_def split: if_splits)
qed

text \<open>Two spawns under a limit of one: the second is refused.\<close>

theorem agent_limit_exact_witness:
  "\<exists>s. agent_reachable (Some 1) s \<and> length (opens s) = 1 \<and> total_count (reg s) = 1 \<and>
     reserve_spawn_slot (Some 1) (reg s) = Err (AgentLimitReached 1)"
proof -
  let ?r = "\<lparr>reserved_agent_nickname = None, reserved_agent_path = None\<rparr>"
  let ?s = "start_system\<lparr>reg := default_registry\<lparr>total_count := 1\<rparr>, opens := [?r]\<rparr>"
  have "reserve_spawn_slot (Some 1) (reg start_system) = Ok (?r, default_registry\<lparr>total_count := 1\<rparr>)"
    by (simp add: reserve_spawn_slot_def try_increment_spawned_def start_system_def default_registry_def)
  then have "agent_step (Some 1) start_system (start_system\<lparr>reg := default_registry\<lparr>total_count := 1\<rparr>, opens := opens start_system @ [?r]\<rparr>)"
    by (rule reserve_step)
  from reachable_step [OF reachable_start this] have reach: "agent_reachable (Some 1) ?s" by (simp add: start_system_def)
  from agent_limit_exact [OF this] have
    "total_count (reg ?s) = length (opens ?s) + length (live_agents (reg ?s)) + pending ?s \<and>
     (reserve_spawn_slot (Some 1) (reg ?s) = Err (AgentLimitReached 1) \<longleftrightarrow> length (opens ?s) + length (live_agents (reg ?s)) + pending ?s = 1)"
    by simp
  moreover have "live_agents (reg ?s) = []" by (simp add: live_agents_def default_registry_def)
  ultimately show ?thesis using reach by (intro exI [of _ ?s]) (simp add: start_system_def)
qed

end
