(* ===== verification/Network_Hosts.thy ===== *)
theory Network_Hosts
  imports Network_Approval "HOL-Library.Word"
begin

text \<open>
  Hosts as the network proxy sees them (\<open>network-proxy/src/policy.rs\<close>): IP literals and the addresses that
  are not public, host names and their normal form, domain patterns and the glob sets they are compiled to. The glob library is the record
  \<open>glob_lib\<close> (validity and matching of a pattern), the host parser of the crate \<open>url\<close> the argument
  \<open>url_host\<close>.
\<close>

unbundle bit_operations_syntax

section \<open>IP addresses\<close>

datatype ip_addr = V4 "32 word" | V6 "128 word"

text \<open>The parser of the standard library, on a position in the text: a number of at most so many digits.\<close>

definition digit_value :: "nat \<Rightarrow> uchar \<Rightarrow> nat option" where
  "digit_value radix c =
     (let v = (if 48 \<le> c \<and> c \<le> 57 then Some (nat (c - 48))
               else if 97 \<le> c \<and> c \<le> 122 then Some (nat (c - 87))
               else if 65 \<le> c \<and> c \<le> 90 then Some (nat (c - 55))
               else None)
      in case v of Some d \<Rightarrow> if d < radix then Some d else None | None \<Rightarrow> None)"

definition read_number :: "nat \<Rightarrow> nat \<Rightarrow> bool \<Rightarrow> nat \<Rightarrow> ustr \<Rightarrow> (nat \<times> ustr) option" where
  "read_number radix max_digits allow_zero_prefix bound s =
     (let digits = takeWhile (\<lambda>c. digit_value radix c \<noteq> None) s;
          n = foldl (\<lambda>acc c. acc * radix + (case digit_value radix c of Some d \<Rightarrow> d | None \<Rightarrow> 0)) 0 digits
      in if length digits > max_digits \<or> digits = [] then None
         else if \<not> allow_zero_prefix \<and> hd digits = 48 \<and> length digits > 1 then None
         else if n > bound then None
         else Some (n, drop (length digits) s))"

definition read_separator :: "uchar \<Rightarrow> nat \<Rightarrow> (ustr \<Rightarrow> ('a \<times> ustr) option) \<Rightarrow> ustr \<Rightarrow> ('a \<times> ustr) option" where
  "read_separator sep index inner s =
     (if index = 0 then inner s
      else case s of [] \<Rightarrow> None | c # rest \<Rightarrow> if c = sep then inner rest else None)"

fun read_octets :: "nat \<Rightarrow> nat \<Rightarrow> ustr \<Rightarrow> (nat list \<times> ustr) option" where
  "read_octets 0 index s = Some ([], s)"
| "read_octets (Suc n) index s = (case read_separator 46 index (read_number 10 3 False 255) s of
       None \<Rightarrow> None
     | Some (o1, rest) \<Rightarrow> map_option (\<lambda>(os, rest'). (o1 # os, rest')) (read_octets n (Suc index) rest))"

definition of_octets :: "nat list \<Rightarrow> 32 word" where
  "of_octets os = of_nat (foldl (\<lambda>acc b. acc * 256 + b) 0 os)"

definition read_ipv4_addr :: "ustr \<Rightarrow> (32 word \<times> ustr) option" where
  "read_ipv4_addr s = map_option (\<lambda>(os, rest). (of_octets os, rest)) (read_octets 4 0 s)"

text \<open>
  The groups of an IPv6 address: \<open>n\<close> slots are left, \<open>index\<close> are filled. An IPv4 address may fill
  the last two. The result says whether it did.
\<close>

fun read_groups :: "nat \<Rightarrow> nat \<Rightarrow> ustr \<Rightarrow> nat list \<times> bool \<times> ustr" where
  "read_groups 0 index s = ([], False, s)"
| "read_groups (Suc n) index s =
     (case (if n > 0 then read_separator COLON index read_ipv4_addr s else None) of
        Some (v4, rest) \<Rightarrow> ([unat v4 div 2 ^ 16, unat v4 mod 2 ^ 16], True, rest)
      | None \<Rightarrow> (case read_separator COLON index (read_number 16 4 True 65535) s of
          None \<Rightarrow> ([], False, s)
        | Some (g, rest) \<Rightarrow> (case read_groups n (Suc index) rest of (gs, v4, rest') \<Rightarrow> (g # gs, v4, rest'))))"

definition of_groups :: "nat list \<Rightarrow> 128 word" where
  "of_groups gs = of_nat (foldl (\<lambda>acc g. acc * 65536 + g) 0 gs)"

definition read_ipv6_addr :: "ustr \<Rightarrow> (128 word \<times> ustr) option" where
  "read_ipv6_addr s =
     (case read_groups 8 0 s of (front, front_v4, rest) \<Rightarrow>
        if length front = 8 then Some (of_groups front, rest)
        else if front_v4 then None
        else case strip_prefix (lit ''::'') rest of
          None \<Rightarrow> None
        | Some rest' \<Rightarrow>
            let limit = 8 - (length front + 1)
            in case read_groups limit 0 rest' of (back, _, rest'') \<Rightarrow>
                 Some (of_groups (front @ replicate (8 - length front - length back) 0 @ back), rest''))"

definition parse_ip :: "ustr \<Rightarrow> ip_addr option" where
  "parse_ip s =
     (case (case read_ipv4_addr s of
              Some (v4, rest) \<Rightarrow> Some (V4 v4, rest)
            | None \<Rightarrow> map_option (\<lambda>(v6, rest). (V6 v6, rest)) (read_ipv6_addr s)) of
        Some (ip, []) \<Rightarrow> Some ip
      | _ \<Rightarrow> None)"

definition octet :: "nat \<Rightarrow> 32 word \<Rightarrow> nat" where
  "octet i ip = unat ip div 2 ^ (24 - 8 * i) mod 256"

definition ipv4_is_loopback :: "32 word \<Rightarrow> bool" where "ipv4_is_loopback ip \<longleftrightarrow> octet 0 ip = 127"

definition ipv4_is_private :: "32 word \<Rightarrow> bool" where
  "ipv4_is_private ip \<longleftrightarrow>
     octet 0 ip = 10 \<or> octet 0 ip = 172 \<and> 16 \<le> octet 1 ip \<and> octet 1 ip \<le> 31 \<or> octet 0 ip = 192 \<and> octet 1 ip = 168"

definition ipv4_is_link_local :: "32 word \<Rightarrow> bool" where
  "ipv4_is_link_local ip \<longleftrightarrow> octet 0 ip = 169 \<and> octet 1 ip = 254"

definition ipv4_is_multicast :: "32 word \<Rightarrow> bool" where
  "ipv4_is_multicast ip \<longleftrightarrow> 224 \<le> octet 0 ip \<and> octet 0 ip \<le> 239"

definition ipv4_in_cidr :: "32 word \<Rightarrow> nat list \<Rightarrow> nat \<Rightarrow> bool" where
  "ipv4_in_cidr ip base prefix =
     (let mask = (if prefix = 0 then 0 else push_bit (32 - prefix) (-1)) in ip AND mask = of_octets base AND mask)"

definition is_non_public_ipv4 :: "32 word \<Rightarrow> bool" where
  "is_non_public_ipv4 ip \<longleftrightarrow>
     ipv4_is_loopback ip \<or> ipv4_is_private ip \<or> ipv4_is_link_local ip \<or> ip = 0 \<or> ipv4_is_multicast ip \<or> ip = -1 \<or>
     ipv4_in_cidr ip [0, 0, 0, 0] 8 \<or> ipv4_in_cidr ip [100, 64, 0, 0] 10 \<or> ipv4_in_cidr ip [192, 0, 0, 0] 24 \<or>
     ipv4_in_cidr ip [192, 0, 2, 0] 24 \<or> ipv4_in_cidr ip [198, 18, 0, 0] 15 \<or> ipv4_in_cidr ip [198, 51, 100, 0] 24 \<or>
     ipv4_in_cidr ip [203, 0, 113, 0] 24 \<or> ipv4_in_cidr ip [240, 0, 0, 0] 4"

text \<open>\<open>segments()[0]\<close> and \<open>to_ipv4\<close>: the addresses \<open>::a.b.c.d\<close> and \<open>::ffff:a.b.c.d\<close>.\<close>

definition first_segment :: "128 word \<Rightarrow> nat" where "first_segment ip = unat ip div 2 ^ 112"

definition to_ipv4 :: "128 word \<Rightarrow> 32 word option" where
  "to_ipv4 ip = (if unat ip div 2 ^ 32 \<in> {0, 65535} then Some (of_nat (unat ip mod 2 ^ 32)) else None)"

definition ipv6_is_multicast :: "128 word \<Rightarrow> bool" where "ipv6_is_multicast ip \<longleftrightarrow> first_segment ip div 2 ^ 8 = 0xff"
definition ipv6_is_unique_local :: "128 word \<Rightarrow> bool" where "ipv6_is_unique_local ip \<longleftrightarrow> first_segment ip div 2 ^ 9 = 0xfc00 div 2 ^ 9"
definition ipv6_is_unicast_link_local :: "128 word \<Rightarrow> bool" where
  "ipv6_is_unicast_link_local ip \<longleftrightarrow> first_segment ip div 2 ^ 6 = 0xfe80 div 2 ^ 6"

definition is_non_public_ipv6 :: "128 word \<Rightarrow> bool" where
  "is_non_public_ipv6 ip = (case to_ipv4 ip of
       Some v4 \<Rightarrow> is_non_public_ipv4 v4 \<or> ip = 1
     | None \<Rightarrow> ip = 1 \<or> ip = 0 \<or> ipv6_is_multicast ip \<or> ipv6_is_unique_local ip \<or> ipv6_is_unicast_link_local ip)"

fun is_non_public_ip :: "ip_addr \<Rightarrow> bool" where
  "is_non_public_ip (V4 ip) = is_non_public_ipv4 ip"
| "is_non_public_ip (V6 ip) = is_non_public_ipv6 ip"

fun ip_is_loopback :: "ip_addr \<Rightarrow> bool" where
  "ip_is_loopback (V4 ip) = ipv4_is_loopback ip"
| "ip_is_loopback (V6 ip) = (ip = 1)"

section \<open>Hosts\<close>

abbreviation PERCENT :: uchar where "PERCENT \<equiv> 37"

text \<open>\<open>str::split_once\<close> on a text.\<close>

fun split_once_str :: "ustr \<Rightarrow> ustr \<Rightarrow> (ustr \<times> ustr) option" where
  "split_once_str d [] = (if d = [] then Some ([], []) else None)"
| "split_once_str d (c # s) = (case strip_prefix d (c # s) of
       Some rest \<Rightarrow> Some ([], rest)
     | None \<Rightarrow> map_option (\<lambda>(a, b). (c # a, b)) (split_once_str d s))"

definition unscoped_ip_literal :: "ustr \<Rightarrow> ustr option" where
  "unscoped_ip_literal h = (case split_once PERCENT h of
       None \<Rightarrow> None
     | Some (ip, _) \<Rightarrow> if parse_ip ip = None then None else Some ip)"

definition normalize_ip_literal :: "ustr \<Rightarrow> ustr option" where
  "normalize_ip_literal h =
     (if parse_ip h \<noteq> None then Some h
      else
        let scoped = (\<lambda>delimiter. case split_once_str delimiter h of
                Some (ip, scope) \<Rightarrow> if parse_ip ip \<noteq> None then Some (ip @ [PERCENT] @ scope) else None
              | None \<Rightarrow> None)
        in case scoped (lit ''%25'') of Some r \<Rightarrow> Some r | None \<Rightarrow> scoped [PERCENT])"

definition normalize_dns_host_or_ip_literal :: "ustr \<Rightarrow> ustr" where
  "normalize_dns_host_or_ip_literal h =
     (let h' = trim_end_dots (to_ascii_lowercase h)
      in case normalize_ip_literal h' of Some ip \<Rightarrow> ip | None \<Rightarrow> h')"

definition normalize_host :: "ustr \<Rightarrow> ustr" where
  "normalize_host raw =
     (let h = trim raw
      in if starts_with (lit ''['') h \<and> 93 \<in> set h
         then normalize_dns_host_or_ip_literal (drop 1 (takeWhile (\<lambda>c. c \<noteq> 93) h))
         else if length (filter (\<lambda>c. c = COLON) h) = 1
         then normalize_dns_host_or_ip_literal (takeWhile (\<lambda>c. c \<noteq> COLON) h)
         else normalize_dns_host_or_ip_literal h)"

definition host_parse :: "ustr \<Rightarrow> ustr option" where
  "host_parse input = (let normalized = normalize_host input in if normalized = [] then None else Some normalized)"

definition is_loopback_host :: "ustr \<Rightarrow> bool" where
  "is_loopback_host h0 =
     (let h = (case unscoped_ip_literal h0 of Some ip \<Rightarrow> ip | None \<Rightarrow> h0)
      in if h = lit ''localhost'' then True
         else case parse_ip h of Some ip \<Rightarrow> ip_is_loopback ip | None \<Rightarrow> False)"

section \<open>Domain patterns\<close>

record glob_lib =
  glob_valid :: "ustr \<Rightarrow> bool"
  glob_match :: "ustr \<Rightarrow> ustr \<Rightarrow> bool"

abbreviation STAR :: uchar where "STAR \<equiv> 42"

definition normalize_pattern :: "ustr \<Rightarrow> ustr" where
  "normalize_pattern raw =
     (let pattern = trim raw
      in if pattern = [STAR] then [STAR]
         else case strip_prefix (lit ''**.'') pattern of
           Some domain \<Rightarrow> lit ''**.'' @ normalize_host domain
         | None \<Rightarrow> (case strip_prefix (lit ''*.'') pattern of
             Some domain \<Rightarrow> lit ''*.'' @ normalize_host domain
           | None \<Rightarrow> normalize_host pattern))"

datatype domain_pattern = ApexAndSubdomains ustr | SubdomainsOnly ustr | Exact ustr

definition parse_domain :: "ustr \<Rightarrow> (ustr \<Rightarrow> domain_pattern) \<Rightarrow> domain_pattern" where
  "parse_domain raw build = (let domain = trim raw in if domain = [] then Exact [] else build domain)"

definition pattern_parse :: "ustr \<Rightarrow> domain_pattern" where
  "pattern_parse raw =
     (let input = trim raw
      in if input = [] then Exact []
         else case strip_prefix (lit ''**.'') input of
           Some domain \<Rightarrow> parse_domain domain ApexAndSubdomains
         | None \<Rightarrow> (case strip_prefix (lit ''*.'') input of
             Some domain \<Rightarrow> parse_domain domain SubdomainsOnly
           | None \<Rightarrow> Exact input))"

definition parse_domain_for_constraints :: "(ustr \<Rightarrow> ustr option) \<Rightarrow> ustr \<Rightarrow> ustr" where
  "parse_domain_for_constraints url_host raw =
     (let domain = trim_end_dots (trim raw)
      in if domain = [] then []
         else
           let h = (if starts_with (lit ''['') domain \<and> ends_with (lit '']'') domain then butlast (drop 1 domain) else domain)
           in if STAR \<in> set h \<or> 63 \<in> set h \<or> PERCENT \<in> set h then domain
              else case url_host h of Some t \<Rightarrow> t | None \<Rightarrow> [])"

definition parse_for_constraints :: "(ustr \<Rightarrow> ustr option) \<Rightarrow> ustr \<Rightarrow> domain_pattern" where
  "parse_for_constraints url_host raw =
     (let input = trim raw
      in if input = [] then Exact []
         else case strip_prefix (lit ''**.'') input of
           Some domain \<Rightarrow> ApexAndSubdomains (parse_domain_for_constraints url_host domain)
         | None \<Rightarrow> (case strip_prefix (lit ''*.'') input of
             Some domain \<Rightarrow> SubdomainsOnly (parse_domain_for_constraints url_host domain)
           | None \<Rightarrow> Exact (parse_domain_for_constraints url_host input)))"

definition normalize_domain :: "ustr \<Rightarrow> ustr" where
  "normalize_domain domain = to_ascii_lowercase (trim_end_dots domain)"

definition domain_eq :: "ustr \<Rightarrow> ustr \<Rightarrow> bool" where
  "domain_eq left right \<longleftrightarrow> normalize_domain left = normalize_domain right"

definition is_subdomain_or_equal :: "ustr \<Rightarrow> ustr \<Rightarrow> bool" where
  "is_subdomain_or_equal child parent =
     (let child = normalize_domain child; parent = normalize_domain parent
      in child = parent \<or> ends_with (lit ''.'' @ parent) child)"

definition is_strict_subdomain :: "ustr \<Rightarrow> ustr \<Rightarrow> bool" where
  "is_strict_subdomain child parent =
     (let child = normalize_domain child; parent = normalize_domain parent
      in child \<noteq> parent \<and> ends_with (lit ''.'' @ parent) child)"

fun pattern_allows :: "domain_pattern \<Rightarrow> domain_pattern \<Rightarrow> bool" where
  "pattern_allows (Exact domain) candidate = (case candidate of Exact c \<Rightarrow> domain_eq c domain | _ \<Rightarrow> False)"
| "pattern_allows (SubdomainsOnly domain) candidate = (case candidate of
       Exact c \<Rightarrow> is_strict_subdomain c domain
     | SubdomainsOnly c \<Rightarrow> is_subdomain_or_equal c domain
     | ApexAndSubdomains c \<Rightarrow> is_strict_subdomain c domain)"
| "pattern_allows (ApexAndSubdomains domain) candidate = (case candidate of
       Exact c \<Rightarrow> is_subdomain_or_equal c domain
     | SubdomainsOnly c \<Rightarrow> is_subdomain_or_equal c domain
     | ApexAndSubdomains c \<Rightarrow> is_subdomain_or_equal c domain)"

definition expand_domain_pattern :: "ustr \<Rightarrow> ustr list" where
  "expand_domain_pattern pattern = (case pattern_parse pattern of
       Exact domain \<Rightarrow> [domain]
     | SubdomainsOnly domain \<Rightarrow> [lit ''?*.'' @ domain]
     | ApexAndSubdomains domain \<Rightarrow> [domain, lit ''?*.'' @ domain])"

definition is_global_wildcard_domain_pattern :: "ustr \<Rightarrow> bool" where
  "is_global_wildcard_domain_pattern pattern \<longleftrightarrow> [STAR] \<in> set (expand_domain_pattern (normalize_pattern pattern))"

text \<open>
  A compiled set is the list of its patterns. \<open>None\<close> is an error: a pattern for every host where that is
  rejected, or one that is no glob.
\<close>

type_synonym glob_set = "ustr list"

fun add_candidates :: "glob_lib \<Rightarrow> ustr list \<Rightarrow> glob_set \<Rightarrow> glob_set option" where
  "add_candidates lib [] acc = Some acc"
| "add_candidates lib (candidate # rest) acc =
     (if candidate \<in> set acc then add_candidates lib rest acc
      else if glob_valid lib candidate then add_candidates lib rest (acc @ [candidate])
      else None)"

fun compile_globset_with_policy :: "glob_lib \<Rightarrow> bool \<Rightarrow> ustr list \<Rightarrow> glob_set \<Rightarrow> glob_set option" where
  "compile_globset_with_policy lib reject_global [] acc = Some acc"
| "compile_globset_with_policy lib reject_global (pattern # rest) acc =
     (if reject_global \<and> is_global_wildcard_domain_pattern pattern then None
      else case add_candidates lib (expand_domain_pattern (normalize_pattern pattern)) acc of
        None \<Rightarrow> None
      | Some acc' \<Rightarrow> compile_globset_with_policy lib reject_global rest acc')"

definition compile_allowlist_globset :: "glob_lib \<Rightarrow> ustr list \<Rightarrow> glob_set option" where
  "compile_allowlist_globset lib patterns = compile_globset_with_policy lib False patterns []"

definition compile_denylist_globset :: "glob_lib \<Rightarrow> ustr list \<Rightarrow> glob_set option" where
  "compile_denylist_globset lib patterns = compile_globset_with_policy lib True patterns []"

definition set_is_match :: "glob_lib \<Rightarrow> glob_set \<Rightarrow> ustr \<Rightarrow> bool" where
  "set_is_match lib gs h = list_ex (\<lambda>g. glob_match lib g h) gs"

end
