(* ===== verification/Mitm_Hook.thy ===== *)
theory Mitm_Hook
  imports Network_Hosts
begin

text \<open>
  The hooks on intercepted HTTPS requests (\<open>network-proxy/src/mitm_hook.rs\<close>): their configuration, its
  validation and compilation with the secrets they inject, and the choice of the hook for a request. The crates for HTTP,
  query strings and globs are the record \<open>http_lib\<close>; environment variables and secret files are arguments. An
  HTTP request is what the library makes of it. Errors keep their reason, not their text.
\<close>

section \<open>Requests\<close>

text \<open>
  Names of headers are in the normal form of \<open>HeaderName\<close>. \<open>get\<close> gives the first value of a name, \<open>insert\<close> replaces all of
  them, \<open>remove\<close> removes all of them.
\<close>

type_synonym header_map = "(ustr \<times> ustr) list"

definition get_all :: "ustr \<Rightarrow> header_map \<Rightarrow> ustr list" where
  "get_all name headers = map snd (filter (\<lambda>h. fst h = name) headers)"

definition header_get :: "ustr \<Rightarrow> header_map \<Rightarrow> ustr option" where
  "header_get name headers = map_of headers name"

definition header_remove :: "ustr \<Rightarrow> header_map \<Rightarrow> header_map" where
  "header_remove name headers = filter (\<lambda>h. fst h \<noteq> name) headers"

definition header_insert :: "ustr \<Rightarrow> ustr \<Rightarrow> header_map \<Rightarrow> header_map" where
  "header_insert name v headers = header_remove name headers @ [(name, v)]"

record http_request =
  hr_method :: ustr
  hr_path :: ustr
  hr_query :: "ustr option"
  hr_authority :: "ustr option"
  hr_headers :: header_map

record http_lib =
  hl_header_name :: "ustr \<Rightarrow> ustr option"
  hl_header_value :: "ustr \<Rightarrow> ustr option"
  hl_to_str :: "ustr \<Rightarrow> ustr option"
  hl_uri_valid :: "ustr \<Rightarrow> bool"
  hl_form_pairs :: "ustr \<Rightarrow> (ustr \<times> ustr) list"
  hl_path_globs :: glob_lib
  hl_value_globs :: glob_lib

section \<open>Configuration\<close>

record injected_header_config =
  ih_name :: ustr
  ih_secret_env_var :: "ustr option"
  ih_secret_file :: "ustr option"
  ih_prefix :: "ustr option"

record hook_config =
  hc_host :: ustr
  hc_methods :: "ustr list"
  hc_path_prefixes :: "ustr list"
  hc_query :: "(ustr \<times> ustr list) list"
  hc_headers :: "(ustr \<times> ustr list) list"
  hc_body :: "ustr option"
  hc_strip :: "ustr list"
  hc_inject :: "injected_header_config list"

datatype path_matcher = PathPrefix ustr | PathGlob ustr

datatype value_matcher = ValueExact ustr | ValueGlob ustr

datatype secret_source = EnvVar ustr | SecretFile path_uri

record resolved_header =
  rh_name :: ustr
  rh_value :: ustr
  rh_source :: secret_source

record hook_actions =
  ac_strip :: "ustr list"
  ac_inject :: "resolved_header list"

record mitm_hook =
  mh_host :: ustr
  mh_methods :: "ustr list"
  mh_paths :: "path_matcher list"
  mh_query :: "(ustr \<times> value_matcher list) list"
  mh_headers :: "(ustr \<times> value_matcher list) list"
  mh_actions :: hook_actions

datatype hook_evaluation = NoHooksForHost | Matched hook_actions | HookedHostNoMatch

datatype hook_error =
    HooksRequireMitm | EmptyHost | WildcardHost | EmptyMethod | NoMethods | EmptyPathPrefix | NoPathPrefixes | BodyReserved
  | EmptyQueryKey | NoQueryValues | EmptyGlob | InvalidGlob | InvalidHeaderName | EmptyEnvVar | EmptySecretFile | RelativeSecretFile
  | NotOneSecret | MissingEnvVar | UnreadableSecret | InvalidHeaderValue

definition ensure :: "bool \<Rightarrow> hook_error \<Rightarrow> (hook_error, unit) result" where
  "ensure ok e = (if ok then Ok () else Err e)"

section \<open>Matchers\<close>

datatype matcher_pattern = Literal ustr | GlobPattern ustr

definition parse_matcher_pattern :: "ustr \<Rightarrow> (hook_error, matcher_pattern) result" where
  "parse_matcher_pattern pattern = (case strip_prefix (lit ''literal:'') pattern of
       Some literal \<Rightarrow> Ok (Literal literal)
     | None \<Rightarrow> (case strip_prefix (lit ''pattern:'') pattern of
           None \<Rightarrow> Ok (Literal pattern)
         | Some glob \<Rightarrow> if glob = [] then Err EmptyGlob else Ok (GlobPattern glob)))"

definition compile_glob_matcher :: "glob_lib \<Rightarrow> ustr \<Rightarrow> (hook_error, ustr) result" where
  "compile_glob_matcher globs pattern = (if glob_valid globs pattern then Ok pattern else Err InvalidGlob)"

definition compile_path_matcher :: "http_lib \<Rightarrow> ustr \<Rightarrow> (hook_error, path_matcher) result" where
  "compile_path_matcher lib raw = and_then (parse_matcher_pattern raw) (\<lambda>p. case p of
       Literal prefix \<Rightarrow> if prefix = [] then Err EmptyPathPrefix else Ok (PathPrefix prefix)
     | GlobPattern g \<Rightarrow> and_then (compile_glob_matcher (hl_path_globs lib) g) (\<lambda>c. Ok (PathGlob c)))"

definition compile_path_matchers :: "http_lib \<Rightarrow> ustr list \<Rightarrow> (hook_error, path_matcher list) result" where
  "compile_path_matchers lib = collect_results (compile_path_matcher lib)"

definition compile_value_matchers :: "http_lib \<Rightarrow> ustr list \<Rightarrow> (hook_error, value_matcher list) result" where
  "compile_value_matchers lib = collect_results (\<lambda>raw. and_then (parse_matcher_pattern raw) (\<lambda>p. case p of
       Literal v \<Rightarrow> Ok (ValueExact v)
     | GlobPattern g \<Rightarrow> and_then (compile_glob_matcher (hl_value_globs lib) g) (\<lambda>c. Ok (ValueGlob c))))"

fun path_matcher_matches :: "http_lib \<Rightarrow> ustr \<Rightarrow> path_matcher \<Rightarrow> bool" where
  "path_matcher_matches lib candidate (PathPrefix prefix) = starts_with prefix candidate"
| "path_matcher_matches lib candidate (PathGlob g) = glob_match (hl_path_globs lib) g candidate"

fun value_matcher_matches :: "http_lib \<Rightarrow> ustr \<Rightarrow> value_matcher \<Rightarrow> bool" where
  "value_matcher_matches lib candidate (ValueExact v) = (v = candidate)"
| "value_matcher_matches lib candidate (ValueGlob g) = glob_match (hl_value_globs lib) g candidate"

section \<open>Validation\<close>

definition normalize_hook_host :: "ustr \<Rightarrow> (hook_error, ustr) result" where
  "normalize_hook_host h =
     (let normalized = normalize_host h
      in if normalized = [] then Err EmptyHost
         else if STAR \<in> set normalized then Err WildcardHost
         else Ok normalized)"

definition to_ascii_uppercase :: "ustr \<Rightarrow> ustr" where
  "to_ascii_uppercase s = map (\<lambda>c. if 97 \<le> c \<and> c \<le> 122 then c - 32 else c) s"

definition normalize_methods :: "ustr list \<Rightarrow> (hook_error, ustr list) result" where
  "normalize_methods = collect_results (\<lambda>m.
     let normalized = to_ascii_uppercase (trim m) in if normalized = [] then Err EmptyMethod else Ok normalized)"

definition normalize_query_name :: "ustr \<Rightarrow> (hook_error, ustr) result" where
  "normalize_query_name name = (if name = [] then Err EmptyQueryKey else Ok name)"

definition parse_header_name :: "http_lib \<Rightarrow> ustr \<Rightarrow> (hook_error, ustr) result" where
  "parse_header_name lib name = (case hl_header_name lib name of Some n \<Rightarrow> Ok n | None \<Rightarrow> Err InvalidHeaderName)"

definition parse_secret_file :: "host_fs \<Rightarrow> ustr \<Rightarrow> (hook_error, path_uri) result" where
  "parse_secret_file h path =
     (if trim path = [] then Err EmptySecretFile
      else if \<not> is_absolute path then Err RelativeSecretFile
      else case abs_path h path of Some p \<Rightarrow> Ok p | None \<Rightarrow> Err RelativeSecretFile)"

definition validate_query_constraint :: "http_lib \<Rightarrow> ustr \<times> ustr list \<Rightarrow> (hook_error, unit) result" where
  "validate_query_constraint lib = (\<lambda>(name, values).
     and_then (normalize_query_name name) (\<lambda>normalized.
     and_then (ensure (normalized \<noteq> []) EmptyQueryKey) (\<lambda>_.
     and_then (ensure (values \<noteq> []) NoQueryValues) (\<lambda>_.
     and_then (compile_value_matchers lib values) (\<lambda>_. Ok ())))))"

definition validate_header_constraint :: "http_lib \<Rightarrow> ustr \<times> ustr list \<Rightarrow> (hook_error, unit) result" where
  "validate_header_constraint lib = (\<lambda>(name, values).
     and_then (parse_header_name lib name) (\<lambda>_. and_then (compile_value_matchers lib values) (\<lambda>_. Ok ())))"

definition validate_injected_header :: "http_lib \<Rightarrow> host_fs \<Rightarrow> injected_header_config \<Rightarrow> (hook_error, unit) result" where
  "validate_injected_header lib h header = and_then (parse_header_name lib (ih_name header)) (\<lambda>_.
     case (ih_secret_env_var header, ih_secret_file header) of
       (Some var, None) \<Rightarrow> ensure (trim var \<noteq> []) EmptyEnvVar
     | (None, Some file) \<Rightarrow> and_then (parse_secret_file h file) (\<lambda>_. Ok ())
     | _ \<Rightarrow> Err NotOneSecret)"

definition validate_hook :: "http_lib \<Rightarrow> host_fs \<Rightarrow> hook_config \<Rightarrow> (hook_error, unit) result" where
  "validate_hook lib h hook =
     and_then (normalize_hook_host (hc_host hook)) (\<lambda>host'.
     and_then (normalize_methods (hc_methods hook)) (\<lambda>methods.
     and_then (ensure (methods \<noteq> []) NoMethods) (\<lambda>_.
     and_then (compile_path_matchers lib (hc_path_prefixes hook)) (\<lambda>paths.
     and_then (ensure (paths \<noteq> []) NoPathPrefixes) (\<lambda>_.
     and_then (ensure (hc_body hook = None) BodyReserved) (\<lambda>_.
     and_then (collect_results (validate_query_constraint lib) (hc_query hook)) (\<lambda>_.
     and_then (collect_results (validate_header_constraint lib) (hc_headers hook)) (\<lambda>_.
     and_then (collect_results (parse_header_name lib) (hc_strip hook)) (\<lambda>_.
     and_then (collect_results (validate_injected_header lib h) (hc_inject hook)) (\<lambda>_.
     ensure (host' \<noteq> []) EmptyHost))))))))))"

definition validate_mitm_hook_config :: "http_lib \<Rightarrow> host_fs \<Rightarrow> bool \<Rightarrow> hook_config list \<Rightarrow> (hook_error, unit) result" where
  "validate_mitm_hook_config lib h mitm hooks =
     (if hooks = [] then Ok ()
      else if \<not> mitm then Err HooksRequireMitm
      else and_then (collect_results (validate_hook lib h) hooks) (\<lambda>_. Ok ()))"

section \<open>Compilation\<close>

type_synonym hooks_by_host = "ustr \<rightharpoonup> mitm_hook list"

definition compile_injected_header ::
  "http_lib \<Rightarrow> host_fs \<Rightarrow> (ustr \<Rightarrow> ustr option) \<Rightarrow> (path_uri \<Rightarrow> ustr option) \<Rightarrow> injected_header_config \<Rightarrow>
     (hook_error, resolved_header) result" where
  "compile_injected_header lib h resolve_env_var read_secret_file header =
     and_then (parse_header_name lib (ih_name header)) (\<lambda>name.
     and_then (case (ih_secret_env_var header, ih_secret_file header) of
         (Some var, None) \<Rightarrow> (case resolve_env_var var of Some v \<Rightarrow> Ok (v, EnvVar var) | None \<Rightarrow> Err MissingEnvVar)
       | (None, Some file) \<Rightarrow> and_then (parse_secret_file h file) (\<lambda>p.
           case read_secret_file p of Some v \<Rightarrow> Ok (v, SecretFile p) | None \<Rightarrow> Err UnreadableSecret)
       | _ \<Rightarrow> Err NotOneSecret) (\<lambda>(secret, source).
     let prefix = (case ih_prefix header of Some p \<Rightarrow> p | None \<Rightarrow> [])
     in case hl_header_value lib (prefix @ secret) of
          Some v \<Rightarrow> Ok \<lparr>rh_name = name, rh_value = v, rh_source = source\<rparr>
        | None \<Rightarrow> Err InvalidHeaderValue))"

definition compile_hook ::
  "http_lib \<Rightarrow> host_fs \<Rightarrow> (ustr \<Rightarrow> ustr option) \<Rightarrow> (path_uri \<Rightarrow> ustr option) \<Rightarrow> hook_config \<Rightarrow> (hook_error, mitm_hook) result" where
  "compile_hook lib h resolve_env_var read_secret_file hook =
     and_then (normalize_hook_host (hc_host hook)) (\<lambda>host'.
     and_then (normalize_methods (hc_methods hook)) (\<lambda>methods.
     and_then (compile_path_matchers lib (hc_path_prefixes hook)) (\<lambda>paths.
     and_then (collect_results (\<lambda>(name, values). and_then (normalize_query_name name) (\<lambda>n.
         and_then (compile_value_matchers lib values) (\<lambda>vs. Ok (n, vs)))) (hc_query hook)) (\<lambda>query.
     and_then (collect_results (\<lambda>(name, values). and_then (parse_header_name lib name) (\<lambda>n.
         and_then (compile_value_matchers lib values) (\<lambda>vs. Ok (n, vs)))) (hc_headers hook)) (\<lambda>headers.
     and_then (collect_results (parse_header_name lib) (hc_strip hook)) (\<lambda>strip.
     and_then (collect_results (compile_injected_header lib h resolve_env_var read_secret_file) (hc_inject hook)) (\<lambda>inject.
     Ok \<lparr>mh_host = host', mh_methods = methods, mh_paths = paths, mh_query = query, mh_headers = headers,
         mh_actions = \<lparr>ac_strip = strip, ac_inject = inject\<rparr>\<rparr>)))))))"

definition push_hook :: "mitm_hook \<Rightarrow> hooks_by_host \<Rightarrow> hooks_by_host" where
  "push_hook hook hooks = hooks(mh_host hook \<mapsto> (case hooks (mh_host hook) of Some l \<Rightarrow> l | None \<Rightarrow> []) @ [hook])"

definition compile_mitm_hooks_with_resolvers ::
  "http_lib \<Rightarrow> host_fs \<Rightarrow> (ustr \<Rightarrow> ustr option) \<Rightarrow> (path_uri \<Rightarrow> ustr option) \<Rightarrow> bool \<Rightarrow> hook_config list \<Rightarrow>
     (hook_error, hooks_by_host) result" where
  "compile_mitm_hooks_with_resolvers lib h resolve_env_var read_secret_file mitm hooks =
     and_then (validate_mitm_hook_config lib h mitm hooks) (\<lambda>_.
     run (\<lambda>acc hook. and_then (compile_hook lib h resolve_env_var read_secret_file hook) (\<lambda>c. Ok (push_hook c acc))) Map.empty hooks)"

definition compile_mitm_hooks ::
  "http_lib \<Rightarrow> host_fs \<Rightarrow> (ustr \<Rightarrow> ustr option) \<Rightarrow> bool \<Rightarrow> hook_config list \<Rightarrow> (hook_error, hooks_by_host) result" where
  "compile_mitm_hooks lib h env_var = compile_mitm_hooks_with_resolvers lib h env_var (\<lambda>p. map_option trim (file_text h p))"

section \<open>Evaluation\<close>

definition query_matches :: "http_lib \<Rightarrow> (ustr \<times> value_matcher list) list \<Rightarrow> http_request \<Rightarrow> bool" where
  "query_matches lib constraints req =
     (if constraints = [] then True
      else
        let pairs = hl_form_pairs lib (case hr_query req of Some q \<Rightarrow> q | None \<Rightarrow> [])
        in list_all (\<lambda>(name, allowed).
             list_ex (\<lambda>pair. fst pair = name \<and> list_ex (value_matcher_matches lib (snd pair)) allowed) pairs) constraints)"

definition headers_match :: "http_lib \<Rightarrow> (ustr \<times> value_matcher list) list \<Rightarrow> http_request \<Rightarrow> bool" where
  "headers_match lib constraints req = list_all (\<lambda>(name, allowed).
     let actual = get_all name (hr_headers req)
     in if actual = [] then False
        else if allowed = [] then True
        else list_ex (\<lambda>v. case hl_to_str lib v of
               Some candidate \<Rightarrow> list_ex (value_matcher_matches lib candidate) allowed | None \<Rightarrow> False) actual) constraints"

definition path_matches :: "http_lib \<Rightarrow> path_matcher list \<Rightarrow> ustr \<Rightarrow> bool" where
  "path_matches lib matchers path = list_ex (path_matcher_matches lib path) matchers"

definition hook_matches :: "http_lib \<Rightarrow> mitm_hook \<Rightarrow> http_request \<Rightarrow> bool" where
  "hook_matches lib hook req =
     (if to_ascii_uppercase (hr_method req) \<notin> set (mh_methods hook) then False
      else if \<not> path_matches lib (mh_paths hook) (hr_path req) then False
      else if \<not> query_matches lib (mh_query hook) req then False
      else headers_match lib (mh_headers hook) req)"

definition evaluate_mitm_hooks :: "http_lib \<Rightarrow> hooks_by_host \<Rightarrow> ustr \<Rightarrow> http_request \<Rightarrow> hook_evaluation" where
  "evaluate_mitm_hooks lib by_host h req = (case by_host (normalize_host h) of
       None \<Rightarrow> NoHooksForHost
     | Some hooks \<Rightarrow> (case find (\<lambda>hook. hook_matches lib hook req) hooks of
           Some hook \<Rightarrow> Matched (mh_actions hook)
         | None \<Rightarrow> HookedHostNoMatch))"

end
