(* ===== verification/Network_Proxy.thy ===== *)
theory Network_Proxy
  imports Mitm_Hook
begin

text \<open>
  The policy of the network proxy (\<open>network-proxy/src/{config,state,runtime,network_policy,connect_policy}.rs\<close>): the settings
  with the constraints of a managed configuration, the compiled state, the decision on a host, and the check of the address that is
  connected to. What the proxy finds outside is the record \<open>proxy_env\<close>; a lookup in the DNS is the argument \<open>lookup\<close>, with \<open>None\<close> for a
  failure or a timeout. The loops that retry after a concurrent change of the configuration run once, and the
  configuration is not reloaded from outside.
\<close>

section \<open>Configuration\<close>

datatype domain_permission = PermNone | PermAllow | PermDeny

fun permission_rank :: "domain_permission \<Rightarrow> nat" where
  "permission_rank PermNone = 0" | "permission_rank PermAllow = 1" | "permission_rank PermDeny = 2"

datatype network_mode = Limited | FullMode

fun network_mode_rank :: "network_mode \<Rightarrow> nat" where
  "network_mode_rank Limited = 0" | "network_mode_rank FullMode = 1"

definition allows_method :: "network_mode \<Rightarrow> ustr \<Rightarrow> bool" where
  "allows_method mode meth = (case mode of
       FullMode \<Rightarrow> True
     | Limited \<Rightarrow> meth \<in> {lit ''GET'', lit ''HEAD'', lit ''OPTIONS''})"

type_synonym domain_entry = "ustr \<times> domain_permission"

datatype unix_socket_permission = SocketAllow | SocketDeny

text \<open>The entries of the socket permissions are those of the ordered map. The addresses to listen on and the SOCKS switches are left out.\<close>

record proxy_settings =
  px_enabled :: bool
  px_allow_upstream_proxy :: bool
  px_allow_non_loopback :: bool
  px_allow_all_unix_sockets :: bool
  px_mode :: network_mode
  px_domains :: "domain_entry list option"
  px_unix_sockets :: "(ustr \<times> unix_socket_permission) list option"
  px_allow_local_binding :: bool
  px_mitm :: bool
  px_credential_broker :: bool
  px_plaintext_credential_injection :: bool
  px_mitm_hooks :: "hook_config list"

text \<open>The loop over the entries: the first position of a pattern, its highest permission.\<close>

fun raise_permission :: "domain_entry \<Rightarrow> domain_entry list \<Rightarrow> domain_entry list" where
  "raise_permission (pattern, perm) [] = [(pattern, perm)]"
| "raise_permission (pattern, perm) ((q, old) # rest) =
     (if q = pattern then (q, if permission_rank perm > permission_rank old then perm else old) # rest
      else (q, old) # raise_permission (pattern, perm) rest)"

definition effective_entries :: "domain_entry list \<Rightarrow> domain_entry list" where
  "effective_entries es = fold raise_permission es []"

definition domain_entries :: "domain_permission \<Rightarrow> proxy_settings \<Rightarrow> ustr list option" where
  "domain_entries perm cfg =
     (case map_option (\<lambda>es. map fst (filter (\<lambda>e. snd e = perm) (effective_entries es))) (px_domains cfg) of
        Some patterns \<Rightarrow> if patterns = [] then None else Some patterns
      | None \<Rightarrow> None)"

definition allowed_domains :: "proxy_settings \<Rightarrow> ustr list option" where
  "allowed_domains cfg = domain_entries PermAllow cfg"

definition denied_domains :: "proxy_settings \<Rightarrow> ustr list option" where
  "denied_domains cfg = domain_entries PermDeny cfg"

definition or_empty :: "ustr list option \<Rightarrow> ustr list" where
  "or_empty x = (case x of Some l \<Rightarrow> l | None \<Rightarrow> [])"

definition allow_unix_sockets :: "proxy_settings \<Rightarrow> ustr list" where
  "allow_unix_sockets cfg = (case px_unix_sockets cfg of
       Some es \<Rightarrow> map fst (filter (\<lambda>e. snd e = SocketAllow) es)
     | None \<Rightarrow> [])"

definition upsert_domain_permission :: "ustr \<Rightarrow> domain_permission \<Rightarrow> (ustr \<Rightarrow> ustr) \<Rightarrow> proxy_settings \<Rightarrow> proxy_settings" where
  "upsert_domain_permission h perm norm_host cfg =
     (let domains = (case px_domains cfg of Some d \<Rightarrow> d | None \<Rightarrow> []);
          updated = filter (\<lambda>e. norm_host (fst e) \<noteq> norm_host h) domains @ [(h, perm)]
      in cfg\<lparr>px_domains := (if updated = [] then None else Some updated)\<rparr>)"

text \<open>The setters of a whole list; a new entry that is there already is not added twice.\<close>

definition set_domain_entries :: "ustr list \<Rightarrow> domain_permission \<Rightarrow> proxy_settings \<Rightarrow> proxy_settings" where
  "set_domain_entries patterns perm cfg =
     (let kept = filter (\<lambda>e. snd e \<noteq> perm) (case px_domains cfg of Some d \<Rightarrow> d | None \<Rightarrow> []);
          domains = fold (\<lambda>p es. if (p, perm) \<in> set es then es else es @ [(p, perm)]) patterns kept
      in cfg\<lparr>px_domains := (if domains = [] then None else Some domains)\<rparr>)"

record proxy_constraints =
  pc_enabled :: "bool option"
  pc_mode :: "network_mode option"
  pc_allow_upstream_proxy :: "bool option"
  pc_allow_non_loopback :: "bool option"
  pc_allow_all_unix_sockets :: "bool option"
  pc_allowed_domains :: "ustr list option"
  pc_allowlist_expansion_enabled :: "bool option"
  pc_denied_domains :: "ustr list option"
  pc_denylist_expansion_enabled :: "bool option"
  pc_allow_unix_sockets :: "ustr list option"
  pc_allow_local_binding :: "bool option"

text \<open>What is outside of the proxy: the libraries, the file system, the variables of the process, and whether the state for interception can be set up.\<close>

record proxy_env =
  pe_globs :: glob_lib
  pe_url_host :: "ustr \<Rightarrow> ustr option"
  pe_http :: http_lib
  pe_host :: host_fs
  pe_env_var :: "ustr \<Rightarrow> ustr option"
  pe_mitm_available :: bool
  pe_unix_socket_permissions_supported :: bool

section \<open>Constraints\<close>

text \<open>The field of an \<open>InvalidValue\<close>; the texts that render its values are left out.\<close>

datatype constraint_error = InvalidValue ustr

definition validate_non_global_wildcard_domain_patterns :: "ustr \<Rightarrow> ustr list \<Rightarrow> (constraint_error, unit) result" where
  "validate_non_global_wildcard_domain_patterns field patterns =
     (if list_ex is_global_wildcard_domain_pattern patterns then Err (InvalidValue field) else Ok ())"

definition require :: "bool \<Rightarrow> ustr \<Rightarrow> (constraint_error, unit) result" where
  "require ok field = (if ok then Ok () else Err (InvalidValue field))"

definition lower_set :: "ustr list \<Rightarrow> ustr set" where
  "lower_set es = set (map to_ascii_lowercase es)"

definition validate_allowed_domains ::
  "(ustr \<Rightarrow> ustr option) \<Rightarrow> proxy_settings \<Rightarrow> proxy_constraints \<Rightarrow> ustr list \<Rightarrow> (constraint_error, unit) result" where
  "validate_allowed_domains url_host cfg cs managed =
     (let field = lit ''network.allowed_domains'';
          allowed = or_empty (allowed_domains cfg);
          overrides = lower_set (or_empty (denied_domains cfg))
      in and_then (validate_non_global_wildcard_domain_patterns field managed) (\<lambda>_.
           case pc_allowlist_expansion_enabled cs of
             Some True \<Rightarrow> require (lower_set managed - lower_set allowed - overrides = {}) field
           | Some False \<Rightarrow> require (lower_set allowed = lower_set managed - overrides) field
           | None \<Rightarrow>
               let managed_patterns = map (parse_for_constraints url_host) managed
               in require (list_all (\<lambda>e. list_ex (\<lambda>m. pattern_allows m (parse_for_constraints url_host e)) managed_patterns) allowed) field))"

definition validate_denied_domains :: "proxy_settings \<Rightarrow> proxy_constraints \<Rightarrow> ustr list \<Rightarrow> (constraint_error, unit) result" where
  "validate_denied_domains cfg cs managed =
     (let field = lit ''network.denied_domains''; denied = or_empty (denied_domains cfg)
      in and_then (validate_non_global_wildcard_domain_patterns field managed) (\<lambda>_.
           if pc_denylist_expansion_enabled cs = Some False then require (lower_set denied = lower_set managed) field
           else require (lower_set managed \<subseteq> lower_set denied) field))"

definition validate_policy_against_constraints ::
  "proxy_env \<Rightarrow> proxy_settings \<Rightarrow> proxy_constraints \<Rightarrow> (constraint_error, unit) result" where
  "validate_policy_against_constraints env cfg cs =
     and_then (case validate_mitm_hook_config (pe_http env) (pe_host env) (px_mitm cfg) (px_mitm_hooks cfg) of
         Err _ \<Rightarrow> Err (InvalidValue (lit ''network.mitm_hooks'')) | Ok _ \<Rightarrow> Ok ()) (\<lambda>_.
     and_then (validate_non_global_wildcard_domain_patterns (lit ''network.denied_domains'') (or_empty (denied_domains cfg))) (\<lambda>_.
     and_then (case pc_enabled cs of
         Some max_enabled \<Rightarrow> require (\<not> (px_enabled cfg \<and> \<not> max_enabled)) (lit ''network.enabled'') | None \<Rightarrow> Ok ()) (\<lambda>_.
     and_then (case pc_mode cs of
         Some max_mode \<Rightarrow> require (network_mode_rank (px_mode cfg) \<le> network_mode_rank max_mode) (lit ''network.mode'') | None \<Rightarrow> Ok ()) (\<lambda>_.
     and_then (require (\<not> (pc_allow_upstream_proxy cs = Some False \<and> px_allow_upstream_proxy cfg)) (lit ''network.allow_upstream_proxy'')) (\<lambda>_.
     and_then (require (\<not> (pc_allow_non_loopback cs = Some False \<and> px_allow_non_loopback cfg)) (lit ''network.dangerously_allow_non_loopback_proxy'')) (\<lambda>_.
     let allow_all_unix_sockets = (case pc_allow_all_unix_sockets cs of Some b \<Rightarrow> b | None \<Rightarrow> pc_allow_unix_sockets cs = None)
     in and_then (require (\<not> (px_allow_all_unix_sockets cfg \<and> \<not> allow_all_unix_sockets)) (lit ''network.dangerously_allow_all_unix_sockets'')) (\<lambda>_.
     and_then (case pc_allow_local_binding cs of
         Some allow \<Rightarrow> require (\<not> (px_allow_local_binding cfg \<and> \<not> allow)) (lit ''network.allow_local_binding'') | None \<Rightarrow> Ok ()) (\<lambda>_.
     and_then (case pc_allowed_domains cs of
         Some managed \<Rightarrow> validate_allowed_domains (pe_url_host env) cfg cs managed | None \<Rightarrow> Ok ()) (\<lambda>_.
     and_then (case pc_denied_domains cs of
         Some managed \<Rightarrow> validate_denied_domains cfg cs managed | None \<Rightarrow> Ok ()) (\<lambda>_.
     case pc_allow_unix_sockets cs of
         Some managed \<Rightarrow> require (lower_set (allow_unix_sockets cfg) \<subseteq> lower_set managed) (lit ''network.allow_unix_sockets'') | None \<Rightarrow> Ok ()))))))))))"

section \<open>The state of the proxy\<close>

record 'b config_state =
  cs_config :: proxy_settings
  cs_allow_set :: glob_set
  cs_deny_set :: glob_set
  cs_mitm :: bool
  cs_mitm_hooks :: hooks_by_host
  cs_constraints :: proxy_constraints
  cs_blocked :: "'b list"
  cs_blocked_total :: nat

datatype proxy_error =
    InvalidHost | Constrained constraint_error | BadPattern | BadSocketPath | BrokerRequiresMitm | BadHook hook_error | NoMitmState
  | BrokerChanged

datatype unix_socket_path = NativeSocket path_uri | UnixStyleAbsolute ustr

definition validated_socket_path :: "host_fs \<Rightarrow> ustr \<Rightarrow> unix_socket_path option" where
  "validated_socket_path h path =
     (if is_absolute path then map_option NativeSocket (abs_path h path)
      else if starts_with [SLASH] path then Some (UnixStyleAbsolute path)
      else None)"

definition validate_unix_socket_allowlist_paths :: "host_fs \<Rightarrow> proxy_settings \<Rightarrow> bool" where
  "validate_unix_socket_allowlist_paths h cfg = list_all (\<lambda>p. validated_socket_path h p \<noteq> None) (allow_unix_sockets cfg)"

definition build_config_state :: "proxy_env \<Rightarrow> proxy_settings \<Rightarrow> proxy_constraints \<Rightarrow> (proxy_error, 'b config_state) result" where
  "build_config_state env cfg cs =
     (if \<not> validate_unix_socket_allowlist_paths (pe_host env) cfg then Err BadSocketPath
      else if px_credential_broker cfg \<and> \<not> px_mitm cfg then Err BrokerRequiresMitm
      else case validate_non_global_wildcard_domain_patterns (lit ''network.denied_domains'') (or_empty (denied_domains cfg)) of
        Err e \<Rightarrow> Err (Constrained e)
      | Ok _ \<Rightarrow> (case (compile_denylist_globset (pe_globs env) (or_empty (denied_domains cfg)),
            compile_allowlist_globset (pe_globs env) (or_empty (allowed_domains cfg))) of
          (Some deny, Some allow) \<Rightarrow>
            (case compile_mitm_hooks (pe_http env) (pe_host env) (pe_env_var env) (px_mitm cfg) (px_mitm_hooks cfg) of
               Err e \<Rightarrow> Err (BadHook e)
             | Ok hooks \<Rightarrow>
                 if px_mitm cfg \<and> \<not> pe_mitm_available env then Err NoMitmState
                 else Ok \<lparr>cs_config = cfg, cs_allow_set = allow, cs_deny_set = deny, cs_mitm = px_mitm cfg, cs_mitm_hooks = hooks,
                     cs_constraints = cs, cs_blocked = [], cs_blocked_total = 0\<rparr>)
        | _ \<Rightarrow> Err BadPattern))"

datatype domain_list_kind = AllowList | DenyList

fun kind_permission :: "domain_list_kind \<Rightarrow> domain_permission" where
  "kind_permission AllowList = PermAllow" | "kind_permission DenyList = PermDeny"

fun kind_entries :: "domain_list_kind \<Rightarrow> proxy_settings \<Rightarrow> ustr list" where
  "kind_entries AllowList cfg = or_empty (allowed_domains cfg)" | "kind_entries DenyList cfg = or_empty (denied_domains cfg)"

fun opposite_entries :: "domain_list_kind \<Rightarrow> proxy_settings \<Rightarrow> ustr list" where
  "opposite_entries AllowList cfg = or_empty (denied_domains cfg)" | "opposite_entries DenyList cfg = or_empty (allowed_domains cfg)"

definition update_domain_list ::
  "proxy_env \<Rightarrow> ustr \<Rightarrow> domain_list_kind \<Rightarrow> 'b config_state \<Rightarrow> (proxy_error, 'b config_state) result" where
  "update_domain_list env raw target st = (case host_parse raw of
       None \<Rightarrow> Err InvalidHost
     | Some h \<Rightarrow>
         let cfg = cs_config st;
             target_contains = list_ex (\<lambda>e. normalize_host e = h) (kind_entries target cfg);
             opposite_contains = list_ex (\<lambda>e. normalize_host e = h) (opposite_entries target cfg)
         in if target_contains \<and> \<not> opposite_contains then Ok st
            else
              let candidate = upsert_domain_permission h (kind_permission target) normalize_host cfg
              in case validate_policy_against_constraints env candidate (cs_constraints st) of
                   Err e \<Rightarrow> Err (Constrained e)
                 | Ok _ \<Rightarrow> and_then (build_config_state env candidate (cs_constraints st))
                     (\<lambda>new. Ok (new\<lparr>cs_blocked := cs_blocked st, cs_blocked_total := cs_blocked_total st\<rparr>)))"

definition set_network_mode :: "proxy_env \<Rightarrow> network_mode \<Rightarrow> 'b config_state \<Rightarrow> (proxy_error, 'b config_state) result" where
  "set_network_mode env mode st =
     (case validate_policy_against_constraints env ((cs_config st)\<lparr>px_mode := mode\<rparr>) (cs_constraints st) of
        Err e \<Rightarrow> Err (Constrained e)
      | Ok _ \<Rightarrow> Ok (st\<lparr>cs_config := (cs_config st)\<lparr>px_mode := mode\<rparr>\<rparr>))"

definition MAX_BLOCKED_EVENTS :: nat where "MAX_BLOCKED_EVENTS = 200"

text \<open>The loop that pops from the front, at once; the total is a \<open>u64\<close> that saturates.\<close>

definition record_blocked :: "'b \<Rightarrow> 'b config_state \<Rightarrow> 'b config_state" where
  "record_blocked entry st =
     (let queue = cs_blocked st @ [entry]
      in st\<lparr>cs_blocked := drop (length queue - MAX_BLOCKED_EVENTS) queue, cs_blocked_total := saturating_usize_add (cs_blocked_total st) 1\<rparr>)"

definition drain_blocked :: "'b config_state \<Rightarrow> 'b list \<times> 'b config_state" where
  "drain_blocked st = (cs_blocked st, st\<lparr>cs_blocked := []\<rparr>)"

text \<open>
  The configuration changes under a running proxy: \<open>replace_config_state\<close> and \<open>reload_if_needed\<close> with a new state keep what was
  recorded, \<open>force_reload\<close> keeps the buffer only. The broker is told at the start whether it is enabled.
\<close>

definition ensure_credential_broker_enablement_unchanged :: "bool \<Rightarrow> 'b config_state \<Rightarrow> (proxy_error, unit) result" where
  "ensure_credential_broker_enablement_unchanged broker_enabled new =
     (if broker_enabled = px_credential_broker (cs_config new) then Ok () else Err BrokerChanged)"

definition replace_config_state :: "bool \<Rightarrow> 'b config_state \<Rightarrow> 'b config_state \<Rightarrow> (proxy_error, 'b config_state) result" where
  "replace_config_state broker_enabled new st = and_then (ensure_credential_broker_enablement_unchanged broker_enabled new)
     (\<lambda>_. Ok (new\<lparr>cs_blocked := cs_blocked st, cs_blocked_total := cs_blocked_total st\<rparr>))"

definition force_reload :: "bool \<Rightarrow> 'b config_state \<Rightarrow> 'b config_state \<Rightarrow> (proxy_error, 'b config_state) result" where
  "force_reload broker_enabled new st = and_then (ensure_credential_broker_enablement_unchanged broker_enabled new)
     (\<lambda>_. Ok (new\<lparr>cs_blocked := cs_blocked st\<rparr>))"

text \<open>The loop over the allowed sockets.\<close>

definition is_unix_socket_allowed :: "proxy_env \<Rightarrow> ustr \<Rightarrow> 'b config_state \<Rightarrow> bool" where
  "is_unix_socket_allowed env path st =
     (let h = pe_host env
      in if \<not> pe_unix_socket_permissions_supported env then False
         else if \<not> is_absolute path then False
         else if px_allow_all_unix_sockets (cs_config st) then True
         else case abs_path h path of
           None \<Rightarrow> False
         | Some requested_abs \<Rightarrow>
             let requested_canonical = canonical h requested_abs
             in list_ex (\<lambda>allowed. case validated_socket_path h allowed of
                  Some (NativeSocket allowed_path) \<Rightarrow>
                    allowed_path = requested_abs \<or>
                    (case requested_canonical of None \<Rightarrow> False | Some c \<Rightarrow> canonical h allowed_path = Some c)
                | _ \<Rightarrow> False) (allow_unix_sockets (cs_config st)))"

section \<open>The decision on a host\<close>

datatype host_block_reason = HostDenied | HostNotAllowed | HostNotAllowedLocal

datatype host_block_decision = HostAllowed | HostBlocked host_block_reason

fun reason_text :: "host_block_reason \<Rightarrow> ustr" where
  "reason_text HostDenied = lit ''denied''"
| "reason_text HostNotAllowed = lit ''not_allowed''"
| "reason_text HostNotAllowedLocal = lit ''not_allowed_local''"

definition globset_matches_host_or_unscoped :: "glob_lib \<Rightarrow> glob_set \<Rightarrow> ustr \<Rightarrow> bool" where
  "globset_matches_host_or_unscoped lib gs h \<longleftrightarrow>
     set_is_match lib gs h \<or> (case unscoped_ip_literal h of Some ip \<Rightarrow> set_is_match lib gs ip | None \<Rightarrow> False)"

definition is_explicit_local_allowlisted :: "ustr list \<Rightarrow> ustr \<Rightarrow> bool" where
  "is_explicit_local_allowlisted allowed h = list_ex (\<lambda>raw.
     let pattern = trim raw
     in if pattern = [STAR] \<or> starts_with (lit ''*.'') pattern \<or> starts_with (lit ''**.'') pattern then False
        else if STAR \<in> set pattern \<or> 63 \<in> set pattern then False
        else normalize_host pattern = h \<or> unscoped_ip_literal h = Some (normalize_host pattern)) allowed"

definition host_resolves_to_non_public_ip :: "(ustr \<Rightarrow> nat \<Rightarrow> ip_addr list option) \<Rightarrow> ustr \<Rightarrow> nat \<Rightarrow> bool" where
  "host_resolves_to_non_public_ip lookup h port = (case parse_ip h of
       Some ip \<Rightarrow> is_non_public_ip ip
     | None \<Rightarrow> (case lookup h port of None \<Rightarrow> True | Some addrs \<Rightarrow> list_ex is_non_public_ip addrs))"

definition is_local_literal :: "ustr \<Rightarrow> bool" where
  "is_local_literal h =
     (let h_no_scope = (case unscoped_ip_literal h of Some ip \<Rightarrow> ip | None \<Rightarrow> h)
      in if is_loopback_host h then True
         else case parse_ip h_no_scope of Some ip \<Rightarrow> is_non_public_ip ip | None \<Rightarrow> False)"

definition host_blocked ::
  "glob_lib \<Rightarrow> (ustr \<Rightarrow> nat \<Rightarrow> ip_addr list option) \<Rightarrow> ustr \<Rightarrow> nat \<Rightarrow> 'b config_state \<Rightarrow> host_block_decision" where
  "host_blocked lib lookup raw port st = (case host_parse raw of
       None \<Rightarrow> HostBlocked HostNotAllowed
     | Some h \<Rightarrow>
         let allowed = allowed_domains (cs_config st)
         in if globset_matches_host_or_unscoped lib (cs_deny_set st) h then HostBlocked HostDenied
            else if \<not> px_allow_local_binding (cs_config st) \<and>
                 (if is_local_literal h then \<not> is_explicit_local_allowlisted (or_empty allowed) h
                  else host_resolves_to_non_public_ip lookup h port)
              then HostBlocked HostNotAllowedLocal
            else if allowed = None \<or> \<not> globset_matches_host_or_unscoped lib (cs_allow_set st) h then HostBlocked HostNotAllowed
            else HostAllowed)"

datatype decision_source = BaselinePolicy | ModeGuard | ProxyState | Decider

datatype policy_decision = PolicyDeny | PolicyAsk

datatype network_decision = NetAllow | NetDeny ustr decision_source policy_decision

definition deny_with_source :: "ustr \<Rightarrow> decision_source \<Rightarrow> network_decision" where
  "deny_with_source reason source = NetDeny (if reason = [] then lit ''policy_denied'' else reason) source PolicyDeny"

fun map_decider_decision :: "network_decision \<Rightarrow> network_decision" where
  "map_decider_decision NetAllow = NetAllow"
| "map_decider_decision (NetDeny reason _ decision) = NetDeny reason Decider decision"

text \<open>The answer of the approval service, as the decider of the proxy.\<close>

fun decision_of_answer :: "network_answer \<Rightarrow> network_decision" where
  "decision_of_answer NetworkAllow = NetAllow"
| "decision_of_answer (NetworkDeny reason) = deny_with_source reason Decider"

text \<open>The audit event is left out.\<close>

definition evaluate_host_policy ::
  "glob_lib \<Rightarrow> (ustr \<Rightarrow> nat \<Rightarrow> ip_addr list option) \<Rightarrow> 'b config_state \<Rightarrow> (net_request \<Rightarrow> network_decision) option \<Rightarrow>
     net_request \<Rightarrow> network_decision" where
  "evaluate_host_policy lib lookup st decider rq = (case host_blocked lib lookup (rq_host rq) (rq_port rq) st of
       HostAllowed \<Rightarrow> NetAllow
     | HostBlocked HostNotAllowed \<Rightarrow> (case decider of
           Some decide \<Rightarrow> map_decider_decision (decide rq)
         | None \<Rightarrow> deny_with_source (reason_text HostNotAllowed) BaselinePolicy)
     | HostBlocked reason \<Rightarrow> deny_with_source (reason_text reason) BaselinePolicy)"

section \<open>The connection\<close>

text \<open>\<open>TargetCheckedStreamConnector::connect\<close>: whether a direct connection to an address is attempted.\<close>

definition target_allowed :: "bool \<Rightarrow> ip_addr \<Rightarrow> bool" where
  "target_allowed allow_local_binding addr \<longleftrightarrow> \<not> (\<not> allow_local_binding \<and> is_non_public_ip addr)"

text \<open>The addresses the proxy listens on: an address with its port.\<close>

definition clamp_non_loopback :: "bool \<Rightarrow> ip_addr \<times> nat \<Rightarrow> ip_addr \<times> nat" where
  "clamp_non_loopback allow_non_loopback addr =
     (if ip_is_loopback (fst addr) then addr
      else if allow_non_loopback then addr
      else (V4 (of_octets [127, 0, 0, 1]), snd addr))"

definition clamp_bind_addrs :: "ip_addr \<times> nat \<Rightarrow> ip_addr \<times> nat \<Rightarrow> proxy_settings \<Rightarrow> (ip_addr \<times> nat) \<times> (ip_addr \<times> nat)" where
  "clamp_bind_addrs http_addr socks_addr cfg =
     (let http = clamp_non_loopback (px_allow_non_loopback cfg) http_addr;
          socks = clamp_non_loopback (px_allow_non_loopback cfg) socks_addr
      in if allow_unix_sockets cfg = [] \<and> \<not> px_allow_all_unix_sockets cfg then (http, socks)
         else ((V4 (of_octets [127, 0, 0, 1]), snd http), (V4 (of_octets [127, 0, 0, 1]), snd socks)))"

end
