(* ===== verification/Credential_Broker.thy ===== *)
theory Credential_Broker
  imports Mitm_Hook Utf8_Stream_Correct
begin

text \<open>
  The broker of credentials (\<open>network-proxy/src/credential_broker.rs\<close> with its providers): a child process gets a
  dummy for each token in its environment, and the proxy puts the token in the place of the dummy in requests to the hosts the token is bound to.
  The random numbers are a function of the candidate that is drawn and of the position in it (\<open>rng\<close>); a
  loop that never finds a dummy is \<open>None\<close>. The JSON text of the marker variable is the business of a library (\<open>to_json\<close>, \<open>from_json\<close>).
\<close>

type_synonym child_env = "ustr \<rightharpoonup> ustr"

section \<open>Providers\<close>

datatype host_binding = ExactHost ustr | HostPattern "ustr list" "ustr list"

fun binding_matches_host :: "host_binding \<Rightarrow> ustr \<Rightarrow> bool" where
  "binding_matches_host (ExactHost expected) h \<longleftrightarrow> h = expected"
| "binding_matches_host (HostPattern exact_hosts suffixes) h \<longleftrightarrow> h \<in> set exact_hosts \<or> list_ex (\<lambda>s. ends_with s h) suffixes"

text \<open>The two static providers.\<close>

datatype provider = Github | Openai

definition GITHUB_TOKEN_PREFIXES :: "ustr list" where
  "GITHUB_TOKEN_PREFIXES = [lit ''github_pat_'', lit ''ghp_'', lit ''gho_'', lit ''ghu_'', lit ''ghs_'', lit ''ghr_'']"

definition GITHUB_CLOUD_HOSTS :: "ustr list" where
  "GITHUB_CLOUD_HOSTS = [lit ''api.github.com'', lit ''github.com'']"

definition GITHUB_CLOUD_HOST_SUFFIXES :: "ustr list" where
  "GITHUB_CLOUD_HOST_SUFFIXES = [lit ''.ghe.com'']"

definition github_cloud_host :: "ustr \<Rightarrow> bool" where
  "github_cloud_host h \<longleftrightarrow> h \<in> set GITHUB_CLOUD_HOSTS \<or> list_ex (\<lambda>s. ends_with s h) GITHUB_CLOUD_HOST_SUFFIXES"

definition github_token_prefix :: "ustr \<Rightarrow> ustr" where
  "github_token_prefix v = (case find (\<lambda>p. starts_with p v) GITHUB_TOKEN_PREFIXES of Some p \<Rightarrow> p | None \<Rightarrow> lit ''ghp_'')"

definition github_host_hint :: "child_env \<Rightarrow> ustr option" where
  "github_host_hint env = (case env (lit ''GH_HOST'') of
       None \<Rightarrow> None
     | Some raw \<Rightarrow> let h = normalize_host raw in if h = [] then None else Some h)"

definition github_cloud_binding :: "child_env \<Rightarrow> host_binding option" where
  "github_cloud_binding env = Some (HostPattern GITHUB_CLOUD_HOSTS GITHUB_CLOUD_HOST_SUFFIXES)"

definition github_enterprise_binding :: "child_env \<Rightarrow> host_binding option" where
  "github_enterprise_binding env = (case github_host_hint env of
       Some h \<Rightarrow> if github_cloud_host h then None else Some (ExactHost h)
     | None \<Rightarrow> None)"

definition openai_host_binding :: "child_env \<Rightarrow> host_binding option" where
  "openai_host_binding env = Some (ExactHost (lit ''api.openai.com''))"

definition openai_api_key_prefix :: "ustr \<Rightarrow> ustr" where
  "openai_api_key_prefix v = (case strip_prefix (lit ''sk-'') v of
       None \<Rightarrow> lit ''sk-''
     | Some suffix \<Rightarrow> if 45 \<in> set suffix then lit ''sk-'' @ takeWhile (\<lambda>c. c \<noteq> 45) suffix @ [45] else lit ''sk-'')"

fun context_env_vars :: "provider \<Rightarrow> ustr list" where
  "context_env_vars Github = [lit ''GH_HOST'']"
| "context_env_vars Openai = []"

fun provider_sources :: "provider \<Rightarrow> (ustr list \<times> (child_env \<Rightarrow> host_binding option)) list" where
  "provider_sources Github =
     [([lit ''GH_TOKEN'', lit ''GITHUB_TOKEN''], github_cloud_binding),
      ([lit ''GH_ENTERPRISE_TOKEN'', lit ''GITHUB_ENTERPRISE_TOKEN''], github_enterprise_binding)]"
| "provider_sources Openai = [([lit ''OPENAI_API_KEY''], openai_host_binding)]"

definition CREDENTIAL_PROVIDERS :: "provider list" where
  "CREDENTIAL_PROVIDERS = [Github, Openai]"

definition credential_broker_env_keys :: "ustr list" where
  "credential_broker_env_keys =
     concat (map context_env_vars CREDENTIAL_PROVIDERS) @ concat (map fst (concat (map provider_sources CREDENTIAL_PROVIDERS)))"

text \<open>Both providers use the header \<open>Authorization\<close>.\<close>

definition AUTHORIZATION :: ustr where
  "AUTHORIZATION = lit ''authorization''"

definition request_header :: "provider \<Rightarrow> header_map \<Rightarrow> ustr option" where
  "request_header prov headers = header_get AUTHORIZATION headers"

definition request_header_value :: "http_lib \<Rightarrow> provider \<Rightarrow> ustr \<Rightarrow> ustr option" where
  "request_header_value lib prov v = hl_header_value lib (lit ''Bearer '' @ v)"

definition insert_request_header :: "provider \<Rightarrow> header_map \<Rightarrow> ustr \<Rightarrow> header_map" where
  "insert_request_header prov headers v = header_insert AUTHORIZATION v headers"

section \<open>Dummies\<close>

definition is_ascii_alphanumeric :: "int \<Rightarrow> bool" where
  "is_ascii_alphanumeric b \<longleftrightarrow> 48 \<le> b \<and> b \<le> 57 \<or> 65 \<le> b \<and> b \<le> 90 \<or> 97 \<le> b \<and> b \<le> 122"

definition DUMMY_ALPHANUMERIC :: "int list" where
  "DUMMY_ALPHANUMERIC = [65..90] @ [97..122] @ [48..57]"

text \<open>Lengths and positions are those of the UTF-8 bytes; a byte of the template becomes the character with its number.\<close>

definition shaped_dummy_value :: "(nat \<Rightarrow> nat) \<Rightarrow> ustr \<Rightarrow> ustr \<Rightarrow> nat \<Rightarrow> ustr" where
  "shaped_dummy_value draw real_value prefix minimum_len =
     (let real_bytes = encode real_value;
          prefix_len = length (encode prefix);
          target_len = max (max (length real_bytes) minimum_len) (prefix_len + 16)
      in prefix @ map (\<lambda>i.
           if i < length real_bytes \<and> \<not> is_ascii_alphanumeric (real_bytes ! i) then real_bytes ! i
           else DUMMY_ALPHANUMERIC ! (draw i mod length DUMMY_ALPHANUMERIC)) [prefix_len..<target_len])"

fun dummy_value :: "(nat \<Rightarrow> nat) \<Rightarrow> provider \<Rightarrow> ustr \<Rightarrow> ustr" where
  "dummy_value draw Github real_value = shaped_dummy_value draw real_value (github_token_prefix real_value) 40"
| "dummy_value draw Openai real_value = shaped_dummy_value draw real_value (openai_api_key_prefix real_value) 51"

section \<open>The broker\<close>

record credential =
  cr_env_var :: ustr
  cr_provider :: provider
  cr_binding :: host_binding
  cr_real :: ustr
  cr_dummy :: ustr

text \<open>\<open>br_drawn\<close> counts the candidates for dummies that were drawn so far.\<close>

record broker =
  br_enabled :: bool
  br_credentials :: "credential list"
  br_drawn :: nat

definition new_broker :: "bool \<Rightarrow> broker" where
  "new_broker enabled = \<lparr>br_enabled = enabled, br_credentials = [], br_drawn = 0\<rparr>"

definition is_dummy_value :: "credential list \<Rightarrow> ustr \<Rightarrow> bool" where
  "is_dummy_value creds v = list_ex (\<lambda>c. cr_dummy c = v) creds"

partial_function (option) draw_dummy ::
  "(nat \<Rightarrow> nat \<Rightarrow> nat) \<Rightarrow> provider \<Rightarrow> ustr \<Rightarrow> credential list \<Rightarrow> nat \<Rightarrow> (ustr \<times> nat) option" where
  "draw_dummy rng prov real_value creds n =
     (let candidate = dummy_value (rng n) prov real_value
      in if candidate \<noteq> real_value \<and> \<not> is_dummy_value creds candidate then Some (candidate, Suc n)
         else draw_dummy rng prov real_value creds (Suc n))"

definition register_credential ::
  "(nat \<Rightarrow> nat \<Rightarrow> nat) \<Rightarrow> ustr \<Rightarrow> provider \<Rightarrow> host_binding \<Rightarrow> ustr \<Rightarrow> broker \<Rightarrow> (ustr \<times> broker) option" where
  "register_credential rng env_var prov binding real_value b =
     (case find (\<lambda>c. cr_env_var c = env_var \<and> cr_provider c = prov \<and> cr_binding c = binding \<and> cr_real c = real_value) (br_credentials b) of
        Some existing \<Rightarrow> Some (cr_dummy existing, b)
      | None \<Rightarrow> map_option (\<lambda>(dummy, n).
          (dummy, b\<lparr>br_credentials := br_credentials b @ [\<lparr>cr_env_var = env_var, cr_provider = prov, cr_binding = binding,
               cr_real = real_value, cr_dummy = dummy\<rparr>], br_drawn := n\<rparr>))
          (draw_dummy rng prov real_value (br_credentials b) (br_drawn b)))"

definition brokerable_credential_value :: "http_lib \<Rightarrow> child_env \<Rightarrow> broker \<Rightarrow> ustr \<Rightarrow> provider \<Rightarrow> ustr option" where
  "brokerable_credential_value lib env b env_var prov = (case env env_var of
       None \<Rightarrow> None
     | Some raw \<Rightarrow> let real_value = trim raw
         in if real_value \<noteq> [] \<and> \<not> is_dummy_value (br_credentials b) real_value \<and> request_header_value lib prov real_value \<noteq> None
            then Some real_value else None)"

definition virtualize_env_var ::
  "http_lib \<Rightarrow> (nat \<Rightarrow> nat \<Rightarrow> nat) \<Rightarrow> ustr \<Rightarrow> provider \<Rightarrow> host_binding \<Rightarrow> child_env \<times> broker \<Rightarrow> (child_env \<times> broker) option" where
  "virtualize_env_var lib rng env_var prov binding = (\<lambda>(env, b).
     case brokerable_credential_value lib env b env_var prov of
       None \<Rightarrow> Some (env, b)
     | Some real_value \<Rightarrow> map_option (\<lambda>(dummy, b'). (env(env_var \<mapsto> dummy), b')) (register_credential rng env_var prov binding real_value b))"

text \<open>The nested loops: a source without a binding in the environment is passed over.\<close>

fun option_fold :: "('a \<Rightarrow> 's \<Rightarrow> 's option) \<Rightarrow> 'a list \<Rightarrow> 's \<Rightarrow> 's option" where
  "option_fold f [] s = Some s"
| "option_fold f (x # xs) s = (case f x s of None \<Rightarrow> None | Some s' \<Rightarrow> option_fold f xs s')"

definition virtualize_source ::
  "http_lib \<Rightarrow> (nat \<Rightarrow> nat \<Rightarrow> nat) \<Rightarrow> provider \<Rightarrow> ustr list \<times> (child_env \<Rightarrow> host_binding option) \<Rightarrow>
     child_env \<times> broker \<Rightarrow> (child_env \<times> broker) option" where
  "virtualize_source lib rng prov = (\<lambda>(env_vars, host_binding) s.
     case host_binding (fst s) of
       None \<Rightarrow> Some s
     | Some binding \<Rightarrow> option_fold (\<lambda>env_var. virtualize_env_var lib rng env_var prov binding) env_vars s)"

definition ACTIVE_KEY :: ustr where "ACTIVE_KEY = lit ''CODEX_NETWORK_PROXY_CREDENTIAL_BROKER_ACTIVE''"
definition BROKERED_KEY :: ustr where "BROKERED_KEY = lit ''CODEX_NETWORK_PROXY_BROKERED_CREDENTIALS''"

definition update_brokered_credentials_marker :: "((ustr \<times> ustr) list \<Rightarrow> ustr option) \<Rightarrow> broker \<Rightarrow> child_env \<Rightarrow> child_env" where
  "update_brokered_credentials_marker to_json b env =
     (let brokered = List.map_filter (\<lambda>key. case env key of
            Some v \<Rightarrow> if is_dummy_value (br_credentials b) v then Some (key, v) else None
          | None \<Rightarrow> None) credential_broker_env_keys
      in case to_json brokered of Some marker \<Rightarrow> env(BROKERED_KEY \<mapsto> marker) | None \<Rightarrow> env(BROKERED_KEY := None))"

definition virtualize_child_env ::
  "http_lib \<Rightarrow> ((ustr \<times> ustr) list \<Rightarrow> ustr option) \<Rightarrow> (nat \<Rightarrow> nat \<Rightarrow> nat) \<Rightarrow> child_env \<Rightarrow> broker \<Rightarrow> (child_env \<times> broker) option" where
  "virtualize_child_env lib to_json rng env b =
     (if \<not> br_enabled b then Some (env(ACTIVE_KEY := None, BROKERED_KEY := None), b)
      else map_option (\<lambda>(env', b'). (update_brokered_credentials_marker to_json b' env', b'))
        (option_fold (\<lambda>prov. option_fold (virtualize_source lib rng prov) (provider_sources prov)) CREDENTIAL_PROVIDERS
           (env(ACTIVE_KEY \<mapsto> lit ''1''), b)))"

section \<open>Requests\<close>

definition credential_matches_host :: "credential \<Rightarrow> ustr \<Rightarrow> bool" where
  "credential_matches_host c h = binding_matches_host (cr_binding c) h"

definition host_requires_mitm :: "broker \<Rightarrow> ustr \<Rightarrow> bool" where
  "host_requires_mitm b h \<longleftrightarrow> br_enabled b \<and> list_ex (\<lambda>c. credential_matches_host c (normalize_host h)) (br_credentials b)"

definition select_credential :: "http_lib \<Rightarrow> header_map \<Rightarrow> credential list \<Rightarrow> credential option" where
  "select_credential lib headers matching =
     (case filter (\<lambda>c. case request_header (cr_provider c) headers of
          None \<Rightarrow> False
        | Some raw \<Rightarrow> (case hl_to_str lib raw of None \<Rightarrow> False | Some v \<Rightarrow> contains_str (cr_dummy c) v)) matching of
        [c] \<Rightarrow> Some c
      | _ \<Rightarrow> None)"

definition inject_request_headers :: "http_lib \<Rightarrow> broker \<Rightarrow> ustr \<Rightarrow> header_map \<Rightarrow> header_map" where
  "inject_request_headers lib b h headers =
     (if \<not> br_enabled b then headers
      else
        let matching = filter (\<lambda>c. credential_matches_host c (normalize_host h)) (br_credentials b)
        in case select_credential lib headers matching of
             None \<Rightarrow> headers
           | Some c \<Rightarrow> (case request_header_value lib (cr_provider c) (cr_real c) of
                 None \<Rightarrow> headers
               | Some v \<Rightarrow> insert_request_header (cr_provider c) headers v))"

section \<open>Keys\<close>

definition brokered_credential_dummy_env_keys :: "(ustr \<Rightarrow> (ustr \<times> ustr) list option) \<Rightarrow> child_env \<Rightarrow> ustr list" where
  "brokered_credential_dummy_env_keys from_json env =
     (let entries' = (case env BROKERED_KEY of None \<Rightarrow> [] | Some marker \<Rightarrow> (case from_json marker of Some es \<Rightarrow> es | None \<Rightarrow> []))
      in map fst (filter (\<lambda>(key, dummy). key \<in> set credential_broker_env_keys \<and> env key = Some dummy) entries'))"

definition brokered_credential_env_keys :: "child_env \<Rightarrow> ustr list" where
  "brokered_credential_env_keys env = (if env ACTIVE_KEY = Some (lit ''1'') then credential_broker_env_keys else [])"

end
