(* ===== verification/Proxy_Requests.thy ===== *)
theory Proxy_Requests
  imports Network_Proxy Credential_Broker
begin

text \<open>
  What the proxy does with a request (\<open>network-proxy/src/{http_proxy,socks5,mitm,responses}.rs\<close>): tunnels (\<open>CONNECT\<close>), plain HTTP
  and Unix sockets, SOCKS over TCP and UDP, and the requests inside an intercepted connection. A handler gives its outcome and the state with
  the blocked requests it recorded; a connection that is to be made is an outcome. Reading the state does not fail, audit events and
  logs are left out, and a time stamp is not part of a blocked request. What the library makes of a request are the fields of
  \<open>proxied_request\<close>.
\<close>

section \<open>Responses\<close>

fun as_policy_protocol :: "proxy_protocol \<Rightarrow> ustr" where
  "as_policy_protocol ProxyHttp = lit ''http''"
| "as_policy_protocol ProxyHttpsConnect = lit ''https_connect''"
| "as_policy_protocol ProxySocks5Tcp = lit ''socks5_tcp''"
| "as_policy_protocol ProxySocks5Udp = lit ''socks5_udp''"

fun policy_decision_text :: "policy_decision \<Rightarrow> ustr" where
  "policy_decision_text PolicyDeny = lit ''deny''"
| "policy_decision_text PolicyAsk = lit ''ask''"

fun decision_source_text :: "decision_source \<Rightarrow> ustr" where
  "decision_source_text BaselinePolicy = lit ''baseline_policy''"
| "decision_source_text ModeGuard = lit ''mode_guard''"
| "decision_source_text ProxyState = lit ''proxy_state''"
| "decision_source_text Decider = lit ''decider''"

abbreviation REASON_METHOD_NOT_ALLOWED :: ustr where "REASON_METHOD_NOT_ALLOWED \<equiv> lit ''method_not_allowed''"
abbreviation REASON_MITM_HOOK_DENIED :: ustr where "REASON_MITM_HOOK_DENIED \<equiv> lit ''mitm_hook_denied''"
abbreviation REASON_MITM_REQUIRED :: ustr where "REASON_MITM_REQUIRED \<equiv> lit ''mitm_required''"
abbreviation REASON_NOT_ALLOWED :: ustr where "REASON_NOT_ALLOWED \<equiv> lit ''not_allowed''"
abbreviation REASON_PROXY_DISABLED :: ustr where "REASON_PROXY_DISABLED \<equiv> lit ''proxy_disabled''"

definition blocked_header_value :: "ustr \<Rightarrow> ustr" where
  "blocked_header_value reason =
     (if reason = REASON_NOT_ALLOWED \<or> reason = lit ''not_allowed_local'' then lit ''blocked-by-allowlist''
      else if reason = lit ''denied'' then lit ''blocked-by-denylist''
      else if reason = REASON_METHOD_NOT_ALLOWED then lit ''blocked-by-method-policy''
      else if reason = REASON_MITM_HOOK_DENIED then lit ''blocked-by-mitm-hook''
      else if reason = REASON_MITM_REQUIRED then lit ''blocked-by-mitm-required''
      else lit ''blocked-by-policy'')"

definition blocked_message :: "ustr \<Rightarrow> ustr" where
  "blocked_message reason =
     (if reason = REASON_NOT_ALLOWED then lit ''Domain not in allowlist.''
      else if reason = lit ''not_allowed_local'' then lit ''Sandbox policy blocks local/private network addresses.''
      else if reason = lit ''denied'' then lit ''Domain denied by the sandbox policy.''
      else if reason = REASON_METHOD_NOT_ALLOWED then lit ''Method not allowed in limited mode.''
      else if reason = REASON_MITM_HOOK_DENIED then lit ''HTTPS request denied by MITM hook policy.''
      else if reason = REASON_MITM_REQUIRED then lit ''MITM required for limited HTTPS.''
      else if reason = REASON_PROXY_DISABLED then lit ''network proxy is disabled''
      else lit ''Request blocked by network policy.'')"

text \<open>The details of a decision; the body of a JSON response is the value that is serialised.\<close>

record policy_details =
  pd_decision :: policy_decision
  pd_source :: decision_source
  pd_protocol :: proxy_protocol
  pd_port :: nat

record blocked_response =
  bj_host :: ustr
  bj_reason :: ustr
  bj_decision :: "ustr option"
  bj_source :: "ustr option"
  bj_protocol :: "ustr option"
  bj_port :: "nat option"
  bj_message :: "ustr option"

datatype response_body = TextBody ustr | BlockedBody blocked_response

record proxy_response =
  rs_status :: nat
  rs_proxy_error :: "ustr option"
  rs_body :: response_body

definition text_response :: "nat \<Rightarrow> ustr \<Rightarrow> proxy_response" where
  "text_response status body = \<lparr>rs_status = status, rs_proxy_error = None, rs_body = TextBody body\<rparr>"

definition blocked_text_response :: "ustr \<Rightarrow> proxy_response" where
  "blocked_text_response reason =
     \<lparr>rs_status = 403, rs_proxy_error = Some (blocked_header_value reason), rs_body = TextBody (blocked_message reason)\<rparr>"

definition json_blocked :: "ustr \<Rightarrow> ustr \<Rightarrow> policy_details option \<Rightarrow> proxy_response" where
  "json_blocked h reason details =
     \<lparr>rs_status = 403, rs_proxy_error = Some (blocked_header_value reason),
      rs_body = BlockedBody \<lparr>bj_host = h, bj_reason = reason,
        bj_decision = map_option (\<lambda>d. policy_decision_text (pd_decision d)) details,
        bj_source = map_option (\<lambda>d. decision_source_text (pd_source d)) details,
        bj_protocol = map_option (\<lambda>d. as_policy_protocol (pd_protocol d)) details,
        bj_port = map_option pd_port details,
        bj_message = map_option (\<lambda>_. blocked_message reason) details\<rparr>\<rparr>"

record blocked_request =
  bl_host :: ustr
  bl_reason :: ustr
  bl_client :: "ustr option"
  bl_method :: "ustr option"
  bl_mode :: "network_mode option"
  bl_protocol :: ustr
  bl_decision :: "ustr option"
  bl_source :: "ustr option"
  bl_port :: "nat option"

type_synonym proxy_state = "blocked_request config_state"

section \<open>Interception\<close>

datatype mitm_requirement = NoMitm | MitmForTls | MitmAlways

definition host_mitm_requirement :: "broker \<Rightarrow> proxy_state \<Rightarrow> ustr \<Rightarrow> mitm_requirement" where
  "host_mitm_requirement b st h =
     (if cs_mitm_hooks st (normalize_host h) \<noteq> None then MitmAlways
      else if host_requires_mitm b (normalize_host h) then MitmForTls
      else NoMitm)"

datatype mitm_mode = MitmDisabled | MitmEnabled | DetectTls

definition choose_mitm_mode :: "network_mode \<Rightarrow> mitm_requirement \<Rightarrow> mitm_mode" where
  "choose_mitm_mode mode requirement =
     (if mode = Limited then MitmEnabled
      else case requirement of NoMitm \<Rightarrow> MitmDisabled | MitmForTls \<Rightarrow> DetectTls | MitmAlways \<Rightarrow> MitmEnabled)"

text \<open>A stream is the list of the pieces that reads can return; a read takes at most so many bytes.\<close>

fun read_some :: "nat \<Rightarrow> int list list \<Rightarrow> int list \<times> int list list" where
  "read_some n [] = ([], [])"
| "read_some n (c # cs) = (take n c, if length c \<le> n then cs else drop n c # cs)"

definition TLS_PREFIX_LEN :: nat where "TLS_PREFIX_LEN = 5"

definition possible_tls_prefix :: "int list \<Rightarrow> bool" where
  "possible_tls_prefix buf = (case buf of
       [a] \<Rightarrow> a = 0x16
     | [a, b] \<Rightarrow> a = 0x16 \<and> b = 3
     | a # b # c # _ \<Rightarrow> a = 0x16 \<and> b = 3 \<and> 0 \<le> c \<and> c \<le> 4
     | [] \<Rightarrow> False)"

function peek_loop :: "int list \<Rightarrow> int list list \<Rightarrow> int list \<times> int list list" where
  "peek_loop buf cs =
     (if 0 < length buf \<and> length buf < TLS_PREFIX_LEN \<and> possible_tls_prefix buf then
        (let (r, cs') = read_some (TLS_PREFIX_LEN - length buf) cs
         in if r = [] then (buf, cs') else peek_loop (buf @ r) cs')
      else (buf, cs))"
  by pat_completeness auto

termination
  by (relation "measure (\<lambda>(buf, cs). TLS_PREFIX_LEN - length buf)") (auto simp: TLS_PREFIX_LEN_def intro!: diff_less_mono2)

declare peek_loop.simps [simp del]

text \<open>Whether the stream starts a TLS handshake, and the stream with the bytes that were read in front again. The first read may time out.\<close>

definition peek_tls_prefix :: "bool \<Rightarrow> int list list \<Rightarrow> bool \<times> int list list" where
  "peek_tls_prefix timed_out stream =
     (let (first, rest) = (if timed_out then ([], stream) else read_some TLS_PREFIX_LEN stream);
          (buf, rest') = peek_loop first rest
      in (length buf = TLS_PREFIX_LEN \<and> possible_tls_prefix buf, buf # rest'))"

section \<open>Tunnels\<close>

record request_context =
  ctx_host :: ustr
  ctx_port :: "nat option"
  ctx_effective_port :: nat
  ctx_has_default_port :: bool

record proxied_request = http_request +
  pr_scheme :: "ustr option"
  pr_context :: "request_context option"
  pr_host_header :: "(unit, (ustr \<times> nat option) option) result"
  pr_client :: "ustr option"

datatype connect_outcome = ConnectRefused proxy_response | ConnectAccepted mitm_mode network_mode bool

definition proxy_disabled_response ::
  "ustr \<Rightarrow> nat \<Rightarrow> ustr option \<Rightarrow> ustr option \<Rightarrow> proxy_protocol \<Rightarrow> proxy_state \<Rightarrow> proxy_response \<times> proxy_state" where
  "proxy_disabled_response h port client meth proto st =
     (text_response 503 (blocked_message REASON_PROXY_DISABLED),
      record_blocked \<lparr>bl_host = h, bl_reason = REASON_PROXY_DISABLED, bl_client = client, bl_method = meth, bl_mode = None,
        bl_protocol = as_policy_protocol proto, bl_decision = Some (lit ''deny''), bl_source = Some (lit ''proxy_state''),
        bl_port = Some port\<rparr> st)"

definition http_connect_accept ::
  "proxy_env \<Rightarrow> (ustr \<Rightarrow> nat \<Rightarrow> ip_addr list option) \<Rightarrow> broker \<Rightarrow> (net_request \<Rightarrow> network_decision) option \<Rightarrow> ustr option \<Rightarrow>
     proxied_request \<Rightarrow> proxy_state \<Rightarrow> connect_outcome \<times> proxy_state" where
  "http_connect_accept env lookup b decider environment req st =
     (case pr_context req of
        None \<Rightarrow> (ConnectRefused (text_response 400 (lit ''missing authority'')), st)
      | Some ctx \<Rightarrow>
          let h = normalize_host (ctx_host ctx); port = ctx_effective_port ctx; client = pr_client req;
              blocked = (\<lambda>reason mode decision source.
                (ConnectRefused (blocked_text_response reason),
                 record_blocked \<lparr>bl_host = h, bl_reason = reason, bl_client = client, bl_method = Some (lit ''CONNECT''), bl_mode = mode,
                   bl_protocol = lit ''http-connect'', bl_decision = Some (policy_decision_text decision),
                   bl_source = Some (decision_source_text source), bl_port = Some port\<rparr> st))
          in if h = [] then (ConnectRefused (text_response 400 (lit ''invalid host'')), st)
             else if \<not> px_enabled (cs_config st) then
               map_prod ConnectRefused id (proxy_disabled_response h port client (Some (lit ''CONNECT'')) ProxyHttpsConnect st)
             else case evaluate_host_policy (pe_globs env) lookup st decider
                 \<lparr>rq_host = h, rq_protocol = ProxyHttpsConnect, rq_port = port, rq_environment = environment\<rparr> of
               NetDeny reason source decision \<Rightarrow> blocked reason None decision source
             | NetAllow \<Rightarrow>
                 let mode = px_mode (cs_config st);
                     connect_mitm_mode = choose_mitm_mode mode (host_mitm_requirement b st h)
                 in if connect_mitm_mode = MitmEnabled \<and> \<not> cs_mitm st then blocked REASON_MITM_REQUIRED (Some mode) PolicyDeny ModeGuard
                    else (ConnectAccepted connect_mitm_mode mode (connect_mitm_mode \<noteq> MitmDisabled \<and> cs_mitm st), st))"

text \<open>The upgraded connection: forwarded bytes, the requests inside, or an error.\<close>

datatype tunnel = DirectTunnel | InterceptedTunnel network_mode | TunnelFailed

definition mitm_connect_tunnel :: "network_mode \<Rightarrow> bool \<Rightarrow> tunnel" where
  "mitm_connect_tunnel mode has_mitm = (if has_mitm then InterceptedTunnel mode else TunnelFailed)"

definition http_connect_proxy :: "mitm_mode \<Rightarrow> network_mode \<Rightarrow> bool \<Rightarrow> bool \<Rightarrow> int list list \<Rightarrow> tunnel" where
  "http_connect_proxy connect_mitm_mode mode has_mitm timed_out stream = (case connect_mitm_mode of
       MitmDisabled \<Rightarrow> DirectTunnel
     | MitmEnabled \<Rightarrow> mitm_connect_tunnel mode has_mitm
     | DetectTls \<Rightarrow> if fst (peek_tls_prefix timed_out stream) then mitm_connect_tunnel mode has_mitm else DirectTunnel)"

section \<open>Plain requests\<close>

definition validate_absolute_form_host_header :: "proxied_request \<Rightarrow> request_context \<Rightarrow> (ustr, unit) result" where
  "validate_absolute_form_host_header req ctx =
     (let mismatch = Err (lit ''Host header does not match request target'')
      in if pr_scheme req = None then Ok ()
         else case pr_host_header req of
           Err _ \<Rightarrow> Err (lit ''invalid Host header'')
         | Ok None \<Rightarrow> Ok ()
         | Ok (Some (h, port)) \<Rightarrow>
             if h \<noteq> ctx_host ctx then mismatch
             else case port of
               Some p \<Rightarrow> if Some p \<noteq> ctx_port ctx then mismatch else Ok ()
             | None \<Rightarrow> if \<not> ctx_has_default_port ctx then mismatch else Ok ())"

text \<open>The headers that the values of \<open>Connection\<close> name go with it.\<close>

definition connection_tokens :: "http_lib \<Rightarrow> ustr \<Rightarrow> ustr list" where
  "connection_tokens lib raw = (case hl_to_str lib raw of
       None \<Rightarrow> []
     | Some v \<Rightarrow> List.map_filter (hl_header_name lib) (filter (\<lambda>t. t \<noteq> []) (map trim (split_on 44 v))))"

lemma header_remove_shorter: "header_get name headers = Some v \<Longrightarrow> length (header_remove name headers) < length headers"
  by (induction headers) (auto simp: header_get_def header_remove_def less_Suc_eq_le split: if_splits)

lemma header_remove_le: "length (fold header_remove names headers) \<le> length headers"
proof (induction names arbitrary: headers)
  case (Cons name names)
  have "length (header_remove name headers) \<le> length headers" by (simp add: header_remove_def)
  then show ?case using Cons.IH [of "header_remove name headers"] by simp
qed simp

function remove_connection_headers :: "http_lib \<Rightarrow> header_map \<Rightarrow> header_map" where
  "remove_connection_headers lib headers = (case header_get (lit ''connection'') headers of
       None \<Rightarrow> headers
     | Some raw \<Rightarrow> remove_connection_headers lib (fold header_remove (connection_tokens lib raw) (header_remove (lit ''connection'') headers)))"
  by pat_completeness auto

termination
  by (relation "measure (\<lambda>(lib, headers). length headers)")
    (auto intro: le_less_trans [OF header_remove_le header_remove_shorter])

declare remove_connection_headers.simps [simp del]

definition hop_by_hop_names :: "ustr list" where
  "hop_by_hop_names = [lit ''keep-alive'', lit ''proxy-connection'', lit ''proxy-authorization'', lit ''trailer'', lit ''transfer-encoding'', lit ''upgrade'', lit ''te'']"

definition remove_hop_by_hop_request_headers :: "http_lib \<Rightarrow> header_map \<Rightarrow> header_map" where
  "remove_hop_by_hop_request_headers lib headers = fold header_remove hop_by_hop_names (remove_connection_headers lib headers)"

definition inject_plaintext_credentials_if_enabled :: "http_lib \<Rightarrow> broker \<Rightarrow> proxy_state \<Rightarrow> ustr \<Rightarrow> header_map \<Rightarrow> header_map" where
  "inject_plaintext_credentials_if_enabled lib b st h headers =
     (if px_plaintext_credential_injection (cs_config st) then inject_request_headers lib b h headers else headers)"

datatype plain_outcome = PlainResponse proxy_response | ToUnixSocket ustr header_map | ToUpstream bool header_map

definition http_unix_socket ::
  "proxy_env \<Rightarrow> ustr \<Rightarrow> bool \<Rightarrow> proxied_request \<Rightarrow> proxy_state \<Rightarrow> plain_outcome \<times> proxy_state" where
  "http_unix_socket env raw method_allowed req st =
     (case hl_to_str (pe_http env) raw of
        None \<Rightarrow> (PlainResponse (text_response 400 (lit ''invalid x-unix-socket header'')), st)
      | Some socket_path \<Rightarrow>
          if \<not> px_enabled (cs_config st) then
            map_prod PlainResponse id (proxy_disabled_response socket_path 0 (pr_client req) (Some (hr_method req)) ProxyHttp st)
          else if \<not> method_allowed then (PlainResponse (json_blocked (lit ''unix-socket'') REASON_METHOD_NOT_ALLOWED None), st)
          else if \<not> pe_unix_socket_permissions_supported env then (PlainResponse (text_response 501 (lit ''unix sockets unsupported'')), st)
          else if is_unix_socket_allowed env socket_path st then
            (ToUnixSocket socket_path (remove_hop_by_hop_request_headers (pe_http env) (header_remove (lit ''x-unix-socket'') (hr_headers req))), st)
          else (PlainResponse (json_blocked (lit ''unix-socket'') REASON_NOT_ALLOWED None), st))"

definition http_plain_proxy ::
  "proxy_env \<Rightarrow> (ustr \<Rightarrow> nat \<Rightarrow> ip_addr list option) \<Rightarrow> broker \<Rightarrow> (net_request \<Rightarrow> network_decision) option \<Rightarrow> ustr option \<Rightarrow>
     proxied_request \<Rightarrow> proxy_state \<Rightarrow> plain_outcome \<times> proxy_state" where
  "http_plain_proxy env lookup b decider environment req st =
     (let method_allowed = allows_method (px_mode (cs_config st)) (hr_method req)
      in case header_get (lit ''x-unix-socket'') (hr_headers req) of
        Some raw \<Rightarrow> http_unix_socket env raw method_allowed req st
      | None \<Rightarrow> (case pr_context req of
          None \<Rightarrow> (PlainResponse (text_response 400 (lit ''missing host'')), st)
        | Some ctx \<Rightarrow>
            let h = normalize_host (ctx_host ctx); port = ctx_effective_port ctx;
                blocked = (\<lambda>reason mode decision source.
                  (PlainResponse (json_blocked h reason (Some \<lparr>pd_decision = decision, pd_source = source, pd_protocol = ProxyHttp, pd_port = port\<rparr>)),
                   record_blocked \<lparr>bl_host = h, bl_reason = reason, bl_client = pr_client req, bl_method = Some (hr_method req), bl_mode = mode,
                     bl_protocol = lit ''http'', bl_decision = Some (policy_decision_text decision),
                     bl_source = Some (decision_source_text source), bl_port = Some port\<rparr> st))
            in case validate_absolute_form_host_header req ctx of
                 Err reason \<Rightarrow> (PlainResponse (text_response 400 reason), st)
               | Ok _ \<Rightarrow>
                   if \<not> px_enabled (cs_config st) then
                     map_prod PlainResponse id (proxy_disabled_response h port (pr_client req) (Some (hr_method req)) ProxyHttp st)
                   else case evaluate_host_policy (pe_globs env) lookup st decider
                       \<lparr>rq_host = h, rq_protocol = ProxyHttp, rq_port = port, rq_environment = environment\<rparr> of
                     NetDeny reason source decision \<Rightarrow> blocked reason None decision source
                   | NetAllow \<Rightarrow>
                       if \<not> method_allowed then blocked REASON_METHOD_NOT_ALLOWED (Some Limited) PolicyDeny ModeGuard
                       else (ToUpstream (px_allow_upstream_proxy (cs_config st))
                         (remove_hop_by_hop_request_headers (pe_http env)
                           (inject_plaintext_credentials_if_enabled (pe_http env) b st h (hr_headers req))), st)))"

section \<open>SOCKS\<close>

text \<open>The messages are those of the errors.\<close>

datatype socks_outcome = SocksRefused ustr | SocksDirect | SocksMitm network_mode | SocksDetectTls network_mode

definition handle_socks5_tcp ::
  "proxy_env \<Rightarrow> (ustr \<Rightarrow> nat \<Rightarrow> ip_addr list option) \<Rightarrow> broker \<Rightarrow> (net_request \<Rightarrow> network_decision) option \<Rightarrow> ustr option \<Rightarrow>
     ustr \<Rightarrow> nat \<Rightarrow> ustr option \<Rightarrow> proxy_state \<Rightarrow> socks_outcome \<times> proxy_state" where
  "handle_socks5_tcp env lookup b decider environment raw_host port client st =
     (let h = normalize_host raw_host;
          mode = px_mode (cs_config st);
          blocked = (\<lambda>reason bmode decision source.
            (SocksRefused (blocked_message reason),
             record_blocked \<lparr>bl_host = h, bl_reason = reason, bl_client = client, bl_method = None, bl_mode = bmode,
               bl_protocol = lit ''socks5'', bl_decision = Some (policy_decision_text decision),
               bl_source = Some (decision_source_text source), bl_port = Some port\<rparr> st));
          socks5_tcp_target_is_https = (port = 443)
      in if h = [] then (SocksRefused (lit ''invalid host''), st)
         else if \<not> px_enabled (cs_config st) then blocked REASON_PROXY_DISABLED None PolicyDeny ProxyState
         else if mode = Limited \<and> \<not> socks5_tcp_target_is_https then blocked REASON_METHOD_NOT_ALLOWED (Some Limited) PolicyDeny ModeGuard
         else case evaluate_host_policy (pe_globs env) lookup st decider
             \<lparr>rq_host = h, rq_protocol = ProxySocks5Tcp, rq_port = port, rq_environment = environment\<rparr> of
           NetDeny reason source decision \<Rightarrow> blocked reason None decision source
         | NetAllow \<Rightarrow>
             let requirement = host_mitm_requirement b st h;
                 socks_mitm_mode = choose_mitm_mode mode requirement;
                 unsupported_hook_protocol = (requirement = MitmAlways \<and> \<not> socks5_tcp_target_is_https)
             in if unsupported_hook_protocol \<or> socks_mitm_mode \<noteq> MitmDisabled \<and> \<not> cs_mitm st
                then blocked REASON_MITM_REQUIRED (Some mode) PolicyDeny ModeGuard
                else if cs_mitm st then (case socks_mitm_mode of
                    MitmDisabled \<Rightarrow> (SocksDirect, st)
                  | MitmEnabled \<Rightarrow> (SocksMitm mode, st)
                  | DetectTls \<Rightarrow> (SocksDetectTls mode, st))
                else (SocksDirect, st))"

definition proxy_socks5_tcp :: "bool \<Rightarrow> int list list \<Rightarrow> socks_outcome \<Rightarrow> tunnel" where
  "proxy_socks5_tcp timed_out stream outcome = (case outcome of
       SocksRefused _ \<Rightarrow> TunnelFailed
     | SocksDirect \<Rightarrow> DirectTunnel
     | SocksMitm mode \<Rightarrow> InterceptedTunnel mode
     | SocksDetectTls mode \<Rightarrow> if fst (peek_tls_prefix timed_out stream) then InterceptedTunnel mode else DirectTunnel)"

text \<open>The payload of a datagram is relayed, or an error is returned.\<close>

definition inspect_socks5_udp ::
  "proxy_env \<Rightarrow> (ustr \<Rightarrow> nat \<Rightarrow> ip_addr list option) \<Rightarrow> (net_request \<Rightarrow> network_decision) option \<Rightarrow> ustr option \<Rightarrow>
     ustr \<Rightarrow> nat \<Rightarrow> ustr option \<Rightarrow> int list \<Rightarrow> proxy_state \<Rightarrow> (ustr, int list) result \<times> proxy_state" where
  "inspect_socks5_udp env lookup decider environment server_ip port client payload st =
     (let h = normalize_host server_ip;
          blocked = (\<lambda>reason bmode decision source.
            (Err (blocked_message reason),
             record_blocked \<lparr>bl_host = h, bl_reason = reason, bl_client = client, bl_method = None, bl_mode = bmode,
               bl_protocol = lit ''socks5-udp'', bl_decision = Some (policy_decision_text decision),
               bl_source = Some (decision_source_text source), bl_port = Some port\<rparr> st))
      in if h = [] then (Err (lit ''invalid host''), st)
         else if \<not> px_enabled (cs_config st) then blocked REASON_PROXY_DISABLED None PolicyDeny ProxyState
         else if px_mode (cs_config st) = Limited then blocked REASON_METHOD_NOT_ALLOWED (Some Limited) PolicyDeny ModeGuard
         else case evaluate_host_policy (pe_globs env) lookup st decider
             \<lparr>rq_host = h, rq_protocol = ProxySocks5Udp, rq_port = port, rq_environment = environment\<rparr> of
           NetDeny reason source decision \<Rightarrow> blocked reason None decision source
         | NetAllow \<Rightarrow> (Ok payload, st))"

section \<open>Intercepted requests\<close>

record mitm_context =
  mc_target_host :: ustr
  mc_target_port :: nat
  mc_mode :: network_mode

datatype mitm_decision = MitmAllow "hook_actions option" | MitmBlock proxy_response

definition extract_request_host :: "http_lib \<Rightarrow> http_request \<Rightarrow> ustr option" where
  "extract_request_host lib req =
     (case (case header_get (lit ''host'') (hr_headers req) of Some v \<Rightarrow> hl_to_str lib v | None \<Rightarrow> None) of
        Some h \<Rightarrow> Some h
      | None \<Rightarrow> hr_authority req)"

definition host_mismatch :: "http_lib \<Rightarrow> http_request \<Rightarrow> mitm_context \<Rightarrow> bool" where
  "host_mismatch lib req ctx = (case extract_request_host lib req of
       Some h \<Rightarrow> normalize_host h \<noteq> [] \<and> normalize_host h \<noteq> mc_target_host ctx
     | None \<Rightarrow> False)"

definition evaluate_mitm_policy ::
  "proxy_env \<Rightarrow> (ustr \<Rightarrow> nat \<Rightarrow> ip_addr list option) \<Rightarrow> ustr option \<Rightarrow> http_request \<Rightarrow> mitm_context \<Rightarrow> proxy_state \<Rightarrow>
     mitm_decision \<times> proxy_state" where
  "evaluate_mitm_policy env lookup client req ctx st =
     (let blocked = (\<lambda>reason.
            (MitmBlock (blocked_text_response reason),
             record_blocked \<lparr>bl_host = mc_target_host ctx, bl_reason = reason, bl_client = client, bl_method = Some (hr_method req),
               bl_mode = Some (mc_mode ctx), bl_protocol = lit ''https'', bl_decision = None, bl_source = None,
               bl_port = Some (mc_target_port ctx)\<rparr> st));
          method_check = (\<lambda>actions.
            if \<not> allows_method (mc_mode ctx) (hr_method req) then blocked REASON_METHOD_NOT_ALLOWED else (MitmAllow actions, st))
      in if hr_method req = lit ''CONNECT'' then (MitmBlock (text_response 405 (lit ''CONNECT not supported inside MITM'')), st)
         else if host_mismatch (pe_http env) req ctx then (MitmBlock (text_response 400 (lit ''host mismatch'')), st)
         else if host_blocked (pe_globs env) lookup (mc_target_host ctx) (mc_target_port ctx) st = HostBlocked HostNotAllowedLocal
           then blocked (reason_text HostNotAllowedLocal)
         else case evaluate_mitm_hooks (pe_http env) (cs_mitm_hooks st) (mc_target_host ctx) req of
           Matched actions \<Rightarrow> method_check (Some actions)
         | HookedHostNoMatch \<Rightarrow> blocked REASON_MITM_HOOK_DENIED
         | NoHooksForHost \<Rightarrow> method_check None)"

definition apply_mitm_hook_actions :: "hook_actions option \<Rightarrow> header_map \<Rightarrow> header_map" where
  "apply_mitm_hook_actions actions headers = (case actions of
       None \<Rightarrow> headers
     | Some a \<Rightarrow> fold (\<lambda>i. header_insert (rh_name i) (rh_value i)) (ac_inject a) (fold header_remove (ac_strip a) headers))"

definition authority_header_value :: "ustr \<Rightarrow> nat \<Rightarrow> ustr" where
  "authority_header_value h port =
     (if COLON \<in> set h then
        if port = 443 then lit ''['' @ h @ lit '']'' else lit ''['' @ h @ lit '']:'' @ decimal port
      else if port = 443 then h else h @ lit '':'' @ decimal port)"

datatype mitm_outcome = MitmResponse proxy_response | MitmForward http_request

definition path_and_query :: "http_request \<Rightarrow> ustr" where
  "path_and_query req = hr_path req @ (case hr_query req of Some q \<Rightarrow> lit ''?'' @ q | None \<Rightarrow> [])"

text \<open>The reply of the upstream server is passed on; an error on the way there is a \<open>502\<close>.\<close>

definition forward_request ::
  "proxy_env \<Rightarrow> (ustr \<Rightarrow> nat \<Rightarrow> ip_addr list option) \<Rightarrow> broker \<Rightarrow> ustr option \<Rightarrow> http_request \<Rightarrow> mitm_context \<Rightarrow> proxy_state \<Rightarrow>
     mitm_outcome \<times> proxy_state" where
  "forward_request env lookup b client req ctx st = (case evaluate_mitm_policy env lookup client req ctx st of
       (MitmBlock response, st') \<Rightarrow> (MitmResponse response, st')
     | (MitmAllow actions, st') \<Rightarrow>
         let headers = apply_mitm_hook_actions actions (inject_request_headers (pe_http env) b (mc_target_host ctx) (hr_headers req));
             authority = authority_header_value (mc_target_host ctx) (mc_target_port ctx)
         in if \<not> hl_uri_valid (pe_http env) (lit ''https://'' @ authority @ path_and_query req)
            then (MitmResponse (text_response 502 (lit ''mitm upstream error'')), st')
            else case hl_header_value (pe_http env) authority of
              None \<Rightarrow> (MitmResponse (text_response 502 (lit ''mitm upstream error'')), st')
            | Some v \<Rightarrow> (MitmForward (req\<lparr>hr_authority := Some authority, hr_headers := header_insert (lit ''host'') v headers\<rparr>), st'))"

text \<open>The connection that is intercepted after a tunnel was accepted.\<close>

definition mitm_stream_context :: "ustr \<Rightarrow> nat \<Rightarrow> network_mode \<Rightarrow> mitm_context" where
  "mitm_stream_context target port mode = \<lparr>mc_target_host = normalize_host target, mc_target_port = port, mc_mode = mode\<rparr>"

end
