(* ===== verification/Non_Public_Ip.thy ===== *)
theory Non_Public_Ip
  imports Network_Hosts
begin

text \<open>
  The addresses the proxy calls non-public are exactly the reserved blocks, also when an IPv4 address is written as
  an IPv6 address.
\<close>

unbundle bit_operations_syntax

section \<open>Addresses\<close>

lemma same_mask_iff: "a AND push_bit n (- 1) = b AND push_bit n (- 1) \<longleftrightarrow> unat a div 2 ^ n = unat b div 2 ^ n" for a b :: "'a :: len word"
proof -
  have keep: "a AND push_bit n (- 1) = push_bit n (drop_bit n a)" for a :: "'a word"
    by (rule bit_eqI) (auto simp: bit_simps)
  have top: "drop_bit n (a AND push_bit n (- 1)) = drop_bit n a" for a :: "'a word"
    by (rule bit_eqI) (auto simp: bit_simps dest: bit_imp_le_length)
  have "a AND push_bit n (- 1) = b AND push_bit n (- 1) \<longleftrightarrow> drop_bit n a = drop_bit n b"
    using keep top by metis
  also have "\<dots> \<longleftrightarrow> unat (drop_bit n a) = unat (drop_bit n b)" by (rule word_unat_eq_iff)
  finally show ?thesis unfolding unat_drop_bit_eq by (simp only: drop_bit_eq_div)
qed

lemma div_eq_range:
  fixes n :: nat
  assumes "0 < k"
  shows "n div k = c \<longleftrightarrow> c * k \<le> n \<and> n < (c + 1) * k"
proof
  assume "n div k = c"
  then show "c * k \<le> n \<and> n < (c + 1) * k" using assms div_times_less_eq_dividend [of n k] dividend_less_div_times [of k n] by auto
next
  assume "c * k \<le> n \<and> n < (c + 1) * k"
  then show "n div k = c" by (intro div_nat_eqI) (simp_all add: mult.commute)
qed

text \<open>A block of addresses, by its first address and the length of its prefix.\<close>

definition in_block :: "nat list \<Rightarrow> nat \<Rightarrow> nat \<Rightarrow> bool" where
  "in_block base prefix n = (let lo = foldl (\<lambda>acc b. acc * 256 + b) 0 base in lo \<le> n \<and> n < lo + 2 ^ (32 - prefix))"

text \<open>The blocks that are not public, merged where they meet (RFC 6890 and the multicast range).\<close>

definition reserved_blocks :: "(nat list \<times> nat) list" where
  "reserved_blocks = [([0, 0, 0, 0], 8), ([10, 0, 0, 0], 8), ([100, 64, 0, 0], 10), ([127, 0, 0, 0], 8), ([169, 254, 0, 0], 16),
     ([172, 16, 0, 0], 12), ([192, 0, 0, 0], 24), ([192, 0, 2, 0], 24), ([192, 168, 0, 0], 16), ([198, 18, 0, 0], 15),
     ([198, 51, 100, 0], 24), ([203, 0, 113, 0], 24), ([224, 0, 0, 0], 3)]"

lemma cidr_block:
  assumes "prefix \<noteq> 0" "foldl (\<lambda>acc b. acc * 256 + b) 0 base = c * 2 ^ (32 - prefix)" "c * 2 ^ (32 - prefix) < 2 ^ 32"
  shows "ipv4_in_cidr ip base prefix \<longleftrightarrow> in_block base prefix (unat ip)"
proof -
  have "unat (of_octets base) = c * 2 ^ (32 - prefix)"
    unfolding of_octets_def assms(2) unat_of_nat using assms(3) by simp
  then have "ipv4_in_cidr ip base prefix \<longleftrightarrow> unat ip div 2 ^ (32 - prefix) = c"
    unfolding ipv4_in_cidr_def Let_def if_not_P [OF assms(1)] same_mask_iff by simp
  then show ?thesis using assms(2) by (simp add: div_eq_range in_block_def Let_def add.commute)
qed

lemma div_mod_256: "n div 256 = c \<and> n mod 256 = d \<longleftrightarrow> d < 256 \<and> n = c * 256 + d" for n :: nat
  using div_mult_mod_eq [of n 256] by auto

lemma octets_div: "octet 0 ip = unat ip div 65536 div 256" "octet 1 ip = unat ip div 65536 mod 256"
proof -
  have "unat ip < 4294967296" using unsigned_less [of ip, where 'a = nat] by simp
  then show "octet 0 ip = unat ip div 65536 div 256" by (simp add: octet_def flip: div_mult2_eq)
  show "octet 1 ip = unat ip div 65536 mod 256" by (simp add: octet_def)
qed

lemma octet_ranges:
  fixes ip :: "32 word"
  shows "octet 0 ip = c \<longleftrightarrow> c * 16777216 \<le> unat ip \<and> unat ip < (c + 1) * 16777216"
    "octet 0 ip = c \<and> octet 1 ip = d \<longleftrightarrow> d < 256 \<and> (c * 256 + d) * 65536 \<le> unat ip \<and> unat ip < (c * 256 + d + 1) * 65536"
proof -
  show "octet 0 ip = c \<longleftrightarrow> c * 16777216 \<le> unat ip \<and> unat ip < (c + 1) * 16777216"
    using div_eq_range [of 16777216 "unat ip" c] by (simp add: octets_div(1) flip: div_mult2_eq)
  have "octet 0 ip = c \<and> octet 1 ip = d \<longleftrightarrow> d < 256 \<and> unat ip div 65536 = c * 256 + d"
    unfolding octets_div by (rule div_mod_256)
  then show "octet 0 ip = c \<and> octet 1 ip = d \<longleftrightarrow> d < 256 \<and> (c * 256 + d) * 65536 \<le> unat ip \<and> unat ip < (c * 256 + d + 1) * 65536"
    using div_eq_range [of 65536 "unat ip" "c * 256 + d"] by simp
qed

lemma std_blocks:
  fixes ip :: "32 word"
  shows "ipv4_is_loopback ip \<longleftrightarrow> in_block [127, 0, 0, 0] 8 (unat ip)"
    "octet 0 ip = 10 \<longleftrightarrow> in_block [10, 0, 0, 0] 8 (unat ip)"
    "octet 0 ip = 172 \<and> 16 \<le> octet 1 ip \<and> octet 1 ip \<le> 31 \<longleftrightarrow> in_block [172, 16, 0, 0] 12 (unat ip)"
    "octet 0 ip = 192 \<and> octet 1 ip = 168 \<longleftrightarrow> in_block [192, 168, 0, 0] 16 (unat ip)"
    "ipv4_is_link_local ip \<longleftrightarrow> in_block [169, 254, 0, 0] 16 (unat ip)"
    "ipv4_is_multicast ip \<longleftrightarrow> in_block [224, 0, 0, 0] 4 (unat ip)"
proof -
  show "ipv4_is_loopback ip \<longleftrightarrow> in_block [127, 0, 0, 0] 8 (unat ip)" "octet 0 ip = 10 \<longleftrightarrow> in_block [10, 0, 0, 0] 8 (unat ip)"
    by (simp_all add: ipv4_is_loopback_def octet_ranges(1) in_block_def)
  show "octet 0 ip = 192 \<and> octet 1 ip = 168 \<longleftrightarrow> in_block [192, 168, 0, 0] 16 (unat ip)"
    "ipv4_is_link_local ip \<longleftrightarrow> in_block [169, 254, 0, 0] 16 (unat ip)"
    by (simp_all add: ipv4_is_link_local_def octet_ranges(2) in_block_def del: One_nat_def)
  have mid: "m div 256 = 172 \<and> 16 \<le> m mod 256 \<and> m mod 256 \<le> 31 \<longleftrightarrow> 44048 \<le> m \<and> m < 44064" for m :: nat
  proof -
    have m: "m = 44032 + m mod 256" if "m div 256 = 172" using div_mult_mod_eq [of m 256] that by simp
    have "m div 256 = 172 \<longleftrightarrow> 44032 \<le> m \<and> m < 44288" using div_eq_range [of 256 m 172] by simp
    then show ?thesis using m by linarith
  qed
  show "octet 0 ip = 172 \<and> 16 \<le> octet 1 ip \<and> octet 1 ip \<le> 31 \<longleftrightarrow> in_block [172, 16, 0, 0] 12 (unat ip)"
    unfolding octets_div mid less_eq_div_iff_mult_less_eq [of 65536, simplified] div_less_iff_less_mult [of 65536, simplified]
    by (simp add: in_block_def)
  have first: "224 \<le> m div 256 \<and> m div 256 \<le> 239 \<longleftrightarrow> 57344 \<le> m \<and> m < 61440" for m :: nat
    using less_eq_div_iff_mult_less_eq [of 256 224 m] div_less_iff_less_mult [of 256 m 240] by auto
  show "ipv4_is_multicast ip \<longleftrightarrow> in_block [224, 0, 0, 0] 4 (unat ip)"
    unfolding ipv4_is_multicast_def octets_div first less_eq_div_iff_mult_less_eq [of 65536, simplified] div_less_iff_less_mult [of 65536, simplified]
    by (simp add: in_block_def)
qed

lemma cidr_blocks:
  fixes ip :: "32 word"
  shows "ipv4_in_cidr ip [0, 0, 0, 0] 8 \<longleftrightarrow> in_block [0, 0, 0, 0] 8 (unat ip)"
    "ipv4_in_cidr ip [100, 64, 0, 0] 10 \<longleftrightarrow> in_block [100, 64, 0, 0] 10 (unat ip)"
    "ipv4_in_cidr ip [192, 0, 0, 0] 24 \<longleftrightarrow> in_block [192, 0, 0, 0] 24 (unat ip)"
    "ipv4_in_cidr ip [192, 0, 2, 0] 24 \<longleftrightarrow> in_block [192, 0, 2, 0] 24 (unat ip)"
    "ipv4_in_cidr ip [198, 18, 0, 0] 15 \<longleftrightarrow> in_block [198, 18, 0, 0] 15 (unat ip)"
    "ipv4_in_cidr ip [198, 51, 100, 0] 24 \<longleftrightarrow> in_block [198, 51, 100, 0] 24 (unat ip)"
    "ipv4_in_cidr ip [203, 0, 113, 0] 24 \<longleftrightarrow> in_block [203, 0, 113, 0] 24 (unat ip)"
    "ipv4_in_cidr ip [240, 0, 0, 0] 4 \<longleftrightarrow> in_block [240, 0, 0, 0] 4 (unat ip)"
proof -
  show "ipv4_in_cidr ip [0, 0, 0, 0] 8 \<longleftrightarrow> in_block [0, 0, 0, 0] 8 (unat ip)" by (rule cidr_block [where c = 0]) simp_all
  show "ipv4_in_cidr ip [100, 64, 0, 0] 10 \<longleftrightarrow> in_block [100, 64, 0, 0] 10 (unat ip)" by (rule cidr_block [where c = 401]) simp_all
  show "ipv4_in_cidr ip [192, 0, 0, 0] 24 \<longleftrightarrow> in_block [192, 0, 0, 0] 24 (unat ip)" by (rule cidr_block [where c = 12582912]) simp_all
  show "ipv4_in_cidr ip [192, 0, 2, 0] 24 \<longleftrightarrow> in_block [192, 0, 2, 0] 24 (unat ip)" by (rule cidr_block [where c = 12582914]) simp_all
  show "ipv4_in_cidr ip [198, 18, 0, 0] 15 \<longleftrightarrow> in_block [198, 18, 0, 0] 15 (unat ip)" by (rule cidr_block [where c = 25353]) simp_all
  show "ipv4_in_cidr ip [198, 51, 100, 0] 24 \<longleftrightarrow> in_block [198, 51, 100, 0] 24 (unat ip)" by (rule cidr_block [where c = 12989284]) simp_all
  show "ipv4_in_cidr ip [203, 0, 113, 0] 24 \<longleftrightarrow> in_block [203, 0, 113, 0] 24 (unat ip)" by (rule cidr_block [where c = 13303921]) simp_all
  show "ipv4_in_cidr ip [240, 0, 0, 0] 4 \<longleftrightarrow> in_block [240, 0, 0, 0] 4 (unat ip)" by (rule cidr_block [where c = 15]) simp_all
qed

lemma non_public_blocks: "is_non_public_ipv4 ip \<longleftrightarrow> list_ex (\<lambda>(base, prefix). in_block base prefix (unat ip)) reserved_blocks"
proof -
  have ends: "ip = 0 \<longrightarrow> in_block [0, 0, 0, 0] 8 (unat ip)" "ip = - 1 \<longrightarrow> in_block [240, 0, 0, 0] 4 (unat ip)"
    by (simp_all add: in_block_def unsigned_minus_1_eq_mask mask_eq_exp_minus_1)
  have "unat ip < 4294967296" using unsigned_less [of ip, where 'a = nat] by simp
  then have top: "in_block [224, 0, 0, 0] 3 (unat ip) \<longleftrightarrow> in_block [224, 0, 0, 0] 4 (unat ip) \<or> in_block [240, 0, 0, 0] 4 (unat ip)"
    by (auto simp: in_block_def)
  show ?thesis
    unfolding is_non_public_ipv4_def ipv4_is_private_def std_blocks cidr_blocks reserved_blocks_def
    by (simp add: top) (use ends in blast)
qed

text \<open>An IPv4 address inside an IPv6 address, mapped or compatible.\<close>

lemma embedded_unat:
  fixes v4 :: "32 word"
  assumes "p = 0 \<or> p = 65535"
  shows "unat (of_nat (p * 2 ^ 32 + unat v4) :: 128 word) = p * 2 ^ 32 + unat v4"
proof -
  have "unat v4 < 2 ^ 32" using unsigned_less [of v4, where 'a = nat] by simp
  then show ?thesis using assms unfolding unat_of_nat by auto
qed

lemma embedded_to_ipv4:
  fixes v4 :: "32 word"
  assumes "p = 0 \<or> p = 65535"
  shows "to_ipv4 (of_nat (p * 2 ^ 32 + unat v4)) = Some v4"
proof -
  have "unat v4 < 2 ^ 32" using unsigned_less [of v4, where 'a = nat] by simp
  then have "(p * 2 ^ 32 + unat v4) div 2 ^ 32 = p" "(p * 2 ^ 32 + unat v4) mod 2 ^ 32 = unat v4" by simp_all
  then show ?thesis using assms unfolding to_ipv4_def embedded_unat [OF assms] by auto
qed

lemma embedded_non_public:
  fixes v4 :: "32 word"
  assumes "p = 0 \<or> p = 65535"
  shows "is_non_public_ipv6 (of_nat (p * 2 ^ 32 + unat v4)) \<longleftrightarrow> is_non_public_ipv4 v4"
proof -
  have "is_non_public_ipv4 v4" if "(of_nat (p * 2 ^ 32 + unat v4) :: 128 word) = 1"
  proof -
    have "p * 2 ^ 32 + unat v4 = 1" using embedded_unat [OF assms, of v4] unfolding that by simp
    then show ?thesis using assms by (auto simp: non_public_blocks reserved_blocks_def in_block_def)
  qed
  then show ?thesis unfolding is_non_public_ipv6_def embedded_to_ipv4 [OF assms] option.case by blast
qed

text \<open>
  The addresses the proxy calls non-public are exactly the reserved IPv4 blocks, by their bounds, and an
  IPv4 address stays non-public when it is written as an IPv4-mapped or an IPv4-compatible IPv6 address.
\<close>

theorem non_public_addresses_exact:
  fixes v4 :: "32 word"
  shows "(is_non_public_ip (V4 v4) \<longleftrightarrow> list_ex (\<lambda>(base, prefix). in_block base prefix (unat v4)) reserved_blocks) \<and>
    (is_non_public_ip (V6 (of_nat (65535 * 2 ^ 32 + unat v4))) \<longleftrightarrow> is_non_public_ip (V4 v4)) \<and>
    (is_non_public_ip (V6 (of_nat (0 * 2 ^ 32 + unat v4))) \<longleftrightarrow> is_non_public_ip (V4 v4))"
  unfolding is_non_public_ip.simps using non_public_blocks embedded_non_public by blast

text \<open>A private IPv4 address behind the NAT64 prefix \<open>64:ff9b::/96\<close> counts as public: here \<open>64:ff9b::10.0.0.1\<close>.\<close>

lemma nat64_counts_as_public: "\<not> is_non_public_ip (V6 (of_nat ((0x64 * 2 ^ 16 + 0xff9b) * 2 ^ 96 + 0x0a000001)))"
  by (simp add: is_non_public_ipv6_def to_ipv4_def first_segment_def ipv6_is_multicast_def ipv6_is_unique_local_def ipv6_is_unicast_link_local_def)

end
