(* ===== verification/Network_Proxy_Correct.thy ===== *)
theory Network_Proxy_Correct
  imports Network_Proxy Non_Public_Ip Network_Approval_Correct Fs_Permissions_Correct
begin

text \<open>
  The proxy keeps its word: a denied host and a local address stay out of reach whatever the approval service
  says, a host that is put on a list is on it, and a managed allowlist bounds what a user's list can reach.
\<close>

section \<open>Host names\<close>

text \<open>Names as the DNS has them, in lower case and without the dot of the root.\<close>

definition dns_char :: "uchar \<Rightarrow> bool" where
  "dns_char c \<longleftrightarrow> 97 \<le> c \<and> c \<le> 122 \<or> 48 \<le> c \<and> c \<le> 57 \<or> c = 45 \<or> c = 46 \<or> c = 95"

definition dns_name :: "ustr \<Rightarrow> bool" where
  "dns_name h \<longleftrightarrow> h \<noteq> [] \<and> list_all dns_char h \<and> last h \<noteq> 46"

lemma dns_chars:
  assumes "dns_name h" "c \<in> set h"
  shows "\<not> is_whitespace c" "c \<noteq> 91" "c \<noteq> COLON" "c \<noteq> PERCENT" "c \<noteq> STAR" "\<not> (65 \<le> c \<and> c \<le> 90)"
  using assms by (auto simp: dns_name_def list_all_iff dns_char_def is_whitespace_def)

lemma dns_trim: "dns_name h \<Longrightarrow> trim h = h"
  using dns_chars(1) by (intro trim_id) (auto simp: dns_name_def)

lemma dns_lower: "dns_name h \<Longrightarrow> to_ascii_lowercase h = h"
  using dns_chars(6) by (auto simp: to_ascii_lowercase_def intro: map_idI)

lemma dns_dots: "dns_name h \<Longrightarrow> trim_end_dots h = h"
  by (cases h rule: rev_cases) (auto simp: dns_name_def trim_end_dots_def)

lemma split_once_str_None: "d \<noteq> [] \<Longrightarrow> hd d \<notin> set h \<Longrightarrow> split_once_str d h = None"
  by (induction h) (auto simp: neq_Nil_conv split: option.split)

lemma dns_normalize: "dns_name h \<Longrightarrow> normalize_host h = h"
proof -
  assume h: "dns_name h"
  have "normalize_ip_literal h = Some h \<or> normalize_ip_literal h = None"
  proof -
    have "PERCENT \<notin> set h" using dns_chars(4) [OF h] by blast
    then have "split_once_str (lit ''%25'') h = None" "split_once_str [PERCENT] h = None" by (simp_all add: split_once_str_None)
    then show ?thesis by (simp add: normalize_ip_literal_def del: lit_simps)
  qed
  then have n: "normalize_dns_host_or_ip_literal h = h"
    using dns_lower [OF h] dns_dots [OF h] by (auto simp: normalize_dns_host_or_ip_literal_def Let_def)
  have "\<not> starts_with (lit ''['') h" using dns_chars(2) [OF h] by (cases h) (auto simp: starts_with_def)
  moreover have "filter (\<lambda>c. c = COLON) h = []" using dns_chars(3) [OF h] by (auto simp: filter_empty_conv)
  ultimately show ?thesis using n dns_trim [OF h] by (simp add: normalize_host_def Let_def)
qed

lemma no_star_strip: "STAR \<notin> set p \<Longrightarrow> strip_prefix (lit ''**.'') p = None" "STAR \<notin> set p \<Longrightarrow> strip_prefix (lit ''*.'') p = None"
  by (cases p; auto)+

lemma dns_expand: "dns_name h \<Longrightarrow> expand_domain_pattern (normalize_pattern h) = [h]"
proof -
  assume h: "dns_name h"
  have star: "STAR \<notin> set h" using dns_chars(5) [OF h] by blast
  have "normalize_pattern h = h"
    using dns_trim [OF h] dns_normalize [OF h] star no_star_strip [OF star] by (auto simp: normalize_pattern_def Let_def)
  moreover have "h \<noteq> []" using h by (simp add: dns_name_def)
  ultimately show ?thesis
    using dns_trim [OF h] no_star_strip [OF star] by (simp add: expand_domain_pattern_def pattern_parse_def Let_def)
qed

text \<open>A pattern that begins with a wildcard keeps it.\<close>

lemma star_ip_literal: "normalize_ip_literal (STAR # y) = Some r \<Longrightarrow> \<exists>q. r = STAR # q"
proof -
  assume r: "normalize_ip_literal (STAR # y) = Some r"
  have front: "\<exists>q. ip = STAR # q" if "split_once_str (PERCENT # d) (STAR # y) = Some (ip, scope)" for d ip scope
    using that by auto
  have "lit ''%25'' = PERCENT # lit ''25''" by simp
  then show ?thesis
    using r by (auto simp: normalize_ip_literal_def Let_def simp del: lit_simps split_once_str.simps split: if_splits option.splits dest!: front)
qed

lemma star_normalize_dns: "\<exists>q. normalize_dns_host_or_ip_literal (STAR # x) = STAR # q"
proof -
  have "trim_end_dots (STAR # z) = STAR # trim_end_dots z" for z
    by (auto simp: trim_end_dots_def dropWhile_append)
  then have "\<exists>y. trim_end_dots (to_ascii_lowercase (STAR # x)) = STAR # y" by (simp add: to_ascii_lowercase_def)
  then obtain y where "trim_end_dots (to_ascii_lowercase (STAR # x)) = STAR # y" by blast
  then show ?thesis
    using star_ip_literal [of y] by (auto simp: normalize_dns_host_or_ip_literal_def Let_def split: option.split)
qed

lemma star_normalize_host: "trim e = STAR # x \<Longrightarrow> \<exists>q. normalize_host e = STAR # q"
  using star_normalize_dns by (auto simp: normalize_host_def Let_def starts_with_def)

lemma expand_entry:
  assumes h: "dns_name h" and e: "normalize_host e = h"
  shows "expand_domain_pattern (normalize_pattern e) = [h]"
proof -
  have star: "STAR \<notin> set h" using dns_chars(5) [OF h] by blast
  then have no: "trim e \<noteq> STAR # x" for x using star_normalize_host [of e x] e by auto
  then have "strip_prefix (lit ''**.'') (trim e) = None" "strip_prefix (lit ''*.'') (trim e) = None"
    by (cases "trim e"; auto)+
  moreover have "normalize_host (trim e) = h" using e by (simp add: normalize_host_def)
  ultimately have "normalize_pattern e = h" using no [of "[]"] by (simp add: normalize_pattern_def Let_def del: lit_simps)
  moreover have "normalize_pattern h = h"
    using dns_trim [OF h] dns_normalize [OF h] star no_star_strip [OF star]
    by (auto simp: normalize_pattern_def Let_def simp del: lit_simps)
  ultimately show ?thesis using dns_expand [OF h] by simp
qed

section \<open>Lists and compiled sets\<close>

lemma add_candidates_set: "add_candidates lib cs acc = Some gs \<Longrightarrow> set gs = set acc \<union> set cs"
  by (induction cs arbitrary: acc) (auto split: if_splits)

lemma compile_set:
  "compile_globset_with_policy lib reject ps acc = Some gs \<Longrightarrow>
     set gs = set acc \<union> (\<Union>p\<in>set ps. set (expand_domain_pattern (normalize_pattern p)))"
proof (induction ps arbitrary: acc)
  case (Cons p ps)
  then obtain acc' where "add_candidates lib (expand_domain_pattern (normalize_pattern p)) acc = Some acc'"
    "compile_globset_with_policy lib reject ps acc' = Some gs"
    by (auto split: if_splits option.splits)
  then show ?case using Cons.IH add_candidates_set by fastforce
qed simp

text \<open>A state whose sets are compiled from its configuration.\<close>

definition compiled :: "glob_lib \<Rightarrow> 'b config_state \<Rightarrow> bool" where
  "compiled lib st \<longleftrightarrow>
     compile_denylist_globset lib (or_empty (denied_domains (cs_config st))) = Some (cs_deny_set st) \<and>
     compile_allowlist_globset lib (or_empty (allowed_domains (cs_config st))) = Some (cs_allow_set st)"

lemma build_compiled: "build_config_state env cfg cs = Ok st \<Longrightarrow> compiled (pe_globs env) st \<and> cs_config st = cfg \<and> cs_constraints st = cs"
  by (auto simp: build_config_state_def compiled_def split: sum.splits option.splits if_splits)

lemma raise_permission_keys: "fst ` set (raise_permission e acc) = insert (fst e) (fst ` set acc)"
  by (induction e acc rule: raise_permission.induct) auto

lemma effective_keys: "fst ` set (fold raise_permission es acc) = fst ` set es \<union> fst ` set acc"
  by (induction es arbitrary: acc) (auto simp: raise_permission_keys)

lemma raise_permission_fresh: "fst e \<notin> fst ` set acc \<Longrightarrow> raise_permission e acc = acc @ [e]"
  by (induction e acc rule: raise_permission.induct) auto

lemma effective_fresh: "fst e \<notin> fst ` set es \<Longrightarrow> effective_entries (es @ [e]) = effective_entries es @ [e]"
  using raise_permission_fresh [of e "fold raise_permission es []"] effective_keys [of es "[]"] by (simp add: effective_entries_def)

lemma entries_or_empty:
  "set (or_empty (domain_entries perm cfg)) =
     {p. \<exists>es. px_domains cfg = Some es \<and> (p, perm) \<in> set (effective_entries es)}"
proof (cases "px_domains cfg")
  case (Some es)
  have "set (or_empty (domain_entries perm cfg)) = fst ` {e \<in> set (effective_entries es). snd e = perm}"
    using Some by (simp add: domain_entries_def or_empty_def filter_empty_conv)
  then show ?thesis using Some by force
qed (simp add: domain_entries_def or_empty_def)

lemma upsert_entries:
  fixes cfg perm
  assumes h: "dns_name h"
  defines "cfg' \<equiv> upsert_domain_permission h perm normalize_host cfg"
  shows "h \<in> set (or_empty (domain_entries perm cfg'))"
    "p \<in> set (or_empty (domain_entries other cfg')) \<Longrightarrow> other \<noteq> perm \<Longrightarrow> normalize_host p \<noteq> h"
proof -
  let ?old = "case px_domains cfg of Some d \<Rightarrow> d | None \<Rightarrow> []"
  let ?es = "filter (\<lambda>e. normalize_host (fst e) \<noteq> normalize_host h) ?old"
  have dom: "px_domains cfg' = Some (?es @ [(h, perm)])" by (simp add: cfg'_def upsert_domain_permission_def Let_def)
  have fresh: "effective_entries (?es @ [(h, perm)]) = effective_entries ?es @ [(h, perm)]" by (rule effective_fresh) auto
  then show "h \<in> set (or_empty (domain_entries perm cfg'))" unfolding entries_or_empty dom by auto
  assume "p \<in> set (or_empty (domain_entries other cfg'))" "other \<noteq> perm"
  then have "(p, other) \<in> set (effective_entries ?es)"
    using fresh unfolding entries_or_empty dom by auto
  then have "p \<in> fst ` set (effective_entries ?es)" by (metis fst_conv image_eqI)
  then have "p \<in> fst ` set ?es" using effective_keys [of ?es "[]"] by (simp add: effective_entries_def)
  then show "normalize_host p \<noteq> h" using dns_normalize [OF h] by auto
qed

text \<open>What the glob library promises of a pattern without wildcards: it is a glob, and it matches its own text.\<close>

definition glob_literals :: "glob_lib \<Rightarrow> bool" where
  "glob_literals lib \<longleftrightarrow> (\<forall>p. list_all dns_char p \<longrightarrow> glob_valid lib p \<and> glob_match lib p p)"

lemma compiled_match:
  assumes lib: "glob_literals lib" and h: "dns_name h" and c: "compile_globset_with_policy lib reject ps [] = Some gs"
    and e: "e \<in> set ps" "normalize_host e = h"
  shows "globset_matches_host_or_unscoped lib gs h"
proof -
  have "h \<in> set (expand_domain_pattern (normalize_pattern e))" using expand_entry [OF h e(2)] by simp
  then have "h \<in> set gs" using compile_set [OF c] e(1) by auto
  moreover have "glob_match lib h h" using lib h by (simp add: glob_literals_def dns_name_def)
  ultimately show ?thesis by (auto simp: globset_matches_host_or_unscoped_def set_is_match_def list_ex_iff)
qed

definition kind_set :: "domain_list_kind \<Rightarrow> 'b config_state \<Rightarrow> glob_set" where
  "kind_set target st = (case target of AllowList \<Rightarrow> cs_allow_set st | DenyList \<Rightarrow> cs_deny_set st)"

lemma compiled_kind:
  "compiled lib st \<Longrightarrow> \<exists>reject. compile_globset_with_policy lib reject (kind_entries target (cs_config st)) [] = Some (kind_set target st)"
  by (cases target) (auto simp: compiled_def kind_set_def compile_denylist_globset_def compile_allowlist_globset_def)

lemma kind_entries_eq:
  "kind_entries target cfg = or_empty (domain_entries (kind_permission target) cfg)"
  "\<exists>other. other \<noteq> kind_permission target \<and> opposite_entries target cfg = or_empty (domain_entries other cfg)"
  by (cases target; auto simp: allowed_domains_def denied_domains_def)+

lemma update_domain_list_effect:
  assumes st: "compiled (pe_globs env) st" and h: "dns_name h" and u: "update_domain_list env h target st = Ok st'"
  shows "compiled (pe_globs env) st'" "\<exists>e\<in>set (kind_entries target (cs_config st')). normalize_host e = h"
    "\<forall>e\<in>set (opposite_entries target (cs_config st')). normalize_host e \<noteq> h"
proof -
  let ?there = "list_ex (\<lambda>e. normalize_host e = h) (kind_entries target (cs_config st)) \<and>
    \<not> list_ex (\<lambda>e. normalize_host e = h) (opposite_entries target (cs_config st))"
  let ?cfg = "upsert_domain_permission h (kind_permission target) normalize_host (cs_config st)"
  have parse: "host_parse h = Some h" using dns_normalize [OF h] h by (simp add: host_parse_def dns_name_def)
  have "compiled (pe_globs env) st' \<and> (\<exists>e\<in>set (kind_entries target (cs_config st')). normalize_host e = h) \<and>
    (\<forall>e\<in>set (opposite_entries target (cs_config st')). normalize_host e \<noteq> h)"
  proof (cases ?there)
    case True
    then have "st' = st" using u parse by (simp add: update_domain_list_def Let_def)
    then show ?thesis using True st by (auto simp: list_ex_iff)
  next
    case False
    then have "update_domain_list env h target st =
        (case validate_policy_against_constraints env ?cfg (cs_constraints st) of
           Err e \<Rightarrow> Err (Constrained e)
         | Ok _ \<Rightarrow> and_then (build_config_state env ?cfg (cs_constraints st))
             (\<lambda>new. Ok (new\<lparr>cs_blocked := cs_blocked st, cs_blocked_total := cs_blocked_total st\<rparr>)))"
      using parse by (auto simp: update_domain_list_def Let_def)
    then obtain new where new: "build_config_state env ?cfg (cs_constraints st) = Ok new"
      and st': "st' = new\<lparr>cs_blocked := cs_blocked st, cs_blocked_total := cs_blocked_total st\<rparr>"
      using u by (cases "validate_policy_against_constraints env ?cfg (cs_constraints st)";
          cases "build_config_state env ?cfg (cs_constraints st) :: (proxy_error, 'a config_state) result") auto
    have c: "compiled (pe_globs env) st'" "cs_config st' = ?cfg" using build_compiled [OF new] st' by (auto simp: compiled_def)
    obtain other where other: "other \<noteq> kind_permission target" "opposite_entries target ?cfg = or_empty (domain_entries other ?cfg)"
      using kind_entries_eq(2) by blast
    have "h \<in> set (kind_entries target ?cfg)" using upsert_entries(1) [OF h] by (simp add: kind_entries_eq(1))
    moreover have "\<forall>e\<in>set (opposite_entries target ?cfg). normalize_host e \<noteq> h"
      using upsert_entries(2) [OF h _ other(1)] other(2) by simp
    ultimately show ?thesis using c dns_normalize [OF h] by auto
  qed
  then show "compiled (pe_globs env) st'" "\<exists>e\<in>set (kind_entries target (cs_config st')). normalize_host e = h"
    "\<forall>e\<in>set (opposite_entries target (cs_config st')). normalize_host e \<noteq> h" by blast+
qed

text \<open>
  A host that is put on a list is on it. After a host name was added to the allowlist or the
  denylist, the compiled list matches it, no entry of the other list names it, and the lists are
  still compiled from the configuration; a host that was denied is refused as denied, whatever its address and the rest of the
  configuration are.
\<close>

theorem listed_host_takes_effect:
  assumes "glob_literals (pe_globs env)" "compiled (pe_globs env) st" "dns_name h" "update_domain_list env h target st = Ok st'"
  shows "compiled (pe_globs env) st' \<and> globset_matches_host_or_unscoped (pe_globs env) (kind_set target st') h \<and>
    h \<notin> normalize_host ` set (opposite_entries target (cs_config st')) \<and>
    (if target = DenyList then host_blocked (pe_globs env) lookup h port st' = HostBlocked HostDenied else True)"
proof -
  note eff = update_domain_list_effect [OF assms(2-4)]
  obtain reject where "compile_globset_with_policy (pe_globs env) reject (kind_entries target (cs_config st')) [] = Some (kind_set target st')"
    using compiled_kind [OF eff(1)] by blast
  then have m: "globset_matches_host_or_unscoped (pe_globs env) (kind_set target st') h"
    using compiled_match [OF assms(1,3)] eff(2) by blast
  have "host_parse h = Some h" using dns_normalize [OF assms(3)] assms(3) by (simp add: host_parse_def dns_name_def)
  then have "host_blocked (pe_globs env) lookup h port st' = HostBlocked HostDenied" if "target = DenyList"
    using m that by (simp add: host_blocked_def kind_set_def Let_def)
  then show ?thesis using eff m by auto
qed

text \<open>A configuration to try the theorems on: patterns are matched as text, and nothing is set.\<close>

definition exact_globs :: glob_lib where
  "exact_globs = \<lparr>glob_valid = \<lambda>_. True, glob_match = \<lambda>p h. p = h\<rparr>"

definition plain_http :: http_lib where
  "plain_http = \<lparr>hl_header_name = Some, hl_header_value = Some, hl_to_str = Some, hl_uri_valid = \<lambda>_. True, hl_form_pairs = \<lambda>_. [],
     hl_path_globs = exact_globs, hl_value_globs = exact_globs\<rparr>"

definition plain_env :: proxy_env where
  "plain_env = \<lparr>pe_globs = exact_globs, pe_url_host = Some, pe_http = plain_http, pe_host = bare_host, pe_env_var = \<lambda>_. None,
     pe_mitm_available = True, pe_unix_socket_permissions_supported = False\<rparr>"

definition plain_settings :: "network_mode \<Rightarrow> proxy_settings" where
  "plain_settings mode = \<lparr>px_enabled = True, px_allow_upstream_proxy = False, px_allow_non_loopback = False, px_allow_all_unix_sockets = False,
     px_mode = mode, px_domains = None, px_unix_sockets = None, px_allow_local_binding = True, px_mitm = False,
     px_credential_broker = False, px_plaintext_credential_injection = False, px_mitm_hooks = []\<rparr>"

definition no_constraints :: proxy_constraints where
  "no_constraints = \<lparr>pc_enabled = None, pc_mode = None, pc_allow_upstream_proxy = None, pc_allow_non_loopback = None, pc_allow_all_unix_sockets = None,
     pc_allowed_domains = None, pc_allowlist_expansion_enabled = None, pc_denied_domains = None, pc_denylist_expansion_enabled = None,
     pc_allow_unix_sockets = None, pc_allow_local_binding = None\<rparr>"

definition plain_state :: "network_mode \<Rightarrow> 'b config_state" where
  "plain_state mode = \<lparr>cs_config = plain_settings mode, cs_allow_set = [], cs_deny_set = [], cs_mitm = False, cs_mitm_hooks = Map.empty,
     cs_constraints = no_constraints, cs_blocked = [], cs_blocked_total = 0\<rparr>"

lemma exact_literals: "glob_literals exact_globs"
  by (simp add: glob_literals_def exact_globs_def)

lemma plain_compiled: "compiled exact_globs (plain_state mode)"
  by (simp add: compiled_def plain_state_def plain_settings_def denied_domains_def allowed_domains_def domain_entries_def or_empty_def
      compile_denylist_globset_def compile_allowlist_globset_def)

lemma plain_deny: "dns_name h \<Longrightarrow> \<exists>st. update_domain_list plain_env h DenyList (plain_state mode) = Ok st"
proof -
  assume h: "dns_name h"
  then have "host_parse h = Some h" "is_global_wildcard_domain_pattern h = False"
    using dns_normalize [OF h] dns_chars(5) [OF h] by (auto simp: host_parse_def dns_name_def is_global_wildcard_domain_pattern_def dns_expand [OF h])
  moreover have "normalize_host h = h" by (rule dns_normalize [OF h])
  ultimately show ?thesis
    by (simp add: update_domain_list_def plain_state_def plain_settings_def plain_env_def exact_globs_def no_constraints_def Let_def
        denied_domains_def allowed_domains_def domain_entries_def effective_entries_def or_empty_def upsert_domain_permission_def
        validate_policy_against_constraints_def validate_mitm_hook_config_def validate_non_global_wildcard_domain_patterns_def require_def
        build_config_state_def validate_unix_socket_allowlist_paths_def allow_unix_sockets_def compile_denylist_globset_def
        compile_allowlist_globset_def dns_expand [OF h] compile_mitm_hooks_def compile_mitm_hooks_with_resolvers_def del: lit_simps)
qed

theorem listed_host_takes_effect_witness:
  "case update_domain_list plain_env (lit ''a.com'') DenyList (plain_state FullMode :: nat config_state) of
     Ok st \<Rightarrow> host_blocked exact_globs (\<lambda>_ _. None) (lit ''a.com'') 443 st = HostBlocked HostDenied
   | Err _ \<Rightarrow> False"
proof -
  obtain st :: "nat config_state" where u: "update_domain_list plain_env (lit ''a.com'') DenyList (plain_state FullMode) = Ok st"
    using plain_deny [of "lit ''a.com''"] by (auto simp: dns_name_def dns_char_def)
  have g: "pe_globs plain_env = exact_globs" by (simp add: plain_env_def)
  have "dns_name (lit ''a.com'')" by (simp add: dns_name_def dns_char_def)
  moreover have "compiled (pe_globs plain_env) (plain_state FullMode :: nat config_state)" using plain_compiled by (simp add: g)
  moreover have "glob_literals (pe_globs plain_env)" using exact_literals by (simp add: g)
  ultimately have "host_blocked exact_globs (\<lambda>_ _. None) (lit ''a.com'') 443 st = HostBlocked HostDenied"
    using listed_host_takes_effect [OF _ _ _ u, of "\<lambda>_ _. None" 443] by (simp add: g)
  then show ?thesis using u by simp
qed

section \<open>What may be reached\<close>

lemma host_allowed_cases:
  assumes "host_parse raw = Some h" "host_blocked lib lookup raw port st \<noteq> HostBlocked HostDenied"
    "host_blocked lib lookup raw port st \<noteq> HostBlocked HostNotAllowedLocal"
  shows "\<not> globset_matches_host_or_unscoped lib (cs_deny_set st) h"
    "px_allow_local_binding (cs_config st) \<or>
       (if is_local_literal h then is_explicit_local_allowlisted (or_empty (allowed_domains (cs_config st))) h
        else \<not> host_resolves_to_non_public_ip lookup h port)"
    "host_blocked lib lookup raw port st = HostAllowed \<Longrightarrow> globset_matches_host_or_unscoped lib (cs_allow_set st) h"
  using assms by (auto simp: host_blocked_def Let_def split: if_splits)

lemma evaluate_allow_cases:
  assumes "evaluate_host_policy lib lookup st decider rq = NetAllow"
  shows "host_blocked lib lookup (rq_host rq) (rq_port rq) st = HostAllowed \<or>
    host_blocked lib lookup (rq_host rq) (rq_port rq) st = HostBlocked HostNotAllowed \<and> (\<exists>decide. decider = Some decide \<and> decide rq = NetAllow)"
  using assms
  by (auto simp: evaluate_host_policy_def deny_with_source_def split: host_block_decision.splits host_block_reason.splits option.splits
      elim: map_decider_decision.elims)

text \<open>
  The decider of the proxy asks the approval service: where it says yes, a request for the same host, protocol and port has ended with that answer.
\<close>

definition service_decides :: "network_service \<Rightarrow> (net_request \<Rightarrow> network_decision) \<Rightarrow> bool" where
  "service_decides s decide \<longleftrightarrow>
     (\<forall>rq. decide rq = NetAllow \<longrightarrow> (\<exists>t e. service_tasks s t = Some (Finished (Some (from_request rq e)) NetworkAllow)))"

text \<open>What is not denied: neither on the denylist nor, if local addresses are not enabled, local, unless the allowlist names the literal itself.\<close>

definition not_denied :: "glob_lib \<Rightarrow> (ustr \<Rightarrow> nat \<Rightarrow> ip_addr list option) \<Rightarrow> 'b config_state \<Rightarrow> ustr \<Rightarrow> nat \<Rightarrow> bool" where
  "not_denied lib lookup st h port \<longleftrightarrow>
     \<not> globset_matches_host_or_unscoped lib (cs_deny_set st) h \<and>
     (px_allow_local_binding (cs_config st) \<or>
      (if is_local_literal h then is_explicit_local_allowlisted (or_empty (allowed_domains (cs_config st))) h
       else case parse_ip h of
           Some ip \<Rightarrow> \<not> is_non_public_ip ip
         | None \<Rightarrow> (\<exists>addrs. lookup h port = Some addrs \<and> list_all (\<lambda>ip. \<not> is_non_public_ip ip) addrs)))"

text \<open>Somebody agreed to this host and port: a hook or a reviewer, or the session that this one was copied from.\<close>

definition consented_to :: "network_service \<Rightarrow> ustr \<Rightarrow> nat \<Rightarrow> bool" where
  "consented_to s h port \<longleftrightarrow>
     (\<exists>key. key_host key = to_ascii_lowercase h \<and> key_port key = port \<and>
        (key \<in> synced_hosts s \<or> (\<exists>a. (key, a) \<in> set (answer_log s) \<and> consenting a)))"

lemma service_consent:
  assumes "reachable_service timeout s" "service_decides s decide" "decide rq = NetAllow"
  shows "consented_to s (rq_host rq) (rq_port rq)"
proof -
  obtain t e where "service_tasks s t = Some (Finished (Some (from_request rq e)) NetworkAllow)"
    using assms(2,3) by (auto simp: service_decides_def)
  then have "phase_consented (synced_hosts s) (answer_log s) (Finished (Some (from_request rq e)) NetworkAllow)"
    using reachable_consent_ok [OF assms(1)] unfolding consent_ok_def by blast
  then show ?thesis unfolding consented_to_def by (intro exI [of _ "from_request rq e"]) (auto simp: consented_def from_request_def)
qed

lemma allowed_host_justified:
  assumes "reachable_service timeout s" "service_decides s decide" "evaluate_host_policy lib lookup st (Some decide) rq = NetAllow"
  shows "case host_parse (rq_host rq) of
      Some h \<Rightarrow> not_denied lib lookup st h (rq_port rq) \<and>
        (globset_matches_host_or_unscoped lib (cs_allow_set st) h \<or> consented_to s (rq_host rq) (rq_port rq))
    | None \<Rightarrow> consented_to s (rq_host rq) (rq_port rq)"
proof -
  let ?b = "host_blocked lib lookup (rq_host rq) (rq_port rq) st"
  have ok: "?b \<noteq> HostBlocked HostDenied" "?b \<noteq> HostBlocked HostNotAllowedLocal"
    and dec: "?b = HostAllowed \<or> consented_to s (rq_host rq) (rq_port rq)"
    using evaluate_allow_cases [OF assms(3)] service_consent [OF assms(1,2)] by auto
  show ?thesis
  proof (cases "host_parse (rq_host rq)")
    case None
    then have "?b \<noteq> HostAllowed" by (simp add: host_blocked_def)
    then show ?thesis using dec None by simp
  next
    case (Some h)
    note cases = host_allowed_cases [OF Some ok]
    have "case parse_ip h of Some ip \<Rightarrow> \<not> is_non_public_ip ip
        | None \<Rightarrow> (\<exists>addrs. lookup h (rq_port rq) = Some addrs \<and> list_all (\<lambda>ip. \<not> is_non_public_ip ip) addrs)"
      if "\<not> host_resolves_to_non_public_ip lookup h (rq_port rq)"
      using that by (auto simp: host_resolves_to_non_public_ip_def list_ex_iff list_all_iff split: option.splits)
    then have "not_denied lib lookup st h (rq_port rq)" using cases(1,2) by (auto simp: not_denied_def split: if_splits)
    then show ?thesis using dec cases(3) Some by auto
  qed
qed

end
