(* ===== verification/Proxy_Requests_Correct.thy ===== *)
theory Proxy_Requests_Correct
  imports Proxy_Requests Network_Proxy_Correct
begin

text \<open>
  What can leave the proxy: every request, tunnel and datagram it lets through was allowed by the policy on its host, in limited mode it
  only reads, and what goes to a host with hooks is what a hook says.
\<close>

section \<open>The TLS prefix\<close>

declare concat_eq_Nil_conv [simp del] Nil_eq_concat_conv [simp del]

lemma possible_prefix_mono: "possible_tls_prefix (buf @ x) \<Longrightarrow> buf \<noteq> [] \<Longrightarrow> possible_tls_prefix buf"
  by (auto simp: possible_tls_prefix_def neq_Nil_conv split: list.splits)

lemma read_some_concat:
  "read_some n cs = (r, cs') \<Longrightarrow> r @ concat cs' = concat cs" "read_some n cs = (r, cs') \<Longrightarrow> length r \<le> n"
  "read_some n cs = (r, cs') \<Longrightarrow> 0 < n \<Longrightarrow> [] \<notin> set cs \<Longrightarrow> r = [] \<Longrightarrow> concat cs = []"
  "read_some n cs = (r, cs') \<Longrightarrow> [] \<notin> set cs \<Longrightarrow> [] \<notin> set cs'"
  by (cases cs; auto split: if_splits)+

lemma peek_loop_result:
  assumes "peek_loop buf cs = (buf', cs')" "[] \<notin> set cs" "length buf \<le> TLS_PREFIX_LEN"
  shows "buf' @ concat cs' = buf @ concat cs \<and> length buf' \<le> TLS_PREFIX_LEN \<and>
    (buf' = [] \<longleftrightarrow> buf = []) \<and> (length buf' = TLS_PREFIX_LEN \<or> buf = [] \<or> \<not> possible_tls_prefix buf' \<or> concat cs' = [])"
  using assms
proof (induction buf cs rule: peek_loop.induct)
  case (1 buf cs)
  show ?case
  proof (cases "0 < length buf \<and> length buf < TLS_PREFIX_LEN \<and> possible_tls_prefix buf")
    case True
    obtain r cs1 where r: "read_some (TLS_PREFIX_LEN - length buf) cs = (r, cs1)" by fastforce
    note rd = read_some_concat [OF r]
    show ?thesis
    proof (cases "r = []")
      case True': True
      then have "buf' = buf" "cs' = cs1" using "1.prems"(1) True r by (simp_all add: peek_loop.simps [of buf cs])
      moreover have "concat cs1 = concat cs" "concat cs = []" using rd(1) rd(3) True True' "1.prems"(2) by simp_all
      ultimately show ?thesis using True by simp
    next
      case False
      then have p: "peek_loop (buf @ r) cs1 = (buf', cs')" using "1.prems"(1) True r by (simp add: peek_loop.simps [of buf cs])
      have "length (buf @ r) \<le> TLS_PREFIX_LEN" using rd(2) True by auto
      then show ?thesis using "1.IH" [OF True r [symmetric] refl False p] rd(1) rd(4) "1.prems"(2) False True by auto
    qed
  next
    case False
    then have "buf' = buf" "cs' = cs" using "1.prems"(1) by (auto simp add: peek_loop.simps [of buf cs])
    then show ?thesis using False "1.prems"(3) by auto
  qed
qed

text \<open>
  A TLS handshake is recognised however it is cut into pieces, and nothing of the stream is lost. If
  the first byte comes in time, the check answers whether the stream begins with the five bytes of a TLS handshake record, for any division of the stream
  into reads, and the stream that is passed on has the same bytes.
\<close>

theorem tls_prefix_detected:
  assumes "[] \<notin> set stream"
  shows "concat (snd (peek_tls_prefix timed_out stream)) = concat stream \<and>
    fst (peek_tls_prefix False stream) = (5 \<le> length (concat stream) \<and> possible_tls_prefix (take 5 (concat stream)))"
proof -
  obtain first rest where f: "read_some TLS_PREFIX_LEN stream = (first, rest)" by fastforce
  obtain buf cs where p: "peek_loop first rest = (buf, cs)" by fastforce
  note rd = read_some_concat [OF f]
  have res: "buf @ concat cs = concat stream" "length buf \<le> 5"
    "buf = [] \<longleftrightarrow> first = []" "length buf = 5 \<or> first = [] \<or> \<not> possible_tls_prefix buf \<or> concat cs = []"
    using peek_loop_result [OF p] rd(1,2,4) assms by (auto simp: TLS_PREFIX_LEN_def)
  have nil: "first = [] \<Longrightarrow> concat stream = []" using rd(3) assms by (simp add: TLS_PREFIX_LEN_def)
  have "(length buf = 5 \<and> possible_tls_prefix buf) = (5 \<le> length (concat stream) \<and> possible_tls_prefix (take 5 (concat stream)))"
  proof (cases "length buf = 5")
    case True
    have "take 5 (concat stream) = buf" unfolding res(1) [symmetric] using True by simp
    moreover have "5 \<le> length (concat stream)" unfolding res(1) [symmetric] using True by simp
    ultimately show ?thesis using True by simp
  next
    case False
    have "\<not> (5 \<le> length (concat stream) \<and> possible_tls_prefix (take 5 (concat stream)))"
    proof
      assume a: "5 \<le> length (concat stream) \<and> possible_tls_prefix (take 5 (concat stream))"
      have "take 5 (concat stream) = buf @ take (5 - length buf) (concat cs)" unfolding res(1) [symmetric] using res(2) by simp
      then have "buf \<noteq> [] \<Longrightarrow> possible_tls_prefix buf" using a possible_prefix_mono by metis
      moreover have "first \<noteq> []" using nil a by auto
      ultimately have "concat cs = []" using res(3,4) False by blast
      moreover have "length (concat stream) = length buf + length (concat cs)" unfolding res(1) [symmetric] by simp
      ultimately show False using res(2) False a by simp
    qed
    then show ?thesis using False by simp
  qed
  then have "fst (peek_tls_prefix False stream) = (5 \<le> length (concat stream) \<and> possible_tls_prefix (take 5 (concat stream)))"
    using f p by (simp add: peek_tls_prefix_def TLS_PREFIX_LEN_def)
  moreover have "concat (snd (peek_tls_prefix timed_out stream)) = concat stream"
  proof (cases timed_out)
    case True
    have "peek_loop [] stream = ([], stream)" by (simp add: peek_loop.simps)
    then show ?thesis using True by (simp add: peek_tls_prefix_def)
  qed (use f p res(1) in \<open>simp add: peek_tls_prefix_def\<close>)
  ultimately show ?thesis by blast
qed

declare concat_eq_Nil_conv [simp] Nil_eq_concat_conv [simp]

theorem tls_prefix_detected_witness:
  "fst (peek_tls_prefix False [[0x16], [3, 1], [2, 0, 1]]) \<and>
   concat (snd (peek_tls_prefix False [[0x16], [3, 1], [2, 0, 1]])) = [0x16, 3, 1, 2, 0, 1]"
  using tls_prefix_detected [of "[[0x16], [3, 1], [2, 0, 1]]" False] by (simp add: possible_tls_prefix_def)

section \<open>Traffic\<close>

text \<open>What leaves the proxy: bytes in a tunnel, a datagram, a request to a host, in the clear or inside TLS, or to a Unix socket.\<close>

datatype traffic =
    Tunnel ustr nat
  | Datagram ustr nat
  | PlainRequest ustr nat ustr header_map
  | SecureRequest ustr nat http_request
  | SocketRequest ustr ustr header_map

type_synonym dns = "ustr \<Rightarrow> nat \<Rightarrow> ip_addr list option"

text \<open>
  All that the handlers let through in a state. An intercepted connection may outlive the configuration: its requests see a state of their own.
\<close>

inductive lets_through ::
  "proxy_env \<Rightarrow> dns \<Rightarrow> broker \<Rightarrow> (net_request \<Rightarrow> network_decision) option \<Rightarrow> ustr option \<Rightarrow> proxy_state \<Rightarrow> traffic \<Rightarrow> bool"
  for env lookup b decider environment st where
  Connect: "http_connect_accept env lookup b decider environment req st = (ConnectAccepted m mode has_mitm, st') \<Longrightarrow>
     http_connect_proxy m mode has_mitm timed_out stream = DirectTunnel \<Longrightarrow> pr_context req = Some ctx \<Longrightarrow>
     lets_through env lookup b decider environment st (Tunnel (normalize_host (ctx_host ctx)) (ctx_effective_port ctx))"
| ConnectInside: "http_connect_accept env lookup b decider environment req st = (ConnectAccepted m mode has_mitm, st') \<Longrightarrow>
     http_connect_proxy m mode has_mitm timed_out stream = InterceptedTunnel mode' \<Longrightarrow> pr_context req = Some ctx \<Longrightarrow>
     forward_request env lookup' b' client inner (mitm_stream_context (ctx_host ctx) (ctx_effective_port ctx) mode') later = (MitmForward sent, later') \<Longrightarrow>
     lets_through env lookup b decider environment st (SecureRequest (normalize_host (ctx_host ctx)) (ctx_effective_port ctx) sent)"
| Plain: "http_plain_proxy env lookup b decider environment req st = (ToUpstream upstream headers, st') \<Longrightarrow> pr_context req = Some ctx \<Longrightarrow>
     lets_through env lookup b decider environment st (PlainRequest (normalize_host (ctx_host ctx)) (ctx_effective_port ctx) (hr_method req) headers)"
| UnixSocket: "http_plain_proxy env lookup b decider environment req st = (ToUnixSocket path headers, st') \<Longrightarrow>
     lets_through env lookup b decider environment st (SocketRequest path (hr_method req) headers)"
| Socks: "handle_socks5_tcp env lookup b decider environment raw port client st = (outcome, st') \<Longrightarrow>
     proxy_socks5_tcp timed_out stream outcome = DirectTunnel \<Longrightarrow>
     lets_through env lookup b decider environment st (Tunnel (normalize_host raw) port)"
| SocksInside: "handle_socks5_tcp env lookup b decider environment raw port client st = (outcome, st') \<Longrightarrow>
     proxy_socks5_tcp timed_out stream outcome = InterceptedTunnel mode' \<Longrightarrow>
     forward_request env lookup' b' client' inner (mitm_stream_context raw port mode') later = (MitmForward sent, later') \<Longrightarrow>
     lets_through env lookup b decider environment st (SecureRequest (normalize_host raw) port sent)"
| Udp: "inspect_socks5_udp env lookup decider environment ip port client payload st = (Ok relayed, st') \<Longrightarrow>
     lets_through env lookup b decider environment st (Datagram (normalize_host ip) port)"

text \<open>The policy said yes to the host, under one of the protocols.\<close>

definition host_allowed :: "proxy_env \<Rightarrow> dns \<Rightarrow> (net_request \<Rightarrow> network_decision) option \<Rightarrow> ustr option \<Rightarrow> proxy_state \<Rightarrow> ustr \<Rightarrow> nat \<Rightarrow> bool" where
  "host_allowed env lookup decider environment st h port \<longleftrightarrow> px_enabled (cs_config st) \<and>
     (\<exists>protocol'. evaluate_host_policy (pe_globs env) lookup st decider
        \<lparr>rq_host = h, rq_protocol = protocol', rq_port = port, rq_environment = environment\<rparr> = NetAllow)"

lemma connect_accepted:
  assumes "http_connect_accept env lookup b decider environment req st = (ConnectAccepted m mode has_mitm, st')" "pr_context req = Some ctx"
  shows "host_allowed env lookup decider environment st (normalize_host (ctx_host ctx)) (ctx_effective_port ctx)"
    "mode = px_mode (cs_config st)" "m = choose_mitm_mode mode (host_mitm_requirement b st (normalize_host (ctx_host ctx)))"
    "has_mitm \<longleftrightarrow> m \<noteq> MitmDisabled \<and> cs_mitm st" "m = MitmEnabled \<Longrightarrow> cs_mitm st"
  using assms
  by (auto simp: http_connect_accept_def host_allowed_def Let_def proxy_disabled_response_def split: if_splits network_decision.splits)

lemma socks_passed:
  assumes "handle_socks5_tcp env lookup b decider environment raw port client st = (outcome, st')"
    "proxy_socks5_tcp timed_out stream outcome \<noteq> TunnelFailed"
  shows "host_allowed env lookup decider environment st (normalize_host raw) port"
    "proxy_socks5_tcp timed_out stream outcome = InterceptedTunnel mode \<Longrightarrow> mode = px_mode (cs_config st)"
    "px_mode (cs_config st) = Limited \<or> cs_mitm_hooks st (normalize_host (normalize_host raw)) \<noteq> None \<Longrightarrow>
       proxy_socks5_tcp timed_out stream outcome = InterceptedTunnel (px_mode (cs_config st))"
  using assms
  by (auto simp: handle_socks5_tcp_def host_allowed_def Let_def proxy_socks5_tcp_def choose_mitm_mode_def host_mitm_requirement_def
      split: if_splits network_decision.splits mitm_mode.splits mitm_requirement.splits)

lemma plain_passed:
  assumes "http_plain_proxy env lookup b decider environment req st = (ToUpstream upstream headers, st')" "pr_context req = Some ctx"
  shows "host_allowed env lookup decider environment st (normalize_host (ctx_host ctx)) (ctx_effective_port ctx)"
    "allows_method (px_mode (cs_config st)) (hr_method req)"
  using assms
  by (auto simp: http_plain_proxy_def http_unix_socket_def host_allowed_def Let_def proxy_disabled_response_def
      split: if_splits option.splits sum.splits network_decision.splits)

lemma forwarded_request:
  assumes "forward_request env lookup b client req ctx st = (MitmForward sent, st')"
  obtains actions where "evaluate_mitm_policy env lookup client req ctx st = (MitmAllow actions, st')" "hr_method sent = hr_method req"
    "\<exists>v. hl_header_value (pe_http env) (authority_header_value (mc_target_host ctx) (mc_target_port ctx)) = Some v \<and>
       hr_headers sent = header_insert (lit ''host'') v (apply_mitm_hook_actions actions
         (inject_request_headers (pe_http env) b (mc_target_host ctx) (hr_headers req)))"
    "hr_authority sent = Some (authority_header_value (mc_target_host ctx) (mc_target_port ctx))"
  using assms by (auto simp: forward_request_def Let_def split: prod.splits mitm_decision.splits if_splits option.splits)

lemma mitm_allowed_method: "evaluate_mitm_policy env lookup client req ctx st = (MitmAllow actions, st') \<Longrightarrow> allows_method (mc_mode ctx) (hr_method req)"
  by (auto simp: evaluate_mitm_policy_def Let_def split: if_splits hook_evaluation.splits)

lemma socket_passed:
  assumes "http_plain_proxy env lookup b decider environment req st = (ToUnixSocket path headers, st')"
  shows "px_enabled (cs_config st)" "is_unix_socket_allowed env path st" "allows_method (px_mode (cs_config st)) (hr_method req)"
  using assms
  by (auto simp: http_plain_proxy_def http_unix_socket_def Let_def proxy_disabled_response_def
      split: if_splits option.splits sum.splits network_decision.splits)

lemma udp_passed:
  assumes "inspect_socks5_udp env lookup decider environment ip port client payload st = (Ok relayed, st')"
  shows "host_allowed env lookup decider environment st (normalize_host ip) port" "px_mode (cs_config st) \<noteq> Limited"
  using assms by (auto simp: inspect_socks5_udp_def host_allowed_def Let_def split: if_splits network_decision.splits)

lemma tunnel_mode: "http_connect_proxy m mode has_mitm timed_out stream = InterceptedTunnel mode' \<Longrightarrow> mode' = mode"
  by (auto simp: http_connect_proxy_def mitm_connect_tunnel_def split: mitm_mode.splits if_splits)

lemma not_tunnelled: "http_connect_proxy MitmEnabled mode has_mitm timed_out stream \<noteq> DirectTunnel"
  by (simp add: http_connect_proxy_def mitm_connect_tunnel_def)

definition reading_method :: "ustr \<Rightarrow> bool" where
  "reading_method m \<longleftrightarrow> m \<in> {lit ''GET'', lit ''HEAD'', lit ''OPTIONS''}"

lemma limited_method: "allows_method Limited m \<Longrightarrow> reading_method m"
  by (simp add: allows_method_def reading_method_def)

lemma limited_forward:
  assumes "forward_request env lookup b client inner (mitm_stream_context target port Limited) st = (MitmForward sent, st')"
  shows "reading_method (hr_method sent)"
  using forwarded_request [OF assms] mitm_allowed_method limited_method
  by (metis mitm_context.select_convs(3) mitm_stream_context_def)

text \<open>
  C0: In limited mode the proxy only reads. Of all that it lets through in that mode, over HTTP, \<open>CONNECT\<close>, SOCKS or a
  Unix socket, there is no tunnel and no datagram, and every request, also inside an intercepted connection and
  after the mode has changed, has the method \<open>GET\<close>, \<open>HEAD\<close> or \<open>OPTIONS\<close>.
\<close>

theorem limited_mode_read_only:
  assumes "lets_through env lookup b decider environment st x" "px_mode (cs_config st) = Limited"
  shows "case x of
      Tunnel _ _ \<Rightarrow> False
    | Datagram _ _ \<Rightarrow> False
    | PlainRequest _ _ m _ \<Rightarrow> reading_method m
    | SecureRequest _ _ sent \<Rightarrow> reading_method (hr_method sent)
    | SocketRequest _ m _ \<Rightarrow> reading_method m"
  using assms(1)
proof cases
  case (Connect req m mode has_mitm st' timed_out stream ctx)
  then show ?thesis using connect_accepted [OF Connect(2,4)] assms(2) not_tunnelled by (simp add: choose_mitm_mode_def)
next
  case (ConnectInside req m mode has_mitm st' timed_out stream mode' ctx lookup' b' client inner later sent later')
  then have "mode' = Limited" using connect_accepted(2) [OF ConnectInside(2,4)] assms(2) tunnel_mode by auto
  then show ?thesis using ConnectInside(1,5) limited_forward by auto
next
  case (Plain req upstream headers st' ctx)
  then show ?thesis using plain_passed(2) [OF Plain(2,3)] assms(2) limited_method by simp
next
  case (UnixSocket req path headers st')
  then show ?thesis using socket_passed(3) [OF UnixSocket(2)] assms(2) limited_method by simp
next
  case (Socks raw port client outcome st' timed_out stream)
  then show ?thesis using socks_passed(3) [OF Socks(2), of timed_out stream] assms(2) by auto
next
  case (SocksInside raw port client outcome st' timed_out stream mode' lookup' b' client' inner later sent later')
  then have "mode' = Limited" using socks_passed(2) [OF SocksInside(2)] assms(2) by auto
  then show ?thesis using SocksInside(1,4) limited_forward by auto
next
  case (Udp ip port client payload relayed st')
  then show ?thesis using udp_passed(2) [OF Udp(2)] assms(2) by simp
qed

section \<open>Allowed hosts\<close>

fun traffic_target :: "traffic \<Rightarrow> (ustr \<times> nat) option" where
  "traffic_target (Tunnel h port) = Some (h, port)"
| "traffic_target (Datagram h port) = Some (h, port)"
| "traffic_target (PlainRequest h port _ _) = Some (h, port)"
| "traffic_target (SecureRequest h port _) = Some (h, port)"
| "traffic_target (SocketRequest _ _ _) = None"

lemma target_allowed_by_policy:
  assumes "lets_through env lookup b decider environment st x" "traffic_target x = Some (h, port)"
  shows "host_allowed env lookup decider environment st h port"
  using assms(1)
proof cases
  case (Socks raw port client outcome st' timed_out stream)
  then show ?thesis using socks_passed(1) [OF Socks(2), of timed_out stream] assms(2) by simp
next
  case (SocksInside raw port client outcome st' timed_out stream mode' lookup' b' client' inner later sent later')
  then show ?thesis using socks_passed(1) [OF SocksInside(2), of timed_out stream] assms(2) by simp
qed (use assms(2) connect_accepted(1) plain_passed(1) udp_passed(1) in fastforce)+

text \<open>A socket that the configuration allows: all of them, or one on its list, by its path or by what the path stands for.\<close>

definition socket_allowed :: "proxy_env \<Rightarrow> 'b config_state \<Rightarrow> ustr \<Rightarrow> bool" where
  "socket_allowed env st path \<longleftrightarrow> is_absolute path \<and> pe_unix_socket_permissions_supported env \<and>
     (px_allow_all_unix_sockets (cs_config st) \<or>
      (\<exists>allowed p q. allowed \<in> set (allow_unix_sockets (cs_config st)) \<and> abs_path (pe_host env) path = Some p \<and> abs_path (pe_host env) allowed = Some q \<and>
         (q = p \<or> canonical (pe_host env) q = canonical (pe_host env) p)))"

lemma unix_socket_sound: "is_unix_socket_allowed env path st \<Longrightarrow> socket_allowed env st path"
  by (fastforce simp: is_unix_socket_allowed_def socket_allowed_def Let_def list_ex_iff validated_socket_path_def is_absolute_def
      split: if_splits option.splits unix_socket_path.splits)

text \<open>
  C0: Everything that leaves the proxy is justified. With the approval service as its decider, in any state the service can reach,
  whatever the proxy lets through over HTTP, \<open>CONNECT\<close>, SOCKS or UDP, or inside an intercepted connection, goes to a host that
  is not on the denylist and, if local addresses are not enabled, is a public address, a name that the DNS resolved to public addresses only, or a local
  literal that the allowlist names; and the host is on the allowlist, or a hook or a reviewer consented to this host and port, or it was approved in the
  session this one was copied from. What goes to a Unix socket goes to one the configuration allows. Nothing passes a disabled proxy.
\<close>

theorem proxied_access_justified:
  assumes "reachable_service timeout s" "service_decides s decide" "lets_through env lookup b (Some decide) environment st x"
  shows "px_enabled (cs_config st) \<and>
    (case traffic_target x of
       Some (h, port) \<Rightarrow>
         (case host_parse h of
            Some g \<Rightarrow> not_denied (pe_globs env) lookup st g port \<and>
              (globset_matches_host_or_unscoped (pe_globs env) (cs_allow_set st) g \<or> consented_to s h port)
          | None \<Rightarrow> consented_to s h port)
     | None \<Rightarrow> (\<exists>path m headers. x = SocketRequest path m headers \<and> socket_allowed env st path))"
proof (cases "traffic_target x")
  case None
  then obtain path m headers where x: "x = SocketRequest path m headers" by (cases x) auto
  from assms(3)[unfolded x] have "px_enabled (cs_config st)" "is_unix_socket_allowed env path st"
    by (cases; use socket_passed in blast)+
  then show ?thesis using None x unix_socket_sound by auto
next
  case (Some t)
  obtain h port where t: "t = (h, port)" by fastforce
  obtain proto where e: "px_enabled (cs_config st)" "evaluate_host_policy (pe_globs env) lookup st (Some decide)
      \<lparr>rq_host = h, rq_protocol = proto, rq_port = port, rq_environment = environment\<rparr> = NetAllow"
    using target_allowed_by_policy [OF assms(3)] Some t unfolding host_allowed_def by blast
  then show ?thesis using allowed_host_justified [OF assms(1,2) e(2)] Some t by (auto split: option.splits)
qed

text \<open>A client that asks for a tunnel to the site of the example of the approval service, and one that fetches a page.\<close>

definition client_request :: "ustr \<Rightarrow> ustr \<Rightarrow> nat \<Rightarrow> proxied_request" where
  "client_request meth h port = \<lparr>hr_method = meth, hr_path = lit ''/'', hr_query = None, hr_authority = None, hr_headers = [], pr_scheme = None,
     pr_context = Some \<lparr>ctx_host = h, ctx_port = Some port, ctx_effective_port = port, ctx_has_default_port = True\<rparr>,
     pr_host_header = Ok None, pr_client = None\<rparr>"

definition decide_site :: "net_request \<Rightarrow> network_decision" where
  "decide_site rq = (if rq = site_request then NetAllow else deny_with_source [] Decider)"

lemma plain_policy:
  assumes "dns_name (rq_host rq)" "decide rq = NetAllow"
  shows "evaluate_host_policy exact_globs lookup (plain_state mode) (Some decide) rq = NetAllow"
proof -
  have "host_parse (rq_host rq) = Some (rq_host rq)" using dns_normalize [OF assms(1)] assms(1) by (simp add: host_parse_def dns_name_def)
  then show ?thesis using assms(2)
    by (simp add: evaluate_host_policy_def host_blocked_def plain_state_def plain_settings_def allowed_domains_def domain_entries_def
        globset_matches_host_or_unscoped_def set_is_match_def Let_def split: option.split)
qed

lemma plain_state_fields:
  "px_enabled (cs_config (plain_state mode))" "px_mode (cs_config (plain_state mode)) = mode" "cs_mitm_hooks (plain_state mode) = Map.empty"
  "\<not> cs_mitm (plain_state mode)" "\<not> px_plaintext_credential_injection (cs_config (plain_state mode))"
  "\<not> px_allow_upstream_proxy (cs_config (plain_state mode))"
  by (simp_all add: plain_state_def plain_settings_def)

lemma site_tunnel:
  "lets_through plain_env (\<lambda>_ _. None) (new_broker False) (Some decide_site) (Some (lit ''local'')) (plain_state FullMode) (Tunnel (lit ''example.com'') 443)"
proof -
  have d: "dns_name (lit ''example.com'')" by (simp add: dns_name_def dns_char_def)
  have g: "pe_globs plain_env = exact_globs" by (simp add: plain_env_def)
  have "evaluate_host_policy exact_globs (\<lambda>_ _. None) (plain_state FullMode :: proxy_state) (Some decide_site) site_request = NetAllow"
    using d by (intro plain_policy) (simp_all add: site_request_def decide_site_def del: lit_simps)
  then have "http_connect_accept plain_env (\<lambda>_ _. None) (new_broker False) (Some decide_site) (Some (lit ''local''))
      (client_request (lit ''CONNECT'') (lit ''example.com'') 443) (plain_state FullMode) = (ConnectAccepted MitmDisabled FullMode False, plain_state FullMode)"
    using d by (simp add: http_connect_accept_def client_request_def dns_normalize [OF d] g site_request_def plain_state_fields Let_def
        choose_mitm_mode_def host_mitm_requirement_def host_requires_mitm_def new_broker_def dns_name_def del: lit_simps)
  from Connect [OF this, of False "[]"] show ?thesis
    by (simp add: http_connect_proxy_def client_request_def dns_normalize [OF d] del: lit_simps)
qed

lemma site_decided: "service_decides both_done decide_site"
proof -
  have "site_key = from_request site_request (lit ''local'')" by code_simp
  then have "service_tasks both_done 0 = Some (Finished (Some (from_request site_request (lit ''local''))) NetworkAllow)"
    using both_done_tasks(1) by simp
  then show ?thesis unfolding service_decides_def decide_site_def by (auto simp: deny_with_source_def split: if_splits)
qed

theorem proxied_access_justified_witness:
  "traffic_target (Tunnel (lit ''example.com'') 443) = Some (lit ''example.com'', 443) \<and> consented_to both_done (lit ''example.com'') 443"
proof -
  have d: "dns_name (lit ''example.com'')" by (simp add: dns_name_def dns_char_def)
  then have "host_parse (lit ''example.com'') = Some (lit ''example.com'')"
    using dns_normalize [OF d] by (simp add: host_parse_def dns_name_def del: lit_simps)
  moreover have "\<not> globset_matches_host_or_unscoped lib (cs_allow_set (plain_state FullMode :: proxy_state)) h" for lib h
    by (simp add: globset_matches_host_or_unscoped_def set_is_match_def plain_state_def split: option.split)
  ultimately show ?thesis
    using proxied_access_justified [OF both_done_reachable site_decided site_tunnel] by (simp del: lit_simps)
qed

theorem limited_mode_read_only_witness:
  "lets_through plain_env (\<lambda>_ _. None) (new_broker False) (Some (\<lambda>_. NetAllow)) None (plain_state Limited) (PlainRequest (lit ''a.com'') 80 (lit ''GET'') []) \<and>
   reading_method (lit ''GET'')"
proof -
  have d: "dns_name (lit ''a.com'')" by (simp add: dns_name_def dns_char_def)
  have e: "evaluate_host_policy exact_globs (\<lambda>_ _. None) (plain_state Limited :: proxy_state) (Some (\<lambda>_. NetAllow))
      \<lparr>rq_host = lit ''a.com'', rq_protocol = ProxyHttp, rq_port = 80, rq_environment = None\<rparr> = NetAllow"
    using d by (intro plain_policy) (simp_all del: lit_simps)
  have "http_plain_proxy plain_env (\<lambda>_ _. None) (new_broker False) (Some (\<lambda>_. NetAllow)) None (client_request (lit ''GET'') (lit ''a.com'') 80) (plain_state Limited) =
      (ToUpstream False [], plain_state Limited)"
    using e d
    by (simp add: http_plain_proxy_def client_request_def dns_normalize [OF d] plain_env_def plain_state_fields Let_def allows_method_def
        header_get_def header_remove_def validate_absolute_form_host_header_def inject_plaintext_credentials_if_enabled_def remove_hop_by_hop_request_headers_def hop_by_hop_names_def
        remove_connection_headers.simps del: lit_simps)
  from Plain [OF this] have *: "lets_through plain_env (\<lambda>_ _. None) (new_broker False) (Some (\<lambda>_. NetAllow)) None (plain_state Limited) (PlainRequest (lit ''a.com'') 80 (lit ''GET'') [])"
    by (simp add: client_request_def dns_normalize [OF d] del: lit_simps)
  then show ?thesis using limited_mode_read_only [OF *] by (simp add: plain_state_fields)
qed

end
