(* ===== verification/Spec2Isabelle.thy ===== *)
theory Spec2Isabelle
  imports Patch_Roundtrip Exec_Policy_Builder Anthropic_Correct Patch_Safety_Correct Network_Approval_Correct
    Utf8_Stream_Correct Session_Log_Correct Head_Tail_Buffer Agent_Registry_Correct Proxy_Requests_Correct
begin

text \<open>
  A verification library for dsx, a coding agent in Rust (\<open>src/codex-rs\<close>). The agent sends the
  conversation to a model, decodes the reply stream, and carries out the tool calls the reply holds:
  it edits files with patches and runs commands under an approval policy. The library models the
  parts that decide what is sent, what is changed on disk and what may run.

  \<^bold>\<open>Parts and theories.\<close>

  \<^item> \<open>Prelude\<close>: text as lists of code points (\<open>ustr\<close>, code points are integers), results
    \<open>Err\<close>/\<open>Ok\<close>, the string operations of Rust the code uses (\<open>trim\<close>, \<open>split\<close>, \<open>lines\<close>,
    \<open>strip_prefix\<close>), and the locale \<open>fallible_machine\<close>: a step function that may fail, its run over
    a list of inputs, and preservation of an invariant along the run.

  \<^item> \<open>Seek_Sequence\<close>, \<open>Patch_Parser\<close>, \<open>Patch_Parser_Correct\<close>, \<open>Patch_Roundtrip\<close>:
    \<open>apply-patch/src/{seek_sequence,parser,streaming_parser}.rs\<close>. The streaming reader is a state
    record and \<open>process_line\<close>; \<open>push_delta\<close> cuts its input into lines. Shown: the result does not
    depend on how the text is cut into deltas, hunks are well-formed, error lines point inside the
    text, and rendering a patch and reading it back gives the same hunks, with or without a
    here-document around it. The fuzzy search returns the first position of the strictest pass.

  \<^item> \<open>Patch_Apply\<close>, \<open>Patch_Splice\<close>, \<open>Patch_Delta\<close>: \<open>apply-patch/src/lib.rs\<close> over a record of file
    system operations. The locale \<open>executor_file_system\<close> states what the patcher relies on; under it
    the reported delta accounts for every change of a file.

  \<^item> \<open>Path_Uri\<close>, \<open>Local_Fs\<close>: \<open>utils/path-uri\<close>, \<open>utils/absolute-path\<close> and
    \<open>exec-server/src/local_file_system.rs\<close>. A disk maps paths to files and directories;
    \<open>direct_fs\<close> gives the operations, and the interpretation \<open>local\<close> discharges the locale for it,
    so the theorems on \<open>apply_patch\<close> hold of the whole stack.

  \<^item> \<open>Exec_Policy\<close>, \<open>Exec_Policy_Correct\<close>, \<open>Exec_Policy_Builder\<close>: the crate \<open>execpolicy\<close>. A policy
    maps program names to prefix rules. Shown: a check returns the most restrictive decision of the
    rules that apply, overlays only tighten, a loaded policy file satisfies its own examples, and
    amendments add whole lines.

  \<^item> \<open>Command_Safety\<close>, \<open>Command_Safety_Correct\<close>: \<open>shell-command\<close>. Which commands run without asking,
    over the tree the bash grammar returns (the parameter \<open>parse_tree\<close>). Shown: safe commands are
    never flagged as dangerous, the git check is exactly a grammar of reading commands, and every
    command of an accepted script has been checked.

  \<^item> \<open>Fs_Permissions\<close>, \<open>Fs_Permissions_Correct\<close>: \<open>protocol/src/permissions.rs\<close> with the legacy policies
    of \<open>protocol/src/protocol.rs\<close>. A policy is a list of entries; the host's answers are the record
    \<open>host_fs\<close>. Shown: access is what the most specific covering entry says, metadata directories stay
    protected, deny entries survive a change of policy, legacy policies convert there and back, and a
    path under a writable root that the root does not exclude is writable.

  \<^item> \<open>Exec_Approval\<close>, \<open>Exec_Approval_Correct\<close>: \<open>core/src/exec_policy.rs\<close>. The policy engine and the
    command lists combined into the requirement of a command. Shown: rules are never overruled, the
    sandbox is bypassed only by rules that allow every command, and an accepted amendment settles
    its request.

  \<^item> \<open>Tool_Orchestrator\<close>, \<open>Tool_Orchestrator_Correct\<close>: \<open>core/src/tools/{orchestrator,sandboxing}.rs\<close>
    and the sandbox selection of \<open>sandboxing/src\<close>. A tool call yields its result and the trace of what
    it asked and ran. Shown: nothing runs without the approval it needs, the sandbox is left only on
    the grounds the code names, denied reads keep it on, and, with the two parts before, a forbidden
    command never runs and a dangerous one never unasked.

  \<^item> \<open>Patch_Invocation\<close>, \<open>Patch_Safety\<close>, \<open>Patch_Safety_Correct\<close>: \<open>apply-patch/src/invocation.rs\<close>,
    \<open>core/src/safety.rs\<close> and \<open>core/src/apply_patch.rs\<close>. Shown, over the patcher, the disk and the
    permissions: a patch changes only the files it names, and one that is approved automatically
    changes only writable ones if its hunks are on different files; without that condition it is false.

  \<^item> \<open>Network_Approval\<close>, \<open>Network_Approval_Correct\<close>: \<open>core/src/tools/network_approval.rs\<close>. A step
    relation: requests are tasks, one critical section is one step, steps interleave freely. Shown by
    rule induction over reachable states: no access without consent for that host, one owner for
    each pending approval whose answer all waiting requests get, and disjoint session lists.

  \<^item> \<open>Truncation\<close>, \<open>Context_History\<close>, \<open>Context_Manager\<close>, \<open>Context_Correct\<close>: \<open>utils/string\<close>,
    \<open>utils/output-truncation\<close> and \<open>core/src/context_manager\<close>. The conversation, its normalisation
    before a prompt, rollback and token accounting in saturating 64-bit integers. Shown: in every
    prompt calls and outputs are paired, normalisation is idempotent, removal keeps pairs together,
    truncated text keeps a prefix and a suffix within its budget. \<open>Head_Tail_Buffer\<close> does the same for the
    output of a running process (\<open>core/src/unified_exec/head_tail_buffer.rs\<close>), chunk by chunk.

  \<^item> \<open>Anthropic_Wire\<close>, \<open>Anthropic_Correct\<close>: \<open>codex-api/src/anthropic.rs\<close> and
    \<open>codex-api/src/sse/anthropic.rs\<close>. The request and the decoder of the reply stream. Shown: roles
    alternate, every tool use is answered, the decoder ends with exactly one terminal event, and it
    returns exactly the blocks that a well-formed stream encodes.

  \<^item> \<open>World_State\<close>, \<open>World_State_Correct\<close>: \<open>core/src/context/world_state/mod.rs\<close>. What the model has been
    told about its surroundings, as JSON snapshots. Shown: a merge patch between two snapshots,
    applied to the first, gives the second.

  \<^item> \<open>Stream_Parser\<close>, \<open>Stream_Parser_Correct\<close>, \<open>Tagged_Lines_Correct\<close>, \<open>Utf8_Stream\<close>,
    \<open>Utf8_Stream_Correct\<close>: the crate \<open>utils/stream-parser\<close>. The locale \<open>text_parser\<close> is the contract
    of \<open>StreamTextParser\<close>: the state after some text depends on the text only, and the chunks add up;
    it is interpreted for every parser of the crate. Shown: what is visible and what is extracted is given by
    reference functions of the whole text, however it arrives; wrapped for bytes, a parser
    sees the decoded text whatever the cuts, and an invalid chunk leaves it as it was.

  \<^item> \<open>Compaction\<close>, \<open>Compaction_Correct\<close>: \<open>core/src/compact.rs\<close> and
    \<open>core/src/state/auto_compact_window.rs\<close>. Shown: the retry loop sends a bounded number of requests and every
    one still ends with the instruction to summarise; the new history is the newest user messages within the
    budget and the summary, and compacting it again keeps the same messages.

  \<^item> \<open>Rollout_Reconstruction\<close>, \<open>Rollout_Correct\<close>, \<open>Session_Log\<close>, \<open>Session_Log_Correct\<close>:
    \<open>core/src/session/{rollout_reconstruction,mod,handlers}.rs\<close> and \<open>rollout/src/policy.rs\<close>. The log of a
    session and the scan from its end that rebuilds a thread. Shown: the scan gives what a replay from the start
    gives if nothing was rolled back or nothing compacted, and fails to with both; and every state that
    the operations of a session reach is rebuilt from its log.

  \<^bold>\<open>Conventions.\<close> Rust's \<open>Result\<close> is a sum, a panic or early return is a branch. Loops over
  collections are structural recursion, the walks over syntax trees recurse on the number of nodes,
  \<open>detect_shell_type\<close> on the length of the path: nothing needs fuel. Machine integers appear as
  integers with the saturation or wrap-around of the source written out. What third-party code
  computes (JSON text, the bash grammar, Starlark evaluation, image decoding, serialised sizes) is a
  parameter of the definitions that use it.

  \<^bold>\<open>Not modelled.\<close> The terminal interface, the app server, configuration, persistence, telemetry,
  the operating-system side of the sandboxes and the proxies are input/output around these parts; the turn loop is asynchronous
  orchestration over channels. Windows and PowerShell branches are left out, as are dropped
  receivers of the event channel.
\<close>

end
